(* ===== verification/Prelude.thy ===== *)
theory Prelude
  imports Main "HOL-Library.Word" "HOL-Library.Multiset"
begin

text \<open>
  Shared vocabulary of the development: the machine types of the Go code, byte strings,
  the big-endian layout the code writes by hand in several packages, the repeating-key
  XOR that two packages use, result values, and the generic facts on lists and maps that
  the component theories share.

  Conventions used everywhere:
  \<^item> \<open>uint8\<close>, \<open>uint16\<close>, \<open>uint32\<close> and \<open>uint64\<close> are words of that width, so \<open>+\<close>
    and \<open>-\<close> wrap as in Go; \<open>int\<close> counters that only grow with memory are \<open>nat\<close>.
  \<^item> A Go string is a list of characters (each one byte), a \<open>[]byte\<close> a list of 8-bit
    words.
  \<^item> \<open>time.Time\<close> is an integer number of nanoseconds since the Unix epoch and
    \<open>time.Duration\<close> an integer number of nanoseconds; a handler that calls
    \<open>time.Now()\<close> takes the instant as an argument.
  \<^item> Random bytes are arguments of the operation that draws them.
  \<^item> A method that returns \<open>(T, error)\<close> returns \<open>error + T\<close>, and one that
    changes its receiver returns the new state next to it. A mutex is held for the whole
    body of each method, so a method call is one atomic step.
  \<^item> Log calls have no effect on the state and are left out.
\<close>

unbundle bit_operations_syntax

type_synonym byte = "8 word"
type_synonym bytes = "byte list"
type_synonym u16 = "16 word"
type_synonym u32 = "32 word"
type_synonym u64 = "64 word"
type_synonym time = int
type_synonym duration = int

definition second_ns :: int where
  "second_ns = 1000000000"

text \<open>\<open>t.Unix()\<close>: whole seconds since the epoch.\<close>

definition unix :: "time \<Rightarrow> int" where
  "unix t = t div second_ns"

named_theorems adx_bytes \<open>layout of hand-written byte encodings\<close>
named_theorems adx_frame \<open>what an operation leaves unchanged\<close>
named_theorems adx_inv \<open>preservation of component invariants\<close>

subsection \<open>Results\<close>

definition is_ok :: "'e + 'a \<Rightarrow> bool" where
  "is_ok r = (case r of Inl _ \<Rightarrow> False | Inr _ \<Rightarrow> True)"

lemma is_ok_simps [simp]: "is_ok (Inl e) = False" "is_ok (Inr x) = True"
  by (simp_all add: is_ok_def)

lemma is_okE: "is_ok r \<Longrightarrow> (\<And>x. r = Inr x \<Longrightarrow> P) \<Longrightarrow> P"
  by (cases r) auto

subsection \<open>Big-endian layout\<close>

text \<open>The byte loop \<open>for i := 0; i < 8; i++ { b[i] = byte(v >> (8 * (7 - i))) }\<close>.\<close>

definition be64 :: "u64 \<Rightarrow> bytes" where
  "be64 v = map (\<lambda>i. ucast (drop_bit (8 * (7 - i)) v)) [0..<8]"

text \<open>The accumulation loop \<open>v = (v << 8) | uint64(b)\<close>.\<close>

definition be64_acc :: "bytes \<Rightarrow> u64" where
  "be64_acc bs = foldl (\<lambda>v b. push_bit 8 v OR ucast b) 0 bs"

lemma length_be64 [simp]: "length (be64 v) = 8"
  by (simp add: be64_def)

lemma be64_nonempty [simp]: "be64 v \<noteq> []"
  by (metis length_be64 list.size(3) zero_neq_numeral)

lemma be64_unfold:
  "be64 v = [ucast (drop_bit 56 v), ucast (drop_bit 48 v), ucast (drop_bit 40 v),
     ucast (drop_bit 32 v), ucast (drop_bit 24 v), ucast (drop_bit 16 v),
     ucast (drop_bit 8 v), ucast v]"
  by (simp add: be64_def upt_rec)

lemma push_drop_byte: "push_bit 8 (drop_bit 8 w) OR ucast (ucast w :: byte) = (w :: u64)"
  by (rule bit_word_eqI) (auto simp: bit_simps)

lemma be64_acc_step:
  "push_bit 8 (drop_bit (m + 8) v) OR ucast (ucast (drop_bit m v) :: byte) = drop_bit m (v :: u64)"
  using push_drop_byte [of "drop_bit m v"] by (simp add: drop_bit_drop_bit add.commute)

lemma be64_acc_be64 [adx_bytes]: "be64_acc (be64 v) = v"
proof -
  have top: "ucast (ucast (drop_bit 56 v) :: byte) = (drop_bit 56 v :: u64)"
    by (rule bit_word_eqI) (auto simp: bit_simps dest: bit_imp_le_length)
  show ?thesis
    using be64_acc_step [of 48 v] be64_acc_step [of 40 v] be64_acc_step [of 32 v]
      be64_acc_step [of 24 v] be64_acc_step [of 16 v] be64_acc_step [of 8 v]
      be64_acc_step [of 0 v]
    by (simp add: be64_acc_def be64_unfold top)
qed

lemma be64_inj [adx_bytes]: "be64 v = be64 w \<longleftrightarrow> v = w"
  by (metis be64_acc_be64)

subsection \<open>Repeating-key XOR\<close>

text \<open>\<open>out[i] = in[i] ^ key[i % len(key)]\<close>; the code only calls it with a key that is
  not empty.\<close>

definition xor_key :: "bytes \<Rightarrow> bytes \<Rightarrow> bytes" where
  "xor_key key bs = map (\<lambda>i. (bs ! i) XOR (key ! (i mod length key))) [0..<length bs]"

lemma length_xor_key [simp]: "length (xor_key key bs) = length bs"
  by (simp add: xor_key_def)

lemma nth_xor_key [simp]:
  "i < length bs \<Longrightarrow> xor_key key bs ! i = (bs ! i) XOR (key ! (i mod length key))"
  by (simp add: xor_key_def)

lemma xor_key_twice [simp]: "xor_key key (xor_key key bs) = bs"
  by (rule nth_equalityI) (simp_all add: xor.assoc)

lemma xor_key_inj: "length key > 0 \<Longrightarrow> xor_key key a = xor_key key b \<longleftrightarrow> a = b"
  by (metis xor_key_twice)

subsection \<open>Runs of a component\<close>

text \<open>
  Every component of the exchange is an object whose methods are called one after the
  other. Such an object has an operation type, a step and an invariant that each step
  keeps; the lemmas below lift a one-step fact to any sequence of calls.
\<close>

locale object_invariant =
  fixes step :: "'op \<Rightarrow> 's \<Rightarrow> 's"
    and inv :: "'s \<Rightarrow> bool"
  assumes step_inv: "inv s \<Longrightarrow> inv (step op s)"
begin

lemma run_inv: "inv s \<Longrightarrow> inv (fold step ops s)"
  by (induction ops arbitrary: s) (auto intro: step_inv)

lemma run_from_init: "inv s0 \<Longrightarrow> s = fold step ops s0 \<Longrightarrow> inv s"
  by (simp add: run_inv)

end

text \<open>What every call keeps between the state before and the state after it, every run
  keeps too: sets that only grow, logs that are only appended to, fields never written.\<close>

locale object_relation =
  fixes step :: "'op \<Rightarrow> 's \<Rightarrow> 's"
    and rel :: "'s \<Rightarrow> 's \<Rightarrow> bool"
  assumes rel_refl: "rel s s"
    and rel_trans: "rel s t \<Longrightarrow> rel t u \<Longrightarrow> rel s u"
    and step_rel: "rel s (step op s)"
begin

lemma run_rel: "rel s (fold step ops s)"
proof (induction ops arbitrary: s)
  case Nil
  show ?case by (simp add: rel_refl)
next
  case (Cons op ops)
  have "rel (step op s) (fold step ops (step op s))" by (rule Cons.IH)
  with step_rel [of s op] show ?case by (auto intro: rel_trans)
qed

end

subsection \<open>Lists\<close>

lemma sorted_wrt_hd:
  "sorted_wrt R (x # xs) \<Longrightarrow> y \<in> set xs \<Longrightarrow> R x y"
  by simp

lemma count_list_le_length: "count_list xs x \<le> length xs"
  by (induction xs) auto

subsection \<open>Signed reading of words\<close>

lemma sint_of_int64: "- (2 ^ 63) \<le> x \<Longrightarrow> x < 2 ^ 63 \<Longrightarrow> sint (of_int x :: u64) = x"
  by (simp add: signed_of_int signed_take_bit_int_eq_self)

lemma sint_small64:
  fixes w :: u64
  assumes "unat w < 2 ^ 63" shows "sint w = int (unat w)"
proof -
  have "int (unat w) < int (2 ^ 63)" using assms by (simp only: of_nat_less_iff)
  then have lt: "uint w < 2 ^ 63" by simp
  have "- (2 ^ 63) \<le> uint w" by (rule order_trans [of _ 0]) simp_all
  from sint_of_int64 [OF this lt] show ?thesis by simp
qed

lemma unat_less64: "unat w < 2 ^ 64" for w :: u64
  using unsigned_less [of w, where ?'a = nat] by simp

subsection \<open>Sums over finite maps\<close>

lemma sum_map_upd:
  fixes f :: "'v \<Rightarrow> 'd::comm_ring_1"
  assumes "finite (dom m)"
  shows "(\<Sum>k\<in>dom (m(i \<mapsto> x)). f (the ((m(i \<mapsto> x)) k))) =
    (\<Sum>k\<in>dom m. f (the (m k))) - (case m i of None \<Rightarrow> 0 | Some y \<Rightarrow> f y) + f x"
proof -
  have "(\<Sum>k\<in>dom (m(i \<mapsto> x)). f (the ((m(i \<mapsto> x)) k))) = f x + (\<Sum>k\<in>dom m - {i}. f (the (m k)))"
    using assms by (simp add: sum.insert_remove)
  moreover have "(\<Sum>k\<in>dom m. f (the (m k))) =
      (case m i of None \<Rightarrow> 0 | Some y \<Rightarrow> f y) + (\<Sum>k\<in>dom m - {i}. f (the (m k)))"
    using assms by (cases "m i") (auto simp: sum.remove [of "dom m" i] domIff)
  ultimately show ?thesis by simp
qed

subsection \<open>Searching lists\<close>

text \<open>\<open>Some\<close> of the first index that satisfies a test, as a Go loop with \<open>break\<close>.\<close>

fun find_index :: "('a \<Rightarrow> bool) \<Rightarrow> 'a list \<Rightarrow> nat option" where
  "find_index P [] = None"
| "find_index P (x # xs) = (if P x then Some 0 else map_option Suc (find_index P xs))"

lemma find_index_Some:
  "find_index P xs = Some i \<Longrightarrow> i < length xs \<and> P (xs ! i) \<and> (\<forall>j<i. \<not> P (xs ! j))"
proof (induction xs arbitrary: i)
  case Nil
  then show ?case by simp
next
  case (Cons x xs)
  show ?case
  proof (cases "P x")
    case True
    with Cons.prems show ?thesis by simp
  next
    case False
    with Cons.prems obtain k where "find_index P xs = Some k" "i = Suc k" by auto
    with Cons.IH [of k] False show ?thesis by (auto simp: less_Suc_eq_0_disj)
  qed
qed

lemma find_index_None: "find_index P xs = None \<longleftrightarrow> (\<forall>x\<in>set xs. \<not> P x)"
  by (induction xs) auto

subsection \<open>Decimal numerals\<close>

text \<open>What \<open>%d\<close> prints for a number that is not negative.\<close>

fun show_nat :: "nat \<Rightarrow> string" where
  "show_nat n =
     (if n < 10 then [''0123456789'' ! n]
      else show_nat (n div 10) @ [''0123456789'' ! (n mod 10)])"

declare show_nat.simps [simp del]

definition show_int :: "int \<Rightarrow> string" where
  "show_int i = (if i < 0 then ''-'' @ show_nat (nat (- i)) else show_nat (nat i))"

end
