(* ===== verification/Ids.thy ===== *)
theory Ids
  imports Prelude
begin

text \<open>
  \<^verbatim>\<open>pkg/ids/id.go\<close>: 32-byte identifiers and their hexadecimal text. An \<open>ID\<close> is a
  \<open>[32]byte\<close>, here a byte list; \<open>wf_id\<close> states its length. The text functions are
  those of \<^verbatim>\<open>encoding/hex\<close>: lower-case digits out, either case in.
\<close>

type_synonym ID = bytes

definition wf_id :: "ID \<Rightarrow> bool" where
  "wf_id i \<longleftrightarrow> length i = 32"

definition hex_digits :: string where
  "hex_digits = ''0123456789abcdef''"

definition hex_digit :: "nat \<Rightarrow> char" where
  "hex_digit n = hex_digits ! n"

definition hex_val :: "char \<Rightarrow> nat option" where
  "hex_val c =
     (case find_index (\<lambda>d. d = c) hex_digits of
        Some n \<Rightarrow> Some n
      | None \<Rightarrow> map_option (\<lambda>n. n + 10) (find_index (\<lambda>d. d = c) ''ABCDEF''))"

fun hex_encode :: "bytes \<Rightarrow> string" where
  "hex_encode [] = []"
| "hex_encode (b # bs) =
     hex_digit (unat b div 16) # hex_digit (unat b mod 16) # hex_encode bs"

datatype hex_error = InvalidByteError char | ErrLength

fun hex_decode :: "string \<Rightarrow> hex_error + bytes" where
  "hex_decode [] = Inr []"
| "hex_decode [p] =
     (case hex_val p of None \<Rightarrow> Inl (InvalidByteError p) | Some _ \<Rightarrow> Inl ErrLength)"
| "hex_decode (p # q # rest) =
     (case hex_val p of
        None \<Rightarrow> Inl (InvalidByteError p)
      | Some a \<Rightarrow>
        (case hex_val q of
           None \<Rightarrow> Inl (InvalidByteError q)
         | Some b \<Rightarrow>
           (case hex_decode rest of
              Inl e \<Rightarrow> Inl e
            | Inr bs \<Rightarrow> Inr (of_nat (16 * a + b) # bs))))"

definition GenerateTestID :: "bytes \<Rightarrow> ID" where
  "GenerateTestID random = random"

definition ID_String :: "ID \<Rightarrow> string" where
  "ID_String i = hex_encode i"

definition ID_Bytes :: "ID \<Rightarrow> bytes" where
  "ID_Bytes i = i"

datatype id_error = HexError hex_error | InvalidIDLength nat

definition FromString :: "string \<Rightarrow> id_error + ID" where
  "FromString s =
     (case hex_decode s of
        Inl e \<Rightarrow> Inl (HexError e)
      | Inr bs \<Rightarrow> if length bs \<noteq> 32 then Inl (InvalidIDLength (length bs)) else Inr bs)"

subsection \<open>Lemmas\<close>

lemma hex_val_digits: "list_all (\<lambda>n. hex_val (hex_digit n) = Some n) [0..<16]"
  by code_simp

lemma hex_val_digit: "n < 16 \<Longrightarrow> hex_val (hex_digit n) = Some n"
  using hex_val_digits by (simp add: list_all_iff)

lemma hex_val_bound: "hex_val c = Some n \<Longrightarrow> n < 16"
proof -
  assume "hex_val c = Some n"
  moreover have "length hex_digits = 16" "length ''ABCDEF'' = 6" by (simp_all add: hex_digits_def)
  ultimately show ?thesis
    using find_index_Some [of "\<lambda>d. d = c" hex_digits] find_index_Some [of "\<lambda>d. d = c" "''ABCDEF''"]
    by (auto simp: hex_val_def simp del: find_index.simps split: option.splits)
qed

lemma byte_div_mod: "(of_nat (16 * (unat b div 16) + unat b mod 16) :: byte) = b"
  by (simp only: mult_div_mod_eq of_nat_unat ucast_id)

lemma hex_decode_encode: "hex_decode (hex_encode bs) = Inr bs"
proof (induction bs)
  case Nil
  show ?case by simp
next
  case (Cons b bs)
  have "unat b < 2 ^ LENGTH(8)" by (rule unsigned_less)
  then have "unat b div 16 < 16" "unat b mod 16 < 16" by auto
  with Cons.IH show ?case
    by (simp add: hex_val_digit byte_div_mod del: of_nat_add of_nat_mult)
qed

lemma length_hex_encode [simp]: "length (hex_encode bs) = 2 * length bs"
  by (induction bs) auto

lemma hex_decode_length: "hex_decode s = Inr bs \<Longrightarrow> length s = 2 * length bs"
  by (induction s arbitrary: bs rule: hex_decode.induct)
    (auto split: option.splits sum.splits)

lemma ID_String_inj: "ID_String i = ID_String j \<longleftrightarrow> i = j"
  by (metis ID_String_def hex_decode_encode sum.inject(2))

lemma length_ID_String: "wf_id i \<Longrightarrow> length (ID_String i) = 64"
  by (simp add: wf_id_def ID_String_def)

lemma FromString_wf: "FromString s = Inr i \<Longrightarrow> wf_id i"
  by (auto simp: FromString_def wf_id_def split: sum.splits if_splits)

text \<open>Printing and parsing of identifiers are inverse: parsing the string form of a
  32-byte identifier gives it back, and whatever \<open>FromString\<close> accepts is a 32-byte
  identifier written with 64 digits.\<close>

theorem id_string_roundtrip:
  assumes "wf_id i" and "FromString s = Inr j"
  shows "FromString (ID_String i) = Inr i \<and> wf_id j \<and> length s = 64 \<and>
    FromString (ID_String j) = Inr j"
proof -
  have "wf_id j" using assms(2) by (rule FromString_wf)
  moreover from assms(2) have "length s = 64"
    by (auto simp: FromString_def dest: hex_decode_length split: sum.splits if_splits)
  moreover have "FromString (ID_String k) = Inr k" if "wf_id k" for k
    using that by (simp add: FromString_def ID_String_def hex_decode_encode wf_id_def)
  ultimately show ?thesis using assms(1) by blast
qed

theorem id_string_roundtrip_witness:
  "FromString (ID_String (replicate 32 0xAB)) = Inr (replicate 32 0xAB)"
proof -
  have "wf_id (replicate 32 0xAB)" by (simp add: wf_id_def)
  moreover have "FromString (replicate 64 (CHR ''0'')) = Inr (replicate 32 0)"
    by code_simp
  ultimately show ?thesis using id_string_roundtrip by blast
qed

end
