(* ===== verification/Frequency.thy ===== *)
theory Frequency
  imports Ids
begin

text \<open>
  \<^verbatim>\<open>core/frequency.go\<close>: frequency capping by device-local counters and by one-time
  tokens. \<open>H\<close> is the hash behind \<open>crypto.CreateCommitment\<close>
  (\<open>hashing.ComputeHash256\<close>, which the package \<^verbatim>\<open>pkg/crypto/hashing\<close> does not
  define): it is a parameter everywhere.

  Token bytes are shared between the manager and its callers (\<open>IssueTokens\<close> returns the
  bucket's own slice), and \<open>generateTokenProof\<close> appends to a prefix of such a slice, so
  the token arrays live in an explicit store: a slice is the number of its array and a
  length, it starts at the array's first byte, and its capacity is the array's length.
\<close>

datatype freq_error =
    ErrFrequencyCapExceeded
  | ErrInvalidToken
  | ErrTokenRedeemed
  | FreqPanic

record CampaignCounter =
  cc_CampaignID :: ID
  cc_Count :: u32
  cc_Cap :: u32
  cc_EpochID :: u32

record slice =
  sl_arr :: nat
  sl_len :: nat

record PrivacyToken =
  pt_Token :: slice
  pt_Proof :: bytes
  pt_Redeemed :: bool

record TokenBucket =
  tb_CampaignID :: ID
  tb_Tokens :: "PrivacyToken list"
  tb_MaxTokens :: u32
  tb_EpochID :: u32

record FrequencyManager =
  fm_counters :: "string \<rightharpoonup> CampaignCounter"
  fm_tokens :: "string \<rightharpoonup> TokenBucket"
  fm_epochRoot :: bytes
  fm_mem :: "nat \<Rightarrow> bytes"
  fm_next :: nat

record FrequencyProof =
  fp_Type :: string
  fp_FreqRoot :: bytes
  fp_Proof :: bytes
  fp_EpochID :: u32

definition NewFrequencyManager :: FrequencyManager where
  "NewFrequencyManager =
     \<lparr>fm_counters = Map.empty, fm_tokens = Map.empty, fm_epochRoot = [],
      fm_mem = (\<lambda>_. []), fm_next = 0\<rparr>"

definition slice_bytes :: "(nat \<Rightarrow> bytes) \<Rightarrow> slice \<Rightarrow> bytes" where
  "slice_bytes mem s = take (sl_len s) (mem (sl_arr s))"

text \<open>\<open>uint32(time.Now().Unix() / 3600)\<close>\<close>

definition getCurrentEpoch :: "time \<Rightarrow> u32" where
  "getCurrentEpoch now = word_of_int (unix now div 3600)"

definition counter_key :: "string \<Rightarrow> ID \<Rightarrow> string" where
  "counter_key deviceID campaignID = deviceID @ '':'' @ ID_String campaignID"

definition generateFrequencyProof ::
  "(bytes \<Rightarrow> bytes) \<Rightarrow> FrequencyManager \<Rightarrow> CampaignCounter \<Rightarrow> bool \<Rightarrow> FrequencyProof" where
  "generateFrequencyProof H fm counter exceeded =
     (let proofData =
        [ucast (drop_bit 8 (cc_Count counter)), ucast (cc_Count counter),
         ucast (drop_bit 8 (cc_Cap counter)), ucast (cc_Cap counter)] @
        (if exceeded then [0xFF] else [0x00])
      in \<lparr>fp_Type = ''counter'', fp_FreqRoot = fm_epochRoot fm,
          fp_Proof = H proofData, fp_EpochID = cc_EpochID counter\<rparr>)"

text \<open>
  \<open>for _, counter := range fm.counters\<close> visits the keys in an order Go does not fix;
  \<open>order\<close> is the order of this iteration.
\<close>

definition updateEpochRoot ::
  "(bytes \<Rightarrow> bytes) \<Rightarrow> string list \<Rightarrow> FrequencyManager \<Rightarrow> FrequencyManager" where
  "updateEpochRoot H order fm =
     (let rootData =
        concat (map (\<lambda>k. case fm_counters fm k of
                        None \<Rightarrow> [] | Some c \<Rightarrow> [ucast (cc_Count c)]) order)
      in fm\<lparr>fm_epochRoot := H rootData\<rparr>)"

definition CheckAndIncrementCounter ::
  "(bytes \<Rightarrow> bytes) \<Rightarrow> time \<Rightarrow> string list \<Rightarrow> string \<Rightarrow> ID \<Rightarrow> u32 \<Rightarrow> FrequencyManager \<Rightarrow>
   (freq_error + FrequencyProof) \<times> FrequencyManager" where
  "CheckAndIncrementCounter H now order deviceID campaignID cap fm =
     (let key = counter_key deviceID campaignID;
          counter =
            (case fm_counters fm key of
               Some c \<Rightarrow> c
             | None \<Rightarrow> \<lparr>cc_CampaignID = campaignID, cc_Count = 0, cc_Cap = cap,
                        cc_EpochID = getCurrentEpoch now\<rparr>);
          fm1 = fm\<lparr>fm_counters := (fm_counters fm)(key \<mapsto> counter)\<rparr>
      in if cc_Cap counter \<le> cc_Count counter then (Inl ErrFrequencyCapExceeded, fm1)
         else
           let proof = generateFrequencyProof H fm1 counter False;
               counter' = counter\<lparr>cc_Count := cc_Count counter + 1\<rparr>;
               fm2 = fm1\<lparr>fm_counters := (fm_counters fm1)(key \<mapsto> counter')\<rparr>
           in (Inr proof, updateEpochRoot H order fm2))"

definition verifyTokenProof :: "bytes \<Rightarrow> bytes \<Rightarrow> bool" where
  "verifyTokenProof token proof \<longleftrightarrow> length token > 0 \<and> length proof > 0"

text \<open>
  \<open>append(token[:16], byte(bucket.EpochID))\<close>: the slice expression panics when the
  capacity is below 16; with room after byte 16 the append writes into the caller's
  array, otherwise it copies.
\<close>

definition generateTokenProof ::
  "(bytes \<Rightarrow> bytes) \<Rightarrow> FrequencyManager \<Rightarrow> TokenBucket \<Rightarrow> slice \<Rightarrow>
   (freq_error + FrequencyProof) \<times> (nat \<Rightarrow> bytes)" where
  "generateTokenProof H fm bucket token =
     (let arr = fm_mem fm (sl_arr token) in
      if length arr < 16 then (Inl FreqPanic, fm_mem fm)
      else
        let b = ucast (tb_EpochID bucket);
            mem' = (if length arr > 16 then (fm_mem fm)(sl_arr token := arr[16 := b])
                    else fm_mem fm)
        in (Inr \<lparr>fp_Type = ''token'', fp_FreqRoot = fm_epochRoot fm,
                 fp_Proof = H (take 16 arr @ [b]), fp_EpochID = tb_EpochID bucket\<rparr>,
            mem'))"

definition RedeemPrivacyToken ::
  "(bytes \<Rightarrow> bytes) \<Rightarrow> ID \<Rightarrow> slice \<Rightarrow> bytes \<Rightarrow> FrequencyManager \<Rightarrow>
   (freq_error + FrequencyProof) \<times> FrequencyManager" where
  "RedeemPrivacyToken H campaignID token proof fm =
     (case fm_tokens fm (ID_String campaignID) of
        None \<Rightarrow> (Inl ErrInvalidToken, fm)
      | Some bucket \<Rightarrow>
          (case find_index (\<lambda>t. slice_bytes (fm_mem fm) (pt_Token t)
                              = slice_bytes (fm_mem fm) token) (tb_Tokens bucket) of
             None \<Rightarrow> (Inl ErrInvalidToken, fm)
           | Some i \<Rightarrow>
               if pt_Redeemed (tb_Tokens bucket ! i) then (Inl ErrTokenRedeemed, fm)
               else if \<not> verifyTokenProof (slice_bytes (fm_mem fm) token) proof
               then (Inl ErrInvalidToken, fm)
               else
                 let bucket' = bucket\<lparr>tb_Tokens :=
                       (tb_Tokens bucket)[i := (tb_Tokens bucket ! i)\<lparr>pt_Redeemed := True\<rparr>]\<rparr>;
                     fm1 = fm\<lparr>fm_tokens := (fm_tokens fm)(ID_String campaignID \<mapsto> bucket')\<rparr>
                 in case generateTokenProof H fm1 bucket' token of
                      (r, mem') \<Rightarrow> (r, fm1\<lparr>fm_mem := mem'\<rparr>)))"

text \<open>
  \<open>random i\<close> is the 32 bytes drawn for the i-th token. Each token gets an array of its
  own; the parameter \<open>deviceID\<close> is not used, as in the code.
\<close>

definition IssueTokens ::
  "(bytes \<Rightarrow> bytes) \<Rightarrow> time \<Rightarrow> (nat \<Rightarrow> bytes) \<Rightarrow> string \<Rightarrow> ID \<Rightarrow> u32 \<Rightarrow> FrequencyManager \<Rightarrow>
   PrivacyToken list \<times> FrequencyManager" where
  "IssueTokens H now random deviceID campaignID num fm =
     (let n = unat num;
          a = fm_next fm;
          toks = map (\<lambda>i. \<lparr>pt_Token = \<lparr>sl_arr = a + i, sl_len = 32\<rparr>,
                           pt_Proof = H (random i), pt_Redeemed = False\<rparr>) [0..<n];
          bucket = \<lparr>tb_CampaignID = campaignID, tb_Tokens = toks, tb_MaxTokens = num,
                    tb_EpochID = getCurrentEpoch now\<rparr>;
          mem' = (\<lambda>k. if a \<le> k \<and> k < a + n then random (k - a) else fm_mem fm k)
      in (toks, fm\<lparr>fm_tokens := (fm_tokens fm)(ID_String campaignID \<mapsto> bucket),
                   fm_mem := mem', fm_next := a + n\<rparr>))"

subsection \<open>Runs\<close>

datatype freq_op =
    FCheck time "string list" string ID u32
  | FRedeem ID slice bytes
  | FIssue time "nat \<Rightarrow> bytes" string ID u32

fun freq_step :: "(bytes \<Rightarrow> bytes) \<Rightarrow> freq_op \<Rightarrow> FrequencyManager \<Rightarrow> FrequencyManager" where
  "freq_step H (FCheck now order d c cap) fm =
     snd (CheckAndIncrementCounter H now order d c cap fm)"
| "freq_step H (FRedeem c tok pf) fm = snd (RedeemPrivacyToken H c tok pf fm)"
| "freq_step H (FIssue now rnd d c n) fm = snd (IssueTokens H now rnd d c n fm)"

text \<open>Whether an operation is a granted impression for the counter \<open>key\<close>.\<close>

fun grants :: "(bytes \<Rightarrow> bytes) \<Rightarrow> string \<Rightarrow> freq_op \<Rightarrow> FrequencyManager \<Rightarrow> bool" where
  "grants H key (FCheck now order d c cap) fm \<longleftrightarrow>
     counter_key d c = key \<and> is_ok (fst (CheckAndIncrementCounter H now order d c cap fm))"
| "grants H key _ fm \<longleftrightarrow> False"

fun granted :: "(bytes \<Rightarrow> bytes) \<Rightarrow> string \<Rightarrow> freq_op list \<Rightarrow> FrequencyManager \<Rightarrow> nat" where
  "granted H key [] fm = 0"
| "granted H key (op # ops) fm =
     (if grants H key op fm then 1 else 0) + granted H key ops (freq_step H op fm)"

subsection \<open>The counters\<close>

definition counters_ok :: "FrequencyManager \<Rightarrow> bool" where
  "counters_ok fm \<longleftrightarrow> (\<forall>k c. fm_counters fm k = Some c \<longrightarrow> cc_Count c \<le> cc_Cap c)"

definition count_at :: "string \<Rightarrow> FrequencyManager \<Rightarrow> nat" where
  "count_at key fm = (case fm_counters fm key of None \<Rightarrow> 0 | Some c \<Rightarrow> unat (cc_Count c))"

lemma counters_ok_New [adx_inv]: "counters_ok NewFrequencyManager"
  by (simp add: counters_ok_def NewFrequencyManager_def)

lemma updateEpochRoot_frame [simp]:
  "fm_counters (updateEpochRoot H order fm) = fm_counters fm"
  "fm_tokens (updateEpochRoot H order fm) = fm_tokens fm"
  "fm_mem (updateEpochRoot H order fm) = fm_mem fm"
  by (simp_all add: updateEpochRoot_def Let_def)

lemma Redeem_counters [simp, adx_frame]:
  "fm_counters (snd (RedeemPrivacyToken H c tok pf fm)) = fm_counters fm"
  by (auto simp: RedeemPrivacyToken_def Let_def split: option.splits prod.splits)

lemma Issue_counters [simp, adx_frame]:
  "fm_counters (snd (IssueTokens H now rnd d c n fm)) = fm_counters fm"
  by (simp add: IssueTokens_def Let_def)

lemma Check_tokens [simp, adx_frame]:
  "fm_tokens (snd (CheckAndIncrementCounter H now order d c cap fm)) = fm_tokens fm"
  by (simp add: CheckAndIncrementCounter_def Let_def)

lemma Check_other_key:
  "k \<noteq> counter_key d c \<Longrightarrow>
     fm_counters (snd (CheckAndIncrementCounter H now order d c cap fm)) k = fm_counters fm k"
  by (simp add: CheckAndIncrementCounter_def Let_def)

lemma u32_Suc: "(a::u32) < b \<Longrightarrow> unat (a + 1) = Suc (unat a)"
  by unat_arith

lemma Check_known:
  assumes "fm_counters fm (counter_key d c) = Some ctr"
  shows "is_ok (fst (CheckAndIncrementCounter H now order d c cap fm)) \<longleftrightarrow>
           cc_Count ctr < cc_Cap ctr"
    and "fm_counters (snd (CheckAndIncrementCounter H now order d c cap fm)) (counter_key d c) =
           Some (if cc_Count ctr < cc_Cap ctr then ctr\<lparr>cc_Count := cc_Count ctr + 1\<rparr> else ctr)"
  using assms by (auto simp: CheckAndIncrementCounter_def Let_def not_le)

lemma Check_fresh:
  assumes "fm_counters fm (counter_key d c) = None"
  shows "is_ok (fst (CheckAndIncrementCounter H now order d c cap fm)) \<longleftrightarrow> 0 < cap"
    and "fm_counters (snd (CheckAndIncrementCounter H now order d c cap fm)) (counter_key d c) =
           Some \<lparr>cc_CampaignID = c, cc_Count = (if 0 < cap then 1 else 0), cc_Cap = cap,
                 cc_EpochID = getCurrentEpoch now\<rparr>"
  using assms
  by (auto simp: CheckAndIncrementCounter_def Let_def not_le simp flip: word_neq_0_conv)

lemma Check_counters_ok:
  assumes "counters_ok fm"
  shows "counters_ok (snd (CheckAndIncrementCounter H now order d c cap fm))"
proof -
  let ?fm' = "snd (CheckAndIncrementCounter H now order d c cap fm)"
  have "cc_Count x \<le> cc_Cap x" if "fm_counters ?fm' k = Some x" for k x
  proof (cases "k = counter_key d c")
    case False
    with that assms show ?thesis by (auto simp: Check_other_key counters_ok_def)
  next
    case k: True
    show ?thesis
    proof (cases "fm_counters fm k")
      case None
      with that k show ?thesis
        by (auto simp: Check_fresh word_less_nat_alt word_le_nat_alt)
    next
      case (Some y)
      with assms have "cc_Count y \<le> cc_Cap y" by (auto simp: counters_ok_def)
      with that k Some show ?thesis
        by (auto simp: Check_known word_le_nat_alt u32_Suc word_less_nat_alt split: if_splits)
    qed
  qed
  then show ?thesis by (simp add: counters_ok_def)
qed

lemma freq_step_counters_ok [adx_inv]: "counters_ok fm \<Longrightarrow> counters_ok (freq_step H op fm)"
  by (cases op) (simp_all add: Check_counters_ok, simp_all add: counters_ok_def)

interpretation freq: object_invariant "freq_step H" counters_ok for H
  by unfold_locales (rule freq_step_counters_ok)

lemma Check_count_at:
  "count_at key (snd (CheckAndIncrementCounter H now order d c cap fm)) =
     count_at key fm +
       (if counter_key d c = key \<and>
           is_ok (fst (CheckAndIncrementCounter H now order d c cap fm)) then 1 else 0)"
proof (cases "counter_key d c = key")
  case False
  then show ?thesis by (simp add: count_at_def Check_other_key)
next
  case True
  show ?thesis
  proof (cases "fm_counters fm (counter_key d c)")
    case None
    with True show ?thesis by (auto simp: count_at_def Check_fresh)
  next
    case (Some ctr)
    with True show ?thesis
      by (auto simp: count_at_def Check_known u32_Suc)
  qed
qed

lemma freq_step_count_at:
  "count_at key (freq_step H op fm) = count_at key fm + (if grants H key op fm then 1 else 0)"
  by (cases op) (simp_all add: Check_count_at, simp_all add: count_at_def)

lemma count_at_run:
  "count_at key (fold (freq_step H) ops fm) = count_at key fm + granted H key ops fm"
  by (induction ops arbitrary: fm) (simp_all add: freq_step_count_at)

text \<open>The stored cap of a key is the one of the first call and never changes.\<close>

lemma freq_step_cap:
  assumes "fm_counters fm k = Some x"
  shows "\<exists>y. fm_counters (freq_step H op fm) k = Some y \<and> cc_Cap y = cc_Cap x
               \<and> cc_EpochID y = cc_EpochID x"
proof (cases op)
  case (FCheck now order d c cap)
  with assms show ?thesis
    by (cases "k = counter_key d c") (auto simp: Check_known Check_other_key)
qed (use assms in auto)

lemma run_cap:
  "fm_counters fm k = Some x \<Longrightarrow>
     \<exists>y. fm_counters (fold (freq_step H) ops fm) k = Some y \<and> cc_Cap y = cc_Cap x
         \<and> cc_EpochID y = cc_EpochID x"
proof (induction ops arbitrary: fm x)
  case Nil
  then show ?case by simp
next
  case (Cons op ops)
  from freq_step_cap [OF Cons.prems, of H op] obtain y where
    "fm_counters (freq_step H op fm) k = Some y" "cc_Cap y = cc_Cap x"
    "cc_EpochID y = cc_EpochID x" by blast
  with Cons.IH [of "freq_step H op fm" y] show ?case by simp
qed

lemma granted_bounded:
  assumes ok: "counters_ok fm" and k: "fm_counters (fold (freq_step H) ops fm) key = Some c"
  shows "count_at key fm + granted H key ops fm = unat (cc_Count c)"
    and "cc_Count c \<le> cc_Cap c"
  using freq.run_inv [OF ok, of H ops] k count_at_run [of key H ops fm]
  by (auto simp: counters_ok_def count_at_def)

lemma granted_checks:
  assumes "fm_counters fm (counter_key d c) = Some ctr" and "cc_Count ctr \<le> cc_Cap ctr"
  shows "granted H (counter_key d c) (map (\<lambda>(now, order). FCheck now order d c cap) calls) fm =
           min (length calls) (unat (cc_Cap ctr) - unat (cc_Count ctr))"
  using assms
proof (induction calls arbitrary: fm ctr)
  case Nil
  show ?case by simp
next
  case (Cons x xs)
  obtain now order where x: "x = (now, order)" by force
  let ?fm = "snd (CheckAndIncrementCounter H now order d c cap fm)"
  show ?case
  proof (cases "cc_Count ctr < cc_Cap ctr")
    case True
    then have "unat (cc_Count ctr + 1) = Suc (unat (cc_Count ctr))" by (rule u32_Suc)
    moreover from this True have "cc_Count ctr + 1 \<le> cc_Cap ctr"
      by (simp add: word_le_nat_alt word_less_nat_alt)
    ultimately show ?thesis
      using Cons.IH [of ?fm "ctr\<lparr>cc_Count := cc_Count ctr + 1\<rparr>"] Cons.prems True x
      by (auto simp: Check_known word_less_nat_alt)
  next
    case False
    with Cons.prems have "cc_Count ctr = cc_Cap ctr" by simp
    with Cons.IH [of ?fm ctr] Cons.prems x show ?thesis
      by (simp add: Check_known)
  qed
qed

subsection \<open>The tokens\<close>

definition redeemed_at :: "ID \<Rightarrow> FrequencyManager \<Rightarrow> nat" where
  "redeemed_at c fm = (case fm_tokens fm (ID_String c) of None \<Rightarrow> 0
     | Some b \<Rightarrow> length (filter pt_Redeemed (tb_Tokens b)))"

definition issued_at :: "ID \<Rightarrow> FrequencyManager \<Rightarrow> nat" where
  "issued_at c fm = (case fm_tokens fm (ID_String c) of None \<Rightarrow> 0
     | Some b \<Rightarrow> length (tb_Tokens b))"

text \<open>Successful redemptions for a campaign along a run.\<close>

fun redemptions :: "(bytes \<Rightarrow> bytes) \<Rightarrow> ID \<Rightarrow> freq_op list \<Rightarrow> FrequencyManager \<Rightarrow> nat" where
  "redemptions H c [] fm = 0"
| "redemptions H c (op # ops) fm =
     (case op of
        FRedeem c' tok pf \<Rightarrow>
          if c' = c \<and> is_ok (fst (RedeemPrivacyToken H c' tok pf fm)) then 1 else 0
      | _ \<Rightarrow> 0) + redemptions H c ops (freq_step H op fm)"

definition issues_for :: "ID \<Rightarrow> freq_op \<Rightarrow> bool" where
  "issues_for c op = (case op of FIssue _ _ _ c' _ \<Rightarrow> c' = c | _ \<Rightarrow> False)"

lemma redeemed_le_issued: "redeemed_at c fm \<le> issued_at c fm"
  by (simp add: redeemed_at_def issued_at_def split: option.splits)

lemma filter_update_flag:
  "i < length xs \<Longrightarrow> \<not> P (xs ! i) \<Longrightarrow> P y \<Longrightarrow>
     length (filter P (xs[i := y])) = Suc (length (filter P xs))"
proof (induction xs arbitrary: i)
  case (Cons x xs)
  then show ?case by (cases i) auto
qed simp

lemma Redeem_other:
  "c' \<noteq> c \<Longrightarrow> fm_tokens (snd (RedeemPrivacyToken H c' tok pf fm)) (ID_String c) =
     fm_tokens fm (ID_String c)"
  by (auto simp: RedeemPrivacyToken_def Let_def ID_String_inj split: option.splits prod.splits)

text \<open>What a call did when it reached the token: one flag went from unset to set.\<close>

lemma Redeem_flips:
  assumes b: "fm_tokens fm (ID_String c) = Some b"
    and i: "find_index (\<lambda>t. slice_bytes (fm_mem fm) (pt_Token t) =
              slice_bytes (fm_mem fm) tok) (tb_Tokens b) = Some i"
    and nr: "\<not> pt_Redeemed (tb_Tokens b ! i)"
    and v: "verifyTokenProof (slice_bytes (fm_mem fm) tok) pf"
  shows "fm_tokens (snd (RedeemPrivacyToken H c tok pf fm)) =
           (fm_tokens fm)(ID_String c \<mapsto> b\<lparr>tb_Tokens :=
              (tb_Tokens b)[i := (tb_Tokens b ! i)\<lparr>pt_Redeemed := True\<rparr>]\<rparr>)"
  using assms by (simp add: RedeemPrivacyToken_def Let_def split: prod.splits)

lemma Redeem_cases:
  obtains "snd (RedeemPrivacyToken H c tok pf fm) = fm"
      "\<not> is_ok (fst (RedeemPrivacyToken H c tok pf fm))"
  | b i where "fm_tokens fm (ID_String c) = Some b" "i < length (tb_Tokens b)"
      "\<not> pt_Redeemed (tb_Tokens b ! i)"
      "fm_tokens (snd (RedeemPrivacyToken H c tok pf fm)) =
         (fm_tokens fm)(ID_String c \<mapsto> b\<lparr>tb_Tokens :=
            (tb_Tokens b)[i := (tb_Tokens b ! i)\<lparr>pt_Redeemed := True\<rparr>]\<rparr>)"
proof -
  let ?same = "\<lambda>t. slice_bytes (fm_mem fm) (pt_Token t) = slice_bytes (fm_mem fm) tok"
  show thesis
  proof (cases "\<exists>b i. fm_tokens fm (ID_String c) = Some b \<and>
      find_index ?same (tb_Tokens b) = Some i \<and> \<not> pt_Redeemed (tb_Tokens b ! i) \<and>
      verifyTokenProof (slice_bytes (fm_mem fm) tok) pf")
    case True
    then obtain b i where *: "fm_tokens fm (ID_String c) = Some b"
      "find_index ?same (tb_Tokens b) = Some i" "\<not> pt_Redeemed (tb_Tokens b ! i)"
      "verifyTokenProof (slice_bytes (fm_mem fm) tok) pf" by blast
    with find_index_Some [OF *(2)] Redeem_flips [OF *] that(2) show thesis by blast
  next
    case False
    then show thesis
      by (intro that(1)) (auto simp: RedeemPrivacyToken_def Let_def split: option.splits)
  qed
qed

lemma Redeem_counts:
  "issued_at c (snd (RedeemPrivacyToken H c' tok pf fm)) = issued_at c fm \<and>
   redeemed_at c fm +
     (if c' = c \<and> is_ok (fst (RedeemPrivacyToken H c' tok pf fm)) then 1 else 0)
   \<le> redeemed_at c (snd (RedeemPrivacyToken H c' tok pf fm))"
proof (cases "c' = c")
  case False
  then show ?thesis by (simp add: issued_at_def redeemed_at_def Redeem_other)
next
  case True
  show ?thesis
    by (rule Redeem_cases [of H c' tok pf fm])
      (auto simp: True issued_at_def redeemed_at_def filter_update_flag)
qed

lemma freq_step_tokens:
  assumes "\<not> issues_for c op"
  shows "issued_at c (freq_step H op fm) = issued_at c fm \<and>
    redeemed_at c fm + redemptions H c [op] fm \<le> redeemed_at c (freq_step H op fm)"
proof (cases op)
  case (FRedeem c' tok pf)
  with Redeem_counts [of c H c' tok pf fm] show ?thesis by simp
next
  case (FCheck now order d c' cap)
  then show ?thesis by (simp add: issued_at_def redeemed_at_def)
next
  case (FIssue now rnd d c' n)
  with assms have "ID_String c \<noteq> ID_String c'" by (auto simp: issues_for_def ID_String_inj)
  with FIssue show ?thesis
    by (simp add: issued_at_def redeemed_at_def IssueTokens_def Let_def)
qed

lemma redemptions_run:
  assumes "list_all (\<lambda>op. \<not> issues_for c op) ops"
  shows "issued_at c (fold (freq_step H) ops fm) = issued_at c fm \<and>
     redeemed_at c fm + redemptions H c ops fm \<le> redeemed_at c (fold (freq_step H) ops fm)"
  using assms
proof (induction ops arbitrary: fm)
  case Nil
  show ?case by simp
next
  case (Cons op ops)
  from Cons.prems have "\<not> issues_for c op" by simp
  note one = freq_step_tokens [OF this, of H fm]
  from Cons.IH [of "freq_step H op fm"] Cons.prems one show ?case by auto
qed

lemma Issue_bucket:
  "fm_tokens (snd (IssueTokens H now rnd d c n fm)) (ID_String c) =
     Some \<lparr>tb_CampaignID = c, tb_Tokens = fst (IssueTokens H now rnd d c n fm),
           tb_MaxTokens = n, tb_EpochID = getCurrentEpoch now\<rparr>"
  "length (fst (IssueTokens H now rnd d c n fm)) = unat n"
  by (simp_all add: IssueTokens_def Let_def)

lemma Issue_counts:
  "issued_at c (snd (IssueTokens H now rnd d c n fm)) = unat n"
  "redeemed_at c (snd (IssueTokens H now rnd d c n fm)) = 0"
  by (simp_all add: issued_at_def redeemed_at_def Issue_bucket)
    (simp add: IssueTokens_def Let_def filter_empty_conv)

lemma Redeem_unknown:
  assumes "fm_tokens fm (ID_String c) = Some b"
    and "\<forall>t \<in> set (tb_Tokens b). slice_bytes (fm_mem fm) (pt_Token t) \<noteq> slice_bytes (fm_mem fm) tok"
  shows "RedeemPrivacyToken H c tok pf fm = (Inl ErrInvalidToken, fm)"
proof -
  have "find_index (\<lambda>t. slice_bytes (fm_mem fm) (pt_Token t) = slice_bytes (fm_mem fm) tok)
          (tb_Tokens b) = None"
    using assms(2) by (simp add: find_index_None)
  with assms(1) show ?thesis by (simp add: RedeemPrivacyToken_def)
qed

lemma Redeem_ok_mem:
  assumes "is_ok (fst (RedeemPrivacyToken H c tok pf fm))"
  obtains b where "fm_tokens fm (ID_String c) = Some b" "16 \<le> length (fm_mem fm (sl_arr tok))"
    "fm_mem (snd (RedeemPrivacyToken H c tok pf fm)) =
       (if 16 < length (fm_mem fm (sl_arr tok))
        then (fm_mem fm)(sl_arr tok := (fm_mem fm (sl_arr tok))[16 := ucast (tb_EpochID b)])
        else fm_mem fm)"
  using assms
  by (auto simp: RedeemPrivacyToken_def generateTokenProof_def Let_def
      split: option.splits if_splits)

subsection \<open>Properties\<close>

definition demo_campaign :: ID where
  "demo_campaign = [7]"

definition demo_random :: "nat \<Rightarrow> bytes" where
  "demo_random i = replicate 31 0 @ [of_nat i]"

definition demo_checks :: "freq_op list" where
  "demo_checks =
     [FCheck 0 [] ''d'' demo_campaign 2, FCheck 1 [] ''d'' demo_campaign 2,
      FCheck 2 [] ''d'' demo_campaign 9]"

lemmas freq_eval = demo_checks_def demo_campaign_def demo_random_def NewFrequencyManager_def
  CheckAndIncrementCounter_def generateFrequencyProof_def updateEpochRoot_def counter_key_def
  getCurrentEpoch_def Let_def word_le_nat_alt

text \<open>C9: The frequency cap holds along every run: after any calls on a new manager, the
  number of impressions granted for a device and campaign is exactly the stored count, and
  the count is at most the stored cap.\<close>

theorem frequency_cap_respected:
  assumes "fm_counters (fold (freq_step H) ops NewFrequencyManager) key = Some c"
  shows "granted H key ops NewFrequencyManager = unat (cc_Count c) \<and>
    granted H key ops NewFrequencyManager \<le> unat (cc_Cap c)"
  using granted_bounded [OF counters_ok_New assms]
  by (simp add: count_at_def NewFrequencyManager_def word_le_nat_alt)

theorem frequency_cap_respected_witness:
  "granted id (counter_key ''d'' demo_campaign) demo_checks NewFrequencyManager = 2"
proof -
  let ?fm = "fold (freq_step id) demo_checks NewFrequencyManager"
  let ?k = "counter_key ''d'' demo_campaign"
  have c: "fm_counters ?fm ?k = Some (the (fm_counters ?fm ?k))" by (simp add: freq_eval)
  have "cc_Count (the (fm_counters ?fm ?k)) = 2" by (simp add: freq_eval)
  with frequency_cap_respected [OF c] show ?thesis by simp
qed

text \<open>Capping is exact: for a device and campaign the manager has not seen, out of any
  number of consecutive checks with one cap exactly the first \<open>cap\<close> are granted.\<close>

theorem frequency_cap_exact:
  assumes "fm_counters fm (counter_key d c) = None"
  shows "granted H (counter_key d c) (map (\<lambda>(now, order). FCheck now order d c cap) calls) fm =
    min (length calls) (unat cap)"
proof (cases calls)
  case Nil
  then show ?thesis by simp
next
  case (Cons x xs)
  obtain now order where x: "x = (now, order)" by force
  let ?fm = "snd (CheckAndIncrementCounter H now order d c cap fm)"
  let ?ctr = "\<lparr>cc_CampaignID = c, cc_Count = (if 0 < cap then 1 else 0), cc_Cap = cap,
                 cc_EpochID = getCurrentEpoch now\<rparr>"
  have "(if 0 < cap then 1 else 0) \<le> cap" by (simp add: word_le_nat_alt word_less_nat_alt)
  then show ?thesis
    using granted_checks [of ?fm d c ?ctr H cap xs] Check_fresh [OF assms, of H now order cap]
    by (auto simp: Cons x word_less_nat_alt)
qed

theorem frequency_cap_exact_witness:
  "granted id (counter_key ''d'' demo_campaign)
     (map (\<lambda>(now, order). FCheck now order ''d'' demo_campaign 3) (replicate 5 (0, [])))
     NewFrequencyManager = 3"
  using frequency_cap_exact [of NewFrequencyManager "''d''" demo_campaign id 3 "replicate 5 (0, [])"]
  by (simp add: NewFrequencyManager_def)

text \<open>The cap given with the first check of a device and campaign, and the epoch of that
  check, stay for the life of the manager: no later call changes them, whatever cap it
  carries and whatever hour it runs in.\<close>

theorem frequency_cap_and_epoch_are_permanent:
  assumes "fm_counters fm key = Some x"
  shows "\<exists>y. fm_counters (fold (freq_step H) ops fm) key = Some y \<and>
    cc_Cap y = cc_Cap x \<and> cc_EpochID y = cc_EpochID x"
  using assms by (rule run_cap)

theorem frequency_cap_and_epoch_are_permanent_witness:
  "(let fm = snd (CheckAndIncrementCounter id 0 [] ''d'' demo_campaign 2 NewFrequencyManager);
        later = 7200 * second_ns
    in \<exists>y. fm_counters (fold (freq_step id) [FCheck later [] ''d'' demo_campaign 9] fm)
          (counter_key ''d'' demo_campaign) = Some y \<and> cc_Cap y = 2 \<and>
        cc_EpochID y \<noteq> getCurrentEpoch later)"
proof -
  let ?fm = "snd (CheckAndIncrementCounter id 0 [] ''d'' demo_campaign 2 NewFrequencyManager)"
  let ?k = "counter_key ''d'' demo_campaign"
  let ?later = "7200 * second_ns"
  have x: "fm_counters ?fm ?k = Some (the (fm_counters ?fm ?k))" by (simp add: freq_eval)
  have "cc_Cap (the (fm_counters ?fm ?k)) = 2"
    "cc_EpochID (the (fm_counters ?fm ?k)) \<noteq> getCurrentEpoch ?later"
    by (simp_all add: freq_eval unix_def second_ns_def)
  with frequency_cap_and_epoch_are_permanent
      [OF x, of id "[FCheck ?later [] ''d'' demo_campaign 9]"]
  show ?thesis unfolding Let_def by auto
qed

text \<open>One-time tokens are spent at most once each: after a batch of \<open>n\<close> tokens has
  been issued for a campaign, at most \<open>n\<close> redemptions for it succeed until the next batch,
  whatever tokens, proofs and other calls are tried in between.\<close>

theorem redemptions_bounded_by_issue:
  assumes "list_all (\<lambda>op. \<not> issues_for c op) ops"
  shows "redemptions H c ops (snd (IssueTokens H now rnd d c n fm)) \<le> unat n"
  using redemptions_run [OF assms, of H "snd (IssueTokens H now rnd d c n fm)"]
    redeemed_le_issued [of c "fold (freq_step H) ops (snd (IssueTokens H now rnd d c n fm))"]
  by (simp add: Issue_counts)

theorem redemptions_bounded_by_issue_witness:
  "redemptions id demo_campaign
     [FRedeem demo_campaign \<lparr>sl_arr = 0, sl_len = 32\<rparr> [1],
      FRedeem demo_campaign \<lparr>sl_arr = 0, sl_len = 32\<rparr> [1]]
     (snd (IssueTokens id 0 demo_random ''d'' demo_campaign 1 NewFrequencyManager)) \<le> 1"
  using redemptions_bounded_by_issue [of demo_campaign
    "[FRedeem demo_campaign \<lparr>sl_arr = 0, sl_len = 32\<rparr> [1],
      FRedeem demo_campaign \<lparr>sl_arr = 0, sl_len = 32\<rparr> [1]]" id 0 demo_random "''d''" 1
    NewFrequencyManager]
  by (simp add: issues_for_def)

text \<open>Issuing tokens to a second device discards the tokens of the first one: a token
  that is not among the new batch is refused, redeemed or not, with the state unchanged.\<close>

theorem issuing_discards_earlier_tokens:
  assumes "\<forall>t \<in> set (fst (IssueTokens H now rnd d2 c n fm)).
    slice_bytes (fm_mem (snd (IssueTokens H now rnd d2 c n fm))) (pt_Token t)
      \<noteq> slice_bytes (fm_mem (snd (IssueTokens H now rnd d2 c n fm))) tok"
  shows "RedeemPrivacyToken H c tok pf (snd (IssueTokens H now rnd d2 c n fm)) =
    (Inl ErrInvalidToken, snd (IssueTokens H now rnd d2 c n fm))"
  by (rule Redeem_unknown [OF Issue_bucket(1)]) (simp add: assms)

theorem issuing_discards_earlier_tokens_witness:
  "(let fm1 = snd (IssueTokens id 0 demo_random ''a'' demo_campaign 1 NewFrequencyManager);
        fm2 = snd (IssueTokens id 0 (\<lambda>i. demo_random (i + 1)) ''b'' demo_campaign 1 fm1);
        tok = \<lparr>sl_arr = 0, sl_len = 32\<rparr>
    in is_ok (fst (RedeemPrivacyToken id demo_campaign tok [1] fm1)) \<and>
       fst (RedeemPrivacyToken id demo_campaign tok [1] fm2) = Inl ErrInvalidToken)"
proof -
  let ?fm1 = "snd (IssueTokens id 0 demo_random ''a'' demo_campaign 1 NewFrequencyManager)"
  let ?r = "\<lambda>i. demo_random (i + 1)"
  let ?fm2 = "snd (IssueTokens id 0 ?r ''b'' demo_campaign 1 ?fm1)"
  let ?tok = "\<lparr>sl_arr = 0, sl_len = 32\<rparr>"
  have "is_ok (fst (RedeemPrivacyToken id demo_campaign ?tok [1] ?fm1))"
    by (simp add: IssueTokens_def RedeemPrivacyToken_def generateTokenProof_def Let_def
        slice_bytes_def demo_random_def verifyTokenProof_def NewFrequencyManager_def)
  moreover have "\<forall>t \<in> set (fst (IssueTokens id 0 ?r ''b'' demo_campaign 1 ?fm1)).
      slice_bytes (fm_mem ?fm2) (pt_Token t) \<noteq> slice_bytes (fm_mem ?fm2) ?tok"
    by (simp add: IssueTokens_def Let_def slice_bytes_def demo_random_def NewFrequencyManager_def)
  from issuing_discards_earlier_tokens [OF this, of "[1]"]
  have "fst (RedeemPrivacyToken id demo_campaign ?tok [1] ?fm2) = Inl ErrInvalidToken" by simp
  ultimately show ?thesis by (simp add: Let_def)
qed

end
