(* ===== verification/SecondPrice.thy ===== *)
theory SecondPrice
  imports Ids
begin

text \<open>
  The contract of a sealed-bid second-price auction, stated once for the two routines of
  the repository that run one: \<open>Auction.RunAuction\<close> (\<^verbatim>\<open>auction/auction.go\<close>, sorts
  the bids) and \<open>Enclave.runSecondPriceAuction\<close> (\<^verbatim>\<open>tee/enclave.go\<close>, one scan that
  keeps the best two). Both are shown to be instances where they are modelled, so the
  economic facts below hold of both.

  \<open>sel r bs\<close> is the winning bid and the clearing price for reserve \<open>r\<close>.
\<close>

locale second_price =
  fixes bidder :: "'b \<Rightarrow> ID"
    and bval :: "'b \<Rightarrow> u64"
    and sel :: "u64 \<Rightarrow> 'b list \<Rightarrow> ('b \<times> u64) option"
  assumes sel_None: "sel r bs = None \<longleftrightarrow> (\<forall>b\<in>set bs. bval b < r)"
    and sel_winner: "sel r bs = Some (w, p) \<Longrightarrow>
          w \<in> set bs \<and> r \<le> bval w \<and> (\<forall>b\<in>set bs. bval b \<le> bval w)"
    and sel_price: "sel r bs = Some (w, p) \<Longrightarrow>
          p = Max (insert r (bval ` set_mset (mset bs - {#w#})))"
begin

lemma price_between: "sel r bs = Some (w, p) \<Longrightarrow> r \<le> p \<and> p \<le> bval w"
proof -
  assume s: "sel r bs = Some (w, p)"
  have "x \<le> bval w" if "x \<in> insert r (bval ` set_mset (mset bs - {#w#}))" for x
    using that sel_winner [OF s] by (auto dest: in_diffD)
  with sel_price [OF s] show ?thesis by (simp add: Max_ge)
qed

lemma winning_value: "sel r bs = Some (w, p) \<Longrightarrow> bval w = Max (bval ` set bs)"
  using sel_winner by (intro Max_eqI [symmetric]) auto

text \<open>The price depends on the values only.\<close>

lemma price_by_values:
  assumes s: "sel r bs = Some (w, p)"
  shows "p = Max (insert r (set_mset (mset (map bval bs) - {#Max (set (map bval bs))#})))"
proof -
  have "w \<in># mset bs" using sel_winner [OF s] by simp
  then have "image_mset bval (mset bs - {#w#}) = image_mset bval (mset bs) - {#bval w#}"
    by (simp add: image_mset_Diff)
  then have "bval ` set_mset (mset bs - {#w#}) =
      set_mset (mset (map bval bs) - {#Max (set (map bval bs))#})"
    by (metis list.set_map mset_map set_image_mset winning_value [OF s])
  with sel_price [OF s] show ?thesis by simp
qed

text \<open>What a bidder whose item is worth \<open>v\<close> gains: value minus price when it wins.\<close>

definition utility :: "ID \<Rightarrow> u64 \<Rightarrow> u64 \<Rightarrow> 'b list \<Rightarrow> int" where
  "utility i v r bs =
     (case sel r bs of None \<Rightarrow> 0
      | Some (w, p) \<Rightarrow> if bidder w = i then uint v - uint p else 0)"

lemma price_against_others:
  assumes s: "sel r (pre @ b # post) = Some (w, p)" and w: "w = b"
  shows "p = Max (insert r (bval ` set (pre @ post)))"
proof -
  have "mset (pre @ b # post) - {#b#} = mset (pre @ post)" by simp
  with sel_price [OF s] w show ?thesis
    by (metis set_mset_mset)
qed

lemma utility_cases:
  assumes others: "\<forall>x\<in>set (pre @ post). bidder x \<noteq> bidder b"
  shows "utility (bidder b) v r (pre @ b # post) =
           (case sel r (pre @ b # post) of None \<Rightarrow> 0
            | Some (w, p) \<Rightarrow> if w = b
                then uint v - uint (Max (insert r (bval ` set (pre @ post)))) else 0)"
proof (cases "sel r (pre @ b # post)")
  case None
  then show ?thesis by (simp add: utility_def)
next
  case (Some wp)
  obtain w p where wp: "wp = (w, p)" by force
  with Some sel_winner [of r "pre @ b # post" w p] others
  have "bidder w = bidder b \<longleftrightarrow> w = b" by auto
  with Some wp show ?thesis
    using price_against_others [of r pre b post w p] by (auto simp: utility_def)
qed

text \<open>Bidding the true value is a dominant strategy.\<close>

theorem truthful:
  assumes i: "bidder b = i" "bidder b' = i" and truth: "bval b = v"
    and others: "\<forall>x\<in>set (pre @ post). bidder x \<noteq> i"
  shows "utility i v r (pre @ b' # post) \<le> utility i v r (pre @ b # post)"
proof -
  let ?m = "Max (insert r (bval ` set (pre @ post)))"
  have lie: "utility i v r (pre @ b' # post) \<le> max 0 (uint v - uint ?m)"
    using utility_cases [of pre post b' v r] i others by (auto split: option.splits)
  have honest: "utility i v r (pre @ b # post) =
      (case sel r (pre @ b # post) of None \<Rightarrow> 0
       | Some (w, p) \<Rightarrow> if w = b then uint v - uint ?m else 0)"
    using utility_cases [of pre post b v r] i others by simp
  show ?thesis
  proof (cases "\<exists>p. sel r (pre @ b # post) = Some (b, p)")
    case True
    then obtain p where s: "sel r (pre @ b # post) = Some (b, p)" by blast
    have "p = ?m" using price_against_others [OF s] by simp
    with price_between [OF s] truth have "uint ?m \<le> uint v" by (simp add: word_le_def)
    with lie honest s show ?thesis by simp
  next
    case False
    have "v \<le> ?m"
    proof (cases "sel r (pre @ b # post)")
      case None
      then have "v < r" using sel_None [of r "pre @ b # post"] truth by simp
      also have "r \<le> ?m" by (rule Max_ge) simp_all
      finally show ?thesis by (rule less_imp_le)
    next
      case (Some wp)
      obtain w p where wp: "wp = (w, p)" by force
      with False Some have "w \<noteq> b" by auto
      with Some wp sel_winner [of r "pre @ b # post" w p] truth
      have "w \<in> set (pre @ post)" "v \<le> bval w" by auto
      note \<open>v \<le> bval w\<close>
      also have "bval w \<le> ?m" using \<open>w \<in> set (pre @ post)\<close> by (intro Max_ge) auto
      finally show ?thesis .
    qed
    then have "uint v \<le> uint ?m" by (simp add: word_le_def)
    with lie have "utility i v r (pre @ b' # post) \<le> 0" by simp
    moreover from False honest have "utility i v r (pre @ b # post) = 0"
      by (auto split: option.splits)
    ultimately show ?thesis by simp
  qed
qed

lemma truthful_no_loss:
  assumes "bidder b = i" "bval b = v" "\<forall>x\<in>set (pre @ post). bidder x \<noteq> i"
  shows "0 \<le> utility i v r (pre @ b # post)"
proof (cases "sel r (pre @ b # post)")
  case None
  then show ?thesis by (simp add: utility_def)
next
  case (Some wp)
  obtain w p where "wp = (w, p)" by force
  with Some assms sel_winner [of r "pre @ b # post" w p] price_between [of r "pre @ b # post" w p]
  show ?thesis by (auto simp: utility_def word_le_def)
qed

end

end
