(* ===== verification/Headers.thy ===== *)
theory Headers
  imports Ids
begin

text \<open>
  \<^verbatim>\<open>core/headers.go\<close>: the header types the components exchange. Every header embeds
  a \<open>BaseHeader\<close>; the embedded struct is the record a header extends. Headers hold no
  behaviour of their own: the auction, the budget manager and the Blocklace DAG build and
  consume them. \<open>HeaderTypeOther\<close> is any other string of the open type \<open>HeaderType\<close>
  (\<^verbatim>\<open>blocklace/dag.go\<close> uses \<open>"genesis"\<close>, \<^verbatim>\<open>tee/enclave.go\<close>
  \<open>"enclave_attestation"\<close>).
\<close>

datatype HeaderType =
    HeaderTypeBid
  | HeaderTypeAuction
  | HeaderTypeImpression
  | HeaderTypeConversion
  | HeaderTypeBudget
  | HeaderTypeSettlement
  | HeaderTypeOther string

record BaseHeader =
  hd_Type :: HeaderType
  hd_ID :: ID
  hd_Timestamp :: time
  hd_Signature :: bytes
  hd_Predecessors :: "ID list"
  hd_Height :: u64

record BidHeader = BaseHeader +
  bh_AuctionID :: ID
  bh_CmBid :: bytes
  bh_BidderPub :: bytes
  bh_ProofRange :: bytes
  bh_Meta :: bytes

record AuctionHeader = BaseHeader +
  ah_AuctionID :: ID
  ah_CmInputs :: "bytes list"
  ah_CmWinner :: bytes
  ah_ProofAuction :: bytes
  ah_PolicyRoot :: bytes
  ah_DAPtr :: bytes

record ImpressionHeader = BaseHeader +
  ih_OutcomeRef :: ID
  ih_CmView :: bytes
  ih_ProofView :: bytes
  ih_PSTTag :: bytes
  ih_FreqRoot :: bytes
  ih_ProofFreq :: bytes
  ih_DAPtr :: bytes

record ConversionHeader = BaseHeader +
  ch_ClickRef :: "ID option"
  ch_CmAttr :: bytes
  ch_ProofAttr :: bytes
  ch_DAPtr :: bytes

record BudgetHeader = BaseHeader +
  bud_AdvertiserID :: ID
  bud_CmBudgetPrev :: bytes
  bud_CmBudgetNew :: bytes
  bud_ProofDelta :: bytes

record SettlementHeader = BaseHeader +
  sh_AdvertiserID :: ID
  sh_PublisherID :: ID
  sh_CmAmount :: bytes
  sh_ProofSettle :: bytes

record Commitment =
  cm_Value :: bytes
  cm_Salt :: bytes

record AuctionInput =
  ai_BidCommitment :: bytes
  ai_Bidder :: ID
  ai_Timestamp :: time

record ViewabilityMetrics =
  vm_PixelPercent :: byte
  vm_TimeInView :: u32

record FrequencyCounter =
  fc_CampaignID :: ID
  fc_Count :: u32
  fc_Cap :: u32

end
