(* ===== verification/Auction.thy ===== *)
theory Auction
  imports SecondPrice Headers
begin

text \<open>
  \<^verbatim>\<open>auction/auction.go\<close>: the sealed-bid second-price auction. \<open>H\<close> is the hash of
  \<open>crypto.CreateCommitment\<close>. \<open>srt\<close> is the call of \<open>sort.Slice\<close> on the decrypted
  bids: Go promises a permutation ordered by the given comparison and nothing about equal
  bids, so the auction is proved correct for every \<open>srt\<close> that meets this contract.
\<close>

datatype auction_error =
    ErrInvalidBid
  | ErrNoValidBids
  | ErrAuctionClosed
  | ErrInvalidThreshold

record SealedBid =
  sb_BidderID :: ID
  sb_Commitment :: bytes
  sb_EncryptedBid :: bytes
  sb_RangeProof :: bytes
  sb_Timestamp :: time

record AuctionOutcome =
  ao_WinnerID :: ID
  ao_WinningBid :: u64
  ao_ClearingPrice :: u64
  ao_ProofCorrect :: bytes

record Auction =
  au_ID :: ID
  au_StartTime :: time
  au_EndTime :: time
  au_Reserve :: u64
  au_PolicyRoot :: bytes
  au_Bids :: "SealedBid list"
  au_Outcome :: "AuctionOutcome option"

record DecryptedBid =
  db_BidderID :: ID
  db_Value :: u64
  db_CreativeID :: ID
  db_Targeting :: bytes

definition NewAuction :: "time \<Rightarrow> ID \<Rightarrow> u64 \<Rightarrow> duration \<Rightarrow> Auction" where
  "NewAuction now i reserve dur =
     \<lparr>au_ID = i, au_StartTime = now, au_EndTime = now + dur, au_Reserve = reserve,
      au_PolicyRoot = [], au_Bids = [], au_Outcome = None\<rparr>"

definition verifyRangeProof :: "bytes \<Rightarrow> bytes \<Rightarrow> bool" where
  "verifyRangeProof commitment proof \<longleftrightarrow> length proof > 0 \<and> length commitment > 0"

definition Auction_SubmitBid :: "time \<Rightarrow> SealedBid \<Rightarrow> Auction \<Rightarrow> (auction_error + unit) \<times> Auction" where
  "Auction_SubmitBid now bid a =
     (if now > au_EndTime a then (Inl ErrAuctionClosed, a)
      else if length (sb_RangeProof bid) > 0 \<and>
              \<not> verifyRangeProof (sb_Commitment bid) (sb_RangeProof bid)
      then (Inl ErrInvalidBid, a)
      else (Inr (), a\<lparr>au_Bids := au_Bids a @ [bid]\<rparr>))"

definition Auction_decryptBid :: "ID \<Rightarrow> SealedBid \<Rightarrow> auction_error + DecryptedBid" where
  "Auction_decryptBid creativeID sealed =
     (if length (sb_Commitment sealed) < 8 then Inl ErrInvalidBid
      else
        let val = be64_acc (take 8 (sb_Commitment sealed))
        in Inr \<lparr>db_BidderID = sb_BidderID sealed, db_Value = val mod 10000,
                db_CreativeID = creativeID, db_Targeting = []\<rparr>)"

text \<open>The loop over the sealed bids; \<open>rnd k\<close> is the creative id drawn for bid \<open>k\<close>.\<close>

fun collectValid :: "(nat \<Rightarrow> ID) \<Rightarrow> u64 \<Rightarrow> nat \<Rightarrow> SealedBid list \<Rightarrow> DecryptedBid list" where
  "collectValid rnd reserve k [] = []"
| "collectValid rnd reserve k (s # ss) =
     (case Auction_decryptBid (rnd k) s of
        Inl _ \<Rightarrow> collectValid rnd reserve (Suc k) ss
      | Inr d \<Rightarrow>
          (if reserve \<le> db_Value d then [d] else []) @ collectValid rnd reserve (Suc k) ss)"

definition determineWinner ::
  "(DecryptedBid list \<Rightarrow> DecryptedBid list) \<Rightarrow> u64 \<Rightarrow> DecryptedBid list \<Rightarrow>
   (DecryptedBid \<times> u64) option" where
  "determineWinner srt reserve validBids =
     (if length validBids = 0 then None
      else
        let sorted = srt validBids;
            winner = sorted ! 0;
            clearingPrice =
              (if length sorted > 1 then db_Value (sorted ! 1) else reserve)
        in Some (winner, clearingPrice))"

definition generateAuctionProof ::
  "(bytes \<Rightarrow> bytes) \<Rightarrow> DecryptedBid list \<Rightarrow> DecryptedBid \<Rightarrow> u64 \<Rightarrow> bytes" where
  "generateAuctionProof H bids winner price =
     H [ucast (drop_bit 8 (db_Value winner)), ucast (db_Value winner),
        ucast (drop_bit 8 price), ucast price, of_nat (length bids)]"

definition Auction_RunAuction ::
  "(bytes \<Rightarrow> bytes) \<Rightarrow> (DecryptedBid list \<Rightarrow> DecryptedBid list) \<Rightarrow> (nat \<Rightarrow> ID) \<Rightarrow>
   Auction \<Rightarrow> (auction_error + AuctionOutcome) \<times> Auction" where
  "Auction_RunAuction H srt rnd a =
     (if length (au_Bids a) = 0 then (Inl ErrNoValidBids, a)
      else
        let validBids = collectValid rnd (au_Reserve a) 0 (au_Bids a)
        in case determineWinner srt (au_Reserve a) validBids of
             None \<Rightarrow> (Inl ErrNoValidBids, a)
           | Some (winner, clearingPrice) \<Rightarrow>
               let outcome =
                     \<lparr>ao_WinnerID = db_BidderID winner, ao_WinningBid = db_Value winner,
                      ao_ClearingPrice = clearingPrice,
                      ao_ProofCorrect = generateAuctionProof H (srt validBids) winner clearingPrice\<rparr>
               in (Inr outcome, a\<lparr>au_Outcome := Some outcome\<rparr>))"

definition CreateAuctionHeader ::
  "(bytes \<Rightarrow> bytes) \<Rightarrow> time \<Rightarrow> ID \<Rightarrow> Auction \<Rightarrow> AuctionHeader option" where
  "CreateAuctionHeader H now newID a =
     (case au_Outcome a of
        None \<Rightarrow> None
      | Some out \<Rightarrow>
          let cmInputs = map sb_Commitment (au_Bids a);
              cmWinner = H [ao_WinnerID out ! 0,
                            ucast (drop_bit 8 (ao_WinningBid out)), ucast (ao_WinningBid out),
                            ucast (drop_bit 8 (ao_ClearingPrice out)), ucast (ao_ClearingPrice out)]
          in Some \<lparr>hd_Type = HeaderTypeAuction, hd_ID = newID, hd_Timestamp = now,
                   hd_Signature = [], hd_Predecessors = [], hd_Height = 1,
                   ah_AuctionID = au_ID a, ah_CmInputs = cmInputs, ah_CmWinner = cmWinner,
                   ah_ProofAuction = ao_ProofCorrect out, ah_PolicyRoot = au_PolicyRoot a,
                   ah_DAPtr = []\<rparr>)"

subsection \<open>The contract of sort.Slice\<close>

locale slice_sort =
  fixes srt :: "DecryptedBid list \<Rightarrow> DecryptedBid list"
  assumes srt_mset: "mset (srt bs) = mset bs"
    and srt_sorted: "sorted_wrt (\<lambda>x y. \<not> db_Value x < db_Value y) (srt bs)"
begin

lemma srt_length [simp]: "length (srt bs) = length bs"
  by (metis size_mset srt_mset)

lemma srt_set [simp]: "set (srt bs) = set bs"
  by (metis set_mset_mset srt_mset)

end

text \<open>What the routine computes on a list of decrypted bids, the reserve filter included.\<close>

definition auction_select ::
  "(DecryptedBid list \<Rightarrow> DecryptedBid list) \<Rightarrow> u64 \<Rightarrow> DecryptedBid list \<Rightarrow>
   (DecryptedBid \<times> u64) option" where
  "auction_select srt reserve bs = determineWinner srt reserve (filter (\<lambda>b. reserve \<le> db_Value b) bs)"

lemma Max_insert_filter:
  "Max (insert r (f ` set_mset (filter_mset (\<lambda>x. r \<le> f x) M))) =
   Max (insert r (f ` set_mset M))" for r :: "'a::linorder"
proof (rule Max_eqI [symmetric])
  show "finite (insert r (f ` set_mset M))" by simp
next
  fix y assume "y \<in> insert r (f ` set_mset M)"
  then show "y \<le> Max (insert r (f ` set_mset (filter_mset (\<lambda>x. r \<le> f x) M)))"
  proof (cases "r \<le> y")
    case True
    with \<open>y \<in> _\<close> show ?thesis by (intro Max_ge) auto
  next
    case False
    then have "y \<le> r" by simp
    also have "r \<le> Max (insert r (f ` set_mset (filter_mset (\<lambda>x. r \<le> f x) M)))"
      by (rule Max_ge) simp_all
    finally show ?thesis .
  qed
next
  have "Max (insert r (f ` set_mset (filter_mset (\<lambda>x. r \<le> f x) M)))
          \<in> insert r (f ` set_mset (filter_mset (\<lambda>x. r \<le> f x) M))"
    by (rule Max_in) auto
  then show "Max (insert r (f ` set_mset (filter_mset (\<lambda>x. r \<le> f x) M))) \<in> insert r (f ` set_mset M)"
    by auto
qed

lemma determineWinner_None:
  "determineWinner srt r bs = None \<longleftrightarrow> bs = []"
  by (simp add: determineWinner_def Let_def)

lemma determineWinner_Nil [simp]: "determineWinner srt r [] = None"
  by (simp add: determineWinner_None)

lemma Max_insert_descending:
  fixes r :: "'a::linorder"
  assumes "sorted_wrt (\<lambda>x y. \<not> f x < f y) (y # ys)" and "r \<le> f y"
  shows "Max (insert r (f ` set (y # ys))) = f y"
  using assms by (intro Max_eqI) (auto simp: not_less)

context slice_sort
begin

lemma determineWinner_Some:
  assumes d: "determineWinner srt r bs = Some (w, p)" and r: "\<forall>b\<in>set bs. r \<le> db_Value b"
  shows "w \<in> set bs" and "\<forall>b\<in>set bs. db_Value b \<le> db_Value w"
    and "p = Max (insert r (db_Value ` set_mset (mset bs - {#w#})))"
proof -
  from d have "bs \<noteq> []" by (auto simp: determineWinner_def)
  then obtain v vs where sv: "srt bs = v # vs"
    by (metis length_0_conv neq_Nil_conv srt_length)
  with d \<open>bs \<noteq> []\<close> have w: "w = v" and p: "p = (case vs of [] \<Rightarrow> r | y # _ \<Rightarrow> db_Value y)"
    by (auto simp: determineWinner_def Let_def split: list.splits)
  have m: "mset bs - {#w#} = mset vs"
    using srt_mset [of bs] sv w by (metis add_mset_remove_trivial mset.simps(2))
  have sorted: "sorted_wrt (\<lambda>x y. \<not> db_Value x < db_Value y) (v # vs)"
    using srt_sorted [of bs] sv by simp
  have set: "set bs = set (v # vs)" using srt_set [of bs] sv by simp
  show "w \<in> set bs" using set w by simp
  show "\<forall>b\<in>set bs. db_Value b \<le> db_Value w" using set sorted w by (auto simp: not_less)
  show "p = Max (insert r (db_Value ` set_mset (mset bs - {#w#})))"
  proof (cases vs)
    case Nil
    with m p show ?thesis by simp
  next
    case (Cons y ys)
    with sorted have "sorted_wrt (\<lambda>x y. \<not> db_Value x < db_Value y) (y # ys)" by simp
    moreover have "r \<le> db_Value y" using r set Cons by simp
    ultimately show ?thesis using Max_insert_descending [of db_Value y ys r] m p Cons by simp
  qed
qed

end

sublocale slice_sort \<subseteq> mech: second_price db_BidderID db_Value "auction_select srt"
proof (unfold_locales, goal_cases)
  case (1 r bs)
  show ?case
    by (auto simp: auction_select_def determineWinner_None filter_empty_conv not_le)
next
  case (2 r bs w p)
  let ?V = "filter (\<lambda>b. r \<le> db_Value b) bs"
  from 2 have d: "determineWinner srt r ?V = Some (w, p)" by (simp add: auction_select_def)
  have w: "w \<in> set ?V" and max: "\<forall>b\<in>set ?V. db_Value b \<le> db_Value w"
    using determineWinner_Some [OF d] by auto
  have "db_Value b \<le> db_Value w" if "b \<in> set bs" for b
    using that w max by (cases "r \<le> db_Value b") auto
  with w show ?case by auto
next
  case (3 r bs w p)
  let ?V = "filter (\<lambda>b. r \<le> db_Value b) bs"
  from 3 have d: "determineWinner srt r ?V = Some (w, p)" by (simp add: auction_select_def)
  have "p = Max (insert r (db_Value ` set_mset (mset ?V - {#w#})))"
    using determineWinner_Some(3) [OF d] by simp
  also have "mset ?V - {#w#} = filter_mset (\<lambda>b. r \<le> db_Value b) (mset bs - {#w#})"
    using determineWinner_Some(1) [OF d] by (simp add: filter_diff_mset)
  finally show ?case by (simp only: Max_insert_filter)
qed

text \<open>
  The algorithm behind \<open>sort.Slice\<close> for up to twelve elements: each element moves left
  while it is larger than its left neighbour. \<open>ins_left\<close> works on the sorted prefix
  read from its end.
\<close>

fun ins_left :: "DecryptedBid \<Rightarrow> DecryptedBid list \<Rightarrow> DecryptedBid list" where
  "ins_left x [] = [x]"
| "ins_left x (y # ys) = (if db_Value y < db_Value x then y # ins_left x ys else x # y # ys)"

definition go_insertion_sort :: "DecryptedBid list \<Rightarrow> DecryptedBid list" where
  "go_insertion_sort xs = rev (fold ins_left xs [])"

lemma mset_ins_left: "mset (ins_left x ys) = add_mset x (mset ys)"
  by (induction ys) auto

lemma set_ins_left: "set (ins_left x ys) = insert x (set ys)"
  by (metis mset_ins_left set_mset_add_mset_insert set_mset_mset)

lemma sorted_ins_left:
  "sorted_wrt (\<lambda>x y. db_Value x \<le> db_Value y) ys \<Longrightarrow>
     sorted_wrt (\<lambda>x y. db_Value x \<le> db_Value y) (ins_left x ys)"
  by (induction ys) (auto simp: set_ins_left)

lemma fold_ins_left:
  "sorted_wrt (\<lambda>x y. db_Value x \<le> db_Value y) acc \<Longrightarrow>
     sorted_wrt (\<lambda>x y. db_Value x \<le> db_Value y) (fold ins_left xs acc) \<and>
     mset (fold ins_left xs acc) = mset xs + mset acc"
  by (induction xs arbitrary: acc) (auto simp: sorted_ins_left mset_ins_left)

interpretation go_sort: slice_sort go_insertion_sort
proof
  fix bs
  show "mset (go_insertion_sort bs) = mset bs"
    using fold_ins_left [of "[]" bs] by (simp add: go_insertion_sort_def)
  show "sorted_wrt (\<lambda>x y. \<not> db_Value x < db_Value y) (go_insertion_sort bs)"
    using fold_ins_left [of "[]" bs] by (simp add: go_insertion_sort_def sorted_wrt_rev not_less)
qed

subsection \<open>The decrypted bids of an auction\<close>

text \<open>The value a commitment stands for: its first eight bytes, reduced.\<close>

definition commitment_value :: "bytes \<Rightarrow> u64" where
  "commitment_value c = be64_acc (take 8 c) mod 10000"

definition readable :: "SealedBid \<Rightarrow> bool" where
  "readable s \<longleftrightarrow> 8 \<le> length (sb_Commitment s)"

lemma collectValid_values:
  "map (\<lambda>d. (db_BidderID d, db_Value d)) (collectValid rnd r k ss) =
     filter (\<lambda>x. r \<le> snd x)
       (map (\<lambda>s. (sb_BidderID s, commitment_value (sb_Commitment s))) (filter readable ss))"
  by (induction ss arbitrary: k)
    (auto simp: Auction_decryptBid_def readable_def commitment_value_def Let_def)

lemma collectValid_filter:
  "filter (\<lambda>b. r \<le> db_Value b) (collectValid rnd r k ss) = collectValid rnd r k ss"
  by (induction ss arbitrary: k) (auto split: sum.splits)

lemma Auction_RunAuction_Inr:
  "Auction_RunAuction H srt rnd a = (Inr out, a') \<Longrightarrow>
     \<exists>w p. auction_select srt (au_Reserve a) (collectValid rnd (au_Reserve a) 0 (au_Bids a)) = Some (w, p)
       \<and> ao_WinnerID out = db_BidderID w \<and> ao_WinningBid out = db_Value w
       \<and> ao_ClearingPrice out = p \<and> a' = a\<lparr>au_Outcome := Some out\<rparr>"
  by (auto simp: Auction_RunAuction_def auction_select_def collectValid_filter Let_def
      split: if_splits option.splits)

lemma Auction_RunAuction_Inl:
  "fst (Auction_RunAuction H srt rnd a) = Inl e \<Longrightarrow>
     e = ErrNoValidBids \<and> snd (Auction_RunAuction H srt rnd a) = a \<and>
     collectValid rnd (au_Reserve a) 0 (au_Bids a) = []"
  by (auto simp: Auction_RunAuction_def determineWinner_None Let_def
      split: if_splits option.splits prod.splits)

lemma commitment_value_bound: "commitment_value c < 10000"
  by (simp add: commitment_value_def word_mod_less_divisor word_neq_0_conv [symmetric])

lemma commitment_value_be64: "commitment_value (be64 v @ rest) = v mod 10000"
  by (simp add: commitment_value_def be64_acc_be64)

text \<open>The decrypted bids before the reserve is applied are those for reserve 0.\<close>

lemma collectValid_reserve:
  "collectValid rnd r k ss = filter (\<lambda>b. r \<le> db_Value b) (collectValid rnd 0 k ss)"
  by (induction ss arbitrary: k) (auto split: sum.splits)

definition decrypted :: "ID \<Rightarrow> SealedBid \<Rightarrow> DecryptedBid" where
  "decrypted c s = \<lparr>db_BidderID = sb_BidderID s, db_Value = commitment_value (sb_Commitment s),
                    db_CreativeID = c, db_Targeting = []\<rparr>"

lemma collectValid_0_append:
  "collectValid rnd 0 k (ss @ ts) = collectValid rnd 0 k ss @ collectValid rnd 0 (k + length ss) ts"
  by (induction ss arbitrary: k) (auto split: sum.splits)

lemma collectValid_0_Cons:
  "collectValid rnd 0 k (s # ss) =
     (if readable s then [decrypted (rnd k) s] else []) @ collectValid rnd 0 (Suc k) ss"
  by (auto simp: Auction_decryptBid_def readable_def decrypted_def commitment_value_def Let_def)

lemma collectValid_bidders:
  "d \<in> set (collectValid rnd r k ss) \<Longrightarrow> \<exists>s\<in>set ss. db_BidderID d = sb_BidderID s"
  by (induction ss arbitrary: k)
    (auto simp: Auction_decryptBid_def Let_def split: sum.splits if_splits)

lemma auction_select_collect:
  "auction_select srt r (collectValid rnd r k ss) = auction_select srt r (collectValid rnd 0 k ss)"
  by (simp add: auction_select_def collectValid_reserve [of rnd r])

lemma RunAuction_select:
  "fst (Auction_RunAuction H srt rnd a) =
     (case auction_select srt (au_Reserve a) (collectValid rnd 0 0 (au_Bids a)) of
        None \<Rightarrow> Inl ErrNoValidBids
      | Some (w, p) \<Rightarrow>
          Inr \<lparr>ao_WinnerID = db_BidderID w, ao_WinningBid = db_Value w, ao_ClearingPrice = p,
               ao_ProofCorrect = generateAuctionProof H
                 (srt (collectValid rnd (au_Reserve a) 0 (au_Bids a))) w p\<rparr>)"
proof -
  have "auction_select srt (au_Reserve a) (collectValid rnd 0 0 (au_Bids a)) =
      determineWinner srt (au_Reserve a) (collectValid rnd (au_Reserve a) 0 (au_Bids a))"
    by (simp add: auction_select_def collectValid_reserve [of rnd "au_Reserve a"])
  then show ?thesis
    by (auto simp: Auction_RunAuction_def Let_def split: option.splits)
qed

text \<open>The gain of bidder \<open>i\<close> with true value \<open>v\<close> from running the auction.\<close>

definition auction_gain ::
  "(bytes \<Rightarrow> bytes) \<Rightarrow> (DecryptedBid list \<Rightarrow> DecryptedBid list) \<Rightarrow> (nat \<Rightarrow> ID) \<Rightarrow> ID \<Rightarrow> u64 \<Rightarrow>
   Auction \<Rightarrow> int" where
  "auction_gain H srt rnd i v a =
     (case fst (Auction_RunAuction H srt rnd a) of
        Inl _ \<Rightarrow> 0
      | Inr out \<Rightarrow> if ao_WinnerID out = i then uint v - uint (ao_ClearingPrice out) else 0)"

context slice_sort
begin

lemma auction_gain_utility:
  "auction_gain H srt rnd i v a = mech.utility i v (au_Reserve a) (collectValid rnd 0 0 (au_Bids a))"
  by (simp add: auction_gain_def RunAuction_select mech.utility_def split: option.splits prod.splits)

lemma gain_absent:
  assumes "\<forall>s\<in>set (au_Bids a). sb_BidderID s = i \<longrightarrow> \<not> readable s"
  shows "auction_gain H srt rnd i v a = 0"
proof (cases "auction_select srt (au_Reserve a) (collectValid rnd 0 0 (au_Bids a))")
  case None
  then show ?thesis by (simp add: auction_gain_def RunAuction_select)
next
  case (Some wp)
  obtain w p where wp: "wp = (w, p)" by force
  have "w \<in> set (collectValid rnd 0 0 (au_Bids a))"
    using mech.sel_winner [of "au_Reserve a" "collectValid rnd 0 0 (au_Bids a)" w p] Some wp by simp
  then have "\<exists>s\<in>set (filter readable (au_Bids a)). db_BidderID w = sb_BidderID s"
  proof -
    assume "w \<in> set (collectValid rnd 0 0 (au_Bids a))"
    then have "(db_BidderID w, db_Value w) \<in>
        set (map (\<lambda>d. (db_BidderID d, db_Value d)) (collectValid rnd 0 0 (au_Bids a)))" by force
    then show ?thesis unfolding collectValid_values by auto
  qed
  with assms have "db_BidderID w \<noteq> i" by auto
  with Some wp show ?thesis by (simp add: auction_gain_def RunAuction_select)
qed

lemma auction_truthful_sealed:
  assumes truth: "sb_BidderID s = i" "readable s" "commitment_value (sb_Commitment s) = v"
    and lie: "sb_BidderID s' = i"
    and others: "\<forall>x\<in>set (pre @ post). sb_BidderID x \<noteq> i"
  shows "auction_gain H srt rnd i v (a\<lparr>au_Bids := pre @ s' # post\<rparr>)
           \<le> auction_gain H srt rnd i v (a\<lparr>au_Bids := pre @ s # post\<rparr>)
       \<and> 0 \<le> auction_gain H srt rnd i v (a\<lparr>au_Bids := pre @ s # post\<rparr>)"
proof -
  let ?A = "collectValid rnd 0 0 pre" and ?B = "collectValid rnd 0 (Suc (length pre)) post"
  let ?c = "rnd (length pre)"
  have oth: "\<forall>x\<in>set (?A @ ?B). db_BidderID x \<noteq> i"
    using others collectValid_bidders by (fastforce simp del: collectValid.simps)
  have s: "collectValid rnd 0 0 (pre @ s # post) = ?A @ decrypted ?c s # ?B"
    using truth by (simp add: collectValid_0_append collectValid_0_Cons del: collectValid.simps)
  have d: "db_BidderID (decrypted ?c s) = i" "db_Value (decrypted ?c s) = v"
    "db_BidderID (decrypted ?c s') = i"
    using truth lie by (simp_all add: decrypted_def)
  have pos: "0 \<le> auction_gain H srt rnd i v (a\<lparr>au_Bids := pre @ s # post\<rparr>)"
    using mech.truthful_no_loss [OF d(1,2) oth] by (simp add: auction_gain_utility s)
  show ?thesis
  proof (cases "readable s'")
    case True
    then have s': "collectValid rnd 0 0 (pre @ s' # post) = ?A @ decrypted ?c s' # ?B"
      by (simp add: collectValid_0_append collectValid_0_Cons del: collectValid.simps)
    from mech.truthful [OF d(1) d(3) d(2) oth] pos show ?thesis
      by (simp add: auction_gain_utility s s')
  next
    case False
    with others have "auction_gain H srt rnd i v (a\<lparr>au_Bids := pre @ s' # post\<rparr>) = 0"
      by (intro gain_absent) auto
    with pos show ?thesis by simp
  qed
qed

end

subsection \<open>Properties\<close>

definition bid_values :: "Auction \<Rightarrow> u64 list" where
  "bid_values a = map (\<lambda>s. commitment_value (sb_Commitment s)) (filter readable (au_Bids a))"

lemma collectValid_bid_values:
  "map db_Value (collectValid rnd 0 0 (au_Bids a)) = bid_values a"
proof -
  have "map snd (map (\<lambda>d. (db_BidderID d, db_Value d)) (collectValid rnd 0 0 (au_Bids a))) = bid_values a"
    unfolding collectValid_values by (simp add: bid_values_def)
  then show ?thesis by (simp add: comp_def)
qed

lemma collectValid_source:
  "d \<in> set (collectValid rnd 0 0 (au_Bids a)) \<Longrightarrow>
     \<exists>s\<in>set (au_Bids a). readable s \<and> sb_BidderID s = db_BidderID d
       \<and> commitment_value (sb_Commitment s) = db_Value d"
proof -
  assume "d \<in> set (collectValid rnd 0 0 (au_Bids a))"
  then have "(db_BidderID d, db_Value d) \<in>
      set (map (\<lambda>d. (db_BidderID d, db_Value d)) (collectValid rnd 0 0 (au_Bids a)))" by force
  then show ?thesis unfolding collectValid_values by auto
qed

context slice_sort
begin

lemma outcome_spec:
  assumes run: "Auction_RunAuction H srt rnd a = (Inr out, a')"
  shows "ao_WinningBid out = Max (set (bid_values a))
    \<and> ao_ClearingPrice out =
        Max (insert (au_Reserve a) (set_mset (mset (bid_values a) - {#ao_WinningBid out#})))
    \<and> au_Reserve a \<le> ao_ClearingPrice out \<and> ao_ClearingPrice out \<le> ao_WinningBid out
    \<and> (\<exists>s\<in>set (au_Bids a). readable s \<and> sb_BidderID s = ao_WinnerID out
          \<and> commitment_value (sb_Commitment s) = ao_WinningBid out)
    \<and> a' = a\<lparr>au_Outcome := Some out\<rparr>"
proof -
  let ?D = "collectValid rnd 0 0 (au_Bids a)"
  obtain w p where sel: "auction_select srt (au_Reserve a) ?D = Some (w, p)"
    and o: "ao_WinnerID out = db_BidderID w" "ao_WinningBid out = db_Value w"
      "ao_ClearingPrice out = p" "a' = a\<lparr>au_Outcome := Some out\<rparr>"
    using Auction_RunAuction_Inr [OF run] unfolding auction_select_collect by blast
  have max: "db_Value w = Max (set (bid_values a))"
    using mech.winning_value [OF sel] by (simp flip: collectValid_bid_values [of rnd a])
  have "p = Max (insert (au_Reserve a) (set_mset (mset (bid_values a) - {#db_Value w#})))"
    using mech.price_by_values [OF sel] max by (simp add: collectValid_bid_values)
  with max o mech.price_between [OF sel] mech.sel_winner [OF sel] collectValid_source [of w rnd a]
  show ?thesis by auto
qed

end

lemma RunAuction_fails:
  "fst (Auction_RunAuction H srt rnd a) = Inl e \<longleftrightarrow>
     e = ErrNoValidBids \<and> (\<forall>v\<in>set (bid_values a). v < au_Reserve a)"
proof -
  have "(\<forall>v\<in>set (bid_values a). v < au_Reserve a) \<longleftrightarrow>
      filter (\<lambda>b. au_Reserve a \<le> db_Value b) (collectValid rnd 0 0 (au_Bids a)) = []"
    by (auto simp: filter_empty_conv not_le simp flip: collectValid_bid_values [of rnd a])
  then show ?thesis
    by (auto simp: RunAuction_select auction_select_def determineWinner_None
        split: option.splits)
qed

definition demo_bid :: "byte \<Rightarrow> u64 \<Rightarrow> SealedBid" where
  "demo_bid b v = \<lparr>sb_BidderID = replicate 32 b, sb_Commitment = be64 v, sb_EncryptedBid = [],
                   sb_RangeProof = [1], sb_Timestamp = 0\<rparr>"

definition demo_auction :: "SealedBid list \<Rightarrow> Auction" where
  "demo_auction bids = (NewAuction 0 [] 100 1000)\<lparr>au_Bids := bids\<rparr>"

lemma demo_run:
  "\<exists>out a'. Auction_RunAuction (\<lambda>x. x) go_insertion_sort (\<lambda>_. [])
       (demo_auction [demo_bid 1 500, demo_bid 2 700, demo_bid 3 600]) = (Inr out, a')
     \<and> ao_ClearingPrice out = 600"
  by (simp add: demo_auction_def demo_bid_def NewAuction_def Auction_RunAuction_def
      Auction_decryptBid_def be64_def be64_acc_def upt_rec determineWinner_def go_insertion_sort_def
      Let_def)

text \<open>C1: When \<open>Auction.RunAuction\<close> returns an outcome, the winner is a submitted bid of
  maximal value, the clearing price is the highest of the reserve and the other bids, it
  lies between the reserve and the winning bid, and only the outcome field of the auction
  changes. This holds for every sort that meets the contract of \<open>sort.Slice\<close>.\<close>

theorem auction_outcome_spec:
  assumes srt: "slice_sort srt" and run: "Auction_RunAuction H srt rnd a = (Inr out, a')"
  shows "ao_WinningBid out = Max (set (bid_values a))
    \<and> ao_ClearingPrice out =
        Max (insert (au_Reserve a) (set_mset (mset (bid_values a) - {#ao_WinningBid out#})))
    \<and> au_Reserve a \<le> ao_ClearingPrice out \<and> ao_ClearingPrice out \<le> ao_WinningBid out
    \<and> (\<exists>s\<in>set (au_Bids a). readable s \<and> sb_BidderID s = ao_WinnerID out
          \<and> commitment_value (sb_Commitment s) = ao_WinningBid out)
    \<and> a' = a\<lparr>au_Outcome := Some out\<rparr>"
  by (rule slice_sort.outcome_spec [OF srt run])

theorem auction_outcome_spec_witness:
  "\<exists>out a'. Auction_RunAuction (\<lambda>x. x) go_insertion_sort (\<lambda>_. [])
       (demo_auction [demo_bid 1 500, demo_bid 2 700, demo_bid 3 600]) = (Inr out, a')
     \<and> ao_ClearingPrice out = 600
     \<and> ao_WinningBid out = Max (set (bid_values (demo_auction [demo_bid 1 500, demo_bid 2 700, demo_bid 3 600])))"
  using demo_run auction_outcome_spec [OF go_sort.slice_sort_axioms] by blast

text \<open>\<open>Auction.RunAuction\<close> fails exactly when no readable bid reaches the reserve, and
  then its only error is \<open>ErrNoValidBids\<close>.\<close>

theorem auction_fails_iff:
  "fst (Auction_RunAuction H srt rnd a) = Inl e \<longleftrightarrow>
     e = ErrNoValidBids \<and> (\<forall>v\<in>set (bid_values a). v < au_Reserve a)"
  by (rule RunAuction_fails)

theorem auction_fails_iff_witness:
  "fst (Auction_RunAuction (\<lambda>x. x) go_insertion_sort (\<lambda>_. []) (demo_auction [demo_bid 1 50]))
     = Inl ErrNoValidBids"
proof -
  have v: "commitment_value (be64 50) = 50"
    using commitment_value_be64 [of 50 "[]"] by simp
  show ?thesis
    unfolding auction_fails_iff
    using v by (simp add: bid_values_def demo_auction_def demo_bid_def NewAuction_def readable_def)
qed

text \<open>C12: Truthful bidding is a dominant strategy in \<open>Auction.RunAuction\<close>: whatever the
  others submitted, a bidder whose sealed bid carries its true value gains at least as much
  as with any other sealed bid in its place, an unreadable one included, and never loses.\<close>

theorem auction_truthful:
  assumes "slice_sort srt"
    and "sb_BidderID s = i" and "readable s" and "commitment_value (sb_Commitment s) = v"
    and "sb_BidderID s' = i"
    and "\<forall>x\<in>set (pre @ post). sb_BidderID x \<noteq> i"
  shows "auction_gain H srt rnd i v (a\<lparr>au_Bids := pre @ s' # post\<rparr>)
           \<le> auction_gain H srt rnd i v (a\<lparr>au_Bids := pre @ s # post\<rparr>)
       \<and> 0 \<le> auction_gain H srt rnd i v (a\<lparr>au_Bids := pre @ s # post\<rparr>)"
  by (rule slice_sort.auction_truthful_sealed [OF assms])

theorem auction_truthful_witness:
  "auction_gain (\<lambda>x. x) go_insertion_sort (\<lambda>_. []) (replicate 32 2) 700
       (demo_auction []\<lparr>au_Bids := [demo_bid 1 500] @ demo_bid 2 400 # [demo_bid 3 600]\<rparr>)
     \<le> auction_gain (\<lambda>x. x) go_insertion_sort (\<lambda>_. []) (replicate 32 2) 700
       (demo_auction []\<lparr>au_Bids := [demo_bid 1 500] @ demo_bid 2 700 # [demo_bid 3 600]\<rparr>)"
proof -
  have v: "commitment_value (be64 700) = 700"
    using commitment_value_be64 [of 700 "[]"] by simp
  show ?thesis
    using auction_truthful [OF go_sort.slice_sort_axioms, of "demo_bid 2 700" "replicate 32 2" 700
        "demo_bid 2 400" "[demo_bid 1 500]" "[demo_bid 3 600]" "\<lambda>x. x" "\<lambda>_. []" "demo_auction []"] v
    by (simp add: demo_bid_def readable_def)
qed

end
