(* ===== verification/Enclave.thy ===== *)
theory Enclave
  imports Auction
begin

text \<open>
  \<^verbatim>\<open>tee/enclave.go\<close>: the trusted-execution variant of the auction. \<open>H\<close> is the hash of
  \<open>crypto.CreateCommitment\<close>, \<open>sha\<close> is SHA-256; \<open>marshal\<close>, \<open>unmarshal\<close> and
  \<open>marshalT\<close> are \<open>encoding/json\<close> on the attestation statement and on the audit
  record. The simulated decryption draws its values at random: \<open>draw k\<close> is what it
  draws for the k-th bid.
\<close>

datatype enclave_error =
    ErrNotAttested
  | ErrInvalidQuote
  | ErrEnclaveSealed
  | ErrMaxBidsExceeded
  | ErrRandom
  | ErrMarshal
  | ErrEncryptedBid

type_synonym EnclaveType = string

record BidData =
  bd_BidderID :: ID
  bd_Value :: u64
  bd_CreativeID :: ID
  bd_Targeting :: "string \<rightharpoonup> string"

record SealedAuction =
  sa_ID :: ID
  sa_Bids :: "bytes list"
  sa_Reserve :: u64
  sa_PolicyRoot :: bytes
  sa_Outcome :: "AuctionOutcome option"
  sa_Transcript :: bytes

record Enclave =
  en_ID :: ID
  en_Type :: EnclaveType
  en_Version :: string
  en_MREnclave :: bytes
  en_MRSigner :: bytes
  en_Quote :: bytes
  en_Attested :: bool
  en_AttestedTime :: time
  en_sealingKey :: bytes
  en_auctions :: "ID \<rightharpoonup> SealedAuction"
  en_processed :: u64
  en_errors :: u64

record AttestationStatement =
  as_EnclaveID :: ID
  as_Type :: EnclaveType
  as_MREnclave :: bytes
  as_MRSigner :: bytes
  as_Timestamp :: time
  as_Nonce :: bytes

record Transcript =
  tr_auction_id :: string
  tr_num_bids :: nat
  tr_reserve :: u64
  tr_winner_id :: string
  tr_winning_bid :: u64
  tr_clearing_price :: u64
  tr_timestamp :: int
  tr_enclave_id :: string

record EnclaveAuctionResult =
  ear_AuctionID :: ID
  ear_WinnerCommit :: bytes
  ear_PriceCommit :: bytes
  ear_NumBids :: nat
  ear_ExecutionTime :: duration
  ear_EnclaveQuote :: bytes
  ear_Transcript :: bytes

definition string_bytes :: "string \<Rightarrow> bytes" where
  "string_bytes s = map of_char s"

definition measureCode :: "(bytes \<Rightarrow> bytes) \<Rightarrow> Enclave \<Rightarrow> bytes" where
  "measureCode sha e = sha (string_bytes (en_Type e) @ string_bytes (en_Version e))"

definition measureSigner :: "(bytes \<Rightarrow> bytes) \<Rightarrow> bytes" where
  "measureSigner H = H (string_bytes ''ADXYZ_SIGNER_v1'')"

definition generateQuote ::
  "(bytes \<Rightarrow> bytes) \<Rightarrow> (AttestationStatement \<Rightarrow> bytes option) \<Rightarrow> time \<Rightarrow> bytes \<Rightarrow> Enclave \<Rightarrow>
   enclave_error + bytes" where
  "generateQuote H marshal now nonce e =
     (let statement = \<lparr>as_EnclaveID = en_ID e, as_Type = en_Type e,
            as_MREnclave = en_MREnclave e, as_MRSigner = en_MRSigner e,
            as_Timestamp = now, as_Nonce = nonce\<rparr>
      in case marshal statement of
           None \<Rightarrow> Inl ErrMarshal
         | Some data \<Rightarrow> Inr (data @ H data))"

definition performAttestation ::
  "(bytes \<Rightarrow> bytes) \<Rightarrow> (bytes \<Rightarrow> bytes) \<Rightarrow> (AttestationStatement \<Rightarrow> bytes option) \<Rightarrow>
   time \<Rightarrow> time \<Rightarrow> bytes \<Rightarrow> Enclave \<Rightarrow> (enclave_error + unit) \<times> Enclave" where
  "performAttestation H sha marshal t1 t2 nonce e =
     (let e1 = e\<lparr>en_MREnclave := measureCode sha e, en_MRSigner := measureSigner H\<rparr>
      in case generateQuote H marshal t1 nonce e1 of
           Inl er \<Rightarrow> (Inl er, e1)
         | Inr quote \<Rightarrow>
             (Inr (), e1\<lparr>en_Quote := quote, en_Attested := True, en_AttestedTime := t2\<rparr>))"

text \<open>\<open>key\<close> is what \<open>cryptorand.Read\<close> gives for the sealing key, \<open>None\<close> on its error.\<close>

definition NewEnclave ::
  "(bytes \<Rightarrow> bytes) \<Rightarrow> (bytes \<Rightarrow> bytes) \<Rightarrow> (AttestationStatement \<Rightarrow> bytes option) \<Rightarrow>
   time \<Rightarrow> time \<Rightarrow> bytes \<Rightarrow> ID \<Rightarrow> bytes option \<Rightarrow> EnclaveType \<Rightarrow> enclave_error + Enclave" where
  "NewEnclave H sha marshal t1 t2 nonce newID key ty =
     (case key of
        None \<Rightarrow> Inl ErrRandom
      | Some k \<Rightarrow>
          let e = \<lparr>en_ID = newID, en_Type = ty, en_Version = ''1.0.0'', en_MREnclave = [],
                   en_MRSigner = [], en_Quote = [], en_Attested = False, en_AttestedTime = 0,
                   en_sealingKey = k, en_auctions = Map.empty, en_processed = 0, en_errors = 0\<rparr>
          in case performAttestation H sha marshal t1 t2 nonce e of
               (Inl er, _) \<Rightarrow> Inl er
             | (Inr _, e') \<Rightarrow> Inr e')"

record BidDraw =
  dr_BidderID :: ID
  dr_Intn :: nat
  dr_CreativeID :: ID

definition Enclave_decryptBid :: "BidDraw \<Rightarrow> bytes \<Rightarrow> enclave_error + BidData" where
  "Enclave_decryptBid d encryptedBid =
     (if length encryptedBid < 16 then Inl ErrEncryptedBid
      else Inr \<lparr>bd_BidderID = dr_BidderID d, bd_Value = of_nat (dr_Intn d),
                bd_CreativeID = dr_CreativeID d, bd_Targeting = Map.empty\<rparr>)"

fun decryptAll :: "(nat \<Rightarrow> BidDraw) \<Rightarrow> nat \<Rightarrow> bytes list \<Rightarrow> BidData list" where
  "decryptAll draw i [] = []"
| "decryptAll draw i (encBid # rest) =
     (case Enclave_decryptBid (draw i) encBid of
        Inl _ \<Rightarrow> decryptAll draw (Suc i) rest
      | Inr bid \<Rightarrow> bid # decryptAll draw (Suc i) rest)"

text \<open>One round of the scan; the pair is \<open>(highest, secondHighest)\<close>.\<close>

definition scan_step ::
  "u64 \<Rightarrow> BidData \<Rightarrow> BidData option \<times> BidData option \<Rightarrow> BidData option \<times> BidData option" where
  "scan_step reserve bid hs =
     (case hs of (highest, secondHighest) \<Rightarrow>
        if bd_Value bid < reserve then (highest, secondHighest)
        else if (case highest of None \<Rightarrow> True | Some h \<Rightarrow> bd_Value h < bd_Value bid)
        then (Some bid, highest)
        else if (case secondHighest of None \<Rightarrow> True | Some s \<Rightarrow> bd_Value s < bd_Value bid)
        then (highest, Some bid)
        else (highest, secondHighest))"

definition runSecondPriceAuction :: "ID \<Rightarrow> BidData list \<Rightarrow> u64 \<Rightarrow> AuctionOutcome" where
  "runSecondPriceAuction emptyID bids reserve =
     (if length bids = 0
      then \<lparr>ao_WinnerID = emptyID, ao_WinningBid = 0, ao_ClearingPrice = 0, ao_ProofCorrect = []\<rparr>
      else case fold (scan_step reserve) bids (None, None) of
        (None, _) \<Rightarrow>
          \<lparr>ao_WinnerID = emptyID, ao_WinningBid = 0, ao_ClearingPrice = 0, ao_ProofCorrect = []\<rparr>
      | (Some highest, secondHighest) \<Rightarrow>
          let clearingPrice =
                (case secondHighest of None \<Rightarrow> reserve | Some s \<Rightarrow> bd_Value s)
          in \<lparr>ao_WinnerID = bd_BidderID highest, ao_WinningBid = bd_Value highest,
              ao_ClearingPrice = clearingPrice, ao_ProofCorrect = []\<rparr>)"

definition generateTranscript ::
  "(Transcript \<Rightarrow> bytes) \<Rightarrow> time \<Rightarrow> Enclave \<Rightarrow> SealedAuction \<Rightarrow> BidData list \<Rightarrow> AuctionOutcome \<Rightarrow>
   bytes" where
  "generateTranscript marshalT now e sealed bids out =
     marshalT \<lparr>tr_auction_id = ID_String (sa_ID sealed), tr_num_bids = length bids,
               tr_reserve = sa_Reserve sealed, tr_winner_id = ID_String (ao_WinnerID out),
               tr_winning_bid = ao_WinningBid out, tr_clearing_price = ao_ClearingPrice out,
               tr_timestamp = unix now, tr_enclave_id = ID_String (en_ID e)\<rparr>"

definition sealTranscript :: "Enclave \<Rightarrow> bytes \<Rightarrow> bytes" where
  "sealTranscript e transcript = xor_key (en_sealingKey e) transcript"

definition commitToPrice :: "(bytes \<Rightarrow> bytes) \<Rightarrow> u64 \<Rightarrow> bytes" where
  "commitToPrice H price = H (be64 price)"

definition Enclave_RunAuction ::
  "(bytes \<Rightarrow> bytes) \<Rightarrow> (Transcript \<Rightarrow> bytes) \<Rightarrow> ID \<Rightarrow> (nat \<Rightarrow> BidDraw) \<Rightarrow> time \<Rightarrow> time \<Rightarrow> time \<Rightarrow>
   ID \<Rightarrow> u64 \<Rightarrow> bytes list \<Rightarrow> Enclave \<Rightarrow>
   (enclave_error + EnclaveAuctionResult) \<times> Enclave" where
  "Enclave_RunAuction H marshalT emptyID draw t0 t1 t2 auctionID reserve encryptedBids e =
     (if \<not> en_Attested e then (Inl ErrNotAttested, e)
      else if length encryptedBids > 1000 then (Inl ErrMaxBidsExceeded, e)
      else
        let sealed0 = \<lparr>sa_ID = auctionID, sa_Bids = encryptedBids, sa_Reserve = reserve,
                       sa_PolicyRoot = H (string_bytes ''policy_v1''), sa_Outcome = None,
                       sa_Transcript = []\<rparr>;
            decryptedBids = decryptAll draw 0 encryptedBids;
            outcome = runSecondPriceAuction emptyID decryptedBids reserve;
            sealed1 = sealed0\<lparr>sa_Outcome := Some outcome\<rparr>;
            transcript = generateTranscript marshalT t1 e sealed1 decryptedBids outcome;
            sealed2 = sealed1\<lparr>sa_Transcript := transcript\<rparr>;
            result = \<lparr>ear_AuctionID = auctionID,
                      ear_WinnerCommit = H (string_bytes (ID_String (ao_WinnerID outcome))),
                      ear_PriceCommit = commitToPrice H (ao_ClearingPrice outcome),
                      ear_NumBids = length decryptedBids, ear_ExecutionTime = t2 - t0,
                      ear_EnclaveQuote = en_Quote e,
                      ear_Transcript = sealTranscript e transcript\<rparr>
        in (Inr result,
            e\<lparr>en_auctions := (en_auctions e)(auctionID \<mapsto> sealed2),
              en_processed := en_processed e + 1\<rparr>))"

definition VerifyAttestation ::
  "(bytes \<Rightarrow> bytes) \<Rightarrow> (bytes \<Rightarrow> AttestationStatement option) \<Rightarrow> bytes \<Rightarrow> bytes option \<Rightarrow> bool" where
  "VerifyAttestation H unmarshal quote expectedMREnclave =
     (if length quote < 64 then False
      else
        let statementData = take (length quote - 32) quote in
        case unmarshal statementData of
          None \<Rightarrow> False
        | Some statement \<Rightarrow>
            if (case expectedMREnclave of None \<Rightarrow> False
                | Some m \<Rightarrow> as_MREnclave statement \<noteq> m) then False
            else drop (length quote - 32) quote = H statementData)"

definition GetAttestation :: "Enclave \<Rightarrow> BaseHeader" where
  "GetAttestation e =
     \<lparr>hd_Type = HeaderTypeOther ''enclave_attestation'', hd_ID = en_ID e,
      hd_Timestamp = en_AttestedTime e, hd_Signature = en_Quote e,
      hd_Predecessors = [], hd_Height = 0\<rparr>"

subsection \<open>The scan keeps the best two bids\<close>

definition best_two :: "BidData multiset \<Rightarrow> BidData option \<times> BidData option \<Rightarrow> bool" where
  "best_two M hs \<longleftrightarrow>
     (case hs of
        (None, None) \<Rightarrow> M = {#}
      | (Some w, None) \<Rightarrow> M = {#w#}
      | (Some w, Some x) \<Rightarrow>
          (\<exists>N. M = add_mset w (add_mset x N) \<and> bd_Value x \<le> bd_Value w \<and>
               (\<forall>y\<in>#N. bd_Value y \<le> bd_Value x))
      | (None, Some _) \<Rightarrow> False)"

lemma best_two_step:
  assumes "best_two M hs" and "r \<le> bd_Value b"
  shows "best_two (add_mset b M) (scan_step r b hs)"
proof -
  obtain h s where hs: "hs = (h, s)" by force
  show ?thesis
  proof (cases h)
    case None
    with assms hs show ?thesis
      by (cases s) (auto simp: best_two_def scan_step_def)
  next
    case h: (Some w)
    show ?thesis
    proof (cases s)
      case None
      with assms hs h show ?thesis
        by (auto simp: best_two_def scan_step_def not_less)
    next
      case (Some x)
      with assms hs h obtain N where N: "M = add_mset w (add_mset x N)"
        "bd_Value x \<le> bd_Value w" "\<forall>y\<in>#N. bd_Value y \<le> bd_Value x"
        by (auto simp: best_two_def)
      consider "bd_Value w < bd_Value b"
        | "\<not> bd_Value w < bd_Value b" "bd_Value x < bd_Value b"
        | "\<not> bd_Value w < bd_Value b" "\<not> bd_Value x < bd_Value b" by blast
      then show ?thesis
      proof cases
        case 1
        have "\<forall>y\<in>#add_mset x N. bd_Value y \<le> bd_Value w" using N by auto
        with 1 N assms(2) hs h Some show ?thesis
          by (auto simp: best_two_def scan_step_def intro!: exI [of _ "add_mset x N"])
      next
        case 2
        have "\<forall>y\<in>#add_mset x N. bd_Value y \<le> bd_Value b" using N 2 by auto
        with 2 N assms(2) hs h Some show ?thesis
          by (auto simp: best_two_def scan_step_def not_less add_mset_commute
              intro!: exI [of _ "add_mset x N"])
      next
        case 3
        with N assms(2) hs h Some show ?thesis
          by (auto simp: best_two_def scan_step_def not_less add_mset_commute
              intro!: exI [of _ "add_mset b N"])
      qed
    qed
  qed
qed

lemma best_two_fold:
  "best_two M hs \<Longrightarrow>
     best_two (M + mset (filter (\<lambda>b. r \<le> bd_Value b) bs)) (fold (scan_step r) bs hs)"
proof (induction bs arbitrary: M hs)
  case Nil
  then show ?case by simp
next
  case (Cons b bs)
  show ?case
  proof (cases "r \<le> bd_Value b")
    case True
    from Cons.IH [OF best_two_step [OF Cons.prems True]] True show ?thesis by simp
  next
    case False
    then have "scan_step r b hs = hs" by (auto simp: scan_step_def split: prod.splits)
    with Cons.IH [OF Cons.prems] False show ?thesis by simp
  qed
qed

text \<open>The winner and price of the scan, before they are packed into an outcome.\<close>

definition enclave_select :: "u64 \<Rightarrow> BidData list \<Rightarrow> (BidData \<times> u64) option" where
  "enclave_select r bs =
     (case fold (scan_step r) bs (None, None) of
        (None, _) \<Rightarrow> None
      | (Some h, s) \<Rightarrow> Some (h, case s of None \<Rightarrow> r | Some x \<Rightarrow> bd_Value x))"

lemma runSecondPriceAuction_select:
  "runSecondPriceAuction emptyID bs r =
     (case enclave_select r bs of
        None \<Rightarrow> \<lparr>ao_WinnerID = emptyID, ao_WinningBid = 0, ao_ClearingPrice = 0, ao_ProofCorrect = []\<rparr>
      | Some (w, p) \<Rightarrow> \<lparr>ao_WinnerID = bd_BidderID w, ao_WinningBid = bd_Value w,
                       ao_ClearingPrice = p, ao_ProofCorrect = []\<rparr>)"
  by (auto simp: runSecondPriceAuction_def enclave_select_def split: prod.splits option.splits)

lemma enclave_select_cases:
  obtains "enclave_select r bs = None" "{#b \<in># mset bs. r \<le> bd_Value b#} = {#}"
  | w where "enclave_select r bs = Some (w, r)"
      "{#b \<in># mset bs. r \<le> bd_Value b#} = {#w#}"
  | w x N where "enclave_select r bs = Some (w, bd_Value x)"
      "{#b \<in># mset bs. r \<le> bd_Value b#} = add_mset w (add_mset x N)"
      "bd_Value x \<le> bd_Value w" "\<forall>y\<in>#N. bd_Value y \<le> bd_Value x"
proof -
  from best_two_fold [of "{#}" "(None, None)" r bs]
  have "best_two ({#b \<in># mset bs. r \<le> bd_Value b#}) (fold (scan_step r) bs (None, None))"
    by (simp add: best_two_def)
  with that show thesis
    by (auto simp: enclave_select_def best_two_def split: prod.splits option.splits)
qed

text \<open>The bids at or above the reserve decide winner, maximum and price.\<close>

lemma above_reserve:
  assumes "{#b \<in># mset bs. r \<le> bd_Value b#} = M" and "w \<in># M"
  shows "w \<in> set bs \<and> r \<le> bd_Value w"
  using assms by auto

lemma enclave_price:
  assumes "{#b \<in># mset bs. r \<le> bd_Value b#} = add_mset w M"
  shows "Max (insert r (bd_Value ` set_mset (mset bs - {#w#}))) = Max (insert r (bd_Value ` set_mset M))"
proof -
  have "r \<le> bd_Value w" using above_reserve [OF assms, of w] by simp
  then have "filter_mset (\<lambda>b. r \<le> bd_Value b) (mset bs - {#w#}) = M"
    using assms by (simp add: filter_diff_mset)
  with Max_insert_filter [of r bd_Value "mset bs - {#w#}"] show ?thesis by simp
qed

lemma Max_insert_top:
  fixes r :: "'a::linorder"
  assumes "finite A" "x \<in> A" "r \<le> x" "\<forall>y\<in>A. y \<le> x"
  shows "Max (insert r A) = x"
  using assms by (intro Max_eqI) auto

interpretation enclave: second_price bd_BidderID bd_Value enclave_select
proof (unfold_locales, goal_cases)
  case (1 r bs)
  show ?case
  proof (cases rule: enclave_select_cases [of r bs])
    case 1
    then show ?thesis by (auto simp: filter_empty_conv not_le)
  next
    case (2 w)
    with above_reserve [OF 2(2), of w] show ?thesis by (auto simp: not_less)
  next
    case (3 w x N)
    with above_reserve [OF 3(2), of w] show ?thesis by (auto simp: not_less)
  qed
next
  case (2 r bs w p)
  have *: "w \<in> set bs \<and> r \<le> bd_Value w \<and> (\<forall>b\<in>set bs. bd_Value b \<le> bd_Value w)"
    if m: "{#b \<in># mset bs. r \<le> bd_Value b#} = add_mset w M"
      and top: "\<forall>y\<in>#M. bd_Value y \<le> bd_Value w" for M
  proof -
    have w: "w \<in> set bs \<and> r \<le> bd_Value w" using above_reserve [OF m, of w] by simp
    have "bd_Value b \<le> bd_Value w" if "b \<in> set bs" for b
    proof (cases "r \<le> bd_Value b")
      case True
      with that have "b \<in># {#b \<in># mset bs. r \<le> bd_Value b#}" by simp
      with m top show ?thesis by (auto)
    next
      case False
      then have "bd_Value b \<le> r" by simp
      with w show ?thesis by (blast intro: order.trans)
    qed
    with w show ?thesis by blast
  qed
  show ?case
    by (cases rule: enclave_select_cases [of r bs]) (use 2 in \<open>auto intro!: * dest: order.trans\<close>)
next
  case (3 r bs w p)
  show ?case
  proof (cases rule: enclave_select_cases [of r bs])
    case 1
    with \<open>enclave_select r bs = Some (w, p)\<close> show ?thesis by simp
  next
    case (2 v)
    with \<open>enclave_select r bs = Some (w, p)\<close> enclave_price [of r bs v "{#}"] show ?thesis by simp
  next
    case (3 v x N)
    have "r \<le> bd_Value x" using above_reserve [OF 3(2), of x] by simp
    with 3(4) have "Max (insert r (bd_Value ` set_mset (add_mset x N))) = bd_Value x"
      by (intro Max_insert_top) auto
    with 3 \<open>enclave_select r bs = Some (w, p)\<close> enclave_price [of r bs v "add_mset x N"]
    show ?thesis by simp
  qed
qed

subsection \<open>The two auctions agree\<close>

context slice_sort
begin

lemma selects_agree:
  assumes v: "map bd_Value ds = map db_Value bs"
  shows "map_option (\<lambda>(w, p). (db_Value w, p)) (auction_select srt r bs) =
         map_option (\<lambda>(w, p). (bd_Value w, p)) (enclave_select r ds)"
proof -
  have s: "bd_Value ` set ds = db_Value ` set bs"
    using arg_cong [OF v, of set] by simp
  have none: "auction_select srt r bs = None \<longleftrightarrow> enclave_select r ds = None"
  proof -
    have "(\<forall>b\<in>set bs. db_Value b < r) \<longleftrightarrow> (\<forall>v\<in>db_Value ` set bs. v < r)" by simp
    also have "\<dots> \<longleftrightarrow> (\<forall>v\<in>bd_Value ` set ds. v < r)" by (simp only: s)
    finally show ?thesis unfolding mech.sel_None enclave.sel_None by simp
  qed
  show ?thesis
  proof (cases "enclave_select r ds")
    case None
    with none show ?thesis by simp
  next
    case (Some wp)
    with none obtain w p x q where
      e: "enclave_select r ds = Some (w, p)" and a: "auction_select srt r bs = Some (x, q)"
      by (metis not_None_eq surj_pair)
    have "bd_Value w = db_Value x"
      using enclave.winning_value [OF e] mech.winning_value [OF a] s by simp
    moreover have "p = q"
      using enclave.price_by_values [OF e] mech.price_by_values [OF a] v by simp
    ultimately show ?thesis using e a by simp
  qed
qed

lemma agrees:
  assumes "map bd_Value ds = bid_values a"
  shows "(case fst (Auction_RunAuction H srt rnd a) of Inl _ \<Rightarrow> (0, 0)
          | Inr out \<Rightarrow> (ao_WinningBid out, ao_ClearingPrice out)) =
         (ao_WinningBid (runSecondPriceAuction emptyID ds (au_Reserve a)),
          ao_ClearingPrice (runSecondPriceAuction emptyID ds (au_Reserve a)))"
  using selects_agree [of ds "collectValid rnd 0 0 (au_Bids a)" "au_Reserve a"] assms
  by (auto simp: RunAuction_select runSecondPriceAuction_select collectValid_bid_values
      split: option.splits)

end

subsection \<open>Attestation and audit log\<close>

lemma NewEnclave_quote:
  assumes "NewEnclave H sha marshal t1 t2 nonce i (Some k) ty = Inr e"
  obtains st data where "marshal st = Some data" "en_Quote e = data @ H data"
    "as_MREnclave st = en_MREnclave e" "as_EnclaveID st = i" "en_Attested e"
    "en_MREnclave e = measureCode sha e" "en_sealingKey e = k"
  using assms
  by (auto simp: NewEnclave_def performAttestation_def generateQuote_def measureCode_def Let_def
      split: option.splits sum.splits prod.splits)

lemma quote_verifies:
  assumes "length (H data) = 32" "32 \<le> length data" "unmarshal data = Some st"
  shows "VerifyAttestation H unmarshal (data @ H data) m \<longleftrightarrow> (m = None \<or> m = Some (as_MREnclave st))"
  using assms by (auto simp: VerifyAttestation_def Let_def split: option.splits)

lemma sealTranscript_twice: "sealTranscript e (sealTranscript e t) = t"
  by (simp add: sealTranscript_def)

lemma Enclave_RunAuction_ok:
  assumes "Enclave_RunAuction H marshalT emptyID draw t0 t1 t2 i r enc e = (Inr res, e')"
  obtains sealed where "en_auctions e' = (en_auctions e)(i \<mapsto> sealed)"
    "ear_Transcript res = sealTranscript e (sa_Transcript sealed)" "en_sealingKey e' = en_sealingKey e"
    "en_processed e' = en_processed e + 1"
    "sa_Outcome sealed = Some (runSecondPriceAuction emptyID (decryptAll draw 0 enc) r)"
    "en_Attested e" "length enc \<le> 1000"
  using assms by (auto simp: Enclave_RunAuction_def Let_def split: if_splits)

subsection \<open>Properties\<close>

text \<open>C17: The enclave's single scan and the auction's sort compute the same auction: on bids
  with the same values, \<open>runSecondPriceAuction\<close> and \<open>Auction.RunAuction\<close> give the same
  winning value and clearing price (zero where the latter reports \<open>ErrNoValidBids\<close>).\<close>

theorem enclave_agrees_with_auction:
  assumes "slice_sort srt" and "map bd_Value ds = bid_values a"
  shows "(case fst (Auction_RunAuction H srt rnd a) of Inl _ \<Rightarrow> (0, 0)
          | Inr out \<Rightarrow> (ao_WinningBid out, ao_ClearingPrice out)) =
         (ao_WinningBid (runSecondPriceAuction emptyID ds (au_Reserve a)),
          ao_ClearingPrice (runSecondPriceAuction emptyID ds (au_Reserve a)))"
  by (rule slice_sort.agrees [OF assms])

definition demo_data :: "u64 \<Rightarrow> BidData" where
  "demo_data v = \<lparr>bd_BidderID = be64 v, bd_Value = v, bd_CreativeID = [], bd_Targeting = Map.empty\<rparr>"

theorem enclave_agrees_with_auction_witness:
  "(case fst (Auction_RunAuction (\<lambda>x. x) go_insertion_sort (\<lambda>_. [])
        (demo_auction [demo_bid 1 500, demo_bid 2 700, demo_bid 3 600])) of Inl _ \<Rightarrow> (0, 0)
      | Inr out \<Rightarrow> (ao_WinningBid out, ao_ClearingPrice out)) = (700, 600)"
proof -
  have "map bd_Value [demo_data 500, demo_data 700, demo_data 600] =
      bid_values (demo_auction [demo_bid 1 500, demo_bid 2 700, demo_bid 3 600])"
    by (simp add: demo_data_def demo_auction_def demo_bid_def bid_values_def readable_def
        commitment_value_def be64_acc_be64)
  from enclave_agrees_with_auction [OF go_sort.slice_sort_axioms this, of "\<lambda>x. x" "\<lambda>_. []" "[]"]
  show ?thesis
    by (simp add: runSecondPriceAuction_def scan_step_def demo_data_def demo_auction_def
        NewAuction_def)
qed

text \<open>C29: An enclave made by \<open>NewEnclave\<close> carries a quote that \<open>VerifyAttestation\<close>
  accepts for the measurement of its own code, and for no other measurement. The hypotheses
  are that the hash has 32 bytes and that JSON decodes what it encoded, as it does when the
  strings of the statement are UTF-8 (and no statement encodes to less than 32 bytes).\<close>

theorem attestation_sound_complete:
  assumes "NewEnclave H sha marshal t1 t2 nonce i (Some k) ty = Inr e"
    and "\<And>x. length (H x) = 32"
    and "\<And>st data. marshal st = Some data \<Longrightarrow> unmarshal data = Some st \<and> 32 \<le> length data"
  shows "VerifyAttestation H unmarshal (en_Quote e) (Some m) \<longleftrightarrow> m = measureCode sha e"
proof -
  obtain st data where "marshal st = Some data" "en_Quote e = data @ H data"
    "as_MREnclave st = en_MREnclave e" "en_MREnclave e = measureCode sha e"
    using NewEnclave_quote [OF assms(1)] by metis
  with quote_verifies [of H data unmarshal st "Some m"] assms(2,3) show ?thesis by auto
qed

definition demo_marshal :: "AttestationStatement \<Rightarrow> bytes option" where
  "demo_marshal st =
     (if st = \<lparr>as_EnclaveID = [], as_Type = ''sgx'', as_MREnclave = [7], as_MRSigner = replicate 32 0,
               as_Timestamp = 0, as_Nonce = []\<rparr> then Some (replicate 40 1) else None)"

definition demo_unmarshal :: "bytes \<Rightarrow> AttestationStatement option" where
  "demo_unmarshal bs =
     Some \<lparr>as_EnclaveID = [], as_Type = ''sgx'', as_MREnclave = [7], as_MRSigner = replicate 32 0,
           as_Timestamp = 0, as_Nonce = []\<rparr>"

theorem attestation_sound_complete_witness:
  "\<exists>e. NewEnclave (\<lambda>_. replicate 32 0) (\<lambda>_. [7]) demo_marshal 0 0 [] [] (Some [1]) ''sgx'' = Inr e
     \<and> VerifyAttestation (\<lambda>_. replicate 32 0) demo_unmarshal (en_Quote e) (Some [7])"
proof -
  obtain e where e: "NewEnclave (\<lambda>_. replicate 32 0) (\<lambda>_. [7]) demo_marshal 0 0 [] [] (Some [1]) ''sgx''
      = Inr e" and m: "measureCode (\<lambda>_. [7]) e = [7]"
    by (auto simp: NewEnclave_def performAttestation_def generateQuote_def measureCode_def
        measureSigner_def demo_marshal_def Let_def)
  have law: "unmarshal = demo_unmarshal \<Longrightarrow> demo_marshal st = Some data \<Longrightarrow>
      unmarshal data = Some st \<and> 32 \<le> length data" for unmarshal st data
    by (auto simp: demo_marshal_def demo_unmarshal_def split: if_splits)
  show ?thesis
    using attestation_sound_complete [OF e _ law [OF refl], of "[7]"] e m by auto
qed

text \<open>A run of the enclave is refused, with nothing changed, when the enclave is not
  attested or gets more than 1000 bids; otherwise it stores the outcome of the second-price
  auction over the readable bids, counts one more processed auction, and returns an audit
  log that sealing a second time under the same key turns back into the stored one.\<close>

theorem enclave_run_spec:
  "(case Enclave_RunAuction H marshalT emptyID draw t0 t1 t2 i r enc e of
      (Inl er, e') \<Rightarrow> e' = e \<and> ((er = ErrNotAttested \<and> \<not> en_Attested e)
                     \<or> (er = ErrMaxBidsExceeded \<and> en_Attested e \<and> 1000 < length enc))
    | (Inr res, e') \<Rightarrow>
        (\<exists>sealed. en_auctions e' = (en_auctions e)(i \<mapsto> sealed)
           \<and> sa_Outcome sealed = Some (runSecondPriceAuction emptyID (decryptAll draw 0 enc) r)
           \<and> sealTranscript e' (ear_Transcript res) = sa_Transcript sealed)
        \<and> en_processed e' = en_processed e + 1)"
  by (auto simp: Enclave_RunAuction_def sealTranscript_def Let_def)

end
