(* ===== verification/Budget.thy ===== *)
theory Budget
  imports Headers
begin

text \<open>
  \<^verbatim>\<open>settlement/budget.go\<close>: advertiser budgets, pending spend and settlement receipts.
  \<open>H\<close> is the hash of \<open>crypto.CreateCommitment\<close>. The receipts of the code are
  pointers that are never changed after they are stored, so they are values here.
\<close>

datatype budget_error =
    ErrBudgetNotFound
  | ErrInsufficientBudget
  | ErrInvalidProof
  | ErrNegativeDelta
  | ErrNoPendingSettlement

record Budget =
  bg_AdvertiserID :: ID
  bg_Total :: u64
  bg_Spent :: u64
  bg_Remaining :: u64
  bg_Commitment :: bytes
  bg_LastUpdated :: time

record SettlementReceipt =
  sr_AdvertiserID :: ID
  sr_PublisherID :: ID
  sr_Amount :: u64
  sr_Period :: time
  sr_Proof :: bytes

record BudgetProof =
  bp_CmBudgetPrev :: bytes
  bp_CmBudgetNew :: bytes
  bp_ProofDelta :: bytes
  bp_Timestamp :: time

record BudgetManager =
  bm_budgets :: "ID \<rightharpoonup> Budget"
  bm_pending :: "ID \<rightharpoonup> u64"
  bm_receipts :: "SettlementReceipt list"

definition NewBudgetManager :: BudgetManager where
  "NewBudgetManager = \<lparr>bm_budgets = Map.empty, bm_pending = Map.empty, bm_receipts = []\<rparr>"

definition createBudgetCommitment :: "(bytes \<Rightarrow> bytes) \<Rightarrow> Budget \<Rightarrow> bytes" where
  "createBudgetCommitment H b = H (be64 (bg_Total b) @ be64 (bg_Spent b) @ be64 (bg_Remaining b))"

definition generateBudgetProof ::
  "(bytes \<Rightarrow> bytes) \<Rightarrow> time \<Rightarrow> bytes \<Rightarrow> bytes \<Rightarrow> u64 \<Rightarrow> u64 \<Rightarrow> BudgetProof" where
  "generateBudgetProof H now prevCommitment newCommitment delta remaining =
     \<lparr>bp_CmBudgetPrev = prevCommitment, bp_CmBudgetNew = newCommitment,
      bp_ProofDelta = H (be64 delta @ be64 remaining), bp_Timestamp = now\<rparr>"

definition SetBudget ::
  "(bytes \<Rightarrow> bytes) \<Rightarrow> time \<Rightarrow> ID \<Rightarrow> u64 \<Rightarrow> BudgetManager \<Rightarrow> BudgetManager" where
  "SetBudget H now advertiserID amount bm =
     (let budget = \<lparr>bg_AdvertiserID = advertiserID, bg_Total = amount, bg_Spent = 0,
                    bg_Remaining = amount, bg_Commitment = [], bg_LastUpdated = now\<rparr>;
          budget' = budget\<lparr>bg_Commitment := createBudgetCommitment H budget\<rparr>
      in bm\<lparr>bm_budgets := (bm_budgets bm)(advertiserID \<mapsto> budget')\<rparr>)"

definition DeductBudget ::
  "(bytes \<Rightarrow> bytes) \<Rightarrow> time \<Rightarrow> time \<Rightarrow> ID \<Rightarrow> u64 \<Rightarrow> ID \<Rightarrow> BudgetManager \<Rightarrow>
   (budget_error + BudgetProof) \<times> BudgetManager" where
  "DeductBudget H t1 t2 advertiserID amount auctionRef bm =
     (case bm_budgets bm advertiserID of
        None \<Rightarrow> (Inl ErrBudgetNotFound, bm)
      | Some budget \<Rightarrow>
          if bg_Remaining budget < amount then (Inl ErrInsufficientBudget, bm)
          else
            let prevCommitment = bg_Commitment budget;
                budget1 = budget\<lparr>bg_Spent := bg_Spent budget + amount,
                                 bg_Remaining := bg_Remaining budget - amount,
                                 bg_LastUpdated := t1\<rparr>;
                newCommitment = createBudgetCommitment H budget1;
                budget2 = budget1\<lparr>bg_Commitment := newCommitment\<rparr>;
                proof = generateBudgetProof H t2 prevCommitment newCommitment amount
                          (bg_Remaining budget2);
                old = (case bm_pending bm advertiserID of None \<Rightarrow> 0 | Some p \<Rightarrow> p)
            in (Inr proof,
                bm\<lparr>bm_budgets := (bm_budgets bm)(advertiserID \<mapsto> budget2),
                   bm_pending := (bm_pending bm)(advertiserID \<mapsto> old + amount)\<rparr>))"

definition generateSettlementProof ::
  "(bytes \<Rightarrow> bytes) \<Rightarrow> ID \<Rightarrow> ID \<Rightarrow> u64 \<Rightarrow> time \<Rightarrow> bytes" where
  "generateSettlementProof H advertiserID publisherID amount period =
     H (advertiserID @ publisherID @ be64 amount @ be64 (word_of_int (unix period)))"

definition CreateSettlement ::
  "(bytes \<Rightarrow> bytes) \<Rightarrow> ID \<Rightarrow> ID \<Rightarrow> time \<Rightarrow> BudgetManager \<Rightarrow>
   (budget_error + SettlementReceipt) \<times> BudgetManager" where
  "CreateSettlement H advertiserID publisherID period bm =
     (case bm_pending bm advertiserID of
        None \<Rightarrow> (Inl ErrNoPendingSettlement, bm)
      | Some amount \<Rightarrow>
          if amount = 0 then (Inl ErrNoPendingSettlement, bm)
          else
            let proof = generateSettlementProof H advertiserID publisherID amount period;
                receipt = \<lparr>sr_AdvertiserID = advertiserID, sr_PublisherID = publisherID,
                           sr_Amount = amount, sr_Period = period, sr_Proof = proof\<rparr>
            in (Inr receipt,
                bm\<lparr>bm_pending := (bm_pending bm)(advertiserID := None),
                   bm_receipts := bm_receipts bm @ [receipt]\<rparr>))"

definition CreateBudgetHeader :: "ID \<Rightarrow> ID \<Rightarrow> BudgetProof \<Rightarrow> BudgetHeader" where
  "CreateBudgetHeader newID advertiserID proof =
     \<lparr>hd_Type = HeaderTypeBudget, hd_ID = newID, hd_Timestamp = bp_Timestamp proof,
      hd_Signature = [], hd_Predecessors = [], hd_Height = 1,
      bud_AdvertiserID = advertiserID, bud_CmBudgetPrev = bp_CmBudgetPrev proof,
      bud_CmBudgetNew = bp_CmBudgetNew proof, bud_ProofDelta = bp_ProofDelta proof\<rparr>"

definition CreateSettlementHeader ::
  "(bytes \<Rightarrow> bytes) \<Rightarrow> time \<Rightarrow> ID \<Rightarrow> SettlementReceipt \<Rightarrow> SettlementHeader" where
  "CreateSettlementHeader H now newID receipt =
     \<lparr>hd_Type = HeaderTypeSettlement, hd_ID = newID, hd_Timestamp = now,
      hd_Signature = [], hd_Predecessors = [], hd_Height = 1,
      sh_AdvertiserID = sr_AdvertiserID receipt, sh_PublisherID = sr_PublisherID receipt,
      sh_CmAmount = H (be64 (sr_Amount receipt)), sh_ProofSettle = sr_Proof receipt\<rparr>"

definition VerifyBudgetProof :: "BudgetProof \<Rightarrow> bool" where
  "VerifyBudgetProof proof \<longleftrightarrow>
     length (bp_ProofDelta proof) > 0 \<and> length (bp_CmBudgetPrev proof) > 0 \<and>
     length (bp_CmBudgetNew proof) > 0"

definition VerifySettlementProof :: "bytes \<Rightarrow> bool" where
  "VerifySettlementProof proof \<longleftrightarrow> length proof > 0"

subsection \<open>Runs\<close>

datatype budget_op =
    BSet time ID u64
  | BDeduct time time ID u64 ID
  | BSettle ID ID time

fun budget_step :: "(bytes \<Rightarrow> bytes) \<Rightarrow> budget_op \<Rightarrow> BudgetManager \<Rightarrow> BudgetManager" where
  "budget_step H (BSet now adv amt) bm = SetBudget H now adv amt bm"
| "budget_step H (BDeduct t1 t2 adv amt ref) bm = snd (DeductBudget H t1 t2 adv amt ref bm)"
| "budget_step H (BSettle adv pub per) bm = snd (CreateSettlement H adv pub per bm)"

text \<open>What one call, and a run of calls, took from the budget of \<open>adv\<close>.\<close>

fun taken :: "(bytes \<Rightarrow> bytes) \<Rightarrow> ID \<Rightarrow> budget_op \<Rightarrow> BudgetManager \<Rightarrow> u64" where
  "taken H adv (BDeduct t1 t2 a amt ref) bm =
     (if a = adv \<and> is_ok (fst (DeductBudget H t1 t2 a amt ref bm)) then amt else 0)"
| "taken H adv _ bm = 0"

fun takes :: "(bytes \<Rightarrow> bytes) \<Rightarrow> ID \<Rightarrow> budget_op list \<Rightarrow> BudgetManager \<Rightarrow> u64 list" where
  "takes H adv [] bm = []"
| "takes H adv (op # ops) bm = taken H adv op bm # takes H adv ops (budget_step H op bm)"

definition pending_of :: "ID \<Rightarrow> BudgetManager \<Rightarrow> u64" where
  "pending_of adv bm = (case bm_pending bm adv of None \<Rightarrow> 0 | Some p \<Rightarrow> p)"

definition settled_of :: "ID \<Rightarrow> BudgetManager \<Rightarrow> u64" where
  "settled_of adv bm =
     sum_list (map sr_Amount (filter (\<lambda>r. sr_AdvertiserID r = adv) (bm_receipts bm)))"

definition budget_ok :: "(bytes \<Rightarrow> bytes) \<Rightarrow> ID \<Rightarrow> Budget \<Rightarrow> bool" where
  "budget_ok H adv b \<longleftrightarrow>
     bg_AdvertiserID b = adv \<and>
     unat (bg_Spent b) + unat (bg_Remaining b) = unat (bg_Total b) \<and>
     bg_Commitment b = createBudgetCommitment H b"

definition budgets_ok :: "(bytes \<Rightarrow> bytes) \<Rightarrow> BudgetManager \<Rightarrow> bool" where
  "budgets_ok H bm \<longleftrightarrow> (\<forall>adv b. bm_budgets bm adv = Some b \<longrightarrow> budget_ok H adv b)"

lemma createBudgetCommitment_cong [simp]:
  "createBudgetCommitment H (b\<lparr>bg_Commitment := c\<rparr>) = createBudgetCommitment H b"
  by (simp add: createBudgetCommitment_def)

lemma deduct_split:
  fixes s r t a :: u64
  assumes "unat s + unat r = unat t" and "\<not> r < a"
  shows "unat (s + a) + unat (r - a) = unat t" and "unat (s + a) = unat s + unat a"
    and "unat (r - a) + unat a = unat r"
proof -
  have le: "unat a \<le> unat r" using assms(2) by (simp add: word_le_nat_alt not_less)
  have r: "unat (r - a) = unat r - unat a" using assms(2) by (simp add: unat_sub not_less)
  have "unat s + unat a < 2 ^ LENGTH(64)"
    using le assms(1) unsigned_less [of t, where ?'a = nat] by linarith
  then show s: "unat (s + a) = unat s + unat a" by (simp add: unat_word_ariths)
  show "unat (s + a) + unat (r - a) = unat t" using s r le assms(1) by simp
  show "unat (r - a) + unat a = unat r" using r le by simp
qed

lemma SetBudget_ok: "budgets_ok H bm \<Longrightarrow> budgets_ok H (SetBudget H now adv amt bm)"
  by (auto simp: budgets_ok_def SetBudget_def budget_ok_def Let_def createBudgetCommitment_def)

lemma DeductBudget_Inr:
  assumes "DeductBudget H t1 t2 adv amt ref bm = (Inr p, bm')"
  obtains b where "bm_budgets bm adv = Some b" "\<not> bg_Remaining b < amt"
    "bm_budgets bm' = (bm_budgets bm)(adv \<mapsto>
       b\<lparr>bg_Spent := bg_Spent b + amt, bg_Remaining := bg_Remaining b - amt, bg_LastUpdated := t1,
         bg_Commitment := bp_CmBudgetNew p\<rparr>)"
    "bp_CmBudgetNew p = createBudgetCommitment H
       (b\<lparr>bg_Spent := bg_Spent b + amt, bg_Remaining := bg_Remaining b - amt\<rparr>)"
    "bp_CmBudgetPrev p = bg_Commitment b"
    "bp_ProofDelta p = H (be64 amt @ be64 (bg_Remaining b - amt))"
    "bm_pending bm' = (bm_pending bm)(adv \<mapsto> pending_of adv bm + amt)"
    "bm_receipts bm' = bm_receipts bm"
  using assms
  by (auto simp: DeductBudget_def generateBudgetProof_def createBudgetCommitment_def pending_of_def
      Let_def split: option.splits if_splits)

lemma DeductBudget_Inl:
  "DeductBudget H t1 t2 adv amt ref bm = (Inl e, bm') \<Longrightarrow> bm' = bm"
  by (auto simp: DeductBudget_def Let_def split: option.splits if_splits)

lemma DeductBudget_ok:
  assumes "budgets_ok H bm"
  shows "budgets_ok H (snd (DeductBudget H t1 t2 adv amt ref bm))"
proof -
  obtain r bm' where d: "DeductBudget H t1 t2 adv amt ref bm = (r, bm')" by force
  show ?thesis
  proof (cases r)
    case (Inl e)
    with d have "bm' = bm" by (auto dest: DeductBudget_Inl)
    with d assms show ?thesis by simp
  next
    case (Inr p)
    with d have "DeductBudget H t1 t2 adv amt ref bm = (Inr p, bm')" by simp
    then obtain b where b: "bm_budgets bm adv = Some b" "\<not> bg_Remaining b < amt"
      "bm_budgets bm' = (bm_budgets bm)(adv \<mapsto>
         b\<lparr>bg_Spent := bg_Spent b + amt, bg_Remaining := bg_Remaining b - amt, bg_LastUpdated := t1,
           bg_Commitment := bp_CmBudgetNew p\<rparr>)"
      "bp_CmBudgetNew p = createBudgetCommitment H
         (b\<lparr>bg_Spent := bg_Spent b + amt, bg_Remaining := bg_Remaining b - amt\<rparr>)"
      by (rule DeductBudget_Inr)
    from assms b(1) have "budget_ok H adv b" by (simp add: budgets_ok_def)
    with b(2,4) have "budget_ok H adv
        (b\<lparr>bg_Spent := bg_Spent b + amt, bg_Remaining := bg_Remaining b - amt, bg_LastUpdated := t1,
           bg_Commitment := bp_CmBudgetNew p\<rparr>)"
      using deduct_split [of "bg_Spent b" "bg_Remaining b" "bg_Total b" amt]
      by (simp add: budget_ok_def createBudgetCommitment_def)
    with assms b(3) d show ?thesis by (simp add: budgets_ok_def)
  qed
qed

lemma CreateSettlement_budgets [simp]:
  "bm_budgets (snd (CreateSettlement H adv pub per bm)) = bm_budgets bm"
  by (simp add: CreateSettlement_def Let_def split: option.splits)

lemma budget_step_ok [adx_inv]: "budgets_ok H bm \<Longrightarrow> budgets_ok H (budget_step H op bm)"
  by (cases op) (simp_all add: SetBudget_ok DeductBudget_ok, simp add: budgets_ok_def)

interpretation budgets: object_invariant "budget_step H" "budgets_ok H" for H
  by unfold_locales (rule budget_step_ok)

lemma budgets_ok_New: "budgets_ok H NewBudgetManager"
  by (simp add: budgets_ok_def NewBudgetManager_def)


subsection \<open>One call, seen from one advertiser\<close>

fun sets_budget :: "ID \<Rightarrow> budget_op \<Rightarrow> bool" where
  "sets_budget adv (BSet now a amt) = (a = adv)"
| "sets_budget adv _ = False"

text \<open>The proofs handed out for one advertiser in a run, oldest first.\<close>

fun proofs_of :: "(bytes \<Rightarrow> bytes) \<Rightarrow> ID \<Rightarrow> budget_op list \<Rightarrow> BudgetManager \<Rightarrow> BudgetProof list"
where
  "proofs_of H adv [] bm = []"
| "proofs_of H adv (BDeduct t1 t2 a amt ref # ops) bm =
     (case DeductBudget H t1 t2 a amt ref bm of
        (Inr p, bm') \<Rightarrow> (if a = adv then [p] else []) @ proofs_of H adv ops bm'
      | (Inl e, bm') \<Rightarrow> proofs_of H adv ops bm')"
| "proofs_of H adv (op # ops) bm = proofs_of H adv ops (budget_step H op bm)"

text \<open>Each proof starts at the commitment the one before it ended with.\<close>

fun chained :: "bytes \<Rightarrow> BudgetProof list \<Rightarrow> bytes \<Rightarrow> bool" where
  "chained c [] d = (c = d)"
| "chained c (p # ps) d = (bp_CmBudgetPrev p = c \<and> chained (bp_CmBudgetNew p) ps d)"

lemma other_budget [adx_frame]:
  "a \<noteq> adv \<Longrightarrow>
     bm_budgets (snd (DeductBudget H t1 t2 a amt ref bm)) adv = bm_budgets bm adv"
  by (simp add: DeductBudget_def Let_def split: option.splits)

lemma step_remaining:
  assumes "budgets_ok H bm" and "bm_budgets bm adv = Some b" and "\<not> sets_budget adv op"
  obtains b' where "bm_budgets (budget_step H op bm) adv = Some b'"
    "unat (taken H adv op bm) + unat (bg_Remaining b') = unat (bg_Remaining b)"
    "bg_Total b' = bg_Total b"
proof (cases op)
  case (BSet now a amt)
  with assms(2,3) show ?thesis by (intro that [of b]) (auto simp: SetBudget_def Let_def)
next
  case (BSettle a pub per)
  with assms(2) show ?thesis by (intro that [of b]) auto
next
  case op: (BDeduct t1 t2 a amt ref)
  obtain r bm' where d: "DeductBudget H t1 t2 a amt ref bm = (r, bm')" by force
  show ?thesis
  proof (cases "a = adv \<and> is_ok r")
    case False
    then have "bm_budgets bm' adv = Some b"
      using d assms(2) other_budget [of a adv H t1 t2 amt ref bm]
      by (cases r) (auto dest: DeductBudget_Inl)
    with False op d show ?thesis by (intro that [of b]) auto
  next
    case True
    then obtain p where "DeductBudget H t1 t2 adv amt ref bm = (Inr p, bm')"
      using d by (cases r) auto
    then obtain b0 where b0: "bm_budgets bm adv = Some b0" "\<not> bg_Remaining b0 < amt"
      "bm_budgets bm' = (bm_budgets bm)(adv \<mapsto>
         b0\<lparr>bg_Spent := bg_Spent b0 + amt, bg_Remaining := bg_Remaining b0 - amt,
            bg_LastUpdated := t1, bg_Commitment := bp_CmBudgetNew p\<rparr>)"
      by (rule DeductBudget_Inr)
    have "budget_ok H adv b" using assms(1,2) by (simp add: budgets_ok_def)
    then have "unat (bg_Remaining b - amt) + unat amt = unat (bg_Remaining b)"
      using b0(1,2) assms(2) deduct_split(3) [of "bg_Spent b" "bg_Remaining b" "bg_Total b" amt]
      by (simp add: budget_ok_def)
    with True op d b0 assms(2) show ?thesis
      by (intro that [of "b\<lparr>bg_Spent := bg_Spent b + amt, bg_Remaining := bg_Remaining b - amt,
            bg_LastUpdated := t1, bg_Commitment := bp_CmBudgetNew p\<rparr>"])
         (auto simp: add.commute)
  qed
qed

lemma run_remaining:
  assumes "budgets_ok H bm" and "bm_budgets bm adv = Some b"
    and "\<forall>op\<in>set ops. \<not> sets_budget adv op"
  shows "\<exists>b'. bm_budgets (fold (budget_step H) ops bm) adv = Some b' \<and>
    sum_list (map unat (takes H adv ops bm)) + unat (bg_Remaining b') = unat (bg_Remaining b)"
  using assms
proof (induction ops arbitrary: bm b)
  case Nil
  then show ?case by simp
next
  case (Cons op ops)
  obtain b1 where b1: "bm_budgets (budget_step H op bm) adv = Some b1"
    "unat (taken H adv op bm) + unat (bg_Remaining b1) = unat (bg_Remaining b)"
    using Cons.prems by (auto intro: step_remaining [of H bm adv b op])
  from Cons.IH [OF budget_step_ok [OF Cons.prems(1)] b1(1)] Cons.prems(3) b1(2)
  show ?case by auto
qed

lemma DeductBudget_pending:
  "pending_of adv (snd (DeductBudget H t1 t2 a amt ref bm)) =
     pending_of adv bm + taken H adv (BDeduct t1 t2 a amt ref) bm"
  "bm_receipts (snd (DeductBudget H t1 t2 a amt ref bm)) = bm_receipts bm"
  by (auto simp: DeductBudget_def pending_of_def Let_def split: option.splits)

lemma step_pending:
  "pending_of adv (budget_step H op bm) + settled_of adv (budget_step H op bm) =
     pending_of adv bm + settled_of adv bm + taken H adv op bm"
proof (cases op)
  case (BSet now a amt)
  then show ?thesis by (simp add: SetBudget_def pending_of_def settled_of_def Let_def)
next
  case (BDeduct t1 t2 a amt ref)
  then show ?thesis
    by (simp add: DeductBudget_pending settled_of_def ac_simps del: taken.simps)
next
  case (BSettle a pub per)
  then show ?thesis
    by (auto simp: CreateSettlement_def pending_of_def settled_of_def Let_def
        split: option.splits)
qed

lemma run_pending:
  "pending_of adv (fold (budget_step H) ops bm) + settled_of adv (fold (budget_step H) ops bm) =
     pending_of adv bm + settled_of adv bm + sum_list (takes H adv ops bm)"
proof (induction ops arbitrary: bm)
  case (Cons op ops)
  then show ?case using step_pending [of adv H op bm] by (simp add: ac_simps)
qed simp

lemma run_chained:
  assumes "bm_budgets bm adv = Some b" and "\<forall>op\<in>set ops. \<not> sets_budget adv op"
  shows "\<exists>b'. bm_budgets (fold (budget_step H) ops bm) adv = Some b' \<and>
    chained (bg_Commitment b) (proofs_of H adv ops bm) (bg_Commitment b')"
  using assms
proof (induction ops arbitrary: bm b)
  case Nil
  then show ?case by simp
next
  case (Cons op ops)
  show ?case
  proof (cases op)
    case (BSet now a amt)
    with Cons show ?thesis by (auto simp: SetBudget_def Let_def)
  next
    case (BSettle a pub per)
    with Cons show ?thesis by auto
  next
    case op: (BDeduct t1 t2 a amt ref)
    obtain r bm' where d: "DeductBudget H t1 t2 a amt ref bm = (r, bm')" by force
    show ?thesis
    proof (cases r)
      case (Inl e)
      with d have "bm' = bm" by (auto dest: DeductBudget_Inl)
      with Cons op d Inl show ?thesis by auto
    next
      case (Inr p)
      with d have dp: "DeductBudget H t1 t2 a amt ref bm = (Inr p, bm')" by simp
      then obtain b0 where b0: "bm_budgets bm a = Some b0"
        "bm_budgets bm' = (bm_budgets bm)(a \<mapsto>
         b0\<lparr>bg_Spent := bg_Spent b0 + amt, bg_Remaining := bg_Remaining b0 - amt,
            bg_LastUpdated := t1, bg_Commitment := bp_CmBudgetNew p\<rparr>)"
        "bp_CmBudgetPrev p = bg_Commitment b0"
        by (rule DeductBudget_Inr)
      have "\<exists>b1. bm_budgets bm' adv = Some b1 \<and>
        (if a = adv then bg_Commitment b = bp_CmBudgetPrev p \<and> bg_Commitment b1 = bp_CmBudgetNew p
         else b1 = b)"
        using b0 Cons.prems(1) by auto
      then obtain b1 where "bm_budgets bm' adv = Some b1"
        "if a = adv then bg_Commitment b = bp_CmBudgetPrev p \<and> bg_Commitment b1 = bp_CmBudgetNew p
         else b1 = b" by blast
      with Cons.IH [of bm' b1] Cons.prems(2) op dp show ?thesis by auto
    qed
  qed
qed

subsection \<open>Properties\<close>

definition demo_ops :: "budget_op list" where
  "demo_ops = [BSet 0 [1] 100, BDeduct 1 2 [1] 30 [9], BDeduct 2 3 [1] 80 [9], BSettle [1] [2] 5,
     BDeduct 3 4 [1] 20 [9]]"

lemmas demo_eval = demo_ops_def NewBudgetManager_def SetBudget_def DeductBudget_def
  CreateSettlement_def generateBudgetProof_def generateSettlementProof_def
  createBudgetCommitment_def Let_def

text \<open>C4: Whatever calls a budget manager has served since it was created, every budget
  it holds is filed under its own advertiser, its spent and remaining amounts add up to its
  total without wrap-around, and its stored commitment is the commitment to exactly these
  three amounts.\<close>

theorem budget_books_balance:
  assumes "bm_budgets (fold (budget_step H) ops NewBudgetManager) adv = Some b"
  shows "bg_AdvertiserID b = adv \<and>
    unat (bg_Spent b) + unat (bg_Remaining b) = unat (bg_Total b) \<and>
    bg_Commitment b = H (be64 (bg_Total b) @ be64 (bg_Spent b) @ be64 (bg_Remaining b))"
  using budgets.run_inv [OF budgets_ok_New, of H ops] assms
  by (auto simp: budgets_ok_def budget_ok_def createBudgetCommitment_def)

theorem budget_books_balance_witness:
  "\<exists>b. bm_budgets (fold (budget_step id) demo_ops NewBudgetManager) [1] = Some b \<and>
     bg_Spent b = 50 \<and> unat (bg_Spent b) + unat (bg_Remaining b) = unat (bg_Total b)"
proof -
  let ?b = "the (bm_budgets (fold (budget_step id) demo_ops NewBudgetManager) [1])"
  have b: "bm_budgets (fold (budget_step id) demo_ops NewBudgetManager) [1] = Some ?b"
    by (simp add: demo_eval)
  have "bg_Spent ?b = 50" by (simp add: demo_eval)
  with b budget_books_balance [OF b] show ?thesis by blast
qed

text \<open>C5: As long as the budget of an advertiser is not set anew, the amounts of all
  successful deductions of a run, added up as natural numbers, and what remains afterwards
  are together what remained before: the advertiser is never charged more than the budget
  holds, whatever other calls and failed deductions come in between.\<close>

theorem no_overspending:
  assumes "bm_budgets (fold (budget_step H) pre NewBudgetManager) adv = Some b"
    and "\<forall>op\<in>set ops. \<not> sets_budget adv op"
  shows "\<exists>b'. bm_budgets (fold (budget_step H) (pre @ ops) NewBudgetManager) adv = Some b' \<and>
    sum_list (map unat (takes H adv ops (fold (budget_step H) pre NewBudgetManager)))
      + unat (bg_Remaining b') = unat (bg_Remaining b)"
  using run_remaining [OF budgets.run_inv [OF budgets_ok_New] assms] by simp

theorem no_overspending_witness:
  "\<exists>b'. bm_budgets (fold (budget_step id) (take 1 demo_ops @ drop 1 demo_ops) NewBudgetManager) [1]
      = Some b' \<and>
    sum_list (map unat (takes id [1] (drop 1 demo_ops)
      (fold (budget_step id) (take 1 demo_ops) NewBudgetManager)))
      + unat (bg_Remaining b') = 100"
proof -
  let ?b = "the (bm_budgets (fold (budget_step id) (take 1 demo_ops) NewBudgetManager) [1])"
  have b: "bm_budgets (fold (budget_step id) (take 1 demo_ops) NewBudgetManager) [1] = Some ?b"
    by (simp add: demo_eval)
  have "\<forall>op\<in>set (drop 1 demo_ops). \<not> sets_budget [1] op" by (simp add: demo_ops_def)
  moreover have "unat (bg_Remaining ?b) = 100" by (simp add: demo_eval)
  ultimately show ?thesis using no_overspending [OF b, of "drop 1 demo_ops"] by simp
qed

text \<open>Every amount taken from an advertiser is either still pending or recorded on
  exactly one settlement receipt: over any run from the new manager, pending plus settled
  amounts equal the sum of the successful deductions (as 64-bit sums).\<close>

theorem spend_pending_or_settled:
  "pending_of adv (fold (budget_step H) ops NewBudgetManager)
     + settled_of adv (fold (budget_step H) ops NewBudgetManager)
   = sum_list (takes H adv ops NewBudgetManager)"
  using run_pending [of adv H ops NewBudgetManager]
  by (simp add: NewBudgetManager_def pending_of_def settled_of_def)

text \<open>The budget proofs an advertiser gets between two settings of its budget form a
  chain: each one starts at the commitment the one before ended with, the first at the
  commitment of the budget before the run and the last at the commitment of the budget
  after it.\<close>

theorem budget_proofs_chain:
  assumes "bm_budgets bm adv = Some b" and "\<forall>op\<in>set ops. \<not> sets_budget adv op"
  shows "\<exists>b'. bm_budgets (fold (budget_step H) ops bm) adv = Some b' \<and>
    chained (bg_Commitment b) (proofs_of H adv ops bm) (bg_Commitment b')"
  using assms by (rule run_chained)

theorem budget_proofs_chain_witness:
  "(let bm = SetBudget id 0 [1] 100 NewBudgetManager; ops = drop 1 demo_ops in
    length (proofs_of id [1] ops bm) = 2 \<and>
    (\<exists>b'. bm_budgets (fold (budget_step id) ops bm) [1] = Some b' \<and>
      chained (be64 100 @ be64 0 @ be64 100) (proofs_of id [1] ops bm) (bg_Commitment b')))"
proof -
  let ?bm = "SetBudget id 0 [1] 100 NewBudgetManager"
  let ?b = "the (bm_budgets ?bm [1])"
  have b: "bm_budgets ?bm [1] = Some ?b" by (simp add: demo_eval)
  have c: "bg_Commitment ?b = be64 100 @ be64 0 @ be64 100" by (simp add: demo_eval)
  have ns: "\<forall>op\<in>set (drop 1 demo_ops). \<not> sets_budget [1] op" by (simp add: demo_ops_def)
  have len: "length (proofs_of id [1] (drop 1 demo_ops) ?bm) = 2" by (simp add: demo_eval)
  show ?thesis
    unfolding Let_def using budget_proofs_chain [OF b ns, of id] len by (simp only: c)
qed

end
