(* ===== verification/Blocklace.thy ===== *)
theory Blocklace
  imports Headers "HOL-Library.Sublist"
begin

text \<open>
  \<^verbatim>\<open>blocklace/dag.go\<close>: the Blocklace DAG of headers, its total order and its
  equivocation detection, and the cordial miner that proposes and receives headers.

  \<open>*Vertex\<close> pointers are the identifiers of the vertices: the code stores a vertex under
  its header's ID, never replaces it, and only \<open>Successors\<close> and \<open>Delivered\<close> change
  later, which are always read from the store. \<open>equivocations\<close> holds the vertices as
  they were when tracked; only their headers and rounds are read from there. The node
  identifier type \<open>ids.NodeID\<close> and the constants \<open>ids.Empty\<close> and
  \<open>ids.EmptyNodeID\<close> are not defined in \<^verbatim>\<open>pkg/ids\<close>: they are the type variable
  \<open>'n\<close> and the parameters \<open>e\<close> and \<open>en\<close>.
\<close>

datatype dag_error =
    ErrEquivocation
  | ErrInvalidPredecessor
  | ErrOrphanBlock
  | ErrByzantine

record 'n Vertex =
  v_Header :: BaseHeader
  v_Predecessors :: "ID list"
  v_Successors :: "ID list"
  v_Author :: 'n
  v_Round :: u64
  v_Delivered :: bool
  v_PayloadHash :: bytes
  v_PayloadPtr :: bytes

record 'n DAG =
  d_vertices :: "ID \<rightharpoonup> 'n Vertex"
  d_tips :: "ID set"
  d_genesis :: ID
  d_equivocations :: "'n \<rightharpoonup> 'n Vertex list"
  d_byzantine :: "'n set"
  d_sequence :: "ID list"
  d_delivered :: "ID set"
  d_height :: u64
  d_width :: nat

record DAGMetrics =
  dm_Vertices :: nat
  dm_Tips :: nat
  dm_Height :: u64
  dm_Width :: nat
  dm_Delivered :: nat
  dm_Byzantine :: nat
  dm_Equivocations :: nat

subsection \<open>The graph\<close>

definition genesis_vertex :: "ID \<Rightarrow> 'n \<Rightarrow> time \<Rightarrow> 'n Vertex" where
  "genesis_vertex e en now =
     \<lparr>v_Header = \<lparr>hd_Type = HeaderTypeOther ''genesis'', hd_ID = e, hd_Timestamp = now,
                 hd_Signature = [], hd_Predecessors = [], hd_Height = 0\<rparr>,
      v_Predecessors = [], v_Successors = [], v_Author = en, v_Round = 0,
      v_Delivered = True, v_PayloadHash = [], v_PayloadPtr = []\<rparr>"

definition NewDAG :: "ID \<Rightarrow> 'n \<Rightarrow> time \<Rightarrow> 'n DAG" where
  "NewDAG e en now =
     \<lparr>d_vertices = [e \<mapsto> genesis_vertex e en now], d_tips = {}, d_genesis = e,
      d_equivocations = Map.empty, d_byzantine = {}, d_sequence = [e], d_delivered = {},
      d_height = 0, d_width = 0\<rparr>"

text \<open>The loop that resolves the predecessor identifiers; the first unknown one ends it.\<close>

fun resolve :: "(ID \<rightharpoonup> 'n Vertex) \<Rightarrow> ID list \<Rightarrow> dag_error + 'n Vertex list" where
  "resolve vs [] = Inr []"
| "resolve vs (p # ps) =
     (case vs p of
        None \<Rightarrow> Inl ErrInvalidPredecessor
      | Some v \<Rightarrow> (case resolve vs ps of Inl err \<Rightarrow> Inl err | Inr vl \<Rightarrow> Inr (v # vl)))"

definition calculateRound :: "'n Vertex list \<Rightarrow> u64" where
  "calculateRound predecessors =
     (if length predecessors = 0 then 0
      else foldl (\<lambda>m p. if v_Round p > m then v_Round p else m) 0 predecessors + 1)"

definition detectEquivocation :: "'n Vertex \<Rightarrow> 'n DAG \<Rightarrow> bool \<times> 'n DAG" where
  "detectEquivocation v d =
     (let authorVertices =
            (case d_equivocations d (v_Author v) of None \<Rightarrow> [] | Some l \<Rightarrow> l) in
      if list_ex (\<lambda>x. v_Round x = v_Round v \<and> hd_ID (v_Header x) \<noteq> hd_ID (v_Header v))
           authorVertices
      then (True, d)
      else (False, d\<lparr>d_equivocations :=
              (d_equivocations d)(v_Author v \<mapsto> authorVertices @ [v])\<rparr>))"

definition handleEquivocation :: "'n Vertex \<Rightarrow> 'n DAG \<Rightarrow> 'n DAG" where
  "handleEquivocation v d = d\<lparr>d_byzantine := insert (v_Author v) (d_byzantine d)\<rparr>"

text \<open>\<open>pred.Successors = append(pred.Successors, vertex)\<close> for each predecessor.\<close>

definition add_successor :: "ID \<Rightarrow> ID \<Rightarrow> 'n DAG \<Rightarrow> 'n DAG" where
  "add_successor i p d =
     (case d_vertices d p of
        None \<Rightarrow> d
      | Some pv \<Rightarrow> d\<lparr>d_vertices :=
          (d_vertices d)(p \<mapsto> pv\<lparr>v_Successors := v_Successors pv @ [i]\<rparr>)\<rparr>)"

definition updateTips :: "'n Vertex \<Rightarrow> 'n DAG \<Rightarrow> 'n DAG" where
  "updateTips v d =
     (let tips = foldl (\<lambda>t p. t - {p}) (insert (hd_ID (v_Header v)) (d_tips d))
                   (v_Predecessors v)
      in d\<lparr>d_tips := tips, d_width := card tips\<rparr>)"

definition is_delivered :: "'n DAG \<Rightarrow> ID \<Rightarrow> bool" where
  "is_delivered d i = (case d_vertices d i of None \<Rightarrow> False | Some v \<Rightarrow> v_Delivered v)"

definition deliver :: "ID \<Rightarrow> 'n Vertex \<Rightarrow> 'n DAG \<Rightarrow> 'n DAG" where
  "deliver i v d =
     d\<lparr>d_vertices := (d_vertices d)(i \<mapsto> v\<lparr>v_Delivered := True\<rparr>),
       d_delivered := insert i (d_delivered d),
       d_sequence := d_sequence d @ [i],
       d_height := (if v_Round v > d_height d then v_Round v else d_height d)\<rparr>"

text \<open>
  \<open>tryDeliver\<close> calls itself on the successors of a vertex it has just delivered. The
  recursion is cut by fuel; \<open>None\<close> is running out of it. An identifier that is not in the
  store (no pointer of the code is) is skipped.
\<close>

fun tryDeliver :: "nat \<Rightarrow> ID \<Rightarrow> 'n DAG \<Rightarrow> 'n DAG option"
  and deliverSuccessors :: "nat \<Rightarrow> ID list \<Rightarrow> 'n DAG \<Rightarrow> 'n DAG option" where
  "tryDeliver 0 i d = None"
| "tryDeliver (Suc n) i d =
     (case d_vertices d i of
        None \<Rightarrow> Some d
      | Some v \<Rightarrow>
          if \<not> list_all (is_delivered d) (v_Predecessors v) then Some d
          else deliverSuccessors n (v_Successors v) (deliver i v d))"
| "deliverSuccessors n [] d = Some d"
| "deliverSuccessors n (s # ss) d =
     (if is_delivered d s then deliverSuccessors n ss d
      else (case tryDeliver n s d of None \<Rightarrow> None | Some d' \<Rightarrow> deliverSuccessors n ss d'))"

definition deliver_fuel :: "'n DAG \<Rightarrow> nat" where
  "deliver_fuel d = Suc (card (dom (d_vertices d)))"

text \<open>\<open>Inr None\<close> would be a delivery that does not return; see \<open>AddHeader_returns\<close>.\<close>

definition AddHeader ::
  "BaseHeader \<Rightarrow> 'n \<Rightarrow> 'n DAG \<Rightarrow> (dag_error + unit) \<times> 'n DAG option" where
  "AddHeader header author d =
     (if d_vertices d (hd_ID header) \<noteq> None then (Inr (), Some d)
      else (case resolve (d_vertices d) (hd_Predecessors header) of
        Inl err \<Rightarrow> (Inl err, Some d)
      | Inr preds \<Rightarrow>
          let vertex = \<lparr>v_Header = header, v_Predecessors = map (\<lambda>p. hd_ID (v_Header p)) preds,
                        v_Successors = [], v_Author = author, v_Round = calculateRound preds,
                        v_Delivered = False, v_PayloadHash = [], v_PayloadPtr = []\<rparr> in
          (case detectEquivocation vertex d of
             (True, d1) \<Rightarrow> (Inl ErrEquivocation, Some (handleEquivocation vertex d1))
           | (False, d1) \<Rightarrow>
               let d2 = d1\<lparr>d_vertices := (d_vertices d1)(hd_ID header \<mapsto> vertex)\<rparr>;
                   d3 = fold (add_successor (hd_ID header)) (v_Predecessors vertex) d2;
                   d4 = updateTips vertex d3
               in (Inr (), tryDeliver (deliver_fuel d4) (hd_ID header) d4))))"

definition GetSequence :: "'n DAG \<Rightarrow> ID list" where
  "GetSequence d = d_sequence d"

definition GetTips :: "'n DAG \<Rightarrow> ID set" where
  "GetTips d = d_tips d"

definition IsByzantine :: "'n \<Rightarrow> 'n DAG \<Rightarrow> bool" where
  "IsByzantine n d \<longleftrightarrow> n \<in> d_byzantine d"

definition GetMetrics :: "'n DAG \<Rightarrow> DAGMetrics" where
  "GetMetrics d =
     \<lparr>dm_Vertices = card (dom (d_vertices d)), dm_Tips = card (d_tips d),
      dm_Height = d_height d, dm_Width = d_width d, dm_Delivered = length (d_sequence d),
      dm_Byzantine = card (d_byzantine d), dm_Equivocations = card (dom (d_equivocations d))\<rparr>"

subsection \<open>The miner\<close>

text \<open>\<open>cm_broadcast\<close> says whether the network callback is set.\<close>

record 'n CordialMiner =
  cm_ID :: 'n
  cm_round :: u64
  cm_pending :: "BaseHeader list"
  cm_broadcast :: bool

definition NewCordialMiner :: "'n \<Rightarrow> 'n CordialMiner" where
  "NewCordialMiner n = \<lparr>cm_ID = n, cm_round = 0, cm_pending = [], cm_broadcast = False\<rparr>"

text \<open>
  \<open>tips\<close> is what \<open>GetTips\<close> returned: the tips in the order of the map iteration. The
  result carries the headers handed to the network.
\<close>

definition ProposeHeader ::
  "time \<Rightarrow> ID \<Rightarrow> ID list \<Rightarrow> HeaderType \<Rightarrow> bytes \<Rightarrow> 'n CordialMiner \<Rightarrow> 'n DAG \<Rightarrow>
   (dag_error + BaseHeader) \<times> 'n CordialMiner \<times> 'n DAG option \<times> BaseHeader list" where
  "ProposeHeader now newID tips ty data m d =
     (let header = \<lparr>hd_Type = ty, hd_ID = newID, hd_Timestamp = now, hd_Signature = data,
                    hd_Predecessors = tips, hd_Height = cm_round m\<rparr> in
      case AddHeader header (cm_ID m) d of
        (Inl err, d') \<Rightarrow> (Inl err, m, d', [])
      | (Inr _, d') \<Rightarrow> (Inr header, m\<lparr>cm_round := cm_round m + 1\<rparr>, d',
                       if cm_broadcast m then [header] else []))"

definition ReceiveHeader ::
  "BaseHeader \<Rightarrow> 'n \<Rightarrow> 'n CordialMiner \<Rightarrow> 'n DAG \<Rightarrow>
   (dag_error + unit) \<times> 'n CordialMiner \<times> 'n DAG option" where
  "ReceiveHeader header sender m d =
     (if IsByzantine sender d then (Inl ErrByzantine, m, Some d)
      else (case AddHeader header sender d of
        (Inl err, d') \<Rightarrow> (Inl err, m, d')
      | (Inr _, None) \<Rightarrow> (Inr (), m, None)
      | (Inr _, Some d') \<Rightarrow>
          let sequence = GetSequence d' in
          if length sequence > 0 then
            (case d_vertices d' (last sequence) of
               None \<Rightarrow> (Inr (), m, Some d')
             | Some lastDelivered \<Rightarrow>
                 (Inr (), if v_Round lastDelivered > cm_round m
                          then m\<lparr>cm_round := v_Round lastDelivered\<rparr> else m, Some d'))
          else (Inr (), m, Some d')))"

subsection \<open>Delivery terminates\<close>

definition undelivered :: "'n DAG \<Rightarrow> ID set" where
  "undelivered d = {i. \<exists>v. d_vertices d i = Some v \<and> \<not> v_Delivered v}"

definition shrinks :: "'n DAG \<Rightarrow> 'n DAG \<Rightarrow> bool" where
  "shrinks d d' \<longleftrightarrow> undelivered d' \<subseteq> undelivered d \<and> dom (d_vertices d') = dom (d_vertices d)"

lemma undelivered_finite: "finite (dom (d_vertices d)) \<Longrightarrow> finite (undelivered d)"
  by (rule finite_subset [of _ "dom (d_vertices d)"]) (auto simp: undelivered_def)

lemma shrinks_card:
  "finite (dom (d_vertices d)) \<Longrightarrow> shrinks d d' \<Longrightarrow> card (undelivered d') \<le> card (undelivered d)"
  by (simp add: shrinks_def card_mono undelivered_finite)

lemma shrinks_trans: "shrinks d d' \<Longrightarrow> shrinks d' d'' \<Longrightarrow> shrinks d d''"
  by (auto simp: shrinks_def)

lemma deliver_undelivered:
  assumes "d_vertices d i = Some v" and "\<not> v_Delivered v"
  shows "undelivered (deliver i v d) = undelivered d - {i}" and "i \<in> undelivered d"
    and "dom (d_vertices (deliver i v d)) = dom (d_vertices d)"
  using assms by (auto simp: undelivered_def deliver_def)

lemma deliverSuccessors_total:
  assumes step: "\<And>i d :: 'n DAG. finite (dom (d_vertices d)) \<Longrightarrow> \<not> is_delivered d i \<Longrightarrow>
      card (undelivered d) < n \<Longrightarrow> \<exists>d'. tryDeliver n i d = Some d' \<and> shrinks d d'"
    and "finite (dom (d_vertices d))" and "card (undelivered d) < n"
  shows "\<exists>d'. deliverSuccessors n ss (d :: 'n DAG) = Some d' \<and> shrinks d d'"
  using assms(2,3)
proof (induction ss arbitrary: d)
  case Nil
  then show ?case by (simp add: shrinks_def)
next
  case (Cons s ss)
  show ?case
  proof (cases "is_delivered d s")
    case True
    with Cons show ?thesis by simp
  next
    case False
    with step Cons.prems obtain d1 where d1: "tryDeliver n s d = Some d1" "shrinks d d1" by blast
    moreover from this Cons.prems have "finite (dom (d_vertices d1))" "card (undelivered d1) < n"
      using shrinks_card [of d d1] by (simp_all add: shrinks_def)
    ultimately show ?thesis
      using Cons.IH [of d1] shrinks_trans [of d d1] False by auto
  qed
qed

lemma tryDeliver_total:
  "finite (dom (d_vertices d)) \<Longrightarrow> \<not> is_delivered d i \<Longrightarrow> card (undelivered d) < n \<Longrightarrow>
     \<exists>d'. tryDeliver n i d = Some d' \<and> shrinks d d'"
proof (induction n arbitrary: i d)
  case 0
  then show ?case by simp
next
  case (Suc n)
  show ?case
  proof (cases "d_vertices d i")
    case None
    then show ?thesis by (simp add: shrinks_def)
  next
    case (Some v)
    show ?thesis
    proof (cases "list_all (is_delivered d) (v_Predecessors v)")
      case False
      with Some show ?thesis by (simp add: shrinks_def)
    next
      case True
      let ?d = "deliver i v d"
      have nd: "\<not> v_Delivered v" using Suc.prems(2) Some by (simp add: is_delivered_def)
      note del = deliver_undelivered [OF Some nd]
      have "shrinks d ?d" by (auto simp: shrinks_def del)
      moreover have "finite (dom (d_vertices ?d))" using Suc.prems(1) by (simp only: del)
      moreover have "card (undelivered ?d) < n"
        using card_Diff1_less [OF undelivered_finite [OF Suc.prems(1)] del(2)] Suc.prems(3)
        by (simp only: del(1))
      ultimately show ?thesis
        using deliverSuccessors_total [of n ?d "v_Successors v"] Suc.IH True Some
          shrinks_trans [of d ?d] by auto
    qed
  qed
qed

subsection \<open>What one call does\<close>

lemma resolve_Inr: "resolve vs ps = Inr vl \<Longrightarrow> map vs ps = map Some vl"
  by (induction ps arbitrary: vl) (auto split: option.splits sum.splits)

lemma resolve_Inl: "resolve vs ps = Inl err \<Longrightarrow> err = ErrInvalidPredecessor \<and> (\<exists>p\<in>set ps. vs p = None)"
  by (induction ps) (auto split: option.splits sum.splits)

lemma resolve_ok: "\<forall>p\<in>set ps. vs p \<noteq> None \<Longrightarrow> \<exists>vl. resolve vs ps = Inr vl"
  by (induction ps) auto

lemma resolve_missing: "p \<in> set ps \<Longrightarrow> vs p = None \<Longrightarrow> resolve vs ps = Inl ErrInvalidPredecessor"
  by (induction ps) (auto split: option.splits sum.splits dest: resolve_Inl)

lemma foldl_max_round:
  fixes m :: u64
  defines "f \<equiv> (\<lambda>m p. if v_Round p > m then v_Round p else m)"
  shows "m \<le> foldl f m ps \<and> (\<forall>p\<in>set ps. v_Round p \<le> foldl f m ps) \<and>
    (foldl f m ps = m \<or> (\<exists>p\<in>set ps. foldl f m ps = v_Round p))"
proof (induction ps arbitrary: m)
  case (Cons p ps)
  show ?case using Cons.IH [of "f m p"] by (auto simp: f_def split: if_splits)
qed simp

lemma add_successors_vertices:
  "d_vertices (fold (add_successor i) ps d) j =
     map_option (\<lambda>pv. pv\<lparr>v_Successors := v_Successors pv @ replicate (count_list ps j) i\<rparr>)
       (d_vertices d j)"
proof (induction ps arbitrary: d)
  case Nil
  then show ?case by (cases "d_vertices d j") auto
next
  case (Cons p ps)
  then show ?case
    by (cases "d_vertices d j") (auto simp: add_successor_def split: option.splits)
qed

lemma add_successors_frame [simp]:
  "d_tips (fold (add_successor i) ps d) = d_tips d"
  "d_equivocations (fold (add_successor i) ps d) = d_equivocations d"
  "d_byzantine (fold (add_successor i) ps d) = d_byzantine d"
  "d_sequence (fold (add_successor i) ps d) = d_sequence d"
  "d_delivered (fold (add_successor i) ps d) = d_delivered d"
  "d_height (fold (add_successor i) ps d) = d_height d"
  "d_genesis (fold (add_successor i) ps d) = d_genesis d"
  by (induction ps arbitrary: d, simp_all add: add_successor_def split: option.splits)

lemma foldl_remove: "foldl (\<lambda>t p. t - {p}) T ps = T - set ps"
  by (induction ps arbitrary: T) auto

definition tracked :: "'n \<Rightarrow> 'n DAG \<Rightarrow> 'n Vertex list" where
  "tracked a d = (case d_equivocations d a of None \<Rightarrow> [] | Some l \<Rightarrow> l)"

definition clashes :: "'n \<Rightarrow> ID \<Rightarrow> u64 \<Rightarrow> 'n DAG \<Rightarrow> bool" where
  "clashes a i r d \<longleftrightarrow> (\<exists>x\<in>set (tracked a d). v_Round x = r \<and> hd_ID (v_Header x) \<noteq> i)"

definition new_vertex :: "BaseHeader \<Rightarrow> 'n \<Rightarrow> 'n Vertex list \<Rightarrow> bool \<Rightarrow> 'n Vertex" where
  "new_vertex header author preds dlv =
     \<lparr>v_Header = header, v_Predecessors = hd_Predecessors header,
      v_Successors = [], v_Author = author, v_Round = calculateRound preds,
      v_Delivered = dlv, v_PayloadHash = [], v_PayloadPtr = []\<rparr>"

text \<open>Every stored vertex is filed under its header's ID and delivered.\<close>

definition ids_ok :: "'n DAG \<Rightarrow> bool" where
  "ids_ok d \<longleftrightarrow> (\<forall>i v. d_vertices d i = Some v \<longrightarrow>
     hd_ID (v_Header v) = i \<and> v_Predecessors v = hd_Predecessors (v_Header v) \<and> v_Delivered v)"

lemma resolve_ids:
  assumes "ids_ok d" and "resolve (d_vertices d) ps = Inr preds"
  shows "map (\<lambda>p. hd_ID (v_Header p)) preds = ps"
  using assms(2)
proof (induction ps arbitrary: preds)
  case (Cons p ps)
  with assms(1) show ?case by (auto simp: ids_ok_def split: option.splits sum.splits)
qed simp

lemma detect_clash:
  "detectEquivocation (new_vertex h a preds b) d =
     (if clashes a (hd_ID h) (calculateRound preds) d then (True, d)
      else (False, d\<lparr>d_equivocations :=
        (d_equivocations d)(a \<mapsto> tracked a d @ [new_vertex h a preds b])\<rparr>))"
  by (auto simp: detectEquivocation_def clashes_def tracked_def new_vertex_def Let_def list_ex_iff)

lemma AddHeader_known: "d_vertices d (hd_ID h) \<noteq> None \<Longrightarrow> AddHeader h a d = (Inr (), Some d)"
  by (simp add: AddHeader_def)

lemma AddHeader_missing:
  "d_vertices d (hd_ID h) = None \<Longrightarrow> p \<in> set (hd_Predecessors h) \<Longrightarrow> d_vertices d p = None \<Longrightarrow>
     AddHeader h a d = (Inl ErrInvalidPredecessor, Some d)"
  using resolve_missing [of p "hd_Predecessors h" "d_vertices d"] by (simp add: AddHeader_def)

lemma AddHeader_clash:
  assumes "ids_ok d" and "d_vertices d (hd_ID h) = None"
    and "resolve (d_vertices d) (hd_Predecessors h) = Inr preds"
    and "clashes a (hd_ID h) (calculateRound preds) d"
  shows "AddHeader h a d = (Inl ErrEquivocation, Some (d\<lparr>d_byzantine := insert a (d_byzantine d)\<rparr>))"
proof -
  have "detectEquivocation (new_vertex h a preds False) d = (True, d)"
    using assms(4) by (simp add: detect_clash)
  then show ?thesis
    using assms(2,3)
    by (simp add: AddHeader_def new_vertex_def resolve_ids [OF assms(1,3)] handleEquivocation_def
        Let_def)
qed

text \<open>The state after a header has entered the graph.\<close>

definition added :: "BaseHeader \<Rightarrow> 'n \<Rightarrow> 'n Vertex list \<Rightarrow> 'n DAG \<Rightarrow> 'n DAG" where
  "added h a preds d =
     d\<lparr>d_vertices := (\<lambda>j. if j = hd_ID h then Some (new_vertex h a preds True)
         else map_option (\<lambda>pv. pv\<lparr>v_Successors := v_Successors pv @
                replicate (count_list (hd_Predecessors h) j) (hd_ID h)\<rparr>) (d_vertices d j)),
       d_tips := insert (hd_ID h) (d_tips d) - set (hd_Predecessors h),
       d_equivocations := (d_equivocations d)(a \<mapsto> tracked a d @ [new_vertex h a preds False]),
       d_sequence := d_sequence d @ [hd_ID h],
       d_delivered := insert (hd_ID h) (d_delivered d),
       d_height := (if calculateRound preds > d_height d then calculateRound preds
                    else d_height d),
       d_width := card (insert (hd_ID h) (d_tips d) - set (hd_Predecessors h))\<rparr>"

lemma resolve_known:
  "resolve vs ps = Inr preds \<Longrightarrow> p \<in> set ps \<Longrightarrow> vs p \<noteq> None"
  by (metis resolve_missing sum.distinct(1))

lemma AddHeader_added:
  assumes ok: "ids_ok d" and fresh: "d_vertices d (hd_ID h) = None"
    and res: "resolve (d_vertices d) (hd_Predecessors h) = Inr preds"
    and nc: "\<not> clashes a (hd_ID h) (calculateRound preds) d"
  shows "AddHeader h a d = (Inr (), Some (added h a preds d))"
proof -
  let ?i = "hd_ID h" and ?v = "new_vertex h a preds False"
  let ?d1 = "d\<lparr>d_equivocations := (d_equivocations d)(a \<mapsto> tracked a d @ [?v])\<rparr>"
  let ?d3 = "fold (add_successor ?i) (hd_Predecessors h)
               (?d1\<lparr>d_vertices := (d_vertices ?d1)(?i \<mapsto> ?v)\<rparr>)"
  let ?d4 = "updateTips ?v ?d3"
  have known: "d_vertices d p \<noteq> None" if "p \<in> set (hd_Predecessors h)" for p
    using resolve_known [OF res that] .
  then have notin: "?i \<notin> set (hd_Predecessors h)" using fresh by blast
  have v4: "d_vertices ?d4 ?i = Some ?v"
    using notin by (simp add: updateTips_def Let_def add_successors_vertices count_list_0_iff)
  have "is_delivered ?d4 p" if "p \<in> set (hd_Predecessors h)" for p
    using known [OF that] ok notin that
    by (auto simp: is_delivered_def updateTips_def Let_def add_successors_vertices ids_ok_def)
  then have del: "list_all (is_delivered ?d4) (v_Predecessors ?v)"
    by (simp add: list_all_iff new_vertex_def)
  have "v_Successors ?v = []" by (simp add: new_vertex_def)
  then have try_: "tryDeliver (deliver_fuel ?d4) ?i ?d4 = Some (deliver ?i ?v ?d4)"
    using v4 del by (simp add: deliver_fuel_def)
  have "deliver ?i ?v ?d4 = added h a preds d"
    by (rule DAG.equality)
      (auto simp: deliver_def updateTips_def added_def Let_def foldl_remove new_vertex_def
        add_successors_vertices fun_eq_iff)
  moreover have "detectEquivocation ?v d = (False, ?d1)" using nc by (simp add: detect_clash)
  ultimately show ?thesis
    using fresh res try_
    by (simp add: AddHeader_def new_vertex_def resolve_ids [OF ok res] Let_def)
qed

subsection \<open>The invariant\<close>

definition seq_ok :: "ID \<Rightarrow> 'n DAG \<Rightarrow> bool" where
  "seq_ok e d \<longleftrightarrow> distinct (d_sequence d) \<and> set (d_sequence d) = dom (d_vertices d) \<and>
     d_sequence d \<noteq> [] \<and> hd (d_sequence d) = e \<and> d_delivered d = dom (d_vertices d) - {e}"

definition topo_ok :: "'n DAG \<Rightarrow> bool" where
  "topo_ok d \<longleftrightarrow> (\<forall>k v. k < length (d_sequence d) \<longrightarrow>
     d_vertices d (d_sequence d ! k) = Some v \<longrightarrow>
     set (v_Predecessors v) \<subseteq> set (take k (d_sequence d)))"

definition succ_ok :: "'n DAG \<Rightarrow> bool" where
  "succ_ok d \<longleftrightarrow> (\<forall>i v. d_vertices d i = Some v \<longrightarrow>
     set (v_Successors v) = {j. \<exists>w. d_vertices d j = Some w \<and> i \<in> set (v_Predecessors w)})"

definition tips_ok :: "ID \<Rightarrow> 'n DAG \<Rightarrow> bool" where
  "tips_ok e d \<longleftrightarrow> d_width d = card (d_tips d) \<and>
     d_tips d = {i. i \<noteq> e \<and> (\<exists>v. d_vertices d i = Some v \<and> v_Successors v = [])}"

definition authored :: "ID \<Rightarrow> 'n \<Rightarrow> 'n DAG \<Rightarrow> (ID \<times> u64) set" where
  "authored e a d =
     {(i, r). i \<noteq> e \<and> (\<exists>v. d_vertices d i = Some v \<and> v_Author v = a \<and> v_Round v = r)}"

definition tracking_ok :: "ID \<Rightarrow> 'n DAG \<Rightarrow> bool" where
  "tracking_ok e d \<longleftrightarrow> (\<forall>a. distinct (map v_Round (tracked a d)) \<and>
     (\<lambda>x. (hd_ID (v_Header x), v_Round x)) ` set (tracked a d) = authored e a d)"

definition rounds_ok :: "'n DAG \<Rightarrow> bool" where
  "rounds_ok d \<longleftrightarrow> (length (d_sequence d) < 2 ^ 64 \<longrightarrow>
     (\<forall>i v. d_vertices d i = Some v \<longrightarrow> unat (v_Round v) < length (d_sequence d) \<and>
        v_Round v \<le> d_height d \<and>
        (\<forall>p w. p \<in> set (v_Predecessors v) \<longrightarrow> d_vertices d p = Some w \<longrightarrow>
           v_Round w < v_Round v)))"

definition dag_ok :: "ID \<Rightarrow> 'n DAG \<Rightarrow> bool" where
  "dag_ok e d \<longleftrightarrow> ids_ok d \<and> seq_ok e d \<and> topo_ok d \<and> succ_ok d \<and> tips_ok e d \<and>
     tracking_ok e d \<and> rounds_ok d"

lemma NewDAG_ok: "dag_ok e (NewDAG e en now)"
  by (auto simp: dag_ok_def ids_ok_def seq_ok_def topo_ok_def succ_ok_def tips_ok_def
      tracking_ok_def authored_def rounds_ok_def NewDAG_def genesis_vertex_def tracked_def)

lemma preds_in_dom:
  assumes "seq_ok e d" and "topo_ok d" and "d_vertices d i = Some v"
  shows "set (v_Predecessors v) \<subseteq> dom (d_vertices d)"
proof -
  obtain k where "k < length (d_sequence d)" "d_sequence d ! k = i"
    using assms(1,3) by (metis domI in_set_conv_nth seq_ok_def)
  then have "set (v_Predecessors v) \<subseteq> set (take k (d_sequence d))"
    using assms(2,3) by (auto simp: topo_ok_def)
  also have "\<dots> \<subseteq> set (d_sequence d)" by (rule set_take_subset)
  finally show ?thesis using assms(1) by (simp add: seq_ok_def)
qed

text \<open>The conditions under which \<open>AddHeader\<close> puts a header into the graph.\<close>

definition accepts :: "ID \<Rightarrow> BaseHeader \<Rightarrow> 'n \<Rightarrow> 'n Vertex list \<Rightarrow> 'n DAG \<Rightarrow> bool" where
  "accepts e h a preds d \<longleftrightarrow> dag_ok e d \<and> d_vertices d (hd_ID h) = None \<and>
     resolve (d_vertices d) (hd_Predecessors h) = Inr preds \<and>
     \<not> clashes a (hd_ID h) (calculateRound preds) d"

lemma accepts_facts:
  assumes "accepts e h a preds d"
  shows "ids_ok d" "seq_ok e d" "topo_ok d" "succ_ok d" "tips_ok e d" "tracking_ok e d"
    "rounds_ok d" "d_vertices d (hd_ID h) = None"
    "p \<in> set (hd_Predecessors h) \<Longrightarrow> d_vertices d p \<noteq> None"
    "hd_ID h \<notin> set (hd_Predecessors h)" "hd_ID h \<notin> set (d_sequence d)" "hd_ID h \<noteq> e"
  using assms resolve_known [of "d_vertices d" "hd_Predecessors h" preds]
    hd_in_set [of "d_sequence d"]
  by (auto simp: accepts_def dag_ok_def seq_ok_def domIff)

lemma added_vertices:
  "d_vertices (added h a preds d) j = (if j = hd_ID h then Some (new_vertex h a preds True)
     else map_option (\<lambda>pv. pv\<lparr>v_Successors := v_Successors pv @
            replicate (count_list (hd_Predecessors h) j) (hd_ID h)\<rparr>) (d_vertices d j))"
  by (simp add: added_def)

lemma added_ids_ok: "accepts e h a preds d \<Longrightarrow> ids_ok (added h a preds d)"
  using accepts_facts(1) [of e h a preds d] by (auto simp: ids_ok_def added_vertices new_vertex_def)

lemma added_seq_ok:
  assumes "accepts e h a preds d"
  shows "seq_ok e (added h a preds d)"
proof -
  have "dom (d_vertices (added h a preds d)) = insert (hd_ID h) (dom (d_vertices d))"
    by (auto simp: added_vertices)
  with accepts_facts [OF assms] show ?thesis by (auto simp: seq_ok_def added_def)
qed

lemma added_topo_ok:
  assumes "accepts e h a preds d"
  shows "topo_ok (added h a preds d)"
proof -
  note f = accepts_facts [OF assms]
  have "set (v_Predecessors v) \<subseteq> set (take k (d_sequence d @ [hd_ID h]))"
    if k: "k < Suc (length (d_sequence d))"
      and v: "d_vertices (added h a preds d) ((d_sequence d @ [hd_ID h]) ! k) = Some v" for k v
  proof (cases "k < length (d_sequence d)")
    case True
    then have "d_sequence d ! k \<noteq> hd_ID h" using f(11) by (metis nth_mem)
    with v True obtain w where "d_vertices d (d_sequence d ! k) = Some w"
      "v_Predecessors v = v_Predecessors w"
      by (auto simp: added_vertices nth_append)
    with f(3) True show ?thesis by (simp add: topo_ok_def)
  next
    case False
    with k have "k = length (d_sequence d)" by simp
    with v f(2,9) show ?thesis by (auto simp: added_vertices new_vertex_def seq_ok_def)
  qed
  then show ?thesis by (auto simp: topo_ok_def added_def)
qed

lemma added_succ_ok:
  assumes "accepts e h a preds d"
  shows "succ_ok (added h a preds d)"
proof -
  note f = accepts_facts [OF assms]
  have new: "hd_ID h \<notin> set (v_Predecessors w)" if "d_vertices d j = Some w" for j w
    using preds_in_dom [OF f(2,3) that] f(8) by auto
  have old: "set (v_Successors v) = {j. \<exists>w. d_vertices d j = Some w \<and> i \<in> set (v_Predecessors w)}"
    if "d_vertices d i = Some v" for i v
    using f(4) that by (simp add: succ_ok_def)
  have "hd_ID h \<notin> set (v_Successors v)" if "d_vertices d i = Some v" for i v
    using old [OF that] f(8) by auto
  show ?thesis
    unfolding succ_ok_def
    using f(8,10) new old
    by (auto simp: added_vertices new_vertex_def count_list_0_iff split: if_splits)
qed

lemma added_tips_ok:
  assumes "accepts e h a preds d"
  shows "tips_ok e (added h a preds d)"
proof -
  note f = accepts_facts [OF assms]
  have "i \<in> d_tips (added h a preds d) \<longleftrightarrow>
      i \<noteq> e \<and> (\<exists>v. d_vertices (added h a preds d) i = Some v \<and> v_Successors v = [])" for i
  proof (cases "i = hd_ID h")
    case True
    with f(10,12) show ?thesis by (simp add: added_def new_vertex_def)
  next
    case False
    then have "(\<exists>v. d_vertices (added h a preds d) i = Some v \<and> v_Successors v = []) \<longleftrightarrow>
        (\<exists>v. d_vertices d i = Some v \<and> v_Successors v = []) \<and> i \<notin> set (hd_Predecessors h)"
      by (auto simp: added_vertices count_list_0_iff)
    moreover have "i \<in> d_tips (added h a preds d) \<longleftrightarrow>
        i \<in> d_tips d \<and> i \<notin> set (hd_Predecessors h)"
      using False by (simp add: added_def)
    ultimately show ?thesis using f(5) by (auto simp: tips_ok_def)
  qed
  then have "d_tips (added h a preds d) =
      {i. i \<noteq> e \<and> (\<exists>v. d_vertices (added h a preds d) i = Some v \<and> v_Successors v = [])}"
    by blast
  then show ?thesis by (simp add: tips_ok_def added_def)
qed

lemma tracked_added:
  "tracked b (added h a preds d) =
     tracked b d @ (if b = a then [new_vertex h a preds False] else [])"
  by (simp add: tracked_def added_def)

lemma added_tracking_ok:
  assumes "accepts e h a preds d"
  shows "tracking_ok e (added h a preds d)"
proof -
  note f = accepts_facts [OF assms]
  let ?key = "\<lambda>x. (hd_ID (v_Header x), v_Round x)" and ?d = "added h a preds d"
  have tr: "distinct (map v_Round (tracked b d))" "?key ` set (tracked b d) = authored e b d" for b
    using f(6) by (simp_all add: tracking_ok_def)
  have "calculateRound preds \<noteq> v_Round x" if x: "x \<in> set (tracked a d)" for x
  proof
    assume r: "calculateRound preds = v_Round x"
    have "?key x \<in> authored e a d" using tr(2) [of a] x by blast
    then have "hd_ID (v_Header x) \<noteq> hd_ID h" using f(8) by (auto simp: authored_def)
    with x r have "clashes a (hd_ID h) (calculateRound preds) d" by (auto simp: clashes_def)
    with assms show False by (simp add: accepts_def)
  qed
  then have "calculateRound preds \<notin> v_Round ` set (tracked a d)" by (simp add: image_iff)
  then have dist: "distinct (map v_Round (tracked b ?d))" for b
    using tr(1) [of b] by (simp add: tracked_added new_vertex_def)
  have "(i, r) \<in> authored e b ?d \<longleftrightarrow>
      (i, r) \<in> authored e b d \<or> b = a \<and> i = hd_ID h \<and> r = calculateRound preds" for i r b
    using f(8,12)
    by (cases "i = hd_ID h") (auto simp: authored_def added_vertices new_vertex_def)
  then have "authored e b ?d =
      authored e b d \<union> (if b = a then {(hd_ID h, calculateRound preds)} else {})" for b
    by auto
  then have "?key ` set (tracked b ?d) = authored e b ?d" for b
    by (simp add: tracked_added new_vertex_def image_Un tr(2))
  with dist show ?thesis by (simp add: tracking_ok_def)
qed

lemma added_rounds_ok:
  assumes "accepts e h a preds d"
  shows "rounds_ok (added h a preds d)"
proof -
  note f = accepts_facts [OF assms]
  let ?n = "length (d_sequence d)" and ?d = "added h a preds d"
  let ?m = "foldl (\<lambda>m p. if v_Round p > m then v_Round p else m) 0 preds"
  note fm = foldl_max_round [of 0 preds]
  have stored: "map (d_vertices d) (hd_Predecessors h) = map Some preds"
    using assms resolve_Inr by (auto simp: accepts_def)
  have in_d: "\<exists>p\<in>set (hd_Predecessors h). d_vertices d p = Some q" if "q \<in> set preds" for q
  proof -
    have "Some q \<in> set (map Some preds)" using that by simp
    then show ?thesis unfolding stored [symmetric] by auto
  qed
  have of_pred: "w \<in> set preds" if "p \<in> set (hd_Predecessors h)" "d_vertices d p = Some w" for p w
  proof -
    have "d_vertices d p \<in> set (map (d_vertices d) (hd_Predecessors h))" using that(1) by simp
    with stored that(2) show ?thesis by auto
  qed
  have "unat (v_Round v) < Suc ?n \<and> v_Round v \<le> d_height ?d \<and>
      (\<forall>p w. p \<in> set (v_Predecessors v) \<longrightarrow> d_vertices ?d p = Some w \<longrightarrow> v_Round w < v_Round v)"
    if len: "Suc ?n < 2 ^ 64" and v: "d_vertices ?d i = Some v" for i v
  proof -
    have old: "unat (v_Round w) < ?n" "v_Round w \<le> d_height d"
      "\<forall>p u. p \<in> set (v_Predecessors w) \<longrightarrow> d_vertices d p = Some u \<longrightarrow> v_Round u < v_Round w"
      if "d_vertices d j = Some w" for j w
      using f(7) len that unfolding rounds_ok_def by auto
    show ?thesis
    proof (cases "i = hd_ID h")
      case False
      then obtain w where w: "d_vertices d i = Some w" "v_Round v = v_Round w"
        "v_Predecessors v = v_Predecessors w"
        using v by (auto simp: added_vertices)
      have "hd_ID h \<notin> set (v_Predecessors w)" using preds_in_dom [OF f(2,3) w(1)] f(8) by auto
      then have "v_Round u < v_Round v"
        if "p \<in> set (v_Predecessors v)" "d_vertices ?d p = Some u" for p u
        using that old(3) [OF w(1)] w(2,3) by (auto simp: added_vertices split: if_splits)
      moreover have "v_Round v \<le> d_height ?d"
        using old(2) [OF w(1)] w(2) by (auto simp: added_def)
      ultimately show ?thesis using old(1) [OF w(1)] w(2) by auto
    next
      case True
      then have v': "v = new_vertex h a preds True" using v by (simp add: added_vertices)
      show ?thesis
      proof (cases "preds = []")
        case True
        then have "hd_Predecessors h = []" using stored by simp
        with True v' show ?thesis by (simp add: new_vertex_def calculateRound_def added_def)
      next
        case False
        have oldr: "unat (v_Round q) < ?n" if "q \<in> set preds" for q
          using in_d [OF that] old(1) by blast
        have "?m = 0 \<or> (\<exists>q\<in>set preds. ?m = v_Round q)" using fm by blast
        moreover have "0 < ?n" using f(2) by (simp add: seq_ok_def)
        ultimately have "unat ?m < ?n" using oldr by auto
        with len have m: "unat (?m + 1) = Suc (unat ?m)"
          by (simp add: unat_word_ariths)
        have "v_Round q < ?m + 1" if "q \<in> set preds" for q
          using fm that m by (auto simp: word_less_nat_alt word_le_nat_alt less_Suc_eq_le)
        moreover have "w \<in> set preds \<or> (\<exists>q\<in>set preds. v_Round w = v_Round q)"
          if "p \<in> set (hd_Predecessors h)" "d_vertices ?d p = Some w" for p w
          using that f(10) of_pred [OF that(1)] by (auto simp: added_vertices split: if_splits)
        ultimately have "\<forall>p w. p \<in> set (hd_Predecessors h) \<longrightarrow> d_vertices ?d p = Some w \<longrightarrow>
            v_Round w < ?m + 1"
          by (metis (no_types, lifting))
        moreover have "v_Round v \<le> d_height ?d"
          using v' by (simp add: new_vertex_def added_def not_less)
        ultimately show ?thesis
          using False v' m \<open>unat ?m < ?n\<close> by (simp add: new_vertex_def calculateRound_def)
      qed
    qed
  qed
  then show ?thesis by (auto simp: rounds_ok_def added_def [of h a preds d])
qed

lemma added_dag_ok: "accepts e h a preds d \<Longrightarrow> dag_ok e (added h a preds d)"
  by (simp add: dag_ok_def added_ids_ok added_seq_ok added_topo_ok added_succ_ok added_tips_ok
      added_tracking_ok added_rounds_ok)

lemma byzantine_frame [simp]:
  "tracked a (d\<lparr>d_byzantine := B\<rparr>) = tracked a d"
  "authored e a (d\<lparr>d_byzantine := B\<rparr>) = authored e a d"
  by (simp_all add: tracked_def authored_def)

lemma byzantine_dag_ok: "dag_ok e (d\<lparr>d_byzantine := B\<rparr>) = dag_ok e d"
  unfolding dag_ok_def ids_ok_def seq_ok_def topo_ok_def succ_ok_def tips_ok_def
    tracking_ok_def rounds_ok_def by simp

lemma AddHeader_cases:
  assumes "dag_ok e d"
  obtains (known) "d_vertices d (hd_ID h) \<noteq> None" "AddHeader h a d = (Inr (), Some d)"
  | (missing) "AddHeader h a d = (Inl ErrInvalidPredecessor, Some d)"
      "\<exists>p\<in>set (hd_Predecessors h). d_vertices d p = None"
  | (clash) preds where "resolve (d_vertices d) (hd_Predecessors h) = Inr preds"
      "clashes a (hd_ID h) (calculateRound preds) d"
      "AddHeader h a d = (Inl ErrEquivocation, Some (d\<lparr>d_byzantine := insert a (d_byzantine d)\<rparr>))"
  | (added) preds where "accepts e h a preds d"
      "AddHeader h a d = (Inr (), Some (added h a preds d))"
proof (cases "d_vertices d (hd_ID h)")
  case (Some v)
  then show thesis by (intro known) (simp_all add: AddHeader_known)
next
  case fresh: None
  have ids: "ids_ok d" using assms by (simp add: dag_ok_def)
  show thesis
  proof (cases "resolve (d_vertices d) (hd_Predecessors h)")
    case (Inl err)
    with resolve_Inl [OF Inl] fresh show thesis by (intro missing) (simp_all add: AddHeader_def)
  next
    case (Inr preds)
    show thesis
    proof (cases "clashes a (hd_ID h) (calculateRound preds) d")
      case True
      with AddHeader_clash [OF ids fresh Inr] Inr show thesis by (intro clash) auto
    next
      case False
      with AddHeader_added [OF ids fresh Inr] Inr fresh assms show thesis
        by (intro added) (auto simp: accepts_def)
    qed
  qed
qed

subsection \<open>Runs\<close>

text \<open>The headers that reach a DAG, with their authors, in the order they arrive.\<close>

type_synonym 'n arrival = "BaseHeader \<times> 'n"

definition dag_step :: "'n arrival \<Rightarrow> 'n DAG \<Rightarrow> 'n DAG" where
  "dag_step arr d =
     (case snd (AddHeader (fst arr) (snd arr) d) of None \<Rightarrow> d | Some d' \<Rightarrow> d')"

lemma dag_step_ok [adx_inv]: "dag_ok e d \<Longrightarrow> dag_ok e (dag_step arr d)"
  by (rule AddHeader_cases [of e d "fst arr" "snd arr"])
    (simp_all add: dag_step_def byzantine_dag_ok added_dag_ok)

interpretation dag: object_invariant "dag_step :: 'n arrival \<Rightarrow> 'n DAG \<Rightarrow> 'n DAG" "dag_ok e"
  for e :: ID
  by unfold_locales (rule dag_step_ok)

lemmas reachable_dag_ok = dag.run_inv [OF NewDAG_ok]

text \<open>The log of delivered headers is only appended to and nobody is rehabilitated; this
  needs no invariant.\<close>

definition dag_grows :: "'n DAG \<Rightarrow> 'n DAG \<Rightarrow> bool" where
  "dag_grows d d' \<longleftrightarrow> prefix (d_sequence d) (d_sequence d') \<and> d_byzantine d \<subseteq> d_byzantine d'"

lemma dag_grows_refl [simp]: "dag_grows d d"
  by (simp add: dag_grows_def)

lemma dag_grows_trans: "dag_grows d d' \<Longrightarrow> dag_grows d' d'' \<Longrightarrow> dag_grows d d''"
  by (auto simp: dag_grows_def)

lemma deliverSuccessors_grows:
  assumes "\<And>i d d' :: 'n DAG. tryDeliver n i d = Some d' \<Longrightarrow> dag_grows d d'"
  shows "deliverSuccessors n ss d = Some d' \<Longrightarrow> dag_grows d (d' :: 'n DAG)"
proof (induction ss arbitrary: d)
  case Nil
  then show ?case by (simp add: dag_grows_def)
next
  case (Cons s ss)
  then show ?case
    by (auto split: if_splits option.splits dest!: assms intro: dag_grows_trans)
qed

lemma tryDeliver_grows: "tryDeliver n i d = Some d' \<Longrightarrow> dag_grows d d'"
proof (induction n arbitrary: i d d')
  case (Suc n)
  have step: "dag_grows d (deliver i v d)" for v
    by (simp add: dag_grows_def deliver_def)
  from Suc.prems show ?case
    by (auto split: option.splits if_splits
        intro: dag_grows_trans [OF step] deliverSuccessors_grows [OF Suc.IH])
qed simp

lemma AddHeader_grows:
  assumes "snd (AddHeader h a d) = Some d'"
  shows "dag_grows d d'"
proof -
  have frame: "dag_grows d (updateTips v (fold (add_successor i) ps
      (d\<lparr>d_equivocations := E, d_vertices := V\<rparr>)))" for v i ps E V
    by (simp add: dag_grows_def updateTips_def Let_def)
  show ?thesis
    using assms
    by (auto simp: AddHeader_def detectEquivocation_def handleEquivocation_def Let_def
        dag_grows_def [of d "d\<lparr>d_byzantine := B\<rparr>" for B]
        split: option.splits sum.splits if_splits
        dest!: tryDeliver_grows intro: dag_grows_trans [OF frame])
qed

interpretation dag_log: object_relation "dag_step :: 'n arrival \<Rightarrow> 'n DAG \<Rightarrow> 'n DAG" dag_grows
proof unfold_locales
  show "dag_grows s s" for s :: "'n DAG" by simp
  show "dag_grows s u" if "dag_grows s t" "dag_grows t u" for s t u :: "'n DAG"
    using that by (rule dag_grows_trans)
  show "dag_grows s (dag_step op s)" for s :: "'n DAG" and op
    by (auto simp: dag_step_def split: option.splits intro: AddHeader_grows)
qed

lemma max_round_is_tip:
  assumes ok: "dag_ok e d" and len: "length (d_sequence d) < 2 ^ 64"
    and v: "d_vertices d i = Some v" "i \<noteq> e"
  shows "\<exists>t\<in>d_tips d. \<exists>w. d_vertices d t = Some w \<and> v_Round v \<le> v_Round w"
proof -
  let ?N = "{j \<in> dom (d_vertices d). j \<noteq> e}"
  let ?r = "\<lambda>j. v_Round (the (d_vertices d j))"
  have "finite (dom (d_vertices d))"
    using ok unfolding dag_ok_def seq_ok_def by (metis List.finite_set)
  then have fin: "finite (?r ` ?N)" by simp
  have "i \<in> ?N" using v by auto
  then have "Max (?r ` ?N) \<in> ?r ` ?N" by (intro Max_in fin) blast
  then obtain t where tN: "t \<in> ?N" "Max (?r ` ?N) = ?r t" by blast
  with Max_ge [OF fin] have t: "t \<in> ?N" "\<forall>j\<in>?N. ?r j \<le> ?r t" by auto
  then obtain w where w: "d_vertices d t = Some w" by auto
  have "v_Successors w = []"
  proof (rule ccontr)
    assume "v_Successors w \<noteq> []"
    then obtain s where "s \<in> set (v_Successors w)" by (cases "v_Successors w") auto
    then obtain u where u: "d_vertices d s = Some u" "t \<in> set (v_Predecessors u)"
      using ok w by (auto simp: dag_ok_def succ_ok_def)
    have "v_Round w < v_Round u"
      using ok len u w unfolding dag_ok_def rounds_ok_def by blast
    moreover have "s \<noteq> e"
    proof
      assume "s = e"
      have topo: "topo_ok d" and sq: "seq_ok e d" using ok by (simp_all add: dag_ok_def)
      then have "d_sequence d ! 0 = e" "0 < length (d_sequence d)"
        by (auto simp: seq_ok_def hd_conv_nth)
      with topo u(1) \<open>s = e\<close> have "set (v_Predecessors u) \<subseteq> set (take 0 (d_sequence d))"
        unfolding topo_ok_def by blast
      with u(2) show False by simp
    qed
    ultimately show False using t(2) u(1) w by fastforce
  qed
  with t(1) w ok have "t \<in> d_tips d" by (auto simp: dag_ok_def tips_ok_def)
  moreover have "v_Round v \<le> v_Round w" using t(2) \<open>i \<in> ?N\<close> v(1) w by fastforce
  ultimately show ?thesis using w by blast
qed

lemma proposal_round:
  assumes ok: "dag_ok e d" and len: "length (d_sequence d) < 2 ^ 64"
    and res: "resolve (d_vertices d) tips = Inr preds" and tips: "set tips = d_tips d"
    and v: "d_vertices d i = Some v" "i \<noteq> e"
  shows "v_Round v < calculateRound preds"
proof -
  obtain t w where t: "t \<in> d_tips d" "d_vertices d t = Some w" "v_Round v \<le> v_Round w"
    using max_round_is_tip [OF ok len v] by blast
  have "d_vertices d t \<in> set (map (d_vertices d) tips)" using t(1) tips by simp
  with t(2) have "Some w \<in> set (map (d_vertices d) tips)" by simp
  then have w: "w \<in> set preds" by (auto simp: resolve_Inr [OF res])
  let ?m = "foldl (\<lambda>m p. if v_Round p > m then v_Round p else m) 0 preds"
  note fm = foldl_max_round [of 0 preds]
  have "unat ?m < length (d_sequence d)"
  proof -
    have "unat (v_Round q) < length (d_sequence d)" if "q \<in> set preds" for q
    proof -
      have "Some q \<in> set (map (d_vertices d) tips)"
        using that by (simp add: resolve_Inr [OF res])
      then show ?thesis using ok len by (auto simp: dag_ok_def rounds_ok_def)
    qed
    moreover have "0 < length (d_sequence d)" using ok by (simp add: dag_ok_def seq_ok_def)
    ultimately show ?thesis using fm by fastforce
  qed
  with len have "unat (?m + 1) = Suc (unat ?m)" by (simp add: unat_word_ariths)
  moreover have "v_Round w \<le> ?m" using fm w by blast
  ultimately have "v_Round v < ?m + 1" using t(3) by (simp add: word_less_nat_alt word_le_nat_alt)
  moreover have "preds \<noteq> []" using w by auto
  ultimately show ?thesis by (simp add: calculateRound_def)
qed

lemma proposal_accepted:
  assumes ok: "dag_ok e d" and len: "length (d_sequence d) < 2 ^ 64"
    and fresh: "d_vertices d (hd_ID h) = None" and tips: "set (hd_Predecessors h) = d_tips d"
  shows "\<exists>preds. accepts e h a preds d"
proof -
  have "\<forall>p\<in>set (hd_Predecessors h). d_vertices d p \<noteq> None"
    using ok tips by (auto simp: dag_ok_def tips_ok_def)
  then obtain preds where res: "resolve (d_vertices d) (hd_Predecessors h) = Inr preds"
    using resolve_ok by blast
  have "v_Round x \<noteq> calculateRound preds" if "x \<in> set (tracked a d)" for x
  proof -
    have "(hd_ID (v_Header x), v_Round x) \<in> authored e a d"
      using ok that by (auto simp: dag_ok_def tracking_ok_def)
    then obtain i v where "i \<noteq> e" "d_vertices d i = Some v" "v_Round v = v_Round x"
      by (auto simp: authored_def)
    with proposal_round [OF ok len res tips] show ?thesis by fastforce
  qed
  then have "\<not> clashes a (hd_ID h) (calculateRound preds) d" by (auto simp: clashes_def)
  with ok fresh res show ?thesis by (auto simp: accepts_def)
qed

subsection \<open>Properties\<close>

definition demo_header :: "ID \<Rightarrow> ID list \<Rightarrow> BaseHeader" where
  "demo_header i ps = \<lparr>hd_Type = HeaderTypeBid, hd_ID = i, hd_Timestamp = 0, hd_Signature = [],
     hd_Predecessors = ps, hd_Height = 0\<rparr>"

definition demo_dag :: "nat DAG" where
  "demo_dag = fold dag_step [(demo_header [1] [], 7), (demo_header [2] [[1]], 8),
     (demo_header [3] [], 7), (demo_header [4] [[3]], 8)] (NewDAG [] 0 0)"

lemma demo_dag_eval:
  "d_sequence demo_dag = [[], [1], [2]]" "d_byzantine demo_dag = {7}" "d_tips demo_dag = {[2]}"
  "d_vertices demo_dag = [[] \<mapsto> genesis_vertex [] 0 0,
     [1] \<mapsto> (new_vertex (demo_header [1] []) 7 [] True)\<lparr>v_Successors := [[2]]\<rparr>,
     [2] \<mapsto> (new_vertex (demo_header [2] [[1]]) 8 [] True)\<lparr>v_Round := 1\<rparr>]"
  by (simp_all add: demo_dag_def dag_step_def demo_header_def NewDAG_def AddHeader_def
      genesis_vertex_def calculateRound_def detectEquivocation_def handleEquivocation_def
      add_successor_def updateTips_def is_delivered_def deliver_def deliver_fuel_def
      new_vertex_def Let_def fun_upd_twist) auto

text \<open>C34: Delivery always ends: on any DAG with finitely many vertices \<open>AddHeader\<close>
  returns, whatever header comes; the fuel of \<open>tryDeliver\<close> is never used up.\<close>

theorem AddHeader_returns:
  assumes "finite (dom (d_vertices d))"
  shows "\<exists>d'. snd (AddHeader h a d) = Some d'"
proof -
  let ?i = "hd_ID h"
  have total: "\<exists>d'. tryDeliver (deliver_fuel d4) ?i d4 = Some d'"
    if d4: "d4 = updateTips u (fold (add_successor ?i) ps
        (d\<lparr>d_equivocations := E, d_vertices := (d_vertices d)(?i \<mapsto> v)\<rparr>))"
      and "\<not> v_Delivered v" for d4 u ps v E
  proof -
    have vs: "d_vertices d4 j = map_option (\<lambda>pv. pv\<lparr>v_Successors := v_Successors pv @
        replicate (count_list ps j) ?i\<rparr>) (((d_vertices d)(?i \<mapsto> v)) j)" for j
      using d4 by (simp add: updateTips_def Let_def add_successors_vertices)
    have "dom (d_vertices d4) = insert ?i (dom (d_vertices d))" by (auto simp: vs)
    with assms have fin: "finite (dom (d_vertices d4))" by simp
    moreover have "\<not> is_delivered d4 ?i" using that(2) by (simp add: is_delivered_def vs)
    moreover have "undelivered d4 \<subseteq> dom (d_vertices d4)" by (auto simp: undelivered_def)
    with fin have "card (undelivered d4) < deliver_fuel d4"
      by (simp add: deliver_fuel_def card_mono less_Suc_eq_le)
    ultimately show ?thesis using tryDeliver_total by blast
  qed
  show ?thesis
    by (auto simp: AddHeader_def detectEquivocation_def Let_def
        split: option.splits sum.splits prod.splits if_splits intro!: total [OF refl])
qed

theorem AddHeader_returns_witness:
  "\<exists>d'. snd (AddHeader (demo_header [5] [[2]]) 9 demo_dag) = Some d'"
  using AddHeader_returns [of demo_dag] by (simp add: demo_dag_eval)

text \<open>C2: In every reachable DAG the delivered sequence is a total order of the graph: it
  lists every stored header exactly once, each one after all its predecessors.\<close>

theorem blocklace_total_order:
  fixes ops :: "'n arrival list"
  assumes "d = fold dag_step ops (NewDAG e en now)"
  shows "distinct (d_sequence d) \<and> set (d_sequence d) = dom (d_vertices d) \<and>
    (\<forall>k v. k < length (d_sequence d) \<longrightarrow> d_vertices d (d_sequence d ! k) = Some v \<longrightarrow>
       hd_ID (v_Header v) = d_sequence d ! k \<and>
       set (hd_Predecessors (v_Header v)) \<subseteq> set (take k (d_sequence d)))"
proof -
  have "dag_ok e d" using assms reachable_dag_ok by simp
  then have ids: "ids_ok d" and sq: "seq_ok e d" and topo: "topo_ok d"
    by (simp_all add: dag_ok_def)
  have "set (hd_Predecessors (v_Header v)) \<subseteq> set (take k (d_sequence d))"
    if "k < length (d_sequence d)" "d_vertices d (d_sequence d ! k) = Some v" for k v
  proof -
    have "v_Predecessors v = hd_Predecessors (v_Header v)"
      using ids that(2) by (simp add: ids_ok_def)
    with topo that show ?thesis unfolding topo_ok_def by metis
  qed
  with ids sq show ?thesis by (simp add: seq_ok_def ids_ok_def)
qed

theorem blocklace_total_order_witness:
  "distinct (d_sequence demo_dag) \<and> d_sequence demo_dag = [[], [1], [2]]"
  using blocklace_total_order [OF demo_dag_def] by (simp add: demo_dag_eval)

text \<open>C15: The total order is final: whatever arrives later, the sequence delivered so far
  stays a prefix of the sequence, and a node found Byzantine stays so.\<close>

theorem blocklace_order_is_final:
  "prefix (d_sequence d) (d_sequence (fold dag_step ops d)) \<and>
   (IsByzantine n d \<longrightarrow> IsByzantine n (fold dag_step ops d))"
  using dag_log.run_rel [of d ops] by (auto simp: dag_grows_def IsByzantine_def)

theorem blocklace_order_is_final_witness:
  "IsByzantine 7 (fold dag_step [(demo_header [5] [[2]], 9)] demo_dag)"
  using blocklace_order_is_final [of demo_dag "[(demo_header [5] [[2]], 9)]" 7]
  by (simp add: demo_dag_eval IsByzantine_def)

text \<open>C16: A reachable DAG holds at most one header per author and round (the genesis vertex
  apart), so no equivocation gets into the order.\<close>

theorem one_header_per_author_and_round:
  assumes "d = fold dag_step ops (NewDAG e en now)"
    and "d_vertices d i = Some v" and "d_vertices d j = Some w" and "i \<noteq> e" and "j \<noteq> e"
    and "v_Author v = v_Author w" and "v_Round v = v_Round w"
  shows "i = j"
proof -
  have "dag_ok e d" using assms(1) reachable_dag_ok by simp
  then have tr: "distinct (map v_Round (tracked (v_Author v) d))"
    "(\<lambda>x. (hd_ID (v_Header x), v_Round x)) ` set (tracked (v_Author v) d) = authored e (v_Author v) d"
    by (simp_all add: dag_ok_def tracking_ok_def)
  have "(i, v_Round v) \<in> authored e (v_Author v) d" "(j, v_Round v) \<in> authored e (v_Author v) d"
    using assms(2-) by (auto simp: authored_def)
  then obtain x y where x: "x \<in> set (tracked (v_Author v) d)" "hd_ID (v_Header x) = i"
      "v_Round x = v_Round v"
    and y: "y \<in> set (tracked (v_Author v) d)" "hd_ID (v_Header y) = j" "v_Round y = v_Round v"
    unfolding tr(2) [symmetric] by auto
  from tr(1) have "inj_on v_Round (set (tracked (v_Author v) d))" by (simp add: distinct_map)
  moreover have "v_Round x = v_Round y" using x(3) y(3) by simp
  ultimately have "x = y" using x(1) y(1) by (rule inj_onD)
  with x(2) y(2) show ?thesis by simp
qed

theorem one_header_per_author_and_round_witness:
  "\<not> (\<exists>w. d_vertices demo_dag [3] = Some w \<and> v_Author w = 7 \<and> v_Round w = 0)"
proof
  assume "\<exists>w. d_vertices demo_dag [3] = Some w \<and> v_Author w = 7 \<and> v_Round w = 0"
  then obtain w where w: "d_vertices demo_dag [3] = Some w" "v_Author w = 7" "v_Round w = 0"
    by blast
  have v: "d_vertices demo_dag [1] =
      Some ((new_vertex (demo_header [1] []) 7 [] True)\<lparr>v_Successors := [[2]]\<rparr>)"
    by (simp add: demo_dag_eval)
  from one_header_per_author_and_round [OF demo_dag_def v w(1)] w(2,3) show False
    by (simp add: new_vertex_def calculateRound_def)
qed

text \<open>A header that equivocates is left out of the graph, although the comment in
  \<open>handleEquivocation\<close> says such vertices are included but marked: only its author is
  marked, and every later header that builds on it is refused as an invalid reference.\<close>

theorem equivocating_header_is_dropped:
  fixes d :: "'n DAG"
  assumes "d = fold dag_step ops (NewDAG e en now)"
    and "AddHeader h a d = (Inl ErrEquivocation, Some d')"
  shows "d' = d\<lparr>d_byzantine := insert a (d_byzantine d)\<rparr> \<and> d_vertices d' (hd_ID h) = None \<and>
    (hd_ID h \<in> set (hd_Predecessors h2) \<and> d_vertices d (hd_ID h2) = None \<longrightarrow>
       AddHeader h2 b d' = (Inl ErrInvalidPredecessor, Some d'))"
proof -
  have fresh: "d_vertices d (hd_ID h) = None"
    using assms(2) by (cases "d_vertices d (hd_ID h)") (auto simp: AddHeader_known)
  have "dag_ok e d" using assms(1) reachable_dag_ok by simp
  then have "d' = d\<lparr>d_byzantine := insert a (d_byzantine d)\<rparr>"
    by (rule AddHeader_cases [of e d h a]) (use assms(2) in auto)
  with fresh show ?thesis by (auto intro: AddHeader_missing)
qed

theorem equivocating_header_is_dropped_witness:
  "(let d = fold dag_step [(demo_header [1] [], 7 :: nat)] (NewDAG [] 0 0);
        d' = d\<lparr>d_byzantine := {7}\<rparr>
    in AddHeader (demo_header [3] []) 7 d = (Inl ErrEquivocation, Some d') \<and>
       AddHeader (demo_header [4] [[3]]) 8 d' = (Inl ErrInvalidPredecessor, Some d'))"
proof -
  let ?d = "fold dag_step [(demo_header [1] [], 7 :: nat)] (NewDAG [] 0 0)"
  let ?d' = "?d\<lparr>d_byzantine := {7}\<rparr>"
  have add: "AddHeader (demo_header [3] []) 7 ?d = (Inl ErrEquivocation, Some ?d')"
    and none: "d_vertices ?d [4] = None"
    by (simp_all add: dag_step_def demo_header_def NewDAG_def AddHeader_def genesis_vertex_def
      calculateRound_def detectEquivocation_def handleEquivocation_def updateTips_def
      is_delivered_def deliver_def deliver_fuel_def Let_def)
  have h: "hd_ID (demo_header [3] []) \<in> set (hd_Predecessors (demo_header [4] [[3]])) \<and>
      d_vertices ?d (hd_ID (demo_header [4] [[3]])) = None"
    using none by (simp add: demo_header_def)
  from equivocating_header_is_dropped [OF refl add, of "demo_header [4] [[3]]" 8] h add
  show ?thesis unfolding Let_def by blast
qed

text \<open>The genesis stays in the graph, in round 0.\<close>

lemma genesis_step:
  assumes "dag_ok e d" and "d_vertices d e = Some w" and "v_Round w = 0"
  shows "\<exists>w'. d_vertices (dag_step arr d) e = Some w' \<and> v_Round w' = 0"
  using assms
  by (cases rule: AddHeader_cases [OF assms(1), of "fst arr" "snd arr"])
    (auto simp: dag_step_def added_vertices accepts_def)

lemma genesis_round:
  "\<exists>w. d_vertices (fold dag_step ops (NewDAG e en t0)) e = Some w \<and> v_Round w = 0"
proof (induction ops rule: rev_induct)
  case Nil
  show ?case by (simp add: NewDAG_def genesis_vertex_def)
next
  case (snoc arr ops)
  have "dag_ok e (fold dag_step ops (NewDAG e en t0))" by (rule reachable_dag_ok)
  moreover obtain w where "d_vertices (fold dag_step ops (NewDAG e en t0)) e = Some w" "v_Round w = 0"
    using snoc by blast
  ultimately show ?case using genesis_step [where arr = arr] by (simp only: fold_append fold_simps o_apply)
qed

lemma no_tips:
  assumes "dag_ok e d" and "length (d_sequence d) < 2 ^ 64" and "d_tips d = {}"
    and "d_vertices d i = Some w"
  shows "i = e"
  using max_round_is_tip [OF assms(1,2,4)] assms(3) by blast

text \<open>C24: A miner that follows the protocol is never taken for an equivocator: on a reachable
  DAG (of fewer than \<open>2 ^ 64\<close> headers), proposing a header with a fresh ID on top of the
  current tips succeeds and marks nobody. The header's round is above that of every header of the
  graph, the genesis included, once there are tips. There are none only on the new graph, which
  holds the genesis alone: the first header then gets round 0, the round of the genesis itself,
  which is never a tip.\<close>

theorem honest_proposal_accepted:
  fixes d :: "'n DAG"
  assumes reach: "d = fold dag_step ops (NewDAG e en t0)"
    and len: "length (d_sequence d) < 2 ^ 64"
    and fresh: "d_vertices d newID = None" and tips: "set tips = d_tips d"
  shows "\<exists>header d' v. ProposeHeader now newID tips ty data m d =
        (Inr header, m\<lparr>cm_round := cm_round m + 1\<rparr>, Some d',
         if cm_broadcast m then [header] else []) \<and>
      d_vertices d' newID = Some v \<and> v_Author v = cm_ID m \<and> v_Header v = header \<and>
      d_byzantine d' = d_byzantine d \<and>
      (d_tips d = {} \<longrightarrow> dom (d_vertices d) = {e} \<and> v_Round v = 0) \<and>
      (d_tips d \<noteq> {} \<longrightarrow> (\<forall>i w. d_vertices d i = Some w \<longrightarrow> v_Round w < v_Round v))"
proof -
  let ?h = "\<lparr>hd_Type = ty, hd_ID = newID, hd_Timestamp = now, hd_Signature = data,
             hd_Predecessors = tips, hd_Height = cm_round m\<rparr>"
  have ok: "dag_ok e d" using reach reachable_dag_ok by simp
  then obtain preds where acc: "accepts e ?h (cm_ID m) preds d"
    using proposal_accepted [of e d ?h] len fresh tips by auto
  then have add: "AddHeader ?h (cm_ID m) d = (Inr (), Some (added ?h (cm_ID m) preds d))"
    by (intro AddHeader_added) (simp_all add: accepts_def dag_ok_def)
  have res: "resolve (d_vertices d) tips = Inr preds" using acc by (simp add: accepts_def)
  obtain g where g: "d_vertices d e = Some g" "v_Round g = 0"
    using genesis_round [of ops e en t0] reach by blast
  note round = proposal_round [OF ok len res tips]
  have gen: "0 < calculateRound preds" if "d_tips d \<noteq> {}"
  proof -
    from that ok obtain t w where "t \<noteq> e" "d_vertices d t = Some w"
      by (fastforce simp: dag_ok_def tips_ok_def)
    with round show ?thesis by (metis word_gt_0 word_not_simps(1))
  qed
  show ?thesis
  proof (intro exI conjI impI allI)
    show "ProposeHeader now newID tips ty data m d =
        (Inr ?h, m\<lparr>cm_round := cm_round m + 1\<rparr>, Some (added ?h (cm_ID m) preds d),
         if cm_broadcast m then [?h] else [])"
      by (simp add: ProposeHeader_def add Let_def)
    show "d_vertices (added ?h (cm_ID m) preds d) newID = Some (new_vertex ?h (cm_ID m) preds True)"
      by (simp add: added_vertices)
    show "v_Round w < v_Round (new_vertex ?h (cm_ID m) preds True)"
      if "d_tips d \<noteq> {}" "d_vertices d i = Some w" for i w
      using round [OF that(2)] gen [OF that(1)] g that(2) by (cases "i = e") (simp_all add: new_vertex_def)
    show "dom (d_vertices d) = {e}" if "d_tips d = {}"
    proof (intro equalityI subsetI)
      show "i \<in> {e}" if i: "i \<in> dom (d_vertices d)" for i
        using no_tips [OF ok len \<open>d_tips d = {}\<close>, of i] i by blast
    qed (use g(1) in blast)
    show "v_Round (new_vertex ?h (cm_ID m) preds True) = 0" if "d_tips d = {}"
      using that tips res by (cases tips) (auto simp: new_vertex_def calculateRound_def)
    show "d_byzantine (added ?h (cm_ID m) preds d) = d_byzantine d" by (simp add: added_def)
  qed (simp_all add: new_vertex_def)
qed

theorem honest_proposal_accepted_witness:
  "\<exists>header. fst (ProposeHeader 5 [9] [[2]] HeaderTypeBid [] (NewCordialMiner 8) demo_dag)
     = Inr header"
proof -
  have "length (d_sequence demo_dag) < 2 ^ 64" "d_vertices demo_dag [9] = None"
    "set [[2]] = d_tips demo_dag"
    by (simp_all add: demo_dag_eval)
  from honest_proposal_accepted [OF demo_dag_def this, of 5 HeaderTypeBid "[]" "NewCordialMiner 8"]
  show ?thesis by auto
qed

end
