(* ===== verification/Hpke.thy ===== *)
theory Hpke
  imports Prelude
begin

text \<open>
  \<^verbatim>\<open>crypto/hpke.go\<close>: hybrid encryption for several recipients. The primitives come
  from packages outside the repository and are the fields of \<open>suite\<close>:
  \<open>x25519\<close> is \<open>curve25519.X25519(scalar, point)\<close>, \<open>hkdf\<close> the 32 bytes read
  from \<open>hkdf.New(sha3.New256, secret, nil, "adx-hpke-v1")\<close>, \<open>aead_seal\<close> and
  \<open>aead_open\<close> ChaCha20-Poly1305 with a 12-byte nonce. \<open>suite_ok\<close> states what their
  documentation promises and the code relies on.

  A draw of random bytes is an \<open>option\<close>: \<open>None\<close> is an error of \<open>rand.Read\<close>. A
  slice expression or an index out of range panics: \<open>HpkePanic\<close>.
\<close>

datatype hpke_error =
    ErrInvalidKeySize
  | ErrDecryptionFailed
  | ErrNoRecipients
  | ErrInvalidRecipientIndex
  | ErrEncapsulate nat hpke_error
  | ErrRand
  | ErrX25519
  | HpkePanic

record suite =
  x25519 :: "bytes \<Rightarrow> bytes \<Rightarrow> bytes option"
  basepoint :: bytes
  hkdf :: "bytes \<Rightarrow> bytes"
  aead_seal :: "bytes \<Rightarrow> bytes \<Rightarrow> bytes \<Rightarrow> bytes \<Rightarrow> bytes"
  aead_open :: "bytes \<Rightarrow> bytes \<Rightarrow> bytes \<Rightarrow> bytes \<Rightarrow> bytes option"

record HPKESuite =
  hs_KEM :: string
  hs_KDF :: string
  hs_AEAD :: string

record Encapsulation =
  en_EncapsulatedKey :: bytes
  en_SharedSecret :: bytes

record SealedEnvelope =
  se_Encapsulations :: "Encapsulation list"
  se_Ciphertext :: bytes
  se_AAD :: bytes

definition DefaultSuite :: HPKESuite where
  "DefaultSuite = \<lparr>hs_KEM = ''X25519'', hs_KDF = ''HKDF-SHA256'', hs_AEAD = ''ChaCha20Poly1305''\<rparr>"

definition NonceSize :: nat where
  "NonceSize = 12"

text \<open>The result is the public and the private key.\<close>

definition GenerateKeyPair :: "suite \<Rightarrow> bytes option \<Rightarrow> hpke_error + bytes \<times> bytes" where
  "GenerateKeyPair S rnd =
     (case rnd of None \<Rightarrow> Inl ErrRand
      | Some privateKey \<Rightarrow>
          (case x25519 S privateKey (basepoint S) of None \<Rightarrow> Inl ErrX25519
           | Some publicKey \<Rightarrow> Inr (publicKey, privateKey)))"

definition Encapsulate :: "suite \<Rightarrow> bytes option \<Rightarrow> bytes \<Rightarrow> hpke_error + Encapsulation" where
  "Encapsulate S rnd recipientPublicKey =
     (if length recipientPublicKey \<noteq> 32 then Inl ErrInvalidKeySize
      else case rnd of None \<Rightarrow> Inl ErrRand
      | Some ephemeralPrivate \<Rightarrow>
          (case x25519 S ephemeralPrivate (basepoint S) of None \<Rightarrow> Inl ErrX25519
           | Some ephemeralPublic \<Rightarrow>
               (case x25519 S ephemeralPrivate recipientPublicKey of None \<Rightarrow> Inl ErrX25519
                | Some sharedSecret \<Rightarrow>
                    Inr \<lparr>en_EncapsulatedKey = ephemeralPublic,
                         en_SharedSecret = hkdf S sharedSecret\<rparr>)))"

definition Decapsulate :: "suite \<Rightarrow> bytes \<Rightarrow> bytes \<Rightarrow> hpke_error + bytes" where
  "Decapsulate S encapsulatedKey privateKey =
     (if length encapsulatedKey \<noteq> 32 \<or> length privateKey \<noteq> 32 then Inl ErrInvalidKeySize
      else case x25519 S privateKey encapsulatedKey of None \<Rightarrow> Inl ErrX25519
      | Some sharedSecret \<Rightarrow> Inr (hkdf S sharedSecret))"

definition encapsulateContentKey ::
  "suite \<Rightarrow> bytes option \<Rightarrow> bytes \<Rightarrow> bytes \<Rightarrow> hpke_error + Encapsulation" where
  "encapsulateContentKey S rnd contentKey recipientPublicKey =
     (case Encapsulate S rnd recipientPublicKey of
        Inl err \<Rightarrow> Inl err
      | Inr encap \<Rightarrow>
          Inr \<lparr>en_EncapsulatedKey = en_EncapsulatedKey encap,
               en_SharedSecret = xor_key (en_SharedSecret encap) contentKey\<rparr>)"

text \<open>The loop over the recipients; \<open>i\<close> is the index, \<open>rnds i\<close> the draw for it.\<close>

fun encapsulate_all ::
  "suite \<Rightarrow> (nat \<Rightarrow> bytes option) \<Rightarrow> bytes \<Rightarrow> nat \<Rightarrow> bytes list \<Rightarrow>
   hpke_error + Encapsulation list" where
  "encapsulate_all S rnds contentKey i [] = Inr []"
| "encapsulate_all S rnds contentKey i (pubKey # keys) =
     (case encapsulateContentKey S (rnds i) contentKey pubKey of
        Inl err \<Rightarrow> Inl (ErrEncapsulate i err)
      | Inr encap \<Rightarrow>
          (case encapsulate_all S rnds contentKey (Suc i) keys of
             Inl err \<Rightarrow> Inl err
           | Inr encaps \<Rightarrow> Inr (encap # encaps)))"

definition Seal ::
  "suite \<Rightarrow> bytes option \<Rightarrow> bytes option \<Rightarrow> (nat \<Rightarrow> bytes option) \<Rightarrow> bytes \<Rightarrow> bytes list \<Rightarrow> bytes \<Rightarrow>
   hpke_error + SealedEnvelope" where
  "Seal S rndKey rndNonce rnds plaintext recipientPublicKeys aad =
     (if length recipientPublicKeys = 0 then Inl ErrNoRecipients
      else case rndKey of None \<Rightarrow> Inl ErrRand
      | Some contentKey \<Rightarrow>
          (case rndNonce of None \<Rightarrow> Inl ErrRand
           | Some nonce \<Rightarrow>
               let ciphertext = nonce @ aead_seal S contentKey nonce plaintext aad in
               (case encapsulate_all S rnds contentKey 0 recipientPublicKeys of
                  Inl err \<Rightarrow> Inl err
                | Inr encapsulations \<Rightarrow>
                    Inr \<lparr>se_Encapsulations = encapsulations, se_Ciphertext = ciphertext,
                         se_AAD = aad\<rparr>)))"

definition Open ::
  "suite \<Rightarrow> SealedEnvelope \<Rightarrow> bytes \<Rightarrow> int \<Rightarrow> hpke_error + bytes" where
  "Open S envelope recipientPrivateKey recipientIndex =
     (if recipientIndex \<ge> int (length (se_Encapsulations envelope))
      then Inl ErrInvalidRecipientIndex
      else if recipientIndex < 0 then Inl HpkePanic
      else
        let encap = se_Encapsulations envelope ! nat recipientIndex in
        (case Decapsulate S (en_EncapsulatedKey encap) recipientPrivateKey of
           Inl err \<Rightarrow> Inl err
         | Inr sharedSecret \<Rightarrow>
             if length (en_SharedSecret encap) > 0 \<and> length sharedSecret = 0 then Inl HpkePanic
             else
               let contentKey = xor_key sharedSecret (en_SharedSecret encap) in
               if length contentKey < 32 then Inl HpkePanic
               else if length (se_Ciphertext envelope) < NonceSize then Inl ErrDecryptionFailed
               else
                 let nonce = take NonceSize (se_Ciphertext envelope);
                     ciphertext = drop NonceSize (se_Ciphertext envelope)
                 in (case aead_open S (take 32 contentKey) nonce ciphertext (se_AAD envelope) of
                       None \<Rightarrow> Inl ErrDecryptionFailed
                     | Some plaintext \<Rightarrow> Inr plaintext)))"

text \<open>\<open>H\<close> is \<open>hashing.ComputeHash256\<close>.\<close>

definition CreateCommitment :: "(bytes \<Rightarrow> bytes) \<Rightarrow> bytes \<Rightarrow> bytes" where
  "CreateCommitment H data = H data"

subsection \<open>What the primitives promise\<close>

definition suite_ok :: "suite \<Rightarrow> bool" where
  "suite_ok S \<longleftrightarrow>
     (\<forall>a p q. x25519 S a p = Some q \<longrightarrow> length q = 32) \<and>
     (\<forall>a b A B. length a = 32 \<longrightarrow> length b = 32 \<longrightarrow>
        x25519 S a (basepoint S) = Some A \<longrightarrow> x25519 S b (basepoint S) = Some B \<longrightarrow>
        x25519 S a B = x25519 S b A) \<and>
     (\<forall>s. length (hkdf S s) = 32) \<and>
     (\<forall>k n p a. length k = 32 \<longrightarrow> length n = NonceSize \<longrightarrow>
        aead_open S k n (aead_seal S k n p a) a = Some p)"

lemma suite_okD:
  assumes "suite_ok S"
  shows "x25519 S a p = Some q \<Longrightarrow> length q = 32"
    and "length a = 32 \<Longrightarrow> length b = 32 \<Longrightarrow> x25519 S a (basepoint S) = Some A \<Longrightarrow>
      x25519 S b (basepoint S) = Some B \<Longrightarrow> x25519 S a B = x25519 S b A"
    and "length (hkdf S s) = 32"
    and "length k = 32 \<Longrightarrow> length n = NonceSize \<Longrightarrow>
      aead_open S k n (aead_seal S k n p a) a = Some p"
  using assms unfolding suite_ok_def by blast+

text \<open>A key pair as \<open>GenerateKeyPair\<close> makes it.\<close>

definition key_pair :: "suite \<Rightarrow> bytes \<Rightarrow> bytes \<Rightarrow> bool" where
  "key_pair S pub priv \<longleftrightarrow> length priv = 32 \<and> x25519 S priv (basepoint S) = Some pub"

lemma key_pair_generated:
  "GenerateKeyPair S (Some r) = Inr (pub, priv) \<Longrightarrow> length r = 32 \<Longrightarrow> key_pair S pub priv"
  by (auto simp: GenerateKeyPair_def key_pair_def split: option.splits)

subsection \<open>Lemmas\<close>

lemma Decapsulate_Encapsulate:
  assumes S: "suite_ok S" and kp: "key_pair S pub priv" and r: "length r = 32"
    and enc: "Encapsulate S (Some r) pub = Inr encap"
  shows "Decapsulate S (en_EncapsulatedKey encap) priv = Inr (en_SharedSecret encap)"
proof -
  from enc obtain E s where E: "x25519 S r (basepoint S) = Some E" "x25519 S r pub = Some s"
    and encap: "encap = \<lparr>en_EncapsulatedKey = E, en_SharedSecret = hkdf S s\<rparr>"
    by (auto simp: Encapsulate_def split: if_splits option.splits)
  have "x25519 S priv E = Some s"
    using suite_okD(2) [OF S r _ E(1), of priv pub] kp E(2) by (simp add: key_pair_def)
  moreover have "length E = 32" using suite_okD(1) [OF S E(1)] .
  ultimately show ?thesis using kp encap by (simp add: Decapsulate_def key_pair_def)
qed

lemma encapsulate_all_Inr:
  assumes "encapsulate_all S rnds ck i keys = Inr encaps"
  shows "length encaps = length keys \<and>
    (\<forall>j<length keys. encapsulateContentKey S (rnds (i + j)) ck (keys ! j) = Inr (encaps ! j))"
  using assms
proof (induction keys arbitrary: i encaps)
  case Nil
  then show ?case by simp
next
  case (Cons k keys)
  then obtain e es where e: "encapsulateContentKey S (rnds i) ck k = Inr e"
    "encapsulate_all S rnds ck (Suc i) keys = Inr es" "encaps = e # es"
    by (auto split: sum.splits)
  from Cons.IH [OF e(2)] e(1,3) show ?case by (auto simp: nth_Cons split: nat.splits)
qed

lemma open_wrapped_key:
  assumes S: "suite_ok S" and kp: "key_pair S pub priv" and r: "rnd = Some r" "length r = 32"
    and enc: "encapsulateContentKey S rnd ck pub = Inr e" and ck: "length ck = 32"
  shows "\<exists>s. Decapsulate S (en_EncapsulatedKey e) priv = Inr s \<and> length s = 32 \<and>
    length (en_SharedSecret e) = 32 \<and> xor_key s (en_SharedSecret e) = ck"
proof -
  obtain encap where encap: "Encapsulate S (Some r) pub = Inr encap"
    and e: "e = \<lparr>en_EncapsulatedKey = en_EncapsulatedKey encap,
               en_SharedSecret = xor_key (en_SharedSecret encap) ck\<rparr>"
    using enc r by (auto simp: encapsulateContentKey_def split: sum.splits)
  have "length (en_SharedSecret encap) = 32"
    using encap suite_okD(3) [OF S] by (auto simp: Encapsulate_def split: if_splits option.splits)
  with Decapsulate_Encapsulate [OF S kp r(2) encap] e ck show ?thesis by simp
qed

lemma Seal_Inr:
  assumes "Seal S (Some ck) (Some nonce) rnds pt keys aad = Inr env"
  obtains encaps where
    "env = \<lparr>se_Encapsulations = encaps, se_Ciphertext = nonce @ aead_seal S ck nonce pt aad,
            se_AAD = aad\<rparr>"
    "encapsulate_all S rnds ck 0 keys = Inr encaps"
  using assms by (auto simp: Seal_def Let_def split: if_splits sum.splits)

lemma Open_Seal:
  assumes S: "suite_ok S" and rnd: "length ck = 32" "length nonce = NonceSize"
    "\<And>j. j < length keys \<Longrightarrow> \<exists>r. rnds j = Some r \<and> length r = 32"
    and seal: "Seal S (Some ck) (Some nonce) rnds pt keys aad = Inr env"
    and i: "i < length keys" and kp: "key_pair S (keys ! i) priv"
  shows "Open S env priv (int i) = Inr pt"
proof -
  from seal obtain encaps where
    env: "env = \<lparr>se_Encapsulations = encaps, se_Ciphertext = nonce @ aead_seal S ck nonce pt aad,
                 se_AAD = aad\<rparr>"
    and all: "encapsulate_all S rnds ck 0 keys = Inr encaps" by (rule Seal_Inr)
  note ea = encapsulate_all_Inr [OF all]
  obtain r where r: "rnds i = Some r" "length r = 32" using rnd(3) [OF i] by blast
  have "encapsulateContentKey S (rnds i) ck (keys ! i) = Inr (encaps ! i)" using ea i by simp
  from open_wrapped_key [OF S kp r this rnd(1)] obtain s where s:
    "Decapsulate S (en_EncapsulatedKey (encaps ! i)) priv = Inr s" "length s = 32"
    "length (en_SharedSecret (encaps ! i)) = 32"
    "xor_key s (en_SharedSecret (encaps ! i)) = ck" by blast
  have "aead_open S ck nonce (aead_seal S ck nonce pt aad) aad = Some pt"
    by (rule suite_okD(4) [OF S rnd(1,2)])
  with s ea i rnd env show ?thesis by (auto simp: Open_def Let_def)
qed

lemma encapsulate_all_sizes:
  assumes "suite_ok S" and "length ck = 32"
    and "encapsulate_all S rnds ck i keys = Inr encaps" and "e \<in> set encaps"
  shows "length (en_EncapsulatedKey e) = 32 \<and> length (en_SharedSecret e) = 32"
proof -
  note ea = encapsulate_all_Inr [OF assms(3)]
  from assms(4) obtain j where "j < length encaps" "e = encaps ! j" by (auto simp: in_set_conv_nth)
  with ea have "encapsulateContentKey S (rnds (i + j)) ck (keys ! j) = Inr e" by simp
  then obtain E where "Encapsulate S (rnds (i + j)) (keys ! j) = Inr E"
    "e = \<lparr>en_EncapsulatedKey = en_EncapsulatedKey E,
           en_SharedSecret = xor_key (en_SharedSecret E) ck\<rparr>"
    by (auto simp: encapsulateContentKey_def split: sum.splits)
  moreover from this(1) have "length (en_EncapsulatedKey E) = 32"
    using suite_okD(1) [OF assms(1)]
    by (auto simp: Encapsulate_def split: if_splits option.splits)
  ultimately show ?thesis using assms(2) by simp
qed

lemma Open_negative_index:
  "i < 0 \<Longrightarrow> Open S env priv i = Inl HpkePanic"
  by (simp add: Open_def)

subsection \<open>Properties\<close>

text \<open>A suite for which the promises hold: a group of XORs and a cipher that does nothing.\<close>

definition demo_suite :: suite where
  "demo_suite = \<lparr>x25519 = (\<lambda>a p. if length a = 32 \<and> length p = 32
        then Some (map (\<lambda>i. (a ! i) XOR (p ! i)) [0..<32]) else None),
     basepoint = replicate 32 0, hkdf = (\<lambda>s. take 32 (s @ replicate 32 0)),
     aead_seal = (\<lambda>k n p a. p), aead_open = (\<lambda>k n c a. Some c)\<rparr>"

lemma demo_suite_base: "x25519 demo_suite a (basepoint demo_suite) = Some b \<longleftrightarrow> length a = 32 \<and> b = a"
  by (auto simp: demo_suite_def intro!: nth_equalityI)

lemma demo_suite_ok: "suite_ok demo_suite"
  unfolding suite_ok_def
  by (auto simp: demo_suite_base) (auto simp: demo_suite_def xor.commute split: if_splits)

definition demo_envelope :: SealedEnvelope where
  "demo_envelope = \<lparr>se_Encapsulations =
        [\<lparr>en_EncapsulatedKey = replicate 32 7, en_SharedSecret = replicate 32 3\<rparr>],
      se_Ciphertext = replicate 12 9 @ [1, 2, 3], se_AAD = [4]\<rparr>"

lemma demo_seal:
  "Seal demo_suite (Some (replicate 32 1)) (Some (replicate 12 9)) (\<lambda>_. Some (replicate 32 7))
     [1, 2, 3] [replicate 32 5] [4] = Inr demo_envelope"
  by code_simp

text \<open>C18: Whoever holds the private key of one of the recipients reads what was sealed:
  \<open>Open\<close> at the recipient's index gives back the plaintext, for any message, additional
  data and number of recipients.\<close>

theorem hpke_open_seal:
  assumes "suite_ok S" and "length ck = 32" and "length nonce = NonceSize"
    and "\<forall>j<length keys. \<exists>r. rnds j = Some r \<and> length r = 32"
    and "Seal S (Some ck) (Some nonce) rnds pt keys aad = Inr env"
    and "i < length keys" and "key_pair S (keys ! i) priv"
  shows "Open S env priv (int i) = Inr pt"
  using assms by (intro Open_Seal [where keys = keys and rnds = rnds]) auto

theorem hpke_open_seal_witness:
  "Open demo_suite demo_envelope (replicate 32 5) 0 = Inr [1, 2, 3]"
proof -
  have "key_pair demo_suite ([replicate 32 5] ! 0) (replicate 32 5)"
    by (simp add: key_pair_def demo_suite_base)
  with hpke_open_seal [OF demo_suite_ok _ _ _ demo_seal, of 0 "replicate 32 5"]
  show ?thesis by (simp add: NonceSize_def)
qed

end
