(* ===== verification/DataAvail.thy ===== *)
theory DataAvail
  imports Ids Hpke
begin

text \<open>
  \<^verbatim>\<open>da/storage.go\<close>: the data-availability manager, its references and the
  encrypted store on top of it. \<open>H\<close> is \<open>hashing.ComputeHash256\<close> (32 bytes, so the
  log line's \<open>commitment[:8]\<close> stays in range). \<open>MaxBlobSize\<close> is the code's
  \<open>128 * 1024\<close>. \<open>DALayerOther\<close> is any other string of the open type \<open>DALayer\<close>.
\<close>

datatype da_error =
    ErrBlobNotFound
  | ErrBlobTooLarge
  | ErrInvalidCommitment
  | ErrSeal hpke_error

datatype DALayer =
    DALayerEIP4844
  | DALayerCelestia
  | DALayerIPFS
  | DALayerLocal
  | DALayerOther string

fun layer_string :: "DALayer \<Rightarrow> string" where
  "layer_string DALayerEIP4844 = ''eip4844''"
| "layer_string DALayerCelestia = ''celestia''"
| "layer_string DALayerIPFS = ''ipfs''"
| "layer_string DALayerLocal = ''local''"
| "layer_string (DALayerOther s) = s"

definition MaxBlobSize :: nat where
  "MaxBlobSize = 131072"

definition BlobExpiration :: duration where
  "BlobExpiration = 18 * 24 * 3600 * second_ns"

record Blob =
  bl_ID :: ID
  bl_Data :: bytes
  bl_Commitment :: bytes
  bl_Timestamp :: time
  bl_Expiry :: time
  bl_Layer :: DALayer

record DataAvailability =
  da_layer :: DALayer
  da_blobs :: "ID \<rightharpoonup> Blob"
  da_commits :: "ID \<rightharpoonup> bytes"
  da_stored :: u64
  da_retrieved :: u64

record BlobReference =
  br_BlobID :: ID
  br_Layer :: DALayer
  br_Commitment :: bytes
  br_EIP4844Hash :: bytes
  br_CelestiaRoot :: bytes
  br_IPFSHash :: string

record EncryptedBlobReference = BlobReference +
  eb_NumRecipients :: nat
  eb_EncryptedSize :: nat
  eb_PlaintextHash :: bytes

record DAMetrics =
  dm_Layer :: string
  dm_Stored :: u64
  dm_Retrieved :: u64
  dm_Active :: nat
  dm_Expired :: nat

definition NewDataAvailability :: "DALayer \<Rightarrow> DataAvailability" where
  "NewDataAvailability layer =
     \<lparr>da_layer = layer, da_blobs = Map.empty, da_commits = Map.empty, da_stored = 0,
      da_retrieved = 0\<rparr>"

definition createCommitment :: "(bytes \<Rightarrow> bytes) \<Rightarrow> bytes \<Rightarrow> bytes" where
  "createCommitment H data = H data"

definition verifyCommitment :: "(bytes \<Rightarrow> bytes) \<Rightarrow> bytes \<Rightarrow> bytes \<Rightarrow> bool" where
  "verifyCommitment H data commitment \<longleftrightarrow> createCommitment H data = commitment"

definition createNMTRoot :: "(bytes \<Rightarrow> bytes) \<Rightarrow> bytes \<Rightarrow> bytes" where
  "createNMTRoot H data = H (map (\<lambda>c. of_nat (of_char c)) ''adx_v1'' @ data)"

definition storeEIP4844 :: "(bytes \<Rightarrow> bytes) \<Rightarrow> ID \<Rightarrow> bytes \<Rightarrow> bytes \<Rightarrow> BlobReference" where
  "storeEIP4844 H i data commitment =
     \<lparr>br_BlobID = i, br_Layer = DALayerEIP4844, br_Commitment = commitment,
      br_EIP4844Hash = H (i @ data), br_CelestiaRoot = [], br_IPFSHash = []\<rparr>"

definition storeCelestia :: "(bytes \<Rightarrow> bytes) \<Rightarrow> ID \<Rightarrow> bytes \<Rightarrow> bytes \<Rightarrow> BlobReference" where
  "storeCelestia H i data commitment =
     \<lparr>br_BlobID = i, br_Layer = DALayerCelestia, br_Commitment = commitment,
      br_EIP4844Hash = [], br_CelestiaRoot = createNMTRoot H data, br_IPFSHash = []\<rparr>"

definition storeIPFS :: "ID \<Rightarrow> bytes \<Rightarrow> bytes \<Rightarrow> BlobReference" where
  "storeIPFS i data commitment =
     \<lparr>br_BlobID = i, br_Layer = DALayerIPFS, br_Commitment = commitment,
      br_EIP4844Hash = [], br_CelestiaRoot = [], br_IPFSHash = ''Qm'' @ take 44 (ID_String i)\<rparr>"

definition storeLocal :: "ID \<Rightarrow> bytes \<Rightarrow> bytes \<Rightarrow> BlobReference" where
  "storeLocal i data commitment =
     \<lparr>br_BlobID = i, br_Layer = DALayerLocal, br_Commitment = commitment,
      br_EIP4844Hash = [], br_CelestiaRoot = [], br_IPFSHash = []\<rparr>"

text \<open>\<open>newID\<close> is the identifier drawn by \<open>ids.GenerateTestID\<close>, \<open>t1\<close> and \<open>t2\<close>
  the two readings of the clock.\<close>

definition StoreBlob ::
  "(bytes \<Rightarrow> bytes) \<Rightarrow> ID \<Rightarrow> time \<Rightarrow> time \<Rightarrow> bytes \<Rightarrow> DataAvailability \<Rightarrow>
   (da_error + BlobReference) \<times> DataAvailability" where
  "StoreBlob H newID t1 t2 data da =
     (if length data > MaxBlobSize then (Inl ErrBlobTooLarge, da)
      else
        let commitment = createCommitment H data;
            ref = (case da_layer da of
                     DALayerEIP4844 \<Rightarrow> storeEIP4844 H newID data commitment
                   | DALayerCelestia \<Rightarrow> storeCelestia H newID data commitment
                   | DALayerIPFS \<Rightarrow> storeIPFS newID data commitment
                   | _ \<Rightarrow> storeLocal newID data commitment);
            blob = \<lparr>bl_ID = newID, bl_Data = data, bl_Commitment = commitment,
                    bl_Timestamp = t1, bl_Expiry = t2 + BlobExpiration, bl_Layer = da_layer da\<rparr>
        in (Inr ref,
            da\<lparr>da_blobs := (da_blobs da)(newID \<mapsto> blob),
               da_commits := (da_commits da)(newID \<mapsto> commitment),
               da_stored := da_stored da + 1\<rparr>))"

definition retrieveEIP4844 :: "BlobReference \<Rightarrow> DataAvailability \<Rightarrow> da_error + bytes" where
  "retrieveEIP4844 ref da =
     (case da_blobs da (br_BlobID ref) of Some blob \<Rightarrow> Inr (bl_Data blob)
      | None \<Rightarrow> Inl ErrBlobNotFound)"

definition retrieveCelestia :: "BlobReference \<Rightarrow> DataAvailability \<Rightarrow> da_error + bytes" where
  "retrieveCelestia ref da =
     (case da_blobs da (br_BlobID ref) of Some blob \<Rightarrow> Inr (bl_Data blob)
      | None \<Rightarrow> Inl ErrBlobNotFound)"

definition retrieveIPFS :: "BlobReference \<Rightarrow> DataAvailability \<Rightarrow> da_error + bytes" where
  "retrieveIPFS ref da =
     (case da_blobs da (br_BlobID ref) of Some blob \<Rightarrow> Inr (bl_Data blob)
      | None \<Rightarrow> Inl ErrBlobNotFound)"

definition retrieveLocal :: "BlobReference \<Rightarrow> DataAvailability \<Rightarrow> da_error + bytes" where
  "retrieveLocal ref da =
     (case da_blobs da (br_BlobID ref) of Some blob \<Rightarrow> Inr (bl_Data blob)
      | None \<Rightarrow> Inl ErrBlobNotFound)"

definition retrieve_layer :: "BlobReference \<Rightarrow> DataAvailability \<Rightarrow> da_error + bytes" where
  "retrieve_layer ref da =
     (case br_Layer ref of
        DALayerEIP4844 \<Rightarrow> retrieveEIP4844 ref da
      | DALayerCelestia \<Rightarrow> retrieveCelestia ref da
      | DALayerIPFS \<Rightarrow> retrieveIPFS ref da
      | _ \<Rightarrow> retrieveLocal ref da)"

definition RetrieveBlob ::
  "(bytes \<Rightarrow> bytes) \<Rightarrow> time \<Rightarrow> BlobReference \<Rightarrow> DataAvailability \<Rightarrow>
   (da_error + bytes) \<times> DataAvailability" where
  "RetrieveBlob H now ref da =
     (let cached = (case da_blobs da (br_BlobID ref) of
                      None \<Rightarrow> None
                    | Some blob \<Rightarrow> if now < bl_Expiry blob then Some (bl_Data blob) else None)
      in case cached of
        Some data \<Rightarrow> (Inr data, da\<lparr>da_retrieved := da_retrieved da + 1\<rparr>)
      | None \<Rightarrow>
          (case retrieve_layer ref da of
             Inl err \<Rightarrow> (Inl err, da)
           | Inr data \<Rightarrow>
               if \<not> verifyCommitment H data (br_Commitment ref) then (Inl ErrInvalidCommitment, da)
               else (Inr data, da\<lparr>da_retrieved := da_retrieved da + 1\<rparr>)))"

definition GetMetrics :: "time \<Rightarrow> DataAvailability \<Rightarrow> DAMetrics" where
  "GetMetrics now da =
     \<lparr>dm_Layer = layer_string (da_layer da), dm_Stored = da_stored da,
      dm_Retrieved = da_retrieved da,
      dm_Active = card {i \<in> dom (da_blobs da). now < bl_Expiry (the (da_blobs da i))},
      dm_Expired = card {i \<in> dom (da_blobs da). \<not> now < bl_Expiry (the (da_blobs da i))}\<rparr>"

definition serializeEnvelope :: "SealedEnvelope \<Rightarrow> bytes" where
  "serializeEnvelope envelope =
     [of_nat (length (se_Encapsulations envelope))] @
     concat (map (\<lambda>e. en_EncapsulatedKey e @ en_SharedSecret e) (se_Encapsulations envelope)) @
     se_Ciphertext envelope @ se_AAD envelope"

definition EncryptAndStore ::
  "suite \<Rightarrow> (bytes \<Rightarrow> bytes) \<Rightarrow> bytes option \<Rightarrow> bytes option \<Rightarrow> (nat \<Rightarrow> bytes option) \<Rightarrow>
   ID \<Rightarrow> time \<Rightarrow> time \<Rightarrow> bytes \<Rightarrow> bytes list \<Rightarrow> bytes \<Rightarrow> DataAvailability \<Rightarrow>
   (da_error + EncryptedBlobReference) \<times> DataAvailability" where
  "EncryptAndStore S H rndKey rndNonce rnds newID t1 t2 plaintext recipients aad da =
     (case Seal S rndKey rndNonce rnds plaintext recipients aad of
        Inl err \<Rightarrow> (Inl (ErrSeal err), da)
      | Inr envelope \<Rightarrow>
          let data = serializeEnvelope envelope in
          (case StoreBlob H newID t1 t2 data da of
             (Inl err, da') \<Rightarrow> (Inl err, da')
           | (Inr ref, da') \<Rightarrow>
               (Inr (BlobReference.extend ref
                  \<lparr>eb_NumRecipients = length recipients, eb_EncryptedSize = length data,
                   eb_PlaintextHash = H plaintext\<rparr>), da')))"

subsection \<open>Runs\<close>

datatype da_op =
    DStore ID time time bytes
  | DRetrieve time BlobReference

fun da_step :: "(bytes \<Rightarrow> bytes) \<Rightarrow> da_op \<Rightarrow> DataAvailability \<Rightarrow> DataAvailability" where
  "da_step H (DStore i t1 t2 data) da = snd (StoreBlob H i t1 t2 data da)"
| "da_step H (DRetrieve now ref) da = snd (RetrieveBlob H now ref da)"

fun stores_as :: "ID \<Rightarrow> da_op \<Rightarrow> bool" where
  "stores_as i (DStore j t1 t2 data) = (j = i)"
| "stores_as i (DRetrieve now ref) = False"

definition blobs_ok :: "(bytes \<Rightarrow> bytes) \<Rightarrow> DataAvailability \<Rightarrow> bool" where
  "blobs_ok H da \<longleftrightarrow> finite (dom (da_blobs da)) \<and>
     (\<forall>i b. da_blobs da i = Some b \<longrightarrow> bl_ID b = i \<and> bl_Commitment b = H (bl_Data b) \<and>
        length (bl_Data b) \<le> MaxBlobSize \<and> da_commits da i = Some (bl_Commitment b) \<and>
        bl_Layer b = da_layer da)"

lemma retrieve_layer_eq:
  "retrieve_layer ref da =
     (case da_blobs da (br_BlobID ref) of Some b \<Rightarrow> Inr (bl_Data b) | None \<Rightarrow> Inl ErrBlobNotFound)"
  by (simp add: retrieve_layer_def retrieveEIP4844_def retrieveCelestia_def retrieveIPFS_def
      retrieveLocal_def split: DALayer.splits)

lemma Retrieve_frame [simp, adx_frame]:
  "da_blobs (snd (RetrieveBlob H now ref da)) = da_blobs da"
  "da_commits (snd (RetrieveBlob H now ref da)) = da_commits da"
  "da_layer (snd (RetrieveBlob H now ref da)) = da_layer da"
  by (auto simp: RetrieveBlob_def Let_def split: option.splits sum.splits)

lemma Store_blobs:
  "da_blobs (snd (StoreBlob H i t1 t2 data da)) =
     (if length data > MaxBlobSize then da_blobs da
      else (da_blobs da)(i \<mapsto> \<lparr>bl_ID = i, bl_Data = data, bl_Commitment = H data,
              bl_Timestamp = t1, bl_Expiry = t2 + BlobExpiration, bl_Layer = da_layer da\<rparr>))"
  "da_commits (snd (StoreBlob H i t1 t2 data da)) =
     (if length data > MaxBlobSize then da_commits da else (da_commits da)(i \<mapsto> H data))"
  "da_layer (snd (StoreBlob H i t1 t2 data da)) = da_layer da"
  by (simp_all add: StoreBlob_def createCommitment_def Let_def)

lemma da_step_ok [adx_inv]: "blobs_ok H da \<Longrightarrow> blobs_ok H (da_step H op da)"
  by (cases op) (auto simp: blobs_ok_def Store_blobs)

interpretation da: object_invariant "da_step H" "blobs_ok H" for H
  by unfold_locales (rule da_step_ok)

lemma NewDA_ok: "blobs_ok H (NewDataAvailability layer)"
  by (simp add: blobs_ok_def NewDataAvailability_def)

lemma Retrieve_Inr:
  "fst (RetrieveBlob H now ref da) = Inr data \<longleftrightarrow>
     (\<exists>b. da_blobs da (br_BlobID ref) = Some b \<and> data = bl_Data b \<and>
        (now < bl_Expiry b \<or> H data = br_Commitment ref))"
  by (auto simp: RetrieveBlob_def retrieve_layer_eq verifyCommitment_def createCommitment_def Let_def
      split: option.splits)

lemma Store_ref:
  assumes "StoreBlob H i t1 t2 data da = (Inr ref, da')"
  shows "length data \<le> MaxBlobSize" and "br_BlobID ref = i" and "br_Commitment ref = H data"
    and "da' = snd (StoreBlob H i t1 t2 data da)"
  using assms
  by (auto simp: StoreBlob_def createCommitment_def storeEIP4844_def storeCelestia_def storeIPFS_def
      storeLocal_def Let_def split: if_splits DALayer.splits)

lemma run_keeps_blob:
  "da_blobs da i = Some b \<Longrightarrow> \<forall>op\<in>set ops. \<not> stores_as i op \<Longrightarrow>
     da_blobs (fold (da_step H) ops da) i = Some b"
proof (induction ops arbitrary: da)
  case (Cons op ops)
  have "da_blobs (da_step H op da) i = Some b"
    using Cons.prems by (cases op) (auto simp: Store_blobs)
  with Cons show ?case by simp
qed simp

lemma stored_then_retrieved:
  assumes "StoreBlob H i t1 t2 data da = (Inr ref, da')"
    and "\<forall>op\<in>set ops. \<not> stores_as i op"
  shows "fst (RetrieveBlob H now ref (fold (da_step H) ops da')) = Inr data"
proof -
  note r = Store_ref [OF assms(1)]
  have "\<exists>b. da_blobs da' i = Some b \<and> bl_Data b = data"
    unfolding r(4) using r(1) by (simp add: Store_blobs)
  then show ?thesis using run_keeps_blob [OF _ assms(2)] r(2,3) by (fastforce simp: Retrieve_Inr)
qed

lemma extend_BlobID [simp]:
  "br_BlobID (BlobReference.truncate (BlobReference.extend ref m)) = br_BlobID ref"
  by (simp add: BlobReference.defs)

lemma truncate_extend:
  "BlobReference.truncate (BlobReference.extend ref m) = (ref :: BlobReference)"
  by (simp add: BlobReference.defs)

subsection \<open>The serialised envelope\<close>

lemma concat_eq_blocks:
  assumes "length (concat (map f xs)) = length (concat (map f ys)) \<or> length xs = length ys"
    and "\<forall>x\<in>set xs \<union> set ys. length (f x) = n" and "0 < n"
    and "concat (map f xs) @ a = concat (map f ys) @ b"
    and "length xs = length ys"
  shows "map f xs = map f ys \<and> a = b"
  using assms(2,4,5)
proof (induction xs ys rule: list_induct2')
  case (4 x xs y ys)
  then have "f x = f y \<and> concat (map f xs) @ a = concat (map f ys) @ b" by simp
  with 4 show ?case by simp
qed simp_all

text \<open>The encapsulations of an envelope have fixed sizes and there are at most 255 of them.\<close>

definition envelope_ok :: "SealedEnvelope \<Rightarrow> bool" where
  "envelope_ok env \<longleftrightarrow> length (se_Encapsulations env) < 256 \<and>
     (\<forall>e\<in>set (se_Encapsulations env).
        length (en_EncapsulatedKey e) = 32 \<and> length (en_SharedSecret e) = 32)"

lemma serialize_parts:
  assumes "envelope_ok x" and "envelope_ok y" and "serializeEnvelope x = serializeEnvelope y"
  shows "se_Encapsulations x = se_Encapsulations y \<and>
    se_Ciphertext x @ se_AAD x = se_Ciphertext y @ se_AAD y"
proof -
  let ?f = "\<lambda>e. en_EncapsulatedKey e @ en_SharedSecret e"
  have "(of_nat (length (se_Encapsulations x)) :: byte) = of_nat (length (se_Encapsulations y))"
    using assms(3) by (simp add: serializeEnvelope_def)
  then have len: "length (se_Encapsulations x) = length (se_Encapsulations y)"
    using assms(1,2) by (simp add: envelope_ok_def of_nat_inverse word_of_nat_eq_iff take_bit_eq_mod)
  have "map ?f (se_Encapsulations x) = map ?f (se_Encapsulations y) \<and>
      se_Ciphertext x @ se_AAD x = se_Ciphertext y @ se_AAD y"
    by (rule concat_eq_blocks [where n = 64])
      (use assms len in \<open>auto simp: envelope_ok_def serializeEnvelope_def\<close>)
  moreover have "inj_on ?f (set (se_Encapsulations x) \<union> set (se_Encapsulations y))"
    using assms(1,2) by (auto simp: inj_on_def envelope_ok_def intro!: Encapsulation.equality)
  ultimately show ?thesis by (metis map_inj_on)
qed

text \<open>The boundary between the ciphertext and the additional data is not written.\<close>

lemma serialize_ambiguous:
  "serializeEnvelope (env\<lparr>se_Ciphertext := c @ d, se_AAD := a\<rparr>) =
   serializeEnvelope (env\<lparr>se_Ciphertext := c, se_AAD := d @ a\<rparr>)"
  by (simp add: serializeEnvelope_def)

subsection \<open>Properties\<close>

text \<open>C28: What is stored can be retrieved: the reference \<open>StoreBlob\<close> returns gives the
  same data back after any other calls (whose new blobs have other IDs) and at any time,
  also after the blob's expiry, which only changes the path and never the answer.\<close>

theorem da_store_then_retrieve:
  assumes "StoreBlob H i t1 t2 data da = (Inr ref, da')"
    and "\<forall>op\<in>set ops. \<not> stores_as i op"
  shows "fst (RetrieveBlob H now ref (fold (da_step H) ops da')) = Inr data"
  using assms by (rule stored_then_retrieved)

theorem da_store_then_retrieve_witness:
  "(let r = StoreBlob id [1] 0 0 [5, 6] (NewDataAvailability DALayerCelestia) in
    case r of (Inr ref, da') \<Rightarrow>
      fst (RetrieveBlob id (BlobExpiration * 2) ref
        (fold (da_step id) [DStore [2] 1 1 [7]] da')) = Inr [5, 6]
    | _ \<Rightarrow> False)"
proof -
  obtain ref da' where s: "StoreBlob id [1] 0 0 [5, 6] (NewDataAvailability DALayerCelestia)
      = (Inr ref, da')"
    by (simp add: StoreBlob_def MaxBlobSize_def Let_def)
  from da_store_then_retrieve [OF s, of "[DStore [2] 1 1 [7]]" "BlobExpiration * 2"] s
  show ?thesis by simp
qed

text \<open>Nothing else can be retrieved: on every reachable manager, retrieved data is the
  data filed under the reference's ID, at most 128 KB, matching the commitment made when it
  was stored; once the blob has expired it matches the reference's commitment too. Before
  that the reference's layer and commitment are not looked at.\<close>

theorem da_retrieve_sound:
  assumes "fst (RetrieveBlob H now ref
    (fold (da_step H) ops (NewDataAvailability layer))) = Inr data"
  shows "\<exists>b. da_blobs (fold (da_step H) ops (NewDataAvailability layer)) (br_BlobID ref) = Some b
    \<and> data = bl_Data b \<and> length data \<le> 128 * 1024 \<and>
    da_commits (fold (da_step H) ops (NewDataAvailability layer)) (br_BlobID ref) = Some (H data)
    \<and> (bl_Expiry b \<le> now \<longrightarrow> br_Commitment ref = H data) \<and>
    (now < bl_Expiry b \<longrightarrow> (\<forall>ref'. br_BlobID ref' = br_BlobID ref \<longrightarrow>
       fst (RetrieveBlob H now ref' (fold (da_step H) ops (NewDataAvailability layer)))
         = Inr data))"
  using da.run_inv [OF NewDA_ok, of H ops layer] assms
  by (fastforce simp: Retrieve_Inr blobs_ok_def MaxBlobSize_def)

theorem da_retrieve_sound_witness:
  "\<exists>b. da_blobs (fold (da_step id) [DStore [1] 0 0 [5, 6]] (NewDataAvailability DALayerLocal)) [1]
    = Some b \<and> bl_Data b = [5, 6]"
proof -
  let ?ref = "\<lparr>br_BlobID = [1], br_Layer = DALayerIPFS, br_Commitment = [],
      br_EIP4844Hash = [], br_CelestiaRoot = [], br_IPFSHash = []\<rparr>"
  have "fst (RetrieveBlob id 5 ?ref
      (fold (da_step id) [DStore [1] 0 0 [5, 6]] (NewDataAvailability DALayerLocal))) = Inr [5, 6]"
    by (simp add: Retrieve_Inr Store_blobs MaxBlobSize_def BlobExpiration_def second_ns_def)
  from da_retrieve_sound [OF this] show ?thesis by auto
qed

lemma sealed_envelope_ok:
  assumes "suite_ok S" and "length ck = 32" and "length keys < 256"
    and "Seal S (Some ck) (Some nonce) rnds pt keys aad = Inr env"
  shows "envelope_ok env" "se_AAD env = aad"
proof -
  from assms(4) obtain encaps where
    env: "env = \<lparr>se_Encapsulations = encaps, se_Ciphertext = nonce @ aead_seal S ck nonce pt aad,
                 se_AAD = aad\<rparr>"
    and all: "encapsulate_all S rnds ck 0 keys = Inr encaps" by (rule Seal_Inr)
  have "length encaps = length keys" using encapsulate_all_Inr [OF all] by simp
  then show "envelope_ok env" "se_AAD env = aad"
    using assms(3) encapsulate_all_sizes [OF assms(1,2) all] by (auto simp: envelope_ok_def env)
qed

text \<open>C20: The encrypted store keeps what it is given readable for all its recipients: after
  \<open>EncryptAndStore\<close> for at most 255 recipients and any further calls, the bytes retrieved under
  the reference are the serialisation of an envelope with the additional data that was given, and
  they contain all a recipient needs: whichever envelope of the sizes \<open>Seal\<close> makes and with
  additional data of that length these bytes are read back as, every recipient opens it to the
  plaintext. (The repository has no code that reads the format back, and the bytes do not say
  where the ciphertext ends, which is why the length of the additional data has to be known.)\<close>

theorem encrypted_store_readable:
  assumes "suite_ok S" and "length ck = 32" and "length nonce = NonceSize"
    and "\<forall>j<length keys. \<exists>r. rnds j = Some r \<and> length r = 32" and "length keys < 256"
    and "EncryptAndStore S H (Some ck) (Some nonce) rnds i t1 t2 pt keys aad da = (Inr ref, da')"
    and "\<forall>op\<in>set ops. \<not> stores_as i op"
  shows "\<exists>d. fst (RetrieveBlob H now (BlobReference.truncate ref) (fold (da_step H) ops da')) = Inr d \<and>
    (\<exists>env. envelope_ok env \<and> se_AAD env = aad \<and> serializeEnvelope env = d) \<and>
    (\<forall>env. envelope_ok env \<and> length (se_AAD env) = length aad \<and> serializeEnvelope env = d \<longrightarrow>
      (\<forall>j<length keys. \<forall>priv. key_pair S (keys ! j) priv \<longrightarrow> Open S env priv (int j) = Inr pt))"
proof -
  from assms(6) obtain e ref0 where e: "Seal S (Some ck) (Some nonce) rnds pt keys aad = Inr e"
    and ref: "StoreBlob H i t1 t2 (serializeEnvelope e) da = (Inr ref0, da')"
    "BlobReference.truncate ref = ref0"
    by (auto simp: EncryptAndStore_def Let_def truncate_extend split: sum.splits prod.splits)
  note ok = sealed_envelope_ok [OF assms(1,2,5) e]
  have same: "env = e" if "envelope_ok env" "length (se_AAD env) = length aad"
    "serializeEnvelope env = serializeEnvelope e" for env
    using serialize_parts [OF that(1) ok(1) that(3)] that(2) ok(2) by simp
  have "Open S e priv (int j) = Inr pt" if "j < length keys" "key_pair S (keys ! j) priv" for j priv
    using Open_Seal [OF assms(1-3) _ e that] assms(4) by blast
  with same ok stored_then_retrieved [OF ref(1) assms(7), where now = now] ref(2) show ?thesis by blast
qed

theorem encrypted_store_readable_witness:
  "(let r = EncryptAndStore demo_suite id (Some (replicate 32 1)) (Some (replicate 12 9))
      (\<lambda>_. Some (replicate 32 7)) [1] 0 0 [1, 2, 3] [replicate 32 5] [4]
      (NewDataAvailability DALayerLocal) in
    case r of (Inr ref, da') \<Rightarrow>
      (\<exists>d. fst (RetrieveBlob id 9 (BlobReference.truncate ref) da') = Inr d \<and>
        (\<forall>env. envelope_ok env \<and> length (se_AAD env) = 1 \<and> serializeEnvelope env = d \<longrightarrow>
          Open demo_suite env (replicate 32 5) 0 = Inr [1, 2, 3]))
    | _ \<Rightarrow> False)"
proof -
  let ?r = "EncryptAndStore demo_suite id (Some (replicate 32 1)) (Some (replicate 12 9))
      (\<lambda>_. Some (replicate 32 7)) [1] 0 0 [1, 2, 3] [replicate 32 5] [4]
      (NewDataAvailability DALayerLocal)"
  have "is_ok (fst ?r)"
    by (simp add: EncryptAndStore_def demo_seal StoreBlob_def MaxBlobSize_def Let_def
        serializeEnvelope_def demo_envelope_def NewDataAvailability_def)
  then obtain ref da' where s: "?r = (Inr ref, da')" by (cases ?r) (auto elim: is_okE)
  have "key_pair demo_suite (replicate 32 5) (replicate 32 5)"
    by (simp add: key_pair_def demo_suite_base)
  with encrypted_store_readable [OF demo_suite_ok _ _ _ _ s, of "[]" 9] s
  show ?thesis by (auto simp: NonceSize_def)
qed

text \<open>A serialised envelope determines the envelope as long as it has at most 255
  encapsulations of the sizes \<open>Seal\<close> makes and the length of the additional data is known;
  without that length the ciphertext and the additional data run together.\<close>

theorem serializeEnvelope_injective:
  assumes "envelope_ok x" and "envelope_ok y" and "length (se_AAD x) = length (se_AAD y)"
  shows "serializeEnvelope x = serializeEnvelope y \<longleftrightarrow> x = y"
proof
  assume "serializeEnvelope x = serializeEnvelope y"
  with serialize_parts [OF assms(1,2)] assms(3) show "x = y" by simp
qed simp

theorem serializeEnvelope_injective_witness:
  "(let x = \<lparr>se_Encapsulations = [], se_Ciphertext = [1], se_AAD = [2]\<rparr>;
        y = \<lparr>se_Encapsulations = [], se_Ciphertext = [1, 2], se_AAD = []\<rparr>;
        z = \<lparr>se_Encapsulations = [], se_Ciphertext = [3], se_AAD = [2]\<rparr>
    in serializeEnvelope x \<noteq> serializeEnvelope z \<and> serializeEnvelope x = serializeEnvelope y)"
proof -
  let ?x = "\<lparr>se_Encapsulations = [], se_Ciphertext = [1], se_AAD = [2]\<rparr>"
  let ?z = "\<lparr>se_Encapsulations = [], se_Ciphertext = [3], se_AAD = [2]\<rparr>"
  have "serializeEnvelope ?x \<noteq> serializeEnvelope ?z"
    using serializeEnvelope_injective [of ?x ?z] by (simp add: envelope_ok_def)
  then show ?thesis by (simp add: serializeEnvelope_def Let_def)
qed

end
