(* ===== verification/BigInt.thy ===== *)
theory BigInt
  imports Prelude
begin

text \<open>
  What the proof packages use of Go's \<open>math/big\<close>: a \<open>*big.Int\<close> is an \<open>int\<close>;
  \<open>Bytes\<close> is the big-endian absolute value without leading zeros and \<open>SetBytes\<close>
  reads it back; \<open>Mod\<close> by a positive modulus is \<open>mod\<close>; \<open>ModInverse\<close> is computed
  with the extended Euclidean algorithm and is nil when there is no inverse;
  \<open>big.NewInt(int64(x))\<close> of an unsigned \<open>x\<close> reads \<open>x\<close> as a signed number.
\<close>

fun nat_bytes :: "nat \<Rightarrow> bytes \<Rightarrow> bytes" where
  "nat_bytes n acc =
     (if n = 0 then acc else nat_bytes (n div 256) (of_nat (n mod 256) # acc))"

declare nat_bytes.simps [simp del]

definition big_bytes :: "int \<Rightarrow> bytes" where
  "big_bytes x = nat_bytes (nat \<bar>x\<bar>) []"

definition set_bytes :: "bytes \<Rightarrow> int" where
  "set_bytes bs = foldl (\<lambda>v b. v * 256 + uint b) 0 bs"

definition big_of_u64 :: "u64 \<Rightarrow> int" where
  "big_of_u64 x = sint x"

definition big_of_u32 :: "u32 \<Rightarrow> int" where
  "big_of_u32 x = uint x"

text \<open>\<open>egcd a b\<close> is a triple of the gcd and two coefficients.\<close>

function egcd :: "int \<Rightarrow> int \<Rightarrow> int \<times> int \<times> int" where
  "egcd a b =
     (if b \<le> 0 then (a, 1, 0)
      else case egcd b (a mod b) of (g, x, y) \<Rightarrow> (g, y, x - (a div b) * y))"
  by pat_completeness auto
termination
  by (relation "measure (\<lambda>(a, b). nat b)") auto

declare egcd.simps [simp del]

definition mod_inverse :: "int \<Rightarrow> int \<Rightarrow> int option" where
  "mod_inverse a m =
     (case egcd m (a mod m) of (g, x, y) \<Rightarrow> if g = 1 then Some (y mod m) else None)"

subsection \<open>Lemmas\<close>

lemma nat_bytes_0 [simp]: "nat_bytes 0 acc = acc"
  by (simp add: nat_bytes.simps)

lemma nat_bytes_append: "nat_bytes n (xs @ ys) = nat_bytes n xs @ ys"
proof (induction n arbitrary: xs rule: less_induct)
  case (less n)
  show ?case
  proof (cases "n = 0")
    case False
    then have "n div 256 < n" by simp
    with less [of "n div 256" "of_nat (n mod 256) # xs"] False show ?thesis
      by (simp add: nat_bytes.simps [of n])
  qed simp
qed

lemma nat_bytes_step: "n > 0 \<Longrightarrow> nat_bytes n [] = nat_bytes (n div 256) [] @ [of_nat (n mod 256)]"
  using nat_bytes_append [of "n div 256" "[]" "[of_nat (n mod 256)]"]
  by (subst nat_bytes.simps) simp

lemma set_bytes_snoc: "set_bytes (bs @ [b]) = set_bytes bs * 256 + uint b"
  by (simp add: set_bytes_def)

lemma set_nat_bytes: "set_bytes (nat_bytes n []) = int n"
proof (induction n rule: less_induct)
  case (less n)
  show ?case
  proof (cases "n = 0")
    case True
    then show ?thesis by (simp add: set_bytes_def)
  next
    case False
    have u: "uint (of_nat (n mod 256) :: byte) = int (n mod 256)"
      by (simp add: uint_nat unat_of_nat)
    have "set_bytes (nat_bytes (n div 256) []) = int (n div 256)" using False by (intro less) simp
    then show ?thesis
      using False by (simp add: nat_bytes_step set_bytes_snoc u zdiv_int zmod_int)
  qed
qed

lemma set_big_bytes [adx_bytes]: "set_bytes (big_bytes x) = \<bar>x\<bar>"
  by (simp add: big_bytes_def set_nat_bytes)

lemma nat_bytes_length: "n < 256 ^ k \<Longrightarrow> length (nat_bytes n []) \<le> k"
proof (induction k arbitrary: n)
  case (Suc k)
  then have "n div 256 < 256 ^ k" by (simp add: less_mult_imp_div_less mult.commute)
  with Suc show ?case by (cases "n = 0") (auto simp: nat_bytes_step)
qed simp

lemma nat_bytes_length_ge: "256 ^ k \<le> n \<Longrightarrow> k < length (nat_bytes n [])"
proof (induction k arbitrary: n)
  case 0
  then show ?case by (simp add: nat_bytes_step)
next
  case (Suc k)
  then have "256 ^ k \<le> n div 256" by (simp add: less_eq_div_iff_mult_less_eq mult.commute)
  moreover have "0 < n" using Suc.prems by (metis gr0I le_zero_eq power_not_zero zero_neq_numeral)
  ultimately show ?case using Suc.IH by (simp add: nat_bytes_step)
qed

text \<open>A number below \<open>2 ^ 256\<close> fills 32 bytes exactly when its top byte is not zero.\<close>

lemma big_bytes_32:
  assumes "0 \<le> x" and "x < 2 ^ 256"
  shows "length (big_bytes x) = 32 \<longleftrightarrow> 2 ^ 248 \<le> x"
proof
  assume "2 ^ 248 \<le> x"
  then have "256 ^ 31 \<le> nat x" by (simp add: le_nat_iff)
  then have "31 < length (nat_bytes (nat x) [])" by (rule nat_bytes_length_ge)
  moreover have "length (nat_bytes (nat x) []) \<le> 32"
    using assms by (intro nat_bytes_length) (simp add: nat_less_iff)
  ultimately show "length (big_bytes x) = 32" using assms(1) by (simp add: big_bytes_def)
next
  assume l: "length (big_bytes x) = 32"
  show "2 ^ 248 \<le> x"
  proof (rule ccontr)
    assume "\<not> 2 ^ 248 \<le> x"
    then have "nat x < 256 ^ 31" using assms(1) by (simp add: nat_less_iff)
    from nat_bytes_length [OF this] l assms(1) show False by (simp add: big_bytes_def)
  qed
qed

lemma egcd_bezout:
  "0 \<le> b \<Longrightarrow> egcd a b = (g, x, y) \<Longrightarrow> g = a * x + b * y"
proof (induction a b arbitrary: g x y rule: egcd.induct)
  case (1 a b)
  show ?case
  proof (cases "b \<le> 0")
    case True
    with 1 show ?thesis by (simp add: egcd.simps)
  next
    case False
    obtain g' x' y' where e: "egcd b (a mod b) = (g', x', y')" by (cases "egcd b (a mod b)") auto
    with 1(3) False have gxy: "g = g'" "x = y'" "y = x' - (a div b) * y'"
      by (auto simp: egcd.simps [of a b])
    have "g' = b * x' + (a mod b) * y'" using 1(1) [OF False] False e by simp
    also have "a mod b = a - b * (a div b)" by (simp add: minus_mult_div_eq_mod)
    finally show ?thesis by (simp add: gxy algebra_simps)
  qed
qed

lemma mod_inverse_correct:
  assumes "1 < m" and "mod_inverse a m = Some b"
  shows "(a * b) mod m = 1 \<and> 0 \<le> b \<and> b < m"
proof -
  obtain g x y where e: "egcd m (a mod m) = (g, x, y)" by (cases "egcd m (a mod m)") auto
  with assms(2) have g: "g = 1" "b = y mod m" by (auto simp: mod_inverse_def split: if_splits)
  have "1 = m * x + (a mod m) * y" using egcd_bezout [OF _ e] assms(1) g by simp
  then have "((a mod m) * y) mod m = 1 mod m" by (metis mod_mult_self2 add.commute mult.commute)
  then have "(a * b) mod m = 1" using assms(1) by (simp add: g(2) mod_simps)
  then show ?thesis using assms(1) g(2) by simp
qed

end
