(* ===== verification/ProofSystem.thy ===== *)
theory ProofSystem
  imports Prelude
begin

text \<open>
  The contract of a proving circuit as the callers use it: a prover that succeeds exactly on
  the witnesses of a statement, and a verifier that accepts what the prover made, as long as
  the code outside the repository keeps its promises (\<open>backend_ok\<close>) and the public inputs
  can express the public part of the witness (\<open>expressible\<close>). The circuits of
  \<^verbatim>\<open>proof/halo2\<close> and of \<^verbatim>\<open>proof\<close> are its interpretations, each in the
  theory of its package; the auction circuit of \<^verbatim>\<open>proof\<close> does not meet it.
\<close>

locale proof_system =
  fixes prove :: "'w \<Rightarrow> 'e + 'p"
    and verify :: "'pub \<Rightarrow> 'p \<Rightarrow> bool option"
    and public :: "'w \<Rightarrow> 'pub"
    and holds :: "'w \<Rightarrow> bool"
    and expressible :: "'w \<Rightarrow> bool"
    and backend_ok :: bool
  assumes prove_iff: "is_ok (prove w) \<longleftrightarrow> holds w"
    and complete: "backend_ok \<Longrightarrow> expressible w \<Longrightarrow> prove w = Inr p \<Longrightarrow>
      verify (public w) p = Some True"
begin

lemma refused: "\<not> holds w \<Longrightarrow> \<exists>e. prove w = Inl e"
  using prove_iff [of w] by (cases "prove w") auto

lemma proved_holds: "prove w = Inr p \<Longrightarrow> holds w"
  using prove_iff [of w] by simp

lemma proof_exists: "holds w \<Longrightarrow> \<exists>p. prove w = Inr p"
  using prove_iff [of w] by (cases "prove w") auto

lemma round_trip:
  assumes "backend_ok" and "holds w" and "expressible w"
  shows "\<exists>p. prove w = Inr p \<and> verify (public w) p = Some True"
  using proof_exists [OF assms(2)] complete [OF assms(1,3)] by blast

lemma batch:
  assumes "backend_ok" and "list_all holds ws" and "list_all expressible ws"
  shows "\<exists>ps. map prove ws = map Inr ps \<and>
    list_all2 (\<lambda>w p. verify (public w) p = Some True) ws ps"
  using assms(2,3)
proof (induction ws)
  case Nil
  then show ?case by simp
next
  case (Cons w ws)
  then obtain ps where ps: "map prove ws = map Inr ps"
    "list_all2 (\<lambda>w p. verify (public w) p = Some True) ws ps" by auto
  from Cons.prems round_trip [OF assms(1), of w] obtain p where
    "prove w = Inr p" "verify (public w) p = Some True" by auto
  with ps show ?case by (intro exI [of _ "p # ps"]) simp
qed

end

end
