(* ===== verification/Halo2Circuits.thy ===== *)
theory Halo2Circuits
  imports BigInt ProofSystem
begin

text \<open>
  \<^verbatim>\<open>proof/halo2/circuits.go\<close>: the BN254 scalar field, the Poseidon-style hash and
  the three circuits (auction, budget, frequency) with their setup, prover and verifier.
  \<open>H\<close> is \<open>hashing.ComputeHash256\<close>. The random bytes of a setup are an argument
  (\<open>None\<close> is an error of \<open>rand.Read\<close>). A verifier answers \<open>None\<close> where the code
  panics: it calls a method on the nil pointer that a missing evaluation yields.
\<close>

datatype halo_error =
    ErrInvalidProof
  | ErrInvalidPublicInputs
  | ErrSetupFailed
  | ErrProvingFailed
  | HaloPanic

subsection \<open>The field\<close>

record Field =
  fd_Modulus :: int

definition NewField :: Field where
  "NewField = \<lparr>fd_Modulus =
     21888242871839275222246405745257275088548364400416034343698204186575808495617\<rparr>"

definition Field_Add :: "Field \<Rightarrow> int \<Rightarrow> int \<Rightarrow> int" where
  "Field_Add f a b = (a + b) mod fd_Modulus f"

definition Field_Mul :: "Field \<Rightarrow> int \<Rightarrow> int \<Rightarrow> int" where
  "Field_Mul f a b = (a * b) mod fd_Modulus f"

definition Field_Sub :: "Field \<Rightarrow> int \<Rightarrow> int \<Rightarrow> int" where
  "Field_Sub f a b = (a - b) mod fd_Modulus f"

definition Field_Inv :: "Field \<Rightarrow> int \<Rightarrow> int option" where
  "Field_Inv f a = mod_inverse a (fd_Modulus f)"

subsection \<open>The hash\<close>

record PoseidonHash =
  ps_field :: Field
  ps_roundConst :: "int list list"
  ps_mdsMatrix :: "int list list"
  ps_rounds :: nat

definition NewPoseidonHash :: PoseidonHash where
  "NewPoseidonHash =
     (let rounds = 8; width = 3 in
      \<lparr>ps_field = NewField,
       ps_roundConst = map (\<lambda>i. map (\<lambda>j. int (i * width + j + 1)) [0..<width]) [0..<rounds],
       ps_mdsMatrix = map (\<lambda>i. map (\<lambda>j. int (i + j + 1)) [0..<width]) [0..<width],
       ps_rounds = rounds\<rparr>)"

definition poseidon_round :: "PoseidonHash \<Rightarrow> nat \<Rightarrow> int list \<Rightarrow> int list" where
  "poseidon_round p r s =
     (let f = ps_field p;
          added = map (\<lambda>i. Field_Add f (s ! i) (ps_roundConst p ! r ! i)) [0..<3];
          boxed = map (\<lambda>x. let x2 = Field_Mul f x x; x4 = Field_Mul f x2 x2
                            in Field_Mul f x4 x) added
      in map (\<lambda>i. foldl (\<lambda>acc j. Field_Add f acc (Field_Mul f (ps_mdsMatrix p ! i ! j) (boxed ! j)))
                  0 [0..<3]) [0..<3])"

definition PoseidonHash_Hash :: "PoseidonHash \<Rightarrow> int list \<Rightarrow> int" where
  "PoseidonHash_Hash p inputs =
     (let state = take 3 inputs @ replicate (3 - length inputs) 0
      in fold (poseidon_round p) [0..<ps_rounds p] state ! 0)"

text \<open>Every circuit embeds the field and the hash made by \<open>NewHalo2Circuit\<close>.\<close>

record Halo2Circuit =
  hc_field :: Field
  hc_poseidon :: PoseidonHash

definition NewHalo2Circuit :: Halo2Circuit where
  "NewHalo2Circuit = \<lparr>hc_field = NewField, hc_poseidon = NewPoseidonHash\<rparr>"

record Halo2Proof =
  hp_WitnessCommitments :: "bytes list"
  hp_QuotientCommitment :: bytes
  hp_OpeningProof :: bytes
  hp_Evaluations :: "string \<rightharpoonup> int"

record HProvingKey =
  pk_CircuitID :: string
  pk_SRS :: "int list"
  pk_NumBids :: int
  pk_Reserve :: int

record HVerifyingKey =
  vk_CircuitID :: string
  vk_CommitmentKey :: "int list"
  vk_ConstraintCount :: int

text \<open>\<open>powers[i] = Mul(powers[i-1], tau)\<close> for \<open>n\<close> entries, the first one given.\<close>

fun srs_powers :: "Field \<Rightarrow> int \<Rightarrow> nat \<Rightarrow> int \<Rightarrow> int list" where
  "srs_powers f tau 0 p = []"
| "srs_powers f tau (Suc n) p = p # srs_powers f tau n (Field_Mul f p tau)"

subsection \<open>The auction circuit\<close>

record HAuctionCircuit = Halo2Circuit +
  ac_NumBids :: int
  ac_Reserve :: int

record AuctionWitness =
  aw_Bids :: "int list"
  aw_WinnerIndex :: int
  aw_WinningBid :: int
  aw_SecondPrice :: int
  aw_ClearingPrice :: int

record AuctionPublicInputs =
  ap_NumBids :: int
  ap_Reserve :: u64
  ap_ClearingPrice :: u64
  ap_WinnerCommit :: bytes

definition NewHAuctionCircuit :: "int \<Rightarrow> u64 \<Rightarrow> HAuctionCircuit" where
  "NewHAuctionCircuit numBids reserve =
     Halo2Circuit.extend NewHalo2Circuit
       \<lparr>ac_NumBids = numBids, ac_Reserve = big_of_u64 reserve\<rparr>"

text \<open>\<open>make\<close> panics on a negative length, \<open>powers[0]\<close> on an empty slice and
  \<open>powers[:2]\<close> on a slice of capacity one.\<close>

definition HAuction_Setup ::
  "bytes option \<Rightarrow> HAuctionCircuit \<Rightarrow> halo_error + HProvingKey \<times> HVerifyingKey" where
  "HAuction_Setup rnd c =
     (case rnd of None \<Rightarrow> Inl ErrSetupFailed
      | Some tau \<Rightarrow>
          if ac_NumBids c + 10 < 2 then Inl HaloPanic
          else
            let powers = srs_powers (hc_field c) (set_bytes tau) (nat (ac_NumBids c + 10)) 1
            in Inr (\<lparr>pk_CircuitID = ''auction_halo2_v1'', pk_SRS = powers,
                     pk_NumBids = ac_NumBids c, pk_Reserve = ac_Reserve c\<rparr>,
                    \<lparr>vk_CircuitID = ''auction_halo2_v1'', vk_CommitmentKey = take 2 powers,
                     vk_ConstraintCount = ac_NumBids c * 3\<rparr>))"

definition computeQuotient :: "HAuctionCircuit \<Rightarrow> AuctionWitness \<Rightarrow> int" where
  "computeQuotient c w =
     (let f = hc_field c;
          constraints = foldl (\<lambda>acc (i, bid).
              if int i \<noteq> aw_WinnerIndex w
              then Field_Add f acc (Field_Sub f (aw_WinningBid w) bid) else acc)
            0 (enumerate 0 (aw_Bids w));
          priceDiff = (if aw_SecondPrice w < ac_Reserve c
                       then Field_Sub f (aw_ClearingPrice w) (ac_Reserve c)
                       else Field_Sub f (aw_ClearingPrice w) (aw_SecondPrice w))
      in Field_Add f constraints priceDiff)"

definition generateOpeningProof ::
  "(bytes \<Rightarrow> bytes) \<Rightarrow> HAuctionCircuit \<Rightarrow> AuctionWitness \<Rightarrow> bytes list \<Rightarrow> bytes" where
  "generateOpeningProof H c w commitments =
     H (concat commitments @
        big_bytes (PoseidonHash_Hash (hc_poseidon c) [aw_WinningBid w, aw_ClearingPrice w]))"

definition HAuction_Prove ::
  "(bytes \<Rightarrow> bytes) \<Rightarrow> HAuctionCircuit \<Rightarrow> AuctionWitness \<Rightarrow> halo_error + Halo2Proof" where
  "HAuction_Prove H c w =
     (if aw_WinnerIndex w \<ge> ac_NumBids c then Inl ErrProvingFailed
      else
        let hash = PoseidonHash_Hash (hc_poseidon c);
            commitments = map (\<lambda>bid. big_bytes (hash [bid])) (aw_Bids w)
              @ [big_bytes (hash [aw_WinnerIndex w, aw_WinningBid w])]
              @ [big_bytes (hash [aw_ClearingPrice w])];
            quotientCommit = hash [computeQuotient c w];
            openingProof = generateOpeningProof H c w commitments
        in Inr \<lparr>hp_WitnessCommitments = commitments,
                hp_QuotientCommitment = big_bytes quotientCommit,
                hp_OpeningProof = openingProof,
                hp_Evaluations = [''winner_bid'' \<mapsto> aw_WinningBid w,
                                  ''clearing_price'' \<mapsto> aw_ClearingPrice w,
                                  ''num_valid_bids'' \<mapsto> int (length (aw_Bids w))]\<rparr>)"

definition HAuction_Verify ::
  "HAuctionCircuit \<Rightarrow> AuctionPublicInputs \<Rightarrow> Halo2Proof \<Rightarrow> bool option" where
  "HAuction_Verify c pub proof =
     (if int (length (hp_WitnessCommitments proof)) < ac_NumBids c + 2 then Some False
      else case hp_Evaluations proof ''clearing_price'' of
        None \<Rightarrow> None
      | Some price \<Rightarrow>
          if price \<noteq> big_of_u64 (ap_ClearingPrice pub) then Some False
          else if length (hp_QuotientCommitment proof) \<noteq> 32 then Some False
          else if length (hp_OpeningProof proof) < 32 then Some False
          else Some True)"

subsection \<open>The budget circuit\<close>

record BudgetWitness =
  bw_OldBudget :: int
  bw_Delta :: int
  bw_NewBudget :: int

record BudgetPublicInputs =
  bp_Delta :: u64
  bp_OldBudgetCommit :: bytes
  bp_NewBudgetCommit :: bytes

definition HBudget_Setup :: "bytes option \<Rightarrow> Halo2Circuit \<Rightarrow> halo_error + HProvingKey \<times> HVerifyingKey" where
  "HBudget_Setup rnd c =
     (case rnd of None \<Rightarrow> Inl ErrSetupFailed
      | Some tau \<Rightarrow>
          let powers = srs_powers (hc_field c) (set_bytes tau) 10 1
          in Inr (\<lparr>pk_CircuitID = ''budget_halo2_v1'', pk_SRS = powers, pk_NumBids = 0,
                   pk_Reserve = 0\<rparr>,
                  \<lparr>vk_CircuitID = ''budget_halo2_v1'', vk_CommitmentKey = take 2 powers,
                   vk_ConstraintCount = 2\<rparr>))"

definition HBudget_Prove ::
  "(bytes \<Rightarrow> bytes) \<Rightarrow> Halo2Circuit \<Rightarrow> BudgetWitness \<Rightarrow> halo_error + Halo2Proof" where
  "HBudget_Prove H c w =
     (let f = hc_field c; hash = PoseidonHash_Hash (hc_poseidon c) in
      if Field_Sub f (bw_OldBudget w) (bw_Delta w) \<noteq> bw_NewBudget w then Inl ErrProvingFailed
      else if bw_NewBudget w < 0 then Inl ErrProvingFailed
      else
        let commitments = [big_bytes (hash [bw_OldBudget w]), big_bytes (hash [bw_Delta w]),
                           big_bytes (hash [bw_NewBudget w])];
            quotient = Field_Sub f (Field_Add f (bw_NewBudget w) (bw_Delta w)) (bw_OldBudget w)
        in Inr \<lparr>hp_WitnessCommitments = commitments,
                hp_QuotientCommitment = big_bytes (hash [quotient]),
                hp_OpeningProof = H (big_bytes (bw_NewBudget w) @ big_bytes (bw_Delta w)),
                hp_Evaluations = [''new_budget'' \<mapsto> bw_NewBudget w, ''delta'' \<mapsto> bw_Delta w]\<rparr>)"

definition HBudget_Verify :: "BudgetPublicInputs \<Rightarrow> Halo2Proof \<Rightarrow> bool option" where
  "HBudget_Verify pub proof =
     (if length (hp_WitnessCommitments proof) \<noteq> 3 then Some False
      else case hp_Evaluations proof ''delta'' of
        None \<Rightarrow> None
      | Some delta \<Rightarrow>
          if delta \<noteq> big_of_u64 (bp_Delta pub) then Some False
          else Some (length (hp_OpeningProof proof) > 0))"

subsection \<open>The frequency circuit\<close>

record HFrequencyCircuit = Halo2Circuit +
  fcc_Cap :: u32

record 'c FrequencyWitness =
  fw_CounterBefore :: int
  fw_CounterAfter :: int
  fw_CampaignID :: 'c

record 'c FrequencyPublicInputs =
  fp_Cap :: u32
  fp_CampaignID :: 'c
  fp_CounterRoot :: bytes

definition NewHFrequencyCircuit :: "u32 \<Rightarrow> HFrequencyCircuit" where
  "NewHFrequencyCircuit cap = Halo2Circuit.extend NewHalo2Circuit \<lparr>fcc_Cap = cap\<rparr>"

definition HFrequency_Setup ::
  "bytes option \<Rightarrow> HFrequencyCircuit \<Rightarrow> halo_error + HProvingKey \<times> HVerifyingKey" where
  "HFrequency_Setup rnd c =
     (case rnd of None \<Rightarrow> Inl ErrSetupFailed
      | Some tau \<Rightarrow>
          let powers = srs_powers (hc_field c) (set_bytes tau) 10 1
          in Inr (\<lparr>pk_CircuitID = ''frequency_halo2_v1'', pk_SRS = powers, pk_NumBids = 0,
                   pk_Reserve = 0\<rparr>,
                  \<lparr>vk_CircuitID = ''frequency_halo2_v1'', vk_CommitmentKey = take 2 powers,
                   vk_ConstraintCount = 2\<rparr>))"

definition HFrequency_Prove ::
  "(bytes \<Rightarrow> bytes) \<Rightarrow> HFrequencyCircuit \<Rightarrow> 'c FrequencyWitness \<Rightarrow> halo_error + Halo2Proof" where
  "HFrequency_Prove H c w =
     (let f = hc_field c; hash = PoseidonHash_Hash (hc_poseidon c);
          expected = Field_Add f (fw_CounterBefore w) 1 in
      if expected \<noteq> fw_CounterAfter w then Inl ErrProvingFailed
      else if fw_CounterAfter w > big_of_u32 (fcc_Cap c) then Inl ErrProvingFailed
      else
        let commitments = [big_bytes (hash [fw_CounterBefore w]),
                           big_bytes (hash [fw_CounterAfter w])];
            quotient = Field_Sub f (fw_CounterAfter w) expected
        in Inr \<lparr>hp_WitnessCommitments = commitments,
                hp_QuotientCommitment = big_bytes (hash [quotient]),
                hp_OpeningProof =
                  H (big_bytes (fw_CounterBefore w) @ big_bytes (fw_CounterAfter w)),
                hp_Evaluations = [''counter_after'' \<mapsto> fw_CounterAfter w]\<rparr>)"

definition HFrequency_Verify :: "'c FrequencyPublicInputs \<Rightarrow> Halo2Proof \<Rightarrow> bool option" where
  "HFrequency_Verify pub proof =
     (if length (hp_WitnessCommitments proof) \<noteq> 2 then Some False
      else case hp_Evaluations proof ''counter_after'' of
        None \<Rightarrow> None
      | Some counter \<Rightarrow>
          if counter > big_of_u32 (fp_Cap pub) then Some False
          else Some (length (hp_OpeningProof proof) > 0))"

subsection \<open>Lemmas\<close>

abbreviation bn254 :: int where
  "bn254 \<equiv> 21888242871839275222246405745257275088548364400416034343698204186575808495617"

lemma modulus [simp]: "fd_Modulus NewField = bn254"
  by (simp add: NewField_def)

lemma circuit_parts [simp]:
  "hc_field NewHalo2Circuit = NewField" "hc_poseidon NewHalo2Circuit = NewPoseidonHash"
  "hc_field (NewHAuctionCircuit n r) = NewField"
  "hc_poseidon (NewHAuctionCircuit n r) = NewPoseidonHash"
  "hc_field (NewHFrequencyCircuit cap) = NewField"
  "hc_poseidon (NewHFrequencyCircuit cap) = NewPoseidonHash"
  "ac_NumBids (NewHAuctionCircuit n r) = n" "ac_Reserve (NewHAuctionCircuit n r) = big_of_u64 r"
  "fcc_Cap (NewHFrequencyCircuit cap) = cap"
  by (simp_all add: NewHalo2Circuit_def NewHAuctionCircuit_def NewHFrequencyCircuit_def
      Halo2Circuit.defs)

lemma field_inverse:
  "Field_Inv NewField a = Some b \<Longrightarrow> Field_Mul NewField a b = 1 \<and> 0 \<le> b \<and> b < bn254"
  using mod_inverse_correct [of bn254 a b] by (simp add: Field_Inv_def Field_Mul_def)

lemma srs_powers_nth:
  "i < n \<Longrightarrow> 0 \<le> p \<Longrightarrow> p < fd_Modulus f \<Longrightarrow>
     srs_powers f tau n p ! i = (p * tau ^ i) mod fd_Modulus f"
proof (induction n arbitrary: i p)
  case (Suc n)
  show ?case
  proof (cases i)
    case 0
    with Suc.prems show ?thesis by simp
  next
    case (Suc j)
    then have "srs_powers f tau n (Field_Mul f p tau) ! j =
        (Field_Mul f p tau * tau ^ j) mod fd_Modulus f"
      using Suc.prems Suc.IH [of j "Field_Mul f p tau"] \<open>Suc n > i\<close>
      by (simp add: Field_Mul_def)
    also have "\<dots> = (p * tau ^ i) mod fd_Modulus f"
      by (simp add: Suc Field_Mul_def mod_simps mult.assoc)
    finally show ?thesis by (simp add: Suc)
  qed
qed simp

lemma length_srs_powers [simp]: "length (srs_powers f tau n p) = n"
  by (induction n arbitrary: p) simp_all

lemma poseidon_round_range:
  assumes "0 < fd_Modulus (ps_field p)"
  shows "0 \<le> poseidon_round p r s ! 0 \<and> poseidon_round p r s ! 0 < fd_Modulus (ps_field p)"
  using assms by (simp add: poseidon_round_def Field_Add_def Let_def upt_rec)

lemma hash_range:
  "0 \<le> PoseidonHash_Hash NewPoseidonHash xs" "PoseidonHash_Hash NewPoseidonHash xs < bn254"
proof -
  have "ps_field NewPoseidonHash = NewField" "ps_rounds NewPoseidonHash = 8"
    by (simp_all add: NewPoseidonHash_def Let_def)
  moreover have "[0..<8] = [0..<7] @ [7 :: nat]" by (simp add: upt_rec)
  ultimately show "0 \<le> PoseidonHash_Hash NewPoseidonHash xs"
    "PoseidonHash_Hash NewPoseidonHash xs < bn254"
    using poseidon_round_range [of NewPoseidonHash 7] by (simp_all add: PoseidonHash_Hash_def Let_def)
qed

lemma hash_bytes_32:
  "length (big_bytes (PoseidonHash_Hash NewPoseidonHash xs)) = 32 \<longleftrightarrow>
     2 ^ 248 \<le> PoseidonHash_Hash NewPoseidonHash xs"
  using hash_range [of xs] by (intro big_bytes_32) simp_all

lemma big_of_int:
  "- (2 ^ 63) \<le> x \<Longrightarrow> x < 2 ^ 63 \<Longrightarrow> big_of_u64 (of_int x) = x"
  by (simp add: big_of_u64_def signed_of_int signed_take_bit_int_eq_self)

definition hash_ok :: "(bytes \<Rightarrow> bytes) \<Rightarrow> bool" where
  "hash_ok H \<longleftrightarrow> (\<forall>bs. length (H bs) = 32)"

subsection \<open>The contract\<close>

text \<open>The statements the three provers check.\<close>

definition budget_statement :: "BudgetWitness \<Rightarrow> bool" where
  "budget_statement w \<longleftrightarrow> bw_NewBudget w = (bw_OldBudget w - bw_Delta w) mod bn254"

definition frequency_statement :: "u32 \<Rightarrow> 'c FrequencyWitness \<Rightarrow> bool" where
  "frequency_statement cap w \<longleftrightarrow>
     fw_CounterAfter w = (fw_CounterBefore w + 1) mod bn254 \<and> fw_CounterAfter w \<le> uint cap"

definition budget_public :: "BudgetWitness \<Rightarrow> BudgetPublicInputs" where
  "budget_public w =
     \<lparr>bp_Delta = of_int (bw_Delta w),
      bp_OldBudgetCommit = big_bytes (PoseidonHash_Hash NewPoseidonHash [bw_OldBudget w]),
      bp_NewBudgetCommit = big_bytes (PoseidonHash_Hash NewPoseidonHash [bw_NewBudget w])\<rparr>"

definition frequency_public :: "u32 \<Rightarrow> 'c FrequencyWitness \<Rightarrow> 'c FrequencyPublicInputs" where
  "frequency_public cap w =
     \<lparr>fp_Cap = cap, fp_CampaignID = fw_CampaignID w,
      fp_CounterRoot = big_bytes (PoseidonHash_Hash NewPoseidonHash [fw_CounterAfter w])\<rparr>"

definition auction_public :: "HAuctionCircuit \<Rightarrow> AuctionWitness \<Rightarrow> AuctionPublicInputs" where
  "auction_public c w =
     \<lparr>ap_NumBids = int (length (aw_Bids w)), ap_Reserve = of_int (ac_Reserve c),
      ap_ClearingPrice = of_int (aw_ClearingPrice w),
      ap_WinnerCommit = big_bytes (PoseidonHash_Hash NewPoseidonHash
        [aw_WinnerIndex w, aw_WinningBid w])\<rparr>"

definition int64_range :: "int \<Rightarrow> bool" where
  "int64_range x \<longleftrightarrow> - (2 ^ 63) \<le> x \<and> x < 2 ^ 63"

definition auction_expressible :: "int \<Rightarrow> u64 \<Rightarrow> AuctionWitness \<Rightarrow> bool" where
  "auction_expressible n r w \<longleftrightarrow>
     n \<le> int (length (aw_Bids w)) \<and> int64_range (aw_ClearingPrice w) \<and>
     2 ^ 248 \<le> PoseidonHash_Hash NewPoseidonHash [computeQuotient (NewHAuctionCircuit n r) w]"

interpretation hbudget: proof_system "HBudget_Prove H NewHalo2Circuit" HBudget_Verify budget_public
  budget_statement "\<lambda>w. int64_range (bw_Delta w)" "hash_ok H" for H
proof unfold_locales
  show "is_ok (HBudget_Prove H NewHalo2Circuit w) \<longleftrightarrow> budget_statement w" for w
    by (auto simp: HBudget_Prove_def budget_statement_def Field_Sub_def Let_def)
  show "HBudget_Verify (budget_public w) p = Some True"
    if "hash_ok H" "int64_range (bw_Delta w)" "HBudget_Prove H NewHalo2Circuit w = Inr p" for w p
    using that
    by (auto simp: HBudget_Prove_def HBudget_Verify_def budget_public_def big_of_int
        int64_range_def hash_ok_def Let_def split: if_splits)
qed

interpretation hfrequency: proof_system "HFrequency_Prove H (NewHFrequencyCircuit cap)"
  HFrequency_Verify "frequency_public cap" "frequency_statement cap" "\<lambda>_. True" "hash_ok H"
  for H cap
proof unfold_locales
  show "is_ok (HFrequency_Prove H (NewHFrequencyCircuit cap) w) \<longleftrightarrow> frequency_statement cap w"
    for w :: "'c FrequencyWitness"
    by (auto simp: HFrequency_Prove_def frequency_statement_def Field_Add_def big_of_u32_def Let_def)
  show "HFrequency_Verify (frequency_public cap w) p = Some True"
    if "hash_ok H" "HFrequency_Prove H (NewHFrequencyCircuit cap) w = Inr p"
    for p and w :: "'c FrequencyWitness"
    using that
    by (auto simp: HFrequency_Prove_def HFrequency_Verify_def frequency_public_def hash_ok_def
        Let_def split: if_splits)
qed

lemma HAuction_Verify_proved:
  assumes "hash_ok H" and "HAuction_Prove H (NewHAuctionCircuit n r) w = Inr p"
  shows "HAuction_Verify (NewHAuctionCircuit n r) pub p = Some (
    n \<le> int (length (aw_Bids w)) \<and> aw_ClearingPrice w = big_of_u64 (ap_ClearingPrice pub) \<and>
    2 ^ 248 \<le> PoseidonHash_Hash NewPoseidonHash [computeQuotient (NewHAuctionCircuit n r) w])"
proof -
  from assms(2) have p: "length (hp_WitnessCommitments p) = length (aw_Bids w) + 2"
    "hp_Evaluations p ''clearing_price'' = Some (aw_ClearingPrice w)"
    "length (hp_OpeningProof p) = 32"
    "length (hp_QuotientCommitment p) = 32 \<longleftrightarrow> 2 ^ 248 \<le>
       PoseidonHash_Hash NewPoseidonHash [computeQuotient (NewHAuctionCircuit n r) w]"
    using assms(1) unfolding hash_bytes_32 [symmetric]
    by (auto simp: HAuction_Prove_def generateOpeningProof_def hash_ok_def Let_def
        split: if_splits)
  then show ?thesis by (auto simp: HAuction_Verify_def)
qed

interpretation hauction: proof_system "HAuction_Prove H (NewHAuctionCircuit n r)"
  "HAuction_Verify (NewHAuctionCircuit n r)" "auction_public (NewHAuctionCircuit n r)"
  "\<lambda>w. aw_WinnerIndex w < n" "auction_expressible n r" "hash_ok H" for H n r
proof unfold_locales
  show "is_ok (HAuction_Prove H (NewHAuctionCircuit n r) w) \<longleftrightarrow> aw_WinnerIndex w < n" for w
    by (auto simp: HAuction_Prove_def Let_def)
  show "HAuction_Verify (NewHAuctionCircuit n r) (auction_public (NewHAuctionCircuit n r) w) p
      = Some True"
    if "hash_ok H" "auction_expressible n r w"
      "HAuction_Prove H (NewHAuctionCircuit n r) w = Inr p" for w p
    using that by (simp add: HAuction_Verify_proved auction_expressible_def auction_public_def
        big_of_int int64_range_def)
qed

subsection \<open>Properties\<close>

text \<open>The budget prover accepts a witness exactly when the new budget is the old one
  minus the amount modulo the field: the check that the new budget is not negative never
  rejects anything, since field elements are never negative. So for amounts within the
  budget it proves the exact difference, and it proves an overdraft just as well.\<close>

theorem budget_circuit_proves_modular_difference:
  "is_ok (HBudget_Prove H NewHalo2Circuit w) \<longleftrightarrow>
     bw_NewBudget w = (bw_OldBudget w - bw_Delta w) mod bn254"
  by (simp add: hbudget.prove_iff budget_statement_def)

lemma budget_circuit_overdraft:
  "is_ok (HBudget_Prove H NewHalo2Circuit
     \<lparr>bw_OldBudget = 5, bw_Delta = 7, bw_NewBudget = bn254 - 2\<rparr>)"
  by (simp add: hbudget.prove_iff budget_statement_def)

text \<open>The budget and the frequency circuit are complete: a correct budget update within
  the budget, and a correct increment within the cap, are proved, and the verifier accepts
  the proof for the public inputs of the witness.\<close>

theorem budget_and_frequency_circuits_complete:
  assumes "hash_ok H"
    and "0 \<le> delta" and "delta \<le> old" and "old < bn254" and "delta < 2 ^ 63"
    and "0 \<le> before" and "before < uint cap"
  shows "(\<exists>p. HBudget_Prove H NewHalo2Circuit
        \<lparr>bw_OldBudget = old, bw_Delta = delta, bw_NewBudget = old - delta\<rparr> = Inr p \<and>
      HBudget_Verify (budget_public
        \<lparr>bw_OldBudget = old, bw_Delta = delta, bw_NewBudget = old - delta\<rparr>) p = Some True) \<and>
    (\<exists>p. HFrequency_Prove H (NewHFrequencyCircuit cap)
        \<lparr>fw_CounterBefore = before, fw_CounterAfter = before + 1, fw_CampaignID = c\<rparr> = Inr p \<and>
      HFrequency_Verify (frequency_public cap
        \<lparr>fw_CounterBefore = before, fw_CounterAfter = before + 1, fw_CampaignID = c\<rparr>) p
      = Some True)"
proof -
  have "uint cap < 2 ^ 32" using uint_bounded [of cap] by simp
  with assms show ?thesis
    by (intro conjI hbudget.round_trip hfrequency.round_trip)
      (simp_all add: budget_statement_def frequency_statement_def int64_range_def)
qed

theorem budget_and_frequency_circuits_complete_witness:
  "\<exists>p. HFrequency_Prove (\<lambda>_. replicate 32 0) (NewHFrequencyCircuit 3)
      \<lparr>fw_CounterBefore = 2, fw_CounterAfter = 3, fw_CampaignID = ()\<rparr> = Inr p \<and>
    HFrequency_Verify (frequency_public 3
      \<lparr>fw_CounterBefore = 2, fw_CounterAfter = 3, fw_CampaignID = ()\<rparr>) p = Some True"
  using budget_and_frequency_circuits_complete
    [of "\<lambda>_. replicate 32 0" 4 10 2 3 "()"] by (simp add: hash_ok_def)

text \<open>C30: What the auction verifier says about a proof the auction prover made: it accepts
  exactly when the witness had at least as many bids as the circuit, the public clearing
  price is the witness's, and the hash of the quotient needs all 32 bytes. Nothing of the
  winner or of the price rule is checked, and a correct proof whose quotient hash starts
  with a zero byte is refused, because \<open>Bytes\<close> drops leading zeros.\<close>

theorem auction_verifier_exact:
  assumes "hash_ok H" and "HAuction_Prove H (NewHAuctionCircuit n r) w = Inr p"
  shows "HAuction_Verify (NewHAuctionCircuit n r) pub p = Some (
    n \<le> int (length (aw_Bids w)) \<and> aw_ClearingPrice w = big_of_u64 (ap_ClearingPrice pub) \<and>
    2 ^ 248 \<le> PoseidonHash_Hash NewPoseidonHash [computeQuotient (NewHAuctionCircuit n r) w])"
  using assms by (rule HAuction_Verify_proved)

theorem auction_verifier_exact_witness:
  "(let w = \<lparr>aw_Bids = [152, 100], aw_WinnerIndex = 0, aw_WinningBid = 152, aw_SecondPrice = 100,
            aw_ClearingPrice = 100\<rparr>;
        c = NewHAuctionCircuit 2 50
    in \<exists>p. HAuction_Prove (\<lambda>_. replicate 32 0) c w = Inr p \<and>
       HAuction_Verify c (auction_public c w) p =
         Some (2 ^ 248 \<le> PoseidonHash_Hash NewPoseidonHash [52]))"
proof -
  let ?w = "\<lparr>aw_Bids = [152, 100], aw_WinnerIndex = 0, aw_WinningBid = 152, aw_SecondPrice = 100,
            aw_ClearingPrice = 100\<rparr>"
  let ?c = "NewHAuctionCircuit 2 50"
  have q: "computeQuotient ?c ?w = 52"
    by (simp add: computeQuotient_def Field_Add_def Field_Sub_def big_of_u64_def)
  obtain p where p: "HAuction_Prove (\<lambda>_. replicate 32 0) ?c ?w = Inr p"
    by (auto simp: HAuction_Prove_def Let_def)
  have "hash_ok (\<lambda>_. replicate 32 0)" by (simp add: hash_ok_def)
  from auction_verifier_exact [OF this p, of "auction_public ?c ?w"] p
  show ?thesis
    by (simp add: q auction_public_def big_of_int [of 100, simplified] Let_def)
qed

end
