(* ===== verification/Halo2Auction.thy ===== *)
theory Halo2Auction
  imports Auction Halo2Circuits
begin

text \<open>
  \<^verbatim>\<open>auction/halo2_auction.go\<close>: the auction, the budget manager and the frequency
  manager that attach a Halo2 proof to what they do. The circuits come from
  \<^theory_text>\<open>Halo2Circuits\<close>, the auction underneath from \<^theory_text>\<open>Auction\<close>.
  Draws of \<open>ids.GenerateTestID\<close> and of \<open>rand.Read\<close> are arguments.
\<close>

datatype h2_error =
    ErrCircuitNotSetup
  | ErrProofGenFailed
  | ErrProofVerificationFailed
  | ErrInsufficientHaloBudget
  | ErrCapExceeded
  | ErrAuction auction_error
  | ErrHalo halo_error
  | H2Panic

subsection \<open>The auction\<close>

record Halo2Auction =
  ha_Auction :: Auction
  ha_circuit :: "HAuctionCircuit option"
  ha_pk :: "HProvingKey option"
  ha_vk :: "HVerifyingKey option"
  ha_proofs :: "ID \<rightharpoonup> Halo2Proof"

record Halo2AuctionOutcome =
  ho_Outcome :: AuctionOutcome
  ho_Halo2Proof :: Halo2Proof
  ho_ProofID :: ID
  ho_VerifyingKey :: "HVerifyingKey option"

definition NewHalo2Auction ::
  "time \<Rightarrow> ID \<Rightarrow> u64 \<Rightarrow> duration \<Rightarrow> bytes option \<Rightarrow> h2_error + Halo2Auction" where
  "NewHalo2Auction now auctionID reserve dur rnd =
     (let baseAuction = NewAuction now auctionID reserve dur;
          maxBids = 100;
          circuit = NewHAuctionCircuit maxBids reserve
      in case HAuction_Setup rnd circuit of
        Inl err \<Rightarrow> Inl (ErrHalo err)
      | Inr (pk, vk) \<Rightarrow>
          Inr \<lparr>ha_Auction = baseAuction, ha_circuit = Some circuit, ha_pk = Some pk,
               ha_vk = Some vk, ha_proofs = Map.empty\<rparr>)"

definition simulated_bid :: "nat \<Rightarrow> int" where
  "simulated_bid i = int (100 + i * 50)"

text \<open>One pass of the loop over the sealed bids: the index and the running second price.\<close>

definition witness_step ::
  "AuctionOutcome \<Rightarrow> (nat \<times> SealedBid) \<Rightarrow> int \<times> int \<Rightarrow> int \<times> int" where
  "witness_step out ib st =
     (case ib of (i, sealedBid) \<Rightarrow> case st of (winnerIndex, secondHighest) \<Rightarrow>
        (if sb_BidderID sealedBid = ao_WinnerID out then int i else winnerIndex,
         if simulated_bid i < big_of_u64 (ao_WinningBid out) \<and> simulated_bid i > secondHighest
         then simulated_bid i else secondHighest))"

definition prepareWitness :: "AuctionOutcome \<Rightarrow> HAuctionCircuit \<Rightarrow> Halo2Auction \<Rightarrow> AuctionWitness" where
  "prepareWitness out circuit ha =
     (let bids = au_Bids (ha_Auction ha);
          simulated = map simulated_bid [0..<length bids];
          decryptedBids = simulated @ replicate (nat (ac_NumBids circuit) - length bids) 0;
          st = fold (witness_step out) (enumerate 0 bids) (-1, 0);
          reserve = big_of_u64 (au_Reserve (ha_Auction ha));
          secondHighest = (if snd st < reserve then reserve else snd st)
      in \<lparr>aw_Bids = decryptedBids, aw_WinnerIndex = fst st,
          aw_WinningBid = big_of_u64 (ao_WinningBid out), aw_SecondPrice = secondHighest,
          aw_ClearingPrice = big_of_u64 (ao_ClearingPrice out)\<rparr>)"

definition RunAuctionWithHalo2 ::
  "(bytes \<Rightarrow> bytes) \<Rightarrow> (DecryptedBid list \<Rightarrow> DecryptedBid list) \<Rightarrow> (nat \<Rightarrow> ID) \<Rightarrow> ID \<Rightarrow>
   Halo2Auction \<Rightarrow> (h2_error + Halo2AuctionOutcome) \<times> Halo2Auction" where
  "RunAuctionWithHalo2 H srt rnd proofID ha =
     (case ha_circuit ha of
        None \<Rightarrow> (Inl ErrCircuitNotSetup, ha)
      | Some circuit \<Rightarrow>
          if ha_pk ha = None then (Inl ErrCircuitNotSetup, ha)
          else (case Auction_RunAuction H srt rnd (ha_Auction ha) of
            (Inl err, a) \<Rightarrow> (Inl (ErrAuction err), ha\<lparr>ha_Auction := a\<rparr>)
          | (Inr outcome, a) \<Rightarrow>
              let ha1 = ha\<lparr>ha_Auction := a\<rparr>;
                  witness = prepareWitness outcome circuit ha1 in
              (case HAuction_Prove H circuit witness of
                 Inl _ \<Rightarrow> (Inl ErrProofGenFailed, ha1)
               | Inr proof \<Rightarrow>
                   let ha2 = ha1\<lparr>ha_proofs := (ha_proofs ha1)(proofID \<mapsto> proof)\<rparr>;
                       n = length (au_Bids a);
                       publicInputs = \<lparr>ap_NumBids = int n, ap_Reserve = au_Reserve a,
                         ap_ClearingPrice = ao_ClearingPrice outcome,
                         ap_WinnerCommit = hp_WitnessCommitments proof ! n\<rparr>
                   in (case HAuction_Verify circuit publicInputs proof of
                         None \<Rightarrow> (Inl H2Panic, ha2)
                       | Some False \<Rightarrow> (Inl ErrProofVerificationFailed, ha2)
                       | Some True \<Rightarrow>
                           (Inr \<lparr>ho_Outcome = outcome, ho_Halo2Proof = proof, ho_ProofID = proofID,
                                 ho_VerifyingKey = ha_vk ha\<rparr>, ha2)))))"

definition VerifyHalo2Proof :: "ID \<Rightarrow> AuctionPublicInputs \<Rightarrow> Halo2Auction \<Rightarrow> bool option" where
  "VerifyHalo2Proof proofID publicInputs ha =
     (case ha_proofs ha proofID of
        None \<Rightarrow> Some False
      | Some proof \<Rightarrow>
          (case ha_circuit ha of None \<Rightarrow> None
           | Some circuit \<Rightarrow> HAuction_Verify circuit publicInputs proof))"

definition GetVerifyingKey :: "Halo2Auction \<Rightarrow> HVerifyingKey option" where
  "GetVerifyingKey ha = ha_vk ha"

subsection \<open>The budget manager\<close>

record Halo2BudgetManager =
  hb_budgets :: "ID \<rightharpoonup> int"
  hb_proofs :: "ID \<rightharpoonup> Halo2Proof"

record Halo2BudgetProof =
  hbp_ProofID :: ID
  hbp_AdvertiserID :: ID
  hbp_Delta :: u64
  hbp_NewBudget :: u64
  hbp_Halo2Proof :: Halo2Proof
  hbp_OldBudgetCommit :: bytes
  hbp_NewBudgetCommit :: bytes

text \<open>The circuit and the keys of the manager never change; the circuit is
  \<open>NewHalo2Circuit\<close> and the keys are not read.\<close>

definition NewHalo2BudgetManager :: "bytes option \<Rightarrow> h2_error + Halo2BudgetManager" where
  "NewHalo2BudgetManager rnd =
     (case HBudget_Setup rnd NewHalo2Circuit of
        Inl err \<Rightarrow> Inl (ErrHalo err)
      | Inr (pk, vk) \<Rightarrow> Inr \<lparr>hb_budgets = Map.empty, hb_proofs = Map.empty\<rparr>)"

definition DeductBudgetWithProof ::
  "(bytes \<Rightarrow> bytes) \<Rightarrow> ID \<Rightarrow> ID \<Rightarrow> u64 \<Rightarrow> Halo2BudgetManager \<Rightarrow>
   (h2_error + Halo2BudgetProof) \<times> Halo2BudgetManager" where
  "DeductBudgetWithProof H proofID advertiserID amount bm =
     (let currentBudget = (case hb_budgets bm advertiserID of None \<Rightarrow> 10000 | Some b \<Rightarrow> b);
          bm1 = bm\<lparr>hb_budgets := (hb_budgets bm)(advertiserID \<mapsto> currentBudget)\<rparr>;
          delta = big_of_u64 amount;
          newBudget = currentBudget - delta
      in if newBudget < 0 then (Inl ErrInsufficientHaloBudget, bm1)
         else
           let witness = \<lparr>bw_OldBudget = currentBudget, bw_Delta = delta, bw_NewBudget = newBudget\<rparr>
           in (case HBudget_Prove H NewHalo2Circuit witness of
                 Inl err \<Rightarrow> (Inl (ErrHalo err), bm1)
               | Inr proof \<Rightarrow>
                   (Inr \<lparr>hbp_ProofID = proofID, hbp_AdvertiserID = advertiserID,
                         hbp_Delta = amount, hbp_NewBudget = of_int newBudget,
                         hbp_Halo2Proof = proof,
                         hbp_OldBudgetCommit = hp_WitnessCommitments proof ! 0,
                         hbp_NewBudgetCommit = hp_WitnessCommitments proof ! 2\<rparr>,
                    bm1\<lparr>hb_budgets := (hb_budgets bm1)(advertiserID \<mapsto> newBudget),
                        hb_proofs := (hb_proofs bm1)(proofID \<mapsto> proof)\<rparr>)))"

definition HB_VerifyBudgetProof :: "Halo2BudgetProof \<Rightarrow> bool option" where
  "HB_VerifyBudgetProof proofData =
     HBudget_Verify \<lparr>bp_Delta = hbp_Delta proofData,
                     bp_OldBudgetCommit = hbp_OldBudgetCommit proofData,
                     bp_NewBudgetCommit = hbp_NewBudgetCommit proofData\<rparr>
       (hbp_Halo2Proof proofData)"

subsection \<open>The frequency manager\<close>

record Halo2FrequencyManager =
  hf_counters :: "string \<rightharpoonup> int"
  hf_caps :: "ID \<rightharpoonup> u32"
  hf_circuits :: "u32 \<rightharpoonup> HFrequencyCircuit"
  hf_pks :: "u32 \<rightharpoonup> HProvingKey"
  hf_vks :: "u32 \<rightharpoonup> HVerifyingKey"
  hf_proofs :: "ID \<rightharpoonup> Halo2Proof"

record Halo2FrequencyProof =
  hfp_ProofID :: ID
  hfp_CampaignID :: ID
  hfp_Cap :: u32
  hfp_NewCounter :: u32
  hfp_Halo2Proof :: Halo2Proof
  hfp_CounterRoot :: bytes

definition NewHalo2FrequencyManager :: Halo2FrequencyManager where
  "NewHalo2FrequencyManager =
     \<lparr>hf_counters = Map.empty, hf_caps = Map.empty, hf_circuits = Map.empty, hf_pks = Map.empty,
      hf_vks = Map.empty, hf_proofs = Map.empty\<rparr>"

definition hf_key :: "string \<Rightarrow> ID \<Rightarrow> string" where
  "hf_key deviceID campaignID = deviceID @ ''_'' @ ID_String campaignID"

text \<open>The circuit of a cap, made and set up at its first use.\<close>

definition get_circuit ::
  "bytes option \<Rightarrow> u32 \<Rightarrow> Halo2FrequencyManager \<Rightarrow>
   (h2_error + HFrequencyCircuit) \<times> Halo2FrequencyManager" where
  "get_circuit rnd cap fm =
     (case hf_circuits fm cap of
        Some circuit \<Rightarrow> (Inr circuit, fm)
      | None \<Rightarrow>
          let circuit = NewHFrequencyCircuit cap in
          (case HFrequency_Setup rnd circuit of
             Inl err \<Rightarrow> (Inl (ErrHalo err), fm)
           | Inr (pk, vk) \<Rightarrow>
               (Inr circuit,
                fm\<lparr>hf_circuits := (hf_circuits fm)(cap \<mapsto> circuit),
                   hf_pks := (hf_pks fm)(cap \<mapsto> pk), hf_vks := (hf_vks fm)(cap \<mapsto> vk)\<rparr>)))"

definition CheckAndIncrementWithProof ::
  "(bytes \<Rightarrow> bytes) \<Rightarrow> bytes option \<Rightarrow> ID \<Rightarrow> string \<Rightarrow> ID \<Rightarrow> u32 \<Rightarrow> Halo2FrequencyManager \<Rightarrow>
   (h2_error + Halo2FrequencyProof) \<times> Halo2FrequencyManager" where
  "CheckAndIncrementWithProof H rnd proofID deviceID campaignID cap fm =
     (case get_circuit rnd cap fm of
        (Inl err, fm0) \<Rightarrow> (Inl err, fm0)
      | (Inr circuit, fm0) \<Rightarrow>
          let key = hf_key deviceID campaignID;
              counter = (case hf_counters fm0 key of None \<Rightarrow> 0 | Some c \<Rightarrow> c);
              fm1 = fm0\<lparr>hf_counters := (hf_counters fm0)(key \<mapsto> counter)\<rparr>
          in if counter \<ge> big_of_u32 cap then (Inl ErrCapExceeded, fm1)
             else
               let newCounter = counter + 1;
                   witness = \<lparr>fw_CounterBefore = counter, fw_CounterAfter = newCounter,
                              fw_CampaignID = campaignID\<rparr>
               in (case HFrequency_Prove H circuit witness of
                     Inl err \<Rightarrow> (Inl (ErrHalo err), fm1)
                   | Inr proof \<Rightarrow>
                       (Inr \<lparr>hfp_ProofID = proofID, hfp_CampaignID = campaignID, hfp_Cap = cap,
                             hfp_NewCounter = of_int newCounter, hfp_Halo2Proof = proof,
                             hfp_CounterRoot = hp_WitnessCommitments proof ! 1\<rparr>,
                        fm1\<lparr>hf_counters := (hf_counters fm1)(key \<mapsto> newCounter),
                            hf_caps := (hf_caps fm1)(campaignID \<mapsto> cap),
                            hf_proofs := (hf_proofs fm1)(proofID \<mapsto> proof)\<rparr>)))"

definition VerifyFrequencyProof ::
  "Halo2FrequencyProof \<Rightarrow> Halo2FrequencyManager \<Rightarrow> bool option" where
  "VerifyFrequencyProof proofData fm =
     (case hf_vks fm (hfp_Cap proofData) of
        None \<Rightarrow> Some False
      | Some vk \<Rightarrow>
          (case hf_circuits fm (hfp_Cap proofData) of
             None \<Rightarrow> Some False
           | Some circuit \<Rightarrow>
               HFrequency_Verify \<lparr>fp_Cap = hfp_Cap proofData,
                 fp_CampaignID = hfp_CampaignID proofData,
                 fp_CounterRoot = hfp_CounterRoot proofData\<rparr> (hfp_Halo2Proof proofData)))"

subsection \<open>The auction's proof\<close>

lemma witness_bids:
  "aw_Bids (prepareWitness out c ha) =
     map simulated_bid [0..<length (au_Bids (ha_Auction ha))] @
     replicate (nat (ac_NumBids c) - length (au_Bids (ha_Auction ha))) 0"
  "aw_ClearingPrice (prepareWitness out c ha) = big_of_u64 (ao_ClearingPrice out)"
  by (simp_all add: prepareWitness_def Let_def)

lemma RunAuction_bids:
  "Auction_RunAuction H srt rnd a = (r, a') \<Longrightarrow> au_Bids a' = au_Bids a"
  by (auto simp: Auction_RunAuction_def Let_def split: if_splits option.splits prod.splits)

lemma Prove_commitments:
  "HAuction_Prove H c w = Inr p \<Longrightarrow> hp_WitnessCommitments p =
     map (\<lambda>b. big_bytes (PoseidonHash_Hash (hc_poseidon c) [b])) (aw_Bids w) @
     [big_bytes (PoseidonHash_Hash (hc_poseidon c) [aw_WinnerIndex w, aw_WinningBid w]),
      big_bytes (PoseidonHash_Hash (hc_poseidon c) [aw_ClearingPrice w])]"
  by (auto simp: HAuction_Prove_def Let_def split: if_splits)

lemma RunHalo2_Inr:
  assumes "RunAuctionWithHalo2 H srt rnd proofID ha = (Inr r, ha')"
  obtains c a' pub where "ha_circuit ha = Some c" "ha_circuit ha' = Some c"
    "Auction_RunAuction H srt rnd (ha_Auction ha) = (Inr (ho_Outcome r), a')" "ha_Auction ha' = a'"
    "au_Bids a' = au_Bids (ha_Auction ha)"
    "HAuction_Prove H c (prepareWitness (ho_Outcome r) c (ha\<lparr>ha_Auction := a'\<rparr>))
       = Inr (ho_Halo2Proof r)"
    "ha_proofs ha' = (ha_proofs ha)(proofID \<mapsto> ho_Halo2Proof r)" "ho_ProofID r = proofID"
    "HAuction_Verify c pub (ho_Halo2Proof r) = Some True"
    "ap_ClearingPrice pub = ao_ClearingPrice (ho_Outcome r)"
proof -
  obtain x a' where run: "Auction_RunAuction H srt rnd (ha_Auction ha) = (x, a')" by force
  from assms run obtain c out where c: "ha_circuit ha = Some c" and x: "x = Inr out"
    by (auto simp: RunAuctionWithHalo2_def split: option.splits if_splits sum.splits)
  let ?w = "prepareWitness out c (ha\<lparr>ha_Auction := a'\<rparr>)"
  obtain p where p: "HAuction_Prove H c ?w = Inr p"
    using assms run c x
    by (auto simp: RunAuctionWithHalo2_def Let_def split: option.splits if_splits sum.splits)
  show thesis
    by (rule that [of c a' "\<lparr>ap_NumBids = int (length (au_Bids a')), ap_Reserve = au_Reserve a',
        ap_ClearingPrice = ao_ClearingPrice out,
        ap_WinnerCommit = hp_WitnessCommitments p ! length (au_Bids a')\<rparr>"])
      (use assms run c x p RunAuction_bids [OF run] in
        \<open>auto simp: RunAuctionWithHalo2_def Let_def split: option.splits if_splits bool.splits\<close>)
qed

text \<open>Same clearing price, same answer.\<close>

lemma Verify_price_only:
  "ap_ClearingPrice pub = ap_ClearingPrice pub' \<Longrightarrow>
     HAuction_Verify c pub p = HAuction_Verify c pub' p"
  by (cases "hp_Evaluations p ''clearing_price''") (simp_all add: HAuction_Verify_def)

subsection \<open>The budget manager's runs\<close>

type_synonym hb_op = "ID \<times> ID \<times> u64"

definition hb_step :: "(bytes \<Rightarrow> bytes) \<Rightarrow> hb_op \<Rightarrow> Halo2BudgetManager \<Rightarrow> Halo2BudgetManager" where
  "hb_step H op bm =
     (case op of (proofID, adv, amt) \<Rightarrow> snd (DeductBudgetWithProof H proofID adv amt bm))"

definition hb_left :: "ID \<Rightarrow> Halo2BudgetManager \<Rightarrow> int" where
  "hb_left adv bm = (case hb_budgets bm adv of None \<Rightarrow> 10000 | Some b \<Rightarrow> b)"

definition hb_taken :: "(bytes \<Rightarrow> bytes) \<Rightarrow> ID \<Rightarrow> hb_op \<Rightarrow> Halo2BudgetManager \<Rightarrow> int" where
  "hb_taken H adv op bm = (case op of (proofID, a, amt) \<Rightarrow>
     if a = adv \<and> is_ok (fst (DeductBudgetWithProof H proofID a amt bm)) then sint amt else 0)"

fun hb_takes :: "(bytes \<Rightarrow> bytes) \<Rightarrow> ID \<Rightarrow> hb_op list \<Rightarrow> Halo2BudgetManager \<Rightarrow> int" where
  "hb_takes H adv [] bm = 0"
| "hb_takes H adv (op # ops) bm = hb_taken H adv op bm + hb_takes H adv ops (hb_step H op bm)"

text \<open>Budgets are field elements.\<close>

definition hb_ok :: "Halo2BudgetManager \<Rightarrow> bool" where
  "hb_ok bm \<longleftrightarrow> (\<forall>adv b. hb_budgets bm adv = Some b \<longrightarrow> 0 \<le> b \<and> b < bn254)"

lemma hb_left_range: "hb_ok bm \<Longrightarrow> 0 \<le> hb_left adv bm \<and> hb_left adv bm < bn254"
  by (simp add: hb_ok_def hb_left_def split: option.splits)

lemma Deduct_cases:
  obtains (ok) p where "HBudget_Prove H NewHalo2Circuit \<lparr>bw_OldBudget = hb_left adv bm,
        bw_Delta = sint amt, bw_NewBudget = hb_left adv bm - sint amt\<rparr> = Inr p"
      "sint amt \<le> hb_left adv bm"
      "fst (DeductBudgetWithProof H i adv amt bm) =
         Inr \<lparr>hbp_ProofID = i, hbp_AdvertiserID = adv, hbp_Delta = amt,
              hbp_NewBudget = of_int (hb_left adv bm - sint amt), hbp_Halo2Proof = p,
              hbp_OldBudgetCommit = hp_WitnessCommitments p ! 0,
              hbp_NewBudgetCommit = hp_WitnessCommitments p ! 2\<rparr>"
      "hb_budgets (snd (DeductBudgetWithProof H i adv amt bm)) =
         (hb_budgets bm)(adv \<mapsto> hb_left adv bm - sint amt)"
  | (error) e where "fst (DeductBudgetWithProof H i adv amt bm) = Inl e"
      "hb_budgets (snd (DeductBudgetWithProof H i adv amt bm)) =
         (hb_budgets bm)(adv \<mapsto> hb_left adv bm)"
      "hb_left adv bm < sint amt \<or> \<not> budget_statement \<lparr>bw_OldBudget = hb_left adv bm,
        bw_Delta = sint amt, bw_NewBudget = hb_left adv bm - sint amt\<rparr>"
proof -
  let ?w = "\<lparr>bw_OldBudget = hb_left adv bm, bw_Delta = sint amt,
             bw_NewBudget = hb_left adv bm - sint amt\<rparr>"
  have left: "(case hb_budgets bm adv of None \<Rightarrow> 10000 | Some b \<Rightarrow> b) = hb_left adv bm"
    by (simp add: hb_left_def)
  show thesis
  proof (cases "sint amt \<le> hb_left adv bm")
    case False
    then show thesis
      by (intro error) (auto simp: DeductBudgetWithProof_def left big_of_u64_def Let_def)
  next
    case True
    show thesis
    proof (cases "HBudget_Prove H NewHalo2Circuit ?w")
      case (Inl e)
      then have "\<not> budget_statement ?w" using hbudget.proof_exists [of ?w H] by auto
      with Inl True show thesis
        by (intro error) (auto simp: DeductBudgetWithProof_def left big_of_u64_def Let_def)
    next
      case (Inr p)
      with True show thesis
        by (intro ok) (auto simp: DeductBudgetWithProof_def left big_of_u64_def Let_def)
    qed
  qed
qed

lemma hb_step_left:
  "hb_left adv (hb_step H op bm) = hb_left adv bm - hb_taken H adv op bm"
proof (cases op)
  case (fields i a amt)
  show ?thesis
    by (rule Deduct_cases [of H a bm amt i])
      (auto simp: fields hb_step_def hb_taken_def hb_left_def)
qed

lemma hb_step_ok [adx_inv]: "hb_ok bm \<Longrightarrow> hb_ok (hb_step H op bm)"
proof (cases op)
  case (fields i a amt)
  assume ok: "hb_ok bm"
  note range = hb_left_range [OF ok, of a]
  show ?thesis
  proof (rule Deduct_cases [of H a bm amt i])
    fix p
    assume "HBudget_Prove H NewHalo2Circuit \<lparr>bw_OldBudget = hb_left a bm, bw_Delta = sint amt,
        bw_NewBudget = hb_left a bm - sint amt\<rparr> = Inr p"
      and b: "hb_budgets (snd (DeductBudgetWithProof H i a amt bm)) =
         (hb_budgets bm)(a \<mapsto> hb_left a bm - sint amt)"
    from hbudget.proved_holds [OF this(1)]
    have "hb_left a bm - sint amt = (hb_left a bm - sint amt) mod bn254"
      by (simp add: budget_statement_def)
    moreover have "0 \<le> x mod bn254 \<and> x mod bn254 < bn254" for x by simp
    ultimately have "0 \<le> hb_left a bm - sint amt \<and> hb_left a bm - sint amt < bn254" by metis
    with ok b fields show ?thesis by (simp add: hb_ok_def hb_step_def)
  next
    assume "hb_budgets (snd (DeductBudgetWithProof H i a amt bm)) =
         (hb_budgets bm)(a \<mapsto> hb_left a bm)"
    with ok range fields show ?thesis by (simp add: hb_ok_def hb_step_def)
  qed
qed

interpretation hb: object_invariant "hb_step H" hb_ok for H
  by unfold_locales (rule hb_step_ok)

lemma hb_run_left:
  "hb_left adv (fold (hb_step H) ops bm) + hb_takes H adv ops bm = hb_left adv bm"
proof (induction ops arbitrary: bm)
  case (Cons op ops)
  from Cons.IH [of "hb_step H op bm"] hb_step_left [of adv H op bm] show ?case by simp
qed simp

subsection \<open>The frequency manager's runs\<close>

text \<open>A call: the random bytes of a possible setup, the proof's ID, the device, the campaign
  and the cap.\<close>

type_synonym hf_op = "bytes option \<times> ID \<times> string \<times> ID \<times> u32"

definition hf_step :: "(bytes \<Rightarrow> bytes) \<Rightarrow> hf_op \<Rightarrow> Halo2FrequencyManager \<Rightarrow> Halo2FrequencyManager" where
  "hf_step H op fm = (case op of (rnd, proofID, d, c, cap) \<Rightarrow>
     snd (CheckAndIncrementWithProof H rnd proofID d c cap fm))"

definition hf_count :: "string \<Rightarrow> Halo2FrequencyManager \<Rightarrow> int" where
  "hf_count key fm = (case hf_counters fm key of None \<Rightarrow> 0 | Some c \<Rightarrow> c)"

definition hf_ok :: "Halo2FrequencyManager \<Rightarrow> bool" where
  "hf_ok fm \<longleftrightarrow> (\<forall>key. 0 \<le> hf_count key fm \<and> hf_count key fm < 2 ^ 32) \<and>
     (\<forall>cap circuit. hf_circuits fm cap = Some circuit \<longrightarrow>
        circuit = NewHFrequencyCircuit cap \<and> hf_vks fm cap \<noteq> None)"

lemma get_circuit_ok:
  assumes "hf_ok fm" and "get_circuit rnd cap fm = (r, fm')"
  shows "hf_ok fm'" and "hf_counters fm' = hf_counters fm"
    and "r = Inr circuit \<Longrightarrow> circuit = NewHFrequencyCircuit cap \<and>
      hf_circuits fm' cap = Some circuit \<and> hf_vks fm' cap \<noteq> None"
    and "rnd \<noteq> None \<Longrightarrow> \<exists>circuit. r = Inr circuit"
  using assms
  by (auto simp: get_circuit_def hf_ok_def hf_count_def HFrequency_Setup_def Let_def
      split: option.splits if_splits)

lemma u32_bound: "uint (cap :: u32) < 2 ^ 32"
  using uint_bounded [of cap] by simp

lemma Increment_Some:
  assumes ok: "hf_ok fm" and g: "get_circuit rnd cap fm = (Inr circuit, fm0)"
    and lt: "hf_count (hf_key d c) fm < uint cap"
  shows "\<exists>p. HFrequency_Prove H (NewHFrequencyCircuit cap)
      \<lparr>fw_CounterBefore = hf_count (hf_key d c) fm,
       fw_CounterAfter = hf_count (hf_key d c) fm + 1, fw_CampaignID = c\<rparr> = Inr p \<and>
    CheckAndIncrementWithProof H rnd i d c cap fm =
      (Inr \<lparr>hfp_ProofID = i, hfp_CampaignID = c, hfp_Cap = cap,
            hfp_NewCounter = of_int (hf_count (hf_key d c) fm + 1), hfp_Halo2Proof = p,
            hfp_CounterRoot = hp_WitnessCommitments p ! 1\<rparr>,
       fm0\<lparr>hf_counters := (hf_counters fm)(hf_key d c \<mapsto> hf_count (hf_key d c) fm + 1),
           hf_caps := (hf_caps fm0)(c \<mapsto> cap), hf_proofs := (hf_proofs fm0)(i \<mapsto> p)\<rparr>)"
proof -
  let ?w = "\<lparr>fw_CounterBefore = hf_count (hf_key d c) fm,
       fw_CounterAfter = hf_count (hf_key d c) fm + 1, fw_CampaignID = c\<rparr>"
  have "frequency_statement cap ?w"
    using ok lt u32_bound [of cap] by (simp add: frequency_statement_def hf_ok_def)
  then obtain p where p: "HFrequency_Prove H (NewHFrequencyCircuit cap) ?w = Inr p"
    using hfrequency.proof_exists by blast
  note gc = get_circuit_ok [OF ok g]
  have count: "(case hf_counters fm (hf_key d c) of None \<Rightarrow> 0 | Some c \<Rightarrow> c) =
      hf_count (hf_key d c) fm" by (simp add: hf_count_def)
  show ?thesis
    using p gc lt
    by (intro exI [of _ p])
      (simp add: CheckAndIncrementWithProof_def g count big_of_u32_def Let_def)
qed

lemma Increment_None:
  assumes ok: "hf_ok fm" and "\<not> (hf_count (hf_key d c) fm < uint cap) \<or>
      (\<exists>e fm0. get_circuit rnd cap fm = (Inl e, fm0))"
  shows "\<not> is_ok (fst (CheckAndIncrementWithProof H rnd i d c cap fm)) \<and>
    hf_ok (snd (CheckAndIncrementWithProof H rnd i d c cap fm)) \<and>
    hf_count key (snd (CheckAndIncrementWithProof H rnd i d c cap fm)) = hf_count key fm"
proof -
  obtain r fm0 where g: "get_circuit rnd cap fm = (r, fm0)" by force
  note gc = get_circuit_ok [OF ok g]
  show ?thesis
    using assms gc(1,2) g
    by (cases r) (auto simp: CheckAndIncrementWithProof_def big_of_u32_def hf_count_def hf_ok_def
        Let_def split: option.splits)
qed

lemma hf_step_ok [adx_inv]: "hf_ok fm \<Longrightarrow> hf_ok (hf_step H op fm)"
proof (cases op)
  case (fields rnd i d c cap)
  assume ok: "hf_ok fm"
  show ?thesis
  proof (cases "hf_count (hf_key d c) fm < uint cap \<and>
      (\<exists>circuit fm0. get_circuit rnd cap fm = (Inr circuit, fm0))")
    case False
    then have "\<not> (hf_count (hf_key d c) fm < uint cap) \<or>
      (\<exists>e fm0. get_circuit rnd cap fm = (Inl e, fm0))"
      by (metis old.prod.exhaust sum.exhaust)
    with Increment_None [OF ok, of d c cap rnd H i] fields show ?thesis by (simp add: hf_step_def)
  next
    case True
    then obtain circuit fm0 where g: "get_circuit rnd cap fm = (Inr circuit, fm0)" by blast
    from Increment_Some [OF ok g, of d c H i] True obtain p where
      "snd (CheckAndIncrementWithProof H rnd i d c cap fm) =
       fm0\<lparr>hf_counters := (hf_counters fm)(hf_key d c \<mapsto> hf_count (hf_key d c) fm + 1),
           hf_caps := (hf_caps fm0)(c \<mapsto> cap), hf_proofs := (hf_proofs fm0)(i \<mapsto> p)\<rparr>" by auto
    moreover have "0 \<le> hf_count (hf_key d c) fm + 1" "hf_count (hf_key d c) fm + 1 < 2 ^ 32"
      using ok True u32_bound [of cap] by (auto simp: hf_ok_def)
    ultimately show ?thesis
      using get_circuit_ok(1) [OF ok g] ok fields by (simp add: hf_step_def hf_ok_def hf_count_def)
  qed
qed

interpretation hf: object_invariant "hf_step H" hf_ok for H
  by unfold_locales (rule hf_step_ok)

lemma hf_ok_New: "hf_ok NewHalo2FrequencyManager"
  by (simp add: hf_ok_def hf_count_def NewHalo2FrequencyManager_def)

subsection \<open>Properties\<close>

definition demo_hash :: "bytes \<Rightarrow> bytes" where
  "demo_hash bs = replicate 32 0"

text \<open>A circuit whose hash has no rounds and so gives back its first input.\<close>

definition demo_circuit :: HAuctionCircuit where
  "demo_circuit = \<lparr>hc_field = NewField, hc_poseidon = NewPoseidonHash\<lparr>ps_rounds := 0\<rparr>,
     ac_NumBids = 3, ac_Reserve = 10\<rparr>"

definition demo_halo :: Halo2Auction where
  "demo_halo = \<lparr>ha_Auction = (demo_auction [demo_bid 1 15, demo_bid 2 20])\<lparr>au_Reserve := 10\<rparr>,
     ha_circuit = Some demo_circuit,
     ha_pk = Some \<lparr>pk_CircuitID = [], pk_SRS = [], pk_NumBids = 0, pk_Reserve = 0\<rparr>,
     ha_vk = None, ha_proofs = Map.empty\<rparr>"

lemma demo_halo_run:
  "\<exists>r ha'. RunAuctionWithHalo2 demo_hash go_insertion_sort (\<lambda>_. []) [9] demo_halo = (Inr r, ha')"
proof -
  have b: "length (big_bytes (bn254 - 55)) = 32" by (subst big_bytes_32) simp_all
  show ?thesis
    by (simp add: RunAuctionWithHalo2_def demo_halo_def demo_auction_def demo_bid_def NewAuction_def
        Auction_RunAuction_def Auction_decryptBid_def be64_def be64_acc_def upt_rec
        determineWinner_def go_insertion_sort_def Let_def prepareWitness_def witness_step_def
        simulated_bid_def HAuction_Prove_def HAuction_Verify_def demo_circuit_def
        computeQuotient_def Field_Add_def Field_Sub_def PoseidonHash_Hash_def big_of_u64_def
        generateOpeningProof_def demo_hash_def b [simplified])
qed

text \<open>An auction run with a proof that returns an outcome returns the outcome of the
  plain auction and leaves the auction in its state, and the stored proof verifies under
  its ID for any public inputs that carry the clearing price.\<close>

theorem halo2_run_is_plain_run:
  assumes "RunAuctionWithHalo2 H srt rnd proofID ha = (Inr r, ha')"
    and "ap_ClearingPrice pub = ao_ClearingPrice (ho_Outcome r)"
  shows "Auction_RunAuction H srt rnd (ha_Auction ha) = (Inr (ho_Outcome r), ha_Auction ha') \<and>
    ha_proofs ha' (ho_ProofID r) = Some (ho_Halo2Proof r) \<and>
    VerifyHalo2Proof (ho_ProofID r) pub ha' = Some True"
proof -
  obtain c pub' where "ha_circuit ha' = Some c"
    "Auction_RunAuction H srt rnd (ha_Auction ha) = (Inr (ho_Outcome r), ha_Auction ha')"
    "ha_proofs ha' = (ha_proofs ha)(proofID \<mapsto> ho_Halo2Proof r)" "ho_ProofID r = proofID"
    "HAuction_Verify c pub' (ho_Halo2Proof r) = Some True"
    "ap_ClearingPrice pub' = ao_ClearingPrice (ho_Outcome r)"
    using assms(1) by (elim RunHalo2_Inr) auto
  then show ?thesis
    using assms(2) Verify_price_only [of pub pub' c] by (simp add: VerifyHalo2Proof_def)
qed

theorem halo2_run_is_plain_run_witness:
  "\<exists>r ha'. RunAuctionWithHalo2 demo_hash go_insertion_sort (\<lambda>_. []) [9] demo_halo = (Inr r, ha') \<and>
     VerifyHalo2Proof (ho_ProofID r) \<lparr>ap_NumBids = 0, ap_Reserve = 0,
       ap_ClearingPrice = ao_ClearingPrice (ho_Outcome r), ap_WinnerCommit = []\<rparr> ha' = Some True"
proof -
  obtain r ha' where r: "RunAuctionWithHalo2 demo_hash go_insertion_sort (\<lambda>_. []) [9] demo_halo =
      (Inr r, ha')" using demo_halo_run by blast
  with halo2_run_is_plain_run [OF r, of "\<lparr>ap_NumBids = 0, ap_Reserve = 0,
       ap_ClearingPrice = ao_ClearingPrice (ho_Outcome r), ap_WinnerCommit = []\<rparr>"]
  show ?thesis by auto
qed

text \<open>The bids a Halo2 proof commits to are not the bids of the auction: bid \<open>i\<close> is
  always the commitment to the simulated value \<open>100 + 50 i\<close>, the rest up to the circuit's
  size are commitments to zero, and the entry taken as the winner's commitment, at the index
  of the number of bids, is one of these zeros as soon as the circuit has room to spare.\<close>

theorem halo2_proof_commits_to_simulated_bids:
  assumes "RunAuctionWithHalo2 H srt rnd proofID ha = (Inr r, ha')"
    and "ha_circuit ha = Some c"
  shows "let n = length (au_Bids (ha_Auction ha)); cs = hp_WitnessCommitments (ho_Halo2Proof r);
             commit = (\<lambda>x. big_bytes (PoseidonHash_Hash (hc_poseidon c) [x]))
    in take n cs = map (\<lambda>i. commit (100 + 50 * int i)) [0..<n] \<and>
       (int n < ac_NumBids c \<longrightarrow> cs ! n = commit 0)"
proof -
  obtain a' where c: "au_Bids a' = au_Bids (ha_Auction ha)"
    and p: "HAuction_Prove H c (prepareWitness (ho_Outcome r) c (ha\<lparr>ha_Auction := a'\<rparr>))
       = Inr (ho_Halo2Proof r)"
    using assms(2) by (auto intro: RunHalo2_Inr [OF assms(1)])
  have "simulated_bid i = 100 + 50 * int i" for i by (simp add: simulated_bid_def)
  with Prove_commitments [OF p] c show ?thesis
    by (auto simp: witness_bids Let_def nth_append)
qed

theorem halo2_proof_commits_to_simulated_bids_witness:
  "\<exists>r ha'. RunAuctionWithHalo2 demo_hash go_insertion_sort (\<lambda>_. []) [9] demo_halo = (Inr r, ha') \<and>
     take 2 (hp_WitnessCommitments (ho_Halo2Proof r)) = [big_bytes 100, big_bytes 150] \<and>
     hp_WitnessCommitments (ho_Halo2Proof r) ! 2 = []"
proof -
  obtain r ha' where r: "RunAuctionWithHalo2 demo_hash go_insertion_sort (\<lambda>_. []) [9] demo_halo =
      (Inr r, ha')" using demo_halo_run by blast
  have c: "ha_circuit demo_halo = Some demo_circuit" by (simp add: demo_halo_def)
  have hash: "PoseidonHash_Hash (hc_poseidon demo_circuit) [x] = x" for x
    by (simp add: demo_circuit_def PoseidonHash_Hash_def)
  have n: "length (au_Bids (ha_Auction demo_halo)) = 2" "ac_NumBids demo_circuit = 3"
    by (simp_all add: demo_halo_def demo_auction_def demo_circuit_def)
  have "big_bytes 0 = []" by (simp add: big_bytes_def)
  with halo2_proof_commits_to_simulated_bids [OF r c] r hash n show ?thesis
    by (simp add: Let_def upt_rec numeral_2_eq_2)
qed

text \<open>C21: The Halo2 budget manager loses no money on amounts below \<open>2 ^ 63\<close>: over any run
  of such deductions what was taken and what is left add up to the starting budget (10000
  for an advertiser it has never seen), and what is left never goes below zero.\<close>

theorem halo2_budget_conserved:
  assumes "hb_ok bm" and "\<forall>(i, a, amt) \<in> set ops. 0 \<le> sint amt"
  shows "hb_left adv (fold (hb_step H) ops bm) + hb_takes H adv ops bm = hb_left adv bm \<and>
    0 \<le> hb_takes H adv ops bm \<and> 0 \<le> hb_left adv (fold (hb_step H) ops bm)"
proof -
  have "0 \<le> hb_takes H adv ops bm'" for bm'
    using assms(2)
  proof (induction ops arbitrary: bm')
    case (Cons op ops)
    then show ?case by (cases op) (auto simp: hb_taken_def)
  qed simp
  with hb_run_left [of adv H ops bm] hb_left_range [OF hb.run_inv [OF assms(1)], of adv H ops]
  show ?thesis by simp
qed

theorem halo2_budget_conserved_witness:
  "hb_left [1] (fold (hb_step id) [([5], [1], 300), ([6], [1], 20000)]
     \<lparr>hb_budgets = Map.empty, hb_proofs = Map.empty\<rparr>) = 9700"
proof -
  let ?bm = "\<lparr>hb_budgets = Map.empty, hb_proofs = Map.empty\<rparr>"
  let ?ops = "[([5], [1], 300), ([6], [1], 20000)] :: hb_op list"
  have "hb_ok ?bm" by (simp add: hb_ok_def)
  moreover have "\<forall>(i, a, amt) \<in> set ?ops. 0 \<le> sint amt" by simp
  ultimately have "hb_left [1] (fold (hb_step id) ?ops ?bm) + hb_takes id [1] ?ops ?bm = 10000"
    using halo2_budget_conserved [of ?bm ?ops "[1]" id] by (simp add: hb_left_def)
  moreover have "hb_takes id [1] ?ops ?bm = 300"
    by (simp add: hb_taken_def hb_step_def DeductBudgetWithProof_def HBudget_Prove_def
        Field_Sub_def big_of_u64_def Let_def)
  ultimately show ?thesis by simp
qed

text \<open>An amount of \<open>2 ^ 63\<close> or more is read as a negative number: the deduction
  succeeds on every reachable budget that stays in the field, its proof verifies, and it
  raises the budget by \<open>2 ^ 64 - amount\<close>.\<close>

theorem halo2_budget_raised_by_huge_amount:
  assumes "hash_ok H" and "hb_ok bm" and "2 ^ 63 \<le> unat amt"
    and "hb_left adv bm + 2 ^ 63 < bn254"
  shows "\<exists>pf. fst (DeductBudgetWithProof H i adv amt bm) = Inr pf \<and>
    HB_VerifyBudgetProof pf = Some True \<and>
    hb_left adv (snd (DeductBudgetWithProof H i adv amt bm)) =
      hb_left adv bm + (2 ^ 64 - int (unat amt))"
proof -
  have "unat amt < 2 ^ 64" using unsigned_less [of amt, where ?'a = nat] by simp
  have "amt = of_int (int (unat amt) - 2 ^ 64)" by (simp add: uint_nat [symmetric])
  then have "sint amt = sint (of_int (int (unat amt) - 2 ^ 64) :: u64)" by (rule arg_cong)
  also have "\<dots> = int (unat amt) - 2 ^ 64"
  proof -
    have "sint (of_int (int n - 2 ^ 64) :: u64) = int n - 2 ^ 64"
      if "2 ^ 63 \<le> n" "n < 2 ^ 64" for n :: nat
      by (rule sint_of_int64) (use that in simp_all)
    from this [OF assms(3) \<open>unat amt < 2 ^ 64\<close>] show ?thesis .
  qed
  finally have u: "sint amt = int (unat amt) - 2 ^ 64" .
  let ?w = "\<lparr>bw_OldBudget = hb_left adv bm, bw_Delta = sint amt,
             bw_NewBudget = hb_left adv bm - sint amt\<rparr>"
  note range = hb_left_range [OF assms(2), of adv]
  have "int (2 ^ 63) \<le> int (unat amt)" using assms(3) by (rule iffD2 [OF of_nat_le_iff])
  then have lo: "2 ^ 63 \<le> uint amt" by simp
  have hi: "uint amt < 2 ^ 64" using uint_bounded [of amt] by simp
  have st: "budget_statement ?w" and ex: "int64_range (bw_Delta ?w)"
    using range assms(4) u lo hi
    by (simp_all add: budget_statement_def int64_range_def)
  show ?thesis
  proof (rule Deduct_cases [of H adv bm amt i])
    fix p
    assume p: "HBudget_Prove H NewHalo2Circuit ?w = Inr p"
      and r: "fst (DeductBudgetWithProof H i adv amt bm) =
         Inr \<lparr>hbp_ProofID = i, hbp_AdvertiserID = adv, hbp_Delta = amt,
              hbp_NewBudget = of_int (hb_left adv bm - sint amt), hbp_Halo2Proof = p,
              hbp_OldBudgetCommit = hp_WitnessCommitments p ! 0,
              hbp_NewBudgetCommit = hp_WitnessCommitments p ! 2\<rparr>"
      and b: "hb_budgets (snd (DeductBudgetWithProof H i adv amt bm)) =
         (hb_budgets bm)(adv \<mapsto> hb_left adv bm - sint amt)"
    have "HBudget_Verify (budget_public ?w) p = Some True"
      by (rule hbudget.complete [OF assms(1) ex p])
    then have "HBudget_Verify \<lparr>bp_Delta = amt, bp_OldBudgetCommit = x, bp_NewBudgetCommit = y\<rparr> p
        = Some True" for x y
      by (cases "hp_Evaluations p ''delta''")
        (auto simp: HBudget_Verify_def budget_public_def split: if_splits)
    with r b u show ?thesis by (simp add: HB_VerifyBudgetProof_def hb_left_def)
  qed (use st range u lo hi in auto)
qed

theorem halo2_budget_raised_by_huge_amount_witness:
  "hb_left [1] (snd (DeductBudgetWithProof (\<lambda>_. replicate 32 0) [5] [1] (- 500)
     \<lparr>hb_budgets = Map.empty, hb_proofs = Map.empty\<rparr>)) = 10500"
proof -
  let ?bm = "\<lparr>hb_budgets = Map.empty, hb_proofs = Map.empty\<rparr>"
  have "hash_ok (\<lambda>_. replicate 32 0)" "hb_ok ?bm" by (simp_all add: hash_ok_def hb_ok_def)
  moreover have "unat (- 500 :: u64) = 2 ^ 64 - 500" by simp
  moreover have "hb_left [1] ?bm = 10000" by (simp add: hb_left_def)
  ultimately show ?thesis
    using halo2_budget_raised_by_huge_amount [of "\<lambda>_. replicate 32 0" ?bm "- 500" "[1]" "[5]"]
    by auto
qed

text \<open>C23: On every reachable frequency manager a check that gets randomness is granted exactly
  when the counter of the device and campaign is below the cap of this call; a granted check
  counts once on this counter and carries a proof that verifies, a refused one leaves this
  counter as it was.\<close>

theorem halo2_frequency_check_spec:
  assumes "hash_ok H" and "fm = fold (hf_step H) ops NewHalo2FrequencyManager"
    and "CheckAndIncrementWithProof H rnd i d c cap fm = (r, fm')"
    and "rnd \<noteq> None"
  shows "(is_ok r \<longleftrightarrow> hf_count (hf_key d c) fm < uint cap) \<and>
    hf_count (hf_key d c) fm' = hf_count (hf_key d c) fm + (if is_ok r then 1 else 0) \<and>
    (\<forall>pf. r = Inr pf \<longrightarrow> VerifyFrequencyProof pf fm' = Some True)"
proof -
  have ok: "hf_ok fm" using hf.run_inv [OF hf_ok_New] assms(2) by simp
  show ?thesis
  proof (cases "hf_count (hf_key d c) fm < uint cap")
    case False
    with Increment_None [OF ok, of d c cap rnd H i "hf_key d c"] assms(3) show ?thesis by auto
  next
    case True
    obtain x fm0 where g: "get_circuit rnd cap fm = (x, fm0)" by force
    then obtain circuit where x: "x = Inr circuit" using get_circuit_ok(4) [OF ok g] assms(4) by blast
    note gc = get_circuit_ok(3) [OF ok g x]
    from Increment_Some [OF ok g [unfolded x] True, of H i] obtain p where
      p: "HFrequency_Prove H (NewHFrequencyCircuit cap)
        \<lparr>fw_CounterBefore = hf_count (hf_key d c) fm,
         fw_CounterAfter = hf_count (hf_key d c) fm + 1, fw_CampaignID = c\<rparr> = Inr p"
      and r: "CheckAndIncrementWithProof H rnd i d c cap fm =
        (Inr \<lparr>hfp_ProofID = i, hfp_CampaignID = c, hfp_Cap = cap,
            hfp_NewCounter = of_int (hf_count (hf_key d c) fm + 1), hfp_Halo2Proof = p,
            hfp_CounterRoot = hp_WitnessCommitments p ! 1\<rparr>,
       fm0\<lparr>hf_counters := (hf_counters fm)(hf_key d c \<mapsto> hf_count (hf_key d c) fm + 1),
           hf_caps := (hf_caps fm0)(c \<mapsto> cap), hf_proofs := (hf_proofs fm0)(i \<mapsto> p)\<rparr>)"
      by blast
    from hfrequency.complete [OF assms(1) TrueI p]
    have "HFrequency_Verify \<lparr>fp_Cap = cap, fp_CampaignID = c, fp_CounterRoot = y\<rparr> p = Some True"
      for y
      by (cases "hp_Evaluations p ''counter_after''")
        (auto simp: HFrequency_Verify_def frequency_public_def split: if_splits)
    with r assms(3) gc True show ?thesis
      by (auto simp: hf_count_def VerifyFrequencyProof_def)
  qed
qed

theorem halo2_frequency_check_spec_witness:
  "(let r = CheckAndIncrementWithProof (\<lambda>_. replicate 32 0) (Some [1]) [5] ''d'' [7] 2
        NewHalo2FrequencyManager
    in is_ok (fst r) \<and> hf_count (hf_key ''d'' [7]) (snd r) = 1)"
proof -
  have h: "hash_ok (\<lambda>_. replicate 32 0)" by (simp add: hash_ok_def)
  have new: "NewHalo2FrequencyManager =
      fold (hf_step (\<lambda>_. replicate 32 0)) [] NewHalo2FrequencyManager" by simp
  obtain r fm' where r: "CheckAndIncrementWithProof (\<lambda>_. replicate 32 0) (Some [1]) [5] ''d'' [7] 2
        NewHalo2FrequencyManager = (r, fm')" by force
  have "hf_count (hf_key ''d'' [7]) NewHalo2FrequencyManager = 0"
    by (simp add: hf_count_def NewHalo2FrequencyManager_def)
  with halo2_frequency_check_spec [OF h new r] r show ?thesis by (simp add: Let_def)
qed

end
