(* ===== verification/ProofCircuits.thy ===== *)
theory ProofCircuits
  imports BigInt ProofSystem
begin

text \<open>
  \<^verbatim>\<open>proof/circuits.go\<close>: the \<open>Circuit\<close> interface and its three
  implementations with Fiat-Shamir challenges. \<open>H\<close> is \<open>hashing.ComputeHash256\<close>. The
  parameters of a setup are 32 random bytes (an error of \<open>rand.Read\<close> is ignored by the
  code and leaves zeros). A witness maps names to numbers; the loops over it visit the names
  in an order Go does not fix, which is an argument (one per loop).
\<close>

datatype proof_error =
    ErrInvalidProof
  | ErrInvalidWitness
  | ErrConstraintFailed

record Constraint =
  ct_Type :: string
  ct_Left :: string
  ct_Right :: string
  ct_Params :: bytes

record PProvingKey =
  ppk_CircuitID :: string
  ppk_Constraints :: "Constraint list"
  ppk_Parameters :: bytes

record PVerifyingKey =
  pvk_CircuitID :: string
  pvk_PublicParams :: bytes
  pvk_ConstraintHash :: bytes

record PProof =
  pr_Commitment :: bytes
  pr_Response :: bytes
  pr_Challenge :: bytes

type_synonym Witness = "string \<rightharpoonup> int"

definition str_bytes :: "string \<Rightarrow> bytes" where
  "str_bytes s = map (\<lambda>c. of_nat (of_char c)) s"

definition constraint :: "string \<Rightarrow> string \<Rightarrow> string \<Rightarrow> Constraint" where
  "constraint ty l r = \<lparr>ct_Type = ty, ct_Left = l, ct_Right = r, ct_Params = []\<rparr>"

subsection \<open>The auction circuit\<close>

record PAuctionCircuit =
  pac_NumBids :: int
  pac_Reserve :: u64

definition PNewAuctionCircuit :: "int \<Rightarrow> u64 \<Rightarrow> PAuctionCircuit" where
  "PNewAuctionCircuit numBids reserve = \<lparr>pac_NumBids = numBids, pac_Reserve = reserve\<rparr>"

definition PAuction_Setup ::
  "(bytes \<Rightarrow> bytes) \<Rightarrow> bytes \<Rightarrow> PProvingKey \<times> PVerifyingKey" where
  "PAuction_Setup H params =
     (\<lparr>ppk_CircuitID = ''auction_v1'',
       ppk_Constraints =
         [constraint ''comparison'' ''winner_bid'' ''all_bids'',
          constraint ''equality'' ''price'' ''second_price_or_reserve'',
          constraint ''range'' ''bids'' ''0_to_max''],
       ppk_Parameters = params\<rparr>,
      \<lparr>pvk_CircuitID = ''auction_v1'', pvk_PublicParams = take 16 params,
       pvk_ConstraintHash = H (str_bytes ''auction_constraints'')\<rparr>)"

definition generateCommitment :: "(bytes \<Rightarrow> bytes) \<Rightarrow> string list \<Rightarrow> Witness \<Rightarrow> bytes" where
  "generateCommitment H order w =
     H (concat (map (\<lambda>k. case w k of None \<Rightarrow> [] | Some v \<Rightarrow> str_bytes k @ big_bytes v) order))"

definition generateChallenge :: "(bytes \<Rightarrow> bytes) \<Rightarrow> bytes \<Rightarrow> bytes \<Rightarrow> bytes" where
  "generateChallenge H commitment params = H (commitment @ params)"

text \<open>The loop stops once 32 bytes have been gathered.\<close>

fun responseData :: "int \<Rightarrow> string list \<Rightarrow> Witness \<Rightarrow> bytes \<Rightarrow> bytes" where
  "responseData c [] w data = data"
| "responseData c (k # ks) w data =
     (case w k of
        None \<Rightarrow> responseData c ks w data
      | Some v \<Rightarrow>
          let data' = data @ big_bytes (v + c)
          in if length data' \<ge> 32 then data' else responseData c ks w data')"

definition generateResponse :: "(bytes \<Rightarrow> bytes) \<Rightarrow> string list \<Rightarrow> Witness \<Rightarrow> bytes \<Rightarrow> bytes" where
  "generateResponse H order w challenge = H (responseData (set_bytes challenge) order w [])"

definition bid_key :: "nat \<Rightarrow> string" where
  "bid_key i = ''bid_'' @ show_nat i"

definition PAuction_Prove ::
  "(bytes \<Rightarrow> bytes) \<Rightarrow> string list \<Rightarrow> string list \<Rightarrow> PAuctionCircuit \<Rightarrow> PProvingKey \<Rightarrow> Witness \<Rightarrow>
   proof_error + PProof" where
  "PAuction_Prove H order1 order2 c pk w =
     (case w ''winner_bid'' of None \<Rightarrow> Inl ErrInvalidWitness
      | Some winnerBid \<Rightarrow>
     (case w ''second_price'' of None \<Rightarrow> Inl ErrInvalidWitness
      | Some secondPrice \<Rightarrow>
          if list_ex (\<lambda>i. case w (bid_key i) of None \<Rightarrow> False | Some bid \<Rightarrow> bid > winnerBid)
               [0..<nat (pac_NumBids c)]
          then Inl ErrConstraintFailed
          else
            let reserveBig = big_of_u64 (pac_Reserve c);
                price = (if secondPrice < reserveBig then reserveBig else secondPrice)
            in (case w ''price'' of None \<Rightarrow> Inl ErrConstraintFailed
                | Some actualPrice \<Rightarrow>
                    if actualPrice \<noteq> price then Inl ErrConstraintFailed
                    else
                      let commitment = generateCommitment H order1 w;
                          challenge = generateChallenge H commitment (ppk_Parameters pk);
                          response = generateResponse H order2 w challenge
                      in Inr \<lparr>pr_Commitment = commitment, pr_Response = response,
                              pr_Challenge = challenge\<rparr>)))"

definition PAuction_Verify :: "(bytes \<Rightarrow> bytes) \<Rightarrow> PVerifyingKey \<Rightarrow> PProof \<Rightarrow> bool" where
  "PAuction_Verify H vk proof =
     (if length (pr_Commitment proof) = 0 \<or> length (pr_Response proof) = 0 then False
      else if generateChallenge H (pr_Commitment proof) (pvk_PublicParams vk) \<noteq> pr_Challenge proof
      then False
      else True)"

subsection \<open>The budget circuit\<close>

definition PBudget_Setup :: "(bytes \<Rightarrow> bytes) \<Rightarrow> bytes \<Rightarrow> PProvingKey \<times> PVerifyingKey" where
  "PBudget_Setup H params =
     (\<lparr>ppk_CircuitID = ''budget_v1'',
       ppk_Constraints =
         [constraint ''equality'' ''new_budget'' ''old_minus_delta'',
          constraint ''range'' ''new_budget'' ''non_negative''],
       ppk_Parameters = params\<rparr>,
      \<lparr>pvk_CircuitID = ''budget_v1'', pvk_PublicParams = take 16 params,
       pvk_ConstraintHash = H (str_bytes ''budget_constraints'')\<rparr>)"

definition PBudget_Prove ::
  "(bytes \<Rightarrow> bytes) \<Rightarrow> PProvingKey \<Rightarrow> Witness \<Rightarrow> proof_error + PProof" where
  "PBudget_Prove H pk w =
     (case w ''old_budget'' of None \<Rightarrow> Inl ErrInvalidWitness
      | Some oldBudget \<Rightarrow>
     (case w ''delta'' of None \<Rightarrow> Inl ErrInvalidWitness
      | Some delta \<Rightarrow>
     (case w ''new_budget'' of None \<Rightarrow> Inl ErrInvalidWitness
      | Some newBudget \<Rightarrow>
          if oldBudget - delta \<noteq> newBudget then Inl ErrConstraintFailed
          else if newBudget < 0 then Inl ErrConstraintFailed
          else
            let commitment = H (big_bytes oldBudget @ big_bytes delta @ big_bytes newBudget);
                challenge = H (commitment @ ppk_Parameters pk);
                response = H (big_bytes newBudget @ challenge)
            in Inr \<lparr>pr_Commitment = commitment, pr_Response = response,
                    pr_Challenge = challenge\<rparr>)))"

definition PBudget_Verify :: "PProof \<Rightarrow> bool" where
  "PBudget_Verify proof \<longleftrightarrow> length (pr_Commitment proof) > 0 \<and> length (pr_Response proof) > 0"

subsection \<open>The frequency circuit\<close>

record PFrequencyCircuit =
  pfc_Cap :: u32

definition PNewFrequencyCircuit :: "u32 \<Rightarrow> PFrequencyCircuit" where
  "PNewFrequencyCircuit cap = \<lparr>pfc_Cap = cap\<rparr>"

definition PFrequency_Setup :: "(bytes \<Rightarrow> bytes) \<Rightarrow> bytes \<Rightarrow> PProvingKey \<times> PVerifyingKey" where
  "PFrequency_Setup H params =
     (\<lparr>ppk_CircuitID = ''frequency_v1'',
       ppk_Constraints =
         [constraint ''equality'' ''counter_after'' ''counter_before_plus_1'',
          constraint ''comparison'' ''counter_after'' ''cap''],
       ppk_Parameters = params\<rparr>,
      \<lparr>pvk_CircuitID = ''frequency_v1'', pvk_PublicParams = take 16 params,
       pvk_ConstraintHash = H (str_bytes ''frequency_constraints'')\<rparr>)"

definition PFrequency_Prove ::
  "(bytes \<Rightarrow> bytes) \<Rightarrow> PFrequencyCircuit \<Rightarrow> PProvingKey \<Rightarrow> Witness \<Rightarrow> proof_error + PProof" where
  "PFrequency_Prove H c pk w =
     (case w ''counter_before'' of None \<Rightarrow> Inl ErrInvalidWitness
      | Some counterBefore \<Rightarrow>
     (case w ''counter_after'' of None \<Rightarrow> Inl ErrInvalidWitness
      | Some counterAfter \<Rightarrow>
          if counterBefore + 1 \<noteq> counterAfter then Inl ErrConstraintFailed
          else if counterAfter > big_of_u32 (pfc_Cap c) then Inl ErrConstraintFailed
          else
            let commitment = H (big_bytes counterBefore @ big_bytes counterAfter);
                challenge = H (commitment @ ppk_Parameters pk);
                response = H (big_bytes counterAfter @ challenge)
            in Inr \<lparr>pr_Commitment = commitment, pr_Response = response,
                    pr_Challenge = challenge\<rparr>))"

definition PFrequency_Verify :: "PProof \<Rightarrow> bool" where
  "PFrequency_Verify proof \<longleftrightarrow> length (pr_Commitment proof) > 0 \<and> length (pr_Response proof) > 0"

subsection \<open>The contract\<close>

definition hash_nonempty :: "(bytes \<Rightarrow> bytes) \<Rightarrow> bool" where
  "hash_nonempty H \<longleftrightarrow> (\<forall>bs. 0 < length (H bs))"

definition pbudget_statement :: "Witness \<Rightarrow> bool" where
  "pbudget_statement w \<longleftrightarrow> (\<exists>old delta new. w ''old_budget'' = Some old \<and>
     w ''delta'' = Some delta \<and> w ''new_budget'' = Some new \<and> new = old - delta \<and> 0 \<le> new)"

definition pfrequency_statement :: "u32 \<Rightarrow> Witness \<Rightarrow> bool" where
  "pfrequency_statement cap w \<longleftrightarrow> (\<exists>before after. w ''counter_before'' = Some before \<and>
     w ''counter_after'' = Some after \<and> after = before + 1 \<and> after \<le> uint cap)"

definition pauction_statement :: "PAuctionCircuit \<Rightarrow> Witness \<Rightarrow> bool" where
  "pauction_statement c w \<longleftrightarrow> (\<exists>win second price. w ''winner_bid'' = Some win \<and>
     w ''second_price'' = Some second \<and> w ''price'' = Some price \<and>
     (\<forall>i b. int i < pac_NumBids c \<longrightarrow> w (bid_key i) = Some b \<longrightarrow> b \<le> win) \<and>
     price = max second (sint (pac_Reserve c)))"

interpretation pbudget: proof_system "PBudget_Prove H pk" "\<lambda>_ :: unit. Some \<circ> PBudget_Verify"
  "\<lambda>_. ()" pbudget_statement "\<lambda>_. True" "hash_nonempty H" for H pk
proof unfold_locales
  show "is_ok (PBudget_Prove H pk w) \<longleftrightarrow> pbudget_statement w" for w
    by (auto simp: PBudget_Prove_def pbudget_statement_def Let_def split: option.splits)
  show "(Some \<circ> PBudget_Verify) p = Some True"
    if "hash_nonempty H" "PBudget_Prove H pk w = Inr p" for w p
    using that by (auto simp: PBudget_Prove_def PBudget_Verify_def hash_nonempty_def Let_def
        split: option.splits if_splits)
qed

interpretation pfrequency: proof_system "PFrequency_Prove H (PNewFrequencyCircuit cap) pk"
  "\<lambda>_ :: unit. Some \<circ> PFrequency_Verify" "\<lambda>_. ()" "pfrequency_statement cap" "\<lambda>_. True"
  "hash_nonempty H" for H cap pk
proof unfold_locales
  show "is_ok (PFrequency_Prove H (PNewFrequencyCircuit cap) pk w) \<longleftrightarrow> pfrequency_statement cap w"
    for w
    by (auto simp: PFrequency_Prove_def pfrequency_statement_def PNewFrequencyCircuit_def
        big_of_u32_def Let_def split: option.splits)
  show "(Some \<circ> PFrequency_Verify) p = Some True"
    if "hash_nonempty H" "PFrequency_Prove H (PNewFrequencyCircuit cap) pk w = Inr p" for w p
    using that by (auto simp: PFrequency_Prove_def PFrequency_Verify_def hash_nonempty_def Let_def
        split: option.splits if_splits)
qed

definition outbids :: "PAuctionCircuit \<Rightarrow> Witness \<Rightarrow> int \<Rightarrow> bool" where
  "outbids c w win \<longleftrightarrow>
     list_ex (\<lambda>i. case w (bid_key i) of None \<Rightarrow> False | Some bid \<Rightarrow> bid > win)
       [0..<nat (pac_NumBids c)]"

lemma outbids_iff:
  "outbids c w win \<longleftrightarrow>
     \<not> (\<forall>i b. int i < pac_NumBids c \<longrightarrow> w (bid_key i) = Some b \<longrightarrow> b \<le> win)"
  by (auto simp: outbids_def list_ex_iff zless_nat_eq_int_zless not_le split: option.splits)

lemma PAuction_Prove_ok:
  "is_ok (PAuction_Prove H o1 o2 c pk w) \<longleftrightarrow> pauction_statement c w"
proof (cases "\<exists>win second price. w ''winner_bid'' = Some win \<and> w ''second_price'' = Some second \<and>
    w ''price'' = Some price")
  case False
  then have "\<not> pauction_statement c w" by (auto simp: pauction_statement_def)
  with False show ?thesis
    by (auto simp: PAuction_Prove_def Let_def split: option.splits)
next
  case True
  then obtain win second price where w: "w ''winner_bid'' = Some win"
    "w ''second_price'' = Some second" "w ''price'' = Some price" by blast
  then have "is_ok (PAuction_Prove H o1 o2 c pk w) \<longleftrightarrow>
      \<not> outbids c w win \<and> price = max second (sint (pac_Reserve c))"
    by (simp add: PAuction_Prove_def outbids_def big_of_u64_def Let_def max_def not_less)
  with w show ?thesis unfolding outbids_iff pauction_statement_def by simp
qed

lemma PAuction_Verify_proved:
  assumes "hash_nonempty H" and "PAuction_Prove H o1 o2 c (fst (PAuction_Setup H params)) w = Inr p"
  shows "PAuction_Verify H (snd (PAuction_Setup H params)) p \<longleftrightarrow>
    H (pr_Commitment p @ take 16 params) = H (pr_Commitment p @ params)"
proof -
  from assms(2) have p: "pr_Challenge p = H (pr_Commitment p @ params)"
    "\<exists>x y. pr_Commitment p = H x \<and> pr_Response p = H y"
    by (auto simp: PAuction_Prove_def PAuction_Setup_def generateChallenge_def
        generateCommitment_def generateResponse_def Let_def split: option.splits if_splits)
  then have "0 < length (pr_Commitment p)" "0 < length (pr_Response p)"
    using assms(1) unfolding hash_nonempty_def by metis+
  with p(1) show ?thesis
    by (auto simp: PAuction_Verify_def PAuction_Setup_def generateChallenge_def)
qed

subsection \<open>Properties\<close>

definition demo_witness :: Witness where
  "demo_witness = [''winner_bid'' \<mapsto> 900, ''second_price'' \<mapsto> 40, ''price'' \<mapsto> 50,
     ''bid_0'' \<mapsto> 900, ''bid_1'' \<mapsto> 40]"

text \<open>The auction prover makes a proof exactly for correct outcomes: the winning bid is
  at least every bid the witness names, and the price is the higher of the second price and
  the reserve; every other witness is refused.\<close>

theorem auction_prover_exact:
  "is_ok (PAuction_Prove H o1 o2 c pk w) \<longleftrightarrow>
     (\<exists>win second price. w ''winner_bid'' = Some win \<and>
       w ''second_price'' = Some second \<and> w ''price'' = Some price \<and>
       (\<forall>i b. int i < pac_NumBids c \<longrightarrow> w (bid_key i) = Some b \<longrightarrow> b \<le> win) \<and>
       price = max second (sint (pac_Reserve c)))"
  unfolding PAuction_Prove_ok pauction_statement_def ..

theorem auction_prover_exact_witness:
  "is_ok (PAuction_Prove id [] [] (PNewAuctionCircuit 2 50) (fst (PAuction_Setup id [])) demo_witness)"
proof -
  have k: "bid_key 0 = ''bid_0''" "bid_key 1 = ''bid_1''"
    by (simp_all add: bid_key_def show_nat.simps)
  have "b \<le> 900" if "int i < 2" "demo_witness (bid_key i) = Some b" for i b
  proof -
    have "i = 0 \<or> i = 1" using that(1) by auto
    with that(2) k show ?thesis by (auto simp: demo_witness_def)
  qed
  then show ?thesis
    unfolding auction_prover_exact
    by (intro exI [of _ 900] exI [of _ 40] exI [of _ 50])
      (auto simp: demo_witness_def PNewAuctionCircuit_def)
qed

text \<open>The auction verifier refuses the proofs of its own prover: the challenge is made
  with all parameters of the proving key and checked with the first 16 bytes only, so an
  honest proof passes exactly when the hash collides on the two inputs.\<close>

theorem auction_verifier_needs_collision:
  assumes "hash_nonempty H"
    and "PAuction_Prove H o1 o2 c (fst (PAuction_Setup H params)) w = Inr p"
  shows "PAuction_Verify H (snd (PAuction_Setup H params)) p \<longleftrightarrow>
    H (pr_Commitment p @ take 16 params) = H (pr_Commitment p @ params)"
  using assms by (rule PAuction_Verify_proved)

theorem auction_verifier_needs_collision_witness:
  "\<exists>p. PAuction_Prove (\<lambda>bs. 1 # bs) [] [] (PNewAuctionCircuit 0 50)
       (fst (PAuction_Setup (\<lambda>bs. 1 # bs) (replicate 32 7))) demo_witness = Inr p \<and>
     \<not> PAuction_Verify (\<lambda>bs. 1 # bs) (snd (PAuction_Setup (\<lambda>bs. 1 # bs) (replicate 32 7))) p"
proof -
  obtain p where p: "PAuction_Prove (\<lambda>bs. 1 # bs) [] [] (PNewAuctionCircuit 0 50)
       (fst (PAuction_Setup (\<lambda>bs. 1 # bs) (replicate 32 7))) demo_witness = Inr p"
    by (simp add: PAuction_Prove_def demo_witness_def PNewAuctionCircuit_def big_of_u64_def Let_def)
  have "hash_nonempty (\<lambda>bs. 1 # bs)" by (simp add: hash_nonempty_def)
  from auction_verifier_needs_collision [OF this p] p show ?thesis by auto
qed

text \<open>The budget and frequency circuits are complete: exactly the witnesses of a budget
  update that stays non-negative, and of an increment within the cap, get a proof, and the
  verifier accepts every such proof.\<close>

theorem proof_circuits_complete:
  assumes "hash_nonempty H"
  shows "(pbudget_statement w \<longleftrightarrow>
      (\<exists>p. PBudget_Prove H pk w = Inr p \<and> PBudget_Verify p)) \<and>
    (pfrequency_statement cap w \<longleftrightarrow>
      (\<exists>p. PFrequency_Prove H (PNewFrequencyCircuit cap) pk w = Inr p \<and> PFrequency_Verify p))"
  using pbudget.round_trip [OF assms, of w pk] pbudget.proved_holds [of H pk w]
    pfrequency.round_trip [OF assms, of cap w pk] pfrequency.proved_holds [of H cap pk w]
  by auto

theorem proof_circuits_complete_witness:
  "\<exists>p. PBudget_Prove (\<lambda>bs. 1 # bs) (fst (PBudget_Setup id [])) [''old_budget'' \<mapsto> 9, ''delta'' \<mapsto> 4,
     ''new_budget'' \<mapsto> 5] = Inr p \<and> PBudget_Verify p"
proof -
  have "hash_nonempty (\<lambda>bs. 1 # bs)" by (simp add: hash_nonempty_def)
  moreover have "pbudget_statement [''old_budget'' \<mapsto> 9, ''delta'' \<mapsto> 4, ''new_budget'' \<mapsto> 5]"
    by (simp add: pbudget_statement_def)
  ultimately show ?thesis using proof_circuits_complete by blast
qed

end
