(* ===== verification/GoHeap.thy ===== *)
theory GoHeap
  imports Prelude
begin

text \<open>
  The operations of Go's \<open>container/heap\<close> as the order books of \<^verbatim>\<open>pkg/dex\<close> use
  them, on the list of the elements. \<open>lessf h i j\<close> is the \<open>Less(i, j)\<close> method of the
  heap in state \<open>h\<close>. The locale \<open>heap_interface\<close> states what a \<open>Less\<close> method has to
  be for the heap to work: a comparison of the two elements that is a strict weak order, as
  long as all elements are of the kind the heap is for (\<open>ok\<close>). The locale
  \<open>priority_queue\<close> is what the users of a heap rely on.
\<close>

definition list_swap :: "nat \<Rightarrow> nat \<Rightarrow> 'a list \<Rightarrow> 'a list" where
  "list_swap i j h = h[i := h ! j, j := h ! i]"

function heap_up :: "('a list \<Rightarrow> nat \<Rightarrow> nat \<Rightarrow> bool) \<Rightarrow> nat \<Rightarrow> 'a list \<Rightarrow> 'a list" where
  "heap_up lessf j h =
     (let i = (j - 1) div 2 in
      if i = j \<or> \<not> lessf h j i then h else heap_up lessf i (list_swap i j h))"
  by pat_completeness auto
termination by (relation "measure (\<lambda>(lessf, j, h). j)") auto

text \<open>The child of \<open>i\<close> that comes first, when \<open>i\<close> has one below \<open>n\<close>.\<close>

definition heap_child :: "('a list \<Rightarrow> nat \<Rightarrow> nat \<Rightarrow> bool) \<Rightarrow> nat \<Rightarrow> 'a list \<Rightarrow> nat \<Rightarrow> nat" where
  "heap_child lessf n h i =
     (let j1 = 2 * i + 1; j2 = j1 + 1 in if j2 < n \<and> lessf h j2 j1 then j2 else j1)"

function heap_down ::
  "('a list \<Rightarrow> nat \<Rightarrow> nat \<Rightarrow> bool) \<Rightarrow> nat \<Rightarrow> nat \<Rightarrow> 'a list \<Rightarrow> 'a list" where
  "heap_down lessf n i h =
     (if 2 * i + 1 \<ge> n then h
      else
        let j = heap_child lessf n h i in
        if \<not> lessf h j i then h else heap_down lessf n j (list_swap i j h))"
  by pat_completeness auto
termination
  by (relation "measure (\<lambda>(lessf, n, i, h). n - i)") (auto simp: heap_child_def Let_def)

declare heap_up.simps [simp del] heap_down.simps [simp del]

definition heap_push :: "('a list \<Rightarrow> nat \<Rightarrow> nat \<Rightarrow> bool) \<Rightarrow> 'a \<Rightarrow> 'a list \<Rightarrow> 'a list" where
  "heap_push lessf x h = heap_up lessf (length h) (h @ [x])"

text \<open>Callers check that the heap is not empty.\<close>

definition heap_pop :: "('a list \<Rightarrow> nat \<Rightarrow> nat \<Rightarrow> bool) \<Rightarrow> 'a list \<Rightarrow> 'a \<times> 'a list" where
  "heap_pop lessf h =
     (let n = length h - 1;
          h' = heap_down lessf n 0 (list_swap 0 n h)
      in (h' ! n, take n h'))"

definition heap_init :: "('a list \<Rightarrow> nat \<Rightarrow> nat \<Rightarrow> bool) \<Rightarrow> 'a list \<Rightarrow> 'a list" where
  "heap_init lessf h = fold (heap_down lessf (length h)) (rev [0..<length h div 2]) h"

subsection \<open>What the operations keep\<close>

lemma length_list_swap [simp]: "length (list_swap i j h) = length h"
  by (simp add: list_swap_def)

lemma nth_list_swap:
  "i < length h \<Longrightarrow> j < length h \<Longrightarrow> k < length h \<Longrightarrow>
     list_swap i j h ! k = (if k = j then h ! i else if k = i then h ! j else h ! k)"
  by (simp add: list_swap_def nth_list_update)

lemma mset_list_swap [simp]: "i < length h \<Longrightarrow> j < length h \<Longrightarrow> mset (list_swap i j h) = mset h"
  by (simp add: list_swap_def mset_swap)

lemma length_heap_up [simp]: "length (heap_up lessf j h) = length h"
  by (induction lessf j h rule: heap_up.induct) (subst heap_up.simps, simp add: Let_def)

lemma mset_heap_up: "j < length h \<Longrightarrow> mset (heap_up lessf j h) = mset h"
proof (induction lessf j h rule: heap_up.induct)
  case (1 lessf j h)
  show ?case by (subst heap_up.simps) (use 1 in \<open>auto simp: Let_def\<close>)
qed

lemma heap_child_range:
  "2 * i + 1 < n \<Longrightarrow> heap_child lessf n h i < n \<and> i < heap_child lessf n h i \<and>
     (heap_child lessf n h i - 1) div 2 = i"
  by (auto simp: heap_child_def Let_def)

lemma heap_down_stop:
  "n \<le> 2 * i + 1 \<or> \<not> lessf h (heap_child lessf n h i) i \<Longrightarrow> heap_down lessf n i h = h"
  by (subst heap_down.simps) (auto simp: Let_def)

lemma heap_down_step:
  "2 * i + 1 < n \<Longrightarrow> lessf h (heap_child lessf n h i) i \<Longrightarrow>
     heap_down lessf n i h =
     heap_down lessf n (heap_child lessf n h i) (list_swap i (heap_child lessf n h i) h)"
  by (subst heap_down.simps) (simp add: Let_def)

lemma heap_up_stop:
  "(j - 1) div 2 = j \<or> \<not> lessf h j ((j - 1) div 2) \<Longrightarrow> heap_up lessf j h = h"
  by (subst heap_up.simps) (auto simp: Let_def)

lemma heap_up_step:
  "(j - 1) div 2 \<noteq> j \<Longrightarrow> lessf h j ((j - 1) div 2) \<Longrightarrow>
     heap_up lessf j h = heap_up lessf ((j - 1) div 2) (list_swap ((j - 1) div 2) j h)"
  by (subst heap_up.simps) (simp add: Let_def)

text \<open>Sifting down below \<open>n\<close> permutes the first \<open>n\<close> elements.\<close>

lemma heap_down_unchanged:
  "n \<le> length h \<Longrightarrow> length (heap_down lessf n i h) = length h \<and>
     mset (heap_down lessf n i h) = mset h \<and> drop n (heap_down lessf n i h) = drop n h"
proof (induction lessf n i h rule: heap_down.induct)
  case (1 lessf n i h)
  let ?j = "heap_child lessf n h i"
  show ?case
  proof (cases "n \<le> 2 * i + 1 \<or> \<not> lessf h ?j i")
    case True
    then show ?thesis by (simp add: heap_down_stop)
  next
    case False
    then have j: "?j < n" "i < n" using heap_child_range [of i n lessf h] by auto
    then have "drop n (list_swap i ?j h) = drop n h" by (simp add: list_swap_def)
    with 1 False j show ?thesis by (simp add: heap_down_step)
  qed
qed

lemma length_heap_down [simp]:
  "n \<le> length h \<Longrightarrow> length (heap_down lessf n i h) = length h"
  by (simp add: heap_down_unchanged)

lemma length_heap_push [simp]: "length (heap_push lessf x h) = Suc (length h)"
  by (simp add: heap_push_def)

lemma mset_heap_push [simp]: "mset (heap_push lessf x h) = add_mset x (mset h)"
  by (simp add: heap_push_def mset_heap_up)

lemma length_heap_pop: "h \<noteq> [] \<Longrightarrow> Suc (length (snd (heap_pop lessf h))) = length h"
  by (simp add: heap_pop_def Let_def)

lemma heap_pop_parts:
  assumes "h \<noteq> []"
  shows "fst (heap_pop lessf h) = h ! 0"
    and "mset h = add_mset (fst (heap_pop lessf h)) (mset (snd (heap_pop lessf h)))"
proof -
  let ?n = "length h - 1"
  let ?s = "list_swap 0 ?n h"
  let ?h = "heap_down lessf ?n 0 ?s"
  have len: "length h = Suc ?n" using assms by simp
  have u: "length ?h = length h" "mset ?h = mset ?s" "drop ?n ?h = drop ?n ?s"
    using heap_down_unchanged [of ?n ?s lessf 0] len by simp_all
  have last: "?h ! ?n = ?s ! ?n"
    using u(1,3) len by (metis Cons_nth_drop_Suc length_list_swap lessI list.inject)
  show "fst (heap_pop lessf h) = h ! 0"
    using last nth_list_swap [of 0 h ?n ?n] assms by (simp add: heap_pop_def Let_def)
  have "?h = take ?n ?h @ [?h ! ?n]"
    using u(1) len by (metis append_eq_conv_conj lessI take_Suc_conv_app_nth take_all order_refl)
  then have "mset ?h = add_mset (?h ! ?n) (mset (take ?n ?h))"
    by (metis add_mset_add_single mset_append mset_single_iff)
  moreover have "mset ?s = mset h" using assms by (intro mset_list_swap) simp_all
  ultimately show "mset h = add_mset (fst (heap_pop lessf h)) (mset (snd (heap_pop lessf h)))"
    using u(2) by (simp add: heap_pop_def Let_def)
qed

lemma heap_init_unchanged:
  "length (heap_init lessf h) = length h" "mset (heap_init lessf h) = mset h"
proof -
  have "length (fold (heap_down lessf (length h)) is h') = length h \<and>
      mset (fold (heap_down lessf (length h)) is h') = mset h"
    if "length h' = length h" "mset h' = mset h" for "is" h'
    using that
  proof (induction "is" arbitrary: h')
    case (Cons i "is")
    with heap_down_unchanged [of "length h" h' lessf i] show ?case by simp
  qed simp
  then show "length (heap_init lessf h) = length h" "mset (heap_init lessf h) = mset h"
    by (simp_all add: heap_init_def)
qed

subsection \<open>The contract\<close>

locale priority_queue =
  fixes push :: "'a \<Rightarrow> 'a list \<Rightarrow> 'a list"
    and pop :: "'a list \<Rightarrow> 'a \<times> 'a list"
    and lt :: "'a \<Rightarrow> 'a \<Rightarrow> bool"
    and ok :: "'a \<Rightarrow> bool"
    and inv :: "'a list \<Rightarrow> bool"
  assumes inv_empty: "inv []"
    and inv_ok: "inv h \<Longrightarrow> x \<in> set h \<Longrightarrow> ok x"
    and push_inv: "inv h \<Longrightarrow> ok x \<Longrightarrow> inv (push x h)"
    and push_mset: "mset (push x h) = add_mset x (mset h)"
    and pop_inv: "inv h \<Longrightarrow> h \<noteq> [] \<Longrightarrow> inv (snd (pop h))"
    and pop_mset: "h \<noteq> [] \<Longrightarrow> mset h = add_mset (fst (pop h)) (mset (snd (pop h)))"
    and pop_best: "inv h \<Longrightarrow> h \<noteq> [] \<Longrightarrow> x \<in> set h \<Longrightarrow> \<not> lt x (fst (pop h))"
begin

lemma pop_in: "h \<noteq> [] \<Longrightarrow> fst (pop h) \<in> set h"
  by (metis pop_mset set_mset_mset union_single_eq_member)

lemma pop_rest: "h \<noteq> [] \<Longrightarrow> x \<in> set (snd (pop h)) \<Longrightarrow> x \<in> set h"
  by (metis insert_iff pop_mset set_mset_add_mset_insert set_mset_mset)

lemma push_set: "set (push x h) = insert x (set h)"
  by (metis push_mset set_mset_add_mset_insert set_mset_mset)

end

locale heap_interface =
  fixes lessf :: "'a list \<Rightarrow> nat \<Rightarrow> nat \<Rightarrow> bool"
    and lt :: "'a \<Rightarrow> 'a \<Rightarrow> bool"
    and ok :: "'a \<Rightarrow> bool"
  assumes less_lt: "\<forall>x\<in>set h. ok x \<Longrightarrow> i < length h \<Longrightarrow> j < length h \<Longrightarrow>
      lessf h i j = lt (h ! i) (h ! j)"
    and lt_asym: "lt x y \<Longrightarrow> \<not> lt y x"
    and lt_neg_trans: "\<not> lt y x \<Longrightarrow> \<not> lt z y \<Longrightarrow> \<not> lt z x"
begin

text \<open>\<open>x\<close> may stand above \<open>y\<close>.\<close>

definition le :: "'a \<Rightarrow> 'a \<Rightarrow> bool" where
  "le x y \<longleftrightarrow> \<not> lt y x"

lemma le_trans: "le x y \<Longrightarrow> le y z \<Longrightarrow> le x z"
  unfolding le_def by (rule lt_neg_trans)

lemma le_refl [simp]: "le x x"
  using lt_asym by (auto simp: le_def)

lemma lt_le: "lt x y \<Longrightarrow> le x y"
  using lt_asym by (auto simp: le_def)

definition all_ok :: "'a list \<Rightarrow> bool" where
  "all_ok h \<longleftrightarrow> (\<forall>x\<in>set h. ok x)"

lemma all_ok_mset: "mset h = mset h' \<Longrightarrow> all_ok h = all_ok h'"
  by (metis all_ok_def set_mset_mset)

lemma lessf_le: "all_ok h \<Longrightarrow> i < length h \<Longrightarrow> j < length h \<Longrightarrow>
    (lessf h i j \<longleftrightarrow> lt (h ! i) (h ! j)) \<and> (\<not> lessf h i j \<longleftrightarrow> le (h ! j) (h ! i))"
  using less_lt [of h i j] by (simp add: all_ok_def le_def)

text \<open>The heap order on the first \<open>n\<close> elements, with the parents in \<open>P\<close> left out.\<close>

definition heap_on :: "nat set \<Rightarrow> nat \<Rightarrow> 'a list \<Rightarrow> bool" where
  "heap_on P n h \<longleftrightarrow> (\<forall>k. 0 < k \<and> k < n \<and> (k - 1) div 2 \<notin> P \<longrightarrow> le (h ! ((k - 1) div 2)) (h ! k))"

lemma heap_onD: "heap_on P n h \<Longrightarrow> 0 < k \<Longrightarrow> k < n \<Longrightarrow> (k - 1) div 2 \<notin> P \<Longrightarrow>
    le (h ! ((k - 1) div 2)) (h ! k)"
  by (simp add: heap_on_def)

lemma heap_onD_Suc: "heap_on P n h \<Longrightarrow> 0 < k \<Longrightarrow> k < n \<Longrightarrow> (k - Suc 0) div 2 \<notin> P \<Longrightarrow>
    le (h ! ((k - Suc 0) div 2)) (h ! k)"
  using heap_onD [of P n h k] by simp

text \<open>The children of \<open>i\<close> may stand below the parent of \<open>i\<close>, where that parent counts
  (\<open>m\<close> or later).\<close>

definition bridged :: "nat \<Rightarrow> nat \<Rightarrow> nat \<Rightarrow> 'a list \<Rightarrow> bool" where
  "bridged m i n h \<longleftrightarrow>
     (0 < i \<and> m \<le> (i - 1) div 2 \<longrightarrow> (\<forall>k. 0 < k \<and> k < n \<and> (k - 1) div 2 = i \<longrightarrow> le (h ! ((i - 1) div 2)) (h ! k)))"

lemma children: "0 < (k::nat) \<Longrightarrow> (k - 1) div 2 = i \<Longrightarrow> k = 2 * i + 1 \<or> k = 2 * i + 2"
  by presburger

lemma parent_less: "0 < k \<Longrightarrow> (k - 1) div 2 < (k::nat)"
  by presburger

lemma child_best:
  assumes "all_ok h" and "n \<le> length h" and "2 * i + 1 < n" and "0 < k" and "k < n"
    and "(k - 1) div 2 = i"
  shows "le (h ! heap_child lessf n h i) (h ! k)"
proof -
  have k: "k = 2 * i + 1 \<or> k = 2 * i + 2" using assms(4,6) by (rule children)
  show ?thesis
  proof (cases "2 * i + 2 < n")
    case True
    then show ?thesis
      using k assms(2) lessf_le [OF assms(1), of "2 * i + 2" "2 * i + 1"]
      by (auto simp: heap_child_def Let_def intro: lt_le)
  next
    case False
    with k assms(5) show ?thesis by (simp add: heap_child_def Let_def)
  qed
qed

lemma heap_down_heap:
  assumes "all_ok h" and "n \<le> length h" and "heap_on (insert i {..<m}) n h" and "bridged m i n h"
    and "i < n" and "m \<le> i"
  shows "heap_on {..<m} n (heap_down lessf n i h)"
  using assms
proof (induction "n - i" arbitrary: i h rule: less_induct)
  case less
  let ?j = "heap_child lessf n h i"
  show ?case
  proof (cases "2 * i + 1 < n")
    case False
    have "heap_on {..<m} n h"
      unfolding heap_on_def
    proof (intro allI impI)
      fix k assume k: "0 < k \<and> k < n \<and> (k - 1) div 2 \<notin> {..<m}"
      then have "(k - 1) div 2 \<noteq> i" using False children [of k i] by auto
      with heap_onD [OF less.prems(3), of k] k show "le (h ! ((k - 1) div 2)) (h ! k)" by simp
    qed
    with False show ?thesis by (simp add: heap_down_stop)
  next
    case True
    note j = heap_child_range [OF True, of lessf h]
    have best: "le (h ! ?j) (h ! k)" if "0 < k" "k < n" "(k - 1) div 2 = i" for k
      using child_best [OF less.prems(1,2) True that] .
    have il: "i < length h" "?j < length h" using j less.prems(2) by auto
    show ?thesis
    proof (cases "lessf h ?j i")
      case False
      then have ij: "le (h ! i) (h ! ?j)"
        using lessf_le [OF less.prems(1) il(2,1)] by (auto simp: le_def)
      have "heap_on {..<m} n h"
        unfolding heap_on_def
      proof (intro allI impI)
        fix k assume k: "0 < k \<and> k < n \<and> (k - 1) div 2 \<notin> {..<m}"
        show "le (h ! ((k - 1) div 2)) (h ! k)"
        proof (cases "(k - 1) div 2 = i")
          case True
          with best [of k] k ij show ?thesis by (auto intro: le_trans)
        next
          case False
          with heap_onD [OF less.prems(3), of k] k show ?thesis by simp
        qed
      qed
      with False show ?thesis by (simp add: heap_down_stop)
    next
      case lt: True
      let ?s = "list_swap i ?j h"
      have ji: "lt (h ! ?j) (h ! i)" using lessf_le [OF less.prems(1) il(2,1)] lt by simp
      have s: "?s ! k = (if k = ?j then h ! i else if k = i then h ! ?j else h ! k)"
        if "k < n" for k using that less.prems(2) il by (simp add: nth_list_swap)
      have "all_ok ?s" using less.prems(1) all_ok_mset [OF mset_list_swap [OF il]] by simp
      moreover have "heap_on (insert ?j {..<m}) n ?s"
        unfolding heap_on_def
      proof (intro allI impI)
        fix k assume k: "0 < k \<and> k < n \<and> (k - 1) div 2 \<notin> insert ?j {..<m}"
        let ?p = "(k - 1) div 2"
        have p: "?p < n" "?p \<noteq> k" using k parent_less [of k] by auto
        consider "k = i" | "k \<noteq> i" "?p = i" | "k \<noteq> i" "?p \<noteq> i" by blast
        then show "le (?s ! ?p) (?s ! k)"
        proof cases
          case 1
          with less.prems(4) k j have "le (h ! ?p) (h ! ?j)" by (simp add: bridged_def)
          with 1 k p j s show ?thesis by auto
        next
          case 2
          with best [of k] k p j s ji show ?thesis by (auto intro: lt_le)
        next
          case 3
          then have "k \<noteq> ?j" using j by auto
          with 3 k p s heap_onD [OF less.prems(3), of k] show ?thesis by auto
        qed
      qed
      moreover have "bridged m ?j n ?s"
        unfolding bridged_def
      proof (intro allI impI)
        fix k assume k: "0 < ?j \<and> m \<le> (?j - 1) div 2" "0 < k \<and> k < n \<and> (k - 1) div 2 = ?j"
        then have "?j < k" using parent_less [of k] by simp
        have "?j \<notin> {..<m}" using j less.prems(6) by auto
        with heap_onD [OF less.prems(3), of k] k j s show "le (?s ! ((?j - 1) div 2)) (?s ! k)"
          by auto
      qed
      ultimately show ?thesis
        using less.hyps [of ?j ?s] j less.prems(2,6) lt True diff_less_mono2 [of i ?j n]
        by (simp add: heap_down_step)
    qed
  qed
qed

lemma heap_up_heap:
  assumes "all_ok h" and "j < length h"
    and "\<forall>k. 0 < k \<and> k < length h \<and> k \<noteq> j \<longrightarrow> le (h ! ((k - 1) div 2)) (h ! k)"
    and "bridged 0 j (length h) h"
  shows "heap_on {} (length h) (heap_up lessf j h)"
  using assms
proof (induction j arbitrary: h rule: less_induct)
  case (less j)
  let ?i = "(j - 1) div 2"
  let ?n = "length h"
  have heap: "le (h ! ((k - 1) div 2)) (h ! k)" if "0 < k" "k < ?n" "k \<noteq> j" for k
    using less.prems(3) that by blast
  show ?case
  proof (cases "0 < j \<and> lessf h j ?i")
    case False
    have "le (h ! ?i) (h ! j)" if "0 < j"
    proof -
      have "?i < ?n" using parent_less [OF that] less.prems(2) by simp
      then show ?thesis
        using lessf_le [OF less.prems(1,2)] False that by (auto simp: le_def)
    qed
    with heap have "heap_on {} ?n h" by (auto simp: heap_on_def)
    moreover have "?i = j \<or> \<not> lessf h j ?i" using False by auto
    ultimately show ?thesis by (simp only: heap_up_stop)
  next
    case True
    let ?s = "list_swap ?i j h"
    have ij: "?i < j" using True parent_less [of j] by simp
    then have il: "?i < ?n" using less.prems(2) by simp
    have ji: "lt (h ! j) (h ! ?i)" using lessf_le [OF less.prems(1,2) il] True by simp
    have s: "?s ! k = (if k = j then h ! ?i else if k = ?i then h ! j else h ! k)"
      if "k < ?n" for k using that less.prems(2) il by (simp add: nth_list_swap)
    have "all_ok ?s"
      using less.prems(1,2) all_ok_mset [OF mset_list_swap [OF il less.prems(2)]] by simp
    moreover have "\<forall>k. 0 < k \<and> k < length ?s \<and> k \<noteq> ?i \<longrightarrow> le (?s ! ((k - 1) div 2)) (?s ! k)"
    proof (intro allI impI)
      fix k assume k: "0 < k \<and> k < length ?s \<and> k \<noteq> ?i"
      let ?p = "(k - 1) div 2"
      have p: "?p < ?n" "?p < k" using k parent_less [of k] by auto
      consider "k = j" | "k \<noteq> j" "?p = j" | "k \<noteq> j" "?p = ?i" "?p \<noteq> j"
        | "k \<noteq> j" "?p \<noteq> ?i" "?p \<noteq> j" by blast
      then show "le (?s ! ?p) (?s ! k)"
      proof cases
        case 1
        with k p s ij less.prems(2) ji show ?thesis by (auto intro: lt_le)
      next
        case 2
        with less.prems(4) k True have "le (h ! ?i) (h ! k)" by (simp add: bridged_def)
        with 2 k p s show ?thesis by auto
      next
        case 3
        with heap [of k] k have "le (h ! ?i) (h ! k)" by simp
        with ji have "le (h ! j) (h ! k)" by (blast intro: le_trans lt_le)
        with 3 k p s show ?thesis by auto
      next
        case 4
        with heap [of k] k p s show ?thesis by auto
      qed
    qed
    moreover have "bridged 0 ?i (length ?s) ?s"
      unfolding bridged_def
    proof (intro allI impI)
      fix k assume i0: "0 < ?i \<and> 0 \<le> (?i - 1) div 2" and k: "0 < k \<and> k < length ?s \<and> (k - 1) div 2 = ?i"
      let ?p = "(?i - 1) div 2"
      have p: "?p < ?i" using parent_less [OF conjunct1 [OF i0]] .
      have top: "le (h ! ?p) (h ! ?i)" using heap [of ?i] i0 il ij by simp
      have "?i < k" using k parent_less [of k] by auto
      have "le (h ! ?p) (?s ! k)"
      proof (cases "k = j")
        case True
        with top k s show ?thesis by simp
      next
        case False
        with heap [of k] k have "le (h ! ?i) (h ! k)" by simp
        with top False k s \<open>?i < k\<close> show ?thesis by (auto intro: le_trans)
      qed
      with p ij il s show "le (?s ! ?p) (?s ! k)" by auto
    qed
    ultimately have "heap_on {} (length ?s) (heap_up lessf ?i ?s)"
      using less.IH [OF ij, of ?s] il by simp
    with True ij show ?thesis by (simp add: heap_up_step)
  qed
qed

definition heap_inv :: "'a list \<Rightarrow> bool" where
  "heap_inv h \<longleftrightarrow> all_ok h \<and> heap_on {} (length h) h"

lemma heap_root:
  assumes "heap_inv h"
  shows "k < length h \<Longrightarrow> le (h ! 0) (h ! k)"
proof (induction k rule: less_induct)
  case (less k)
  show ?case
  proof (cases "k = 0")
    case False
    then have "(k - 1) div 2 < k" using parent_less [of k] by simp
    with less have "le (h ! 0) (h ! ((k - 1) div 2))" by simp
    moreover have "le (h ! ((k - 1) div 2)) (h ! k)"
      using assms less.prems False by (intro heap_onD [of "{}" "length h"]) (auto simp: heap_inv_def)
    ultimately show ?thesis by (rule le_trans)
  qed simp
qed

lemma heap_push_inv: "heap_inv h \<Longrightarrow> ok x \<Longrightarrow> heap_inv (heap_push lessf x h)"
proof -
  assume h: "heap_inv h" and x: "ok x"
  let ?h = "h @ [x]"
  have "all_ok ?h" using h x by (simp add: heap_inv_def all_ok_def)
  moreover have "le (?h ! ((k - 1) div 2)) (?h ! k)"
    if "0 < k \<and> k < length ?h \<and> k \<noteq> length h" for k
  proof -
    from that have "k < length h" "(k - 1) div 2 < length h"
      using parent_less [of k] by auto
    moreover have "le (h ! ((k - 1) div 2)) (h ! k)"
      using that h by (intro heap_onD [of "{}" "length h"]) (auto simp: heap_inv_def)
    ultimately show ?thesis by (simp add: nth_append)
  qed
  moreover have "bridged 0 (length h) (length ?h) ?h"
    using parent_less by (fastforce simp: bridged_def)
  ultimately have "heap_on {} (length ?h) (heap_up lessf (length h) ?h)"
    by (intro heap_up_heap) auto
  with \<open>all_ok ?h\<close> show "heap_inv (heap_push lessf x h)"
    using all_ok_mset [of ?h "heap_push lessf x h"]
    by (simp add: heap_inv_def heap_push_def mset_heap_up)
qed

lemma heap_pop_inv:
  assumes h: "heap_inv h" and ne: "h \<noteq> []"
  shows "heap_inv (snd (heap_pop lessf h))"
proof -
  let ?n = "length h - 1"
  let ?s = "list_swap 0 ?n h"
  let ?h = "heap_down lessf ?n 0 ?s"
  have len: "0 < length h" "?n < length h" using ne by simp_all
  have "all_ok ?s"
    using h all_ok_mset [OF mset_list_swap [OF len]] by (simp add: heap_inv_def)
  then have "all_ok ?h" using all_ok_mset [of ?h ?s] heap_down_unchanged [of ?n ?s lessf 0] by simp
  then have ok: "all_ok (take ?n ?h)" by (auto simp: all_ok_def dest: in_set_takeD)
  have "heap_on {} ?n ?h"
  proof (cases "?n = 0")
    case False
    have "heap_on (insert 0 {..<0}) ?n ?s"
      unfolding heap_on_def
    proof (intro allI impI)
      fix k assume k: "0 < k \<and> k < ?n \<and> (k - 1) div 2 \<notin> insert 0 {..<0}"
      then have "(k - 1) div 2 < ?n" using parent_less [of k] by simp
      moreover have "le (h ! ((k - 1) div 2)) (h ! k)"
        using k h by (intro heap_onD [of "{}" "length h"]) (auto simp: heap_inv_def)
      ultimately show "le (?s ! ((k - 1) div 2)) (?s ! k)"
        using k len nth_list_swap [OF len] by (auto simp: less_diff_conv)
    qed
    with \<open>all_ok ?s\<close> False show ?thesis
      using heap_down_heap [of ?s ?n 0 0] by (simp add: bridged_def)
  qed (simp add: heap_on_def)
  then have "heap_on {} ?n (take ?n ?h)"
    by (auto simp: heap_on_def dest: less_trans [OF parent_less])
  with ok show ?thesis by (simp add: heap_inv_def heap_pop_def Let_def min_absorb2)
qed

lemma heap_pop_best:
  assumes "heap_inv h" and "h \<noteq> []" and "x \<in> set h"
  shows "\<not> lt x (fst (heap_pop lessf h))"
proof -
  obtain k where "k < length h" "x = h ! k" using assms(3) by (auto simp: in_set_conv_nth)
  with heap_root [OF assms(1)] heap_pop_parts(1) [OF assms(2)] show ?thesis by (simp add: le_def)
qed

lemma heap_init_inv:
  assumes "all_ok h"
  shows "heap_inv (heap_init lessf h)"
proof -
  let ?n = "length h"
  have down: "heap_on {} ?n (fold (heap_down lessf ?n) (rev [0..<m]) h')"
    if "all_ok h'" "length h' = ?n" "heap_on {..<m} ?n h'" "m \<le> ?n" for m h'
    using that
  proof (induction m arbitrary: h')
    case (Suc m)
    let ?d = "heap_down lessf ?n m h'"
    have u: "length ?d = ?n" "mset ?d = mset h'"
      using heap_down_unchanged [of ?n h' lessf m] Suc.prems(2) by simp_all
    have "bridged m m ?n h'" using parent_less [of m] by (auto simp: bridged_def)
    then have "heap_on {..<m} ?n ?d"
      using Suc.prems by (intro heap_down_heap) (simp_all add: lessThan_Suc)
    with Suc u all_ok_mset [OF u(2)] show ?case by simp
  qed simp
  have "heap_on {..<?n div 2} ?n h" by (auto simp: heap_on_def)
  with down [of h "?n div 2"] assms have "heap_on {} ?n (heap_init lessf h)"
    by (simp add: heap_init_def)
  moreover have "all_ok (heap_init lessf h)"
    using assms all_ok_mset [OF heap_init_unchanged(2)] by simp
  ultimately show ?thesis by (simp add: heap_inv_def heap_init_unchanged)
qed

end

text \<open>A heap interface gives a priority queue.\<close>

sublocale heap_interface \<subseteq> queue: priority_queue "heap_push lessf" "heap_pop lessf" lt ok heap_inv
proof unfold_locales
  show "heap_inv []" by (simp add: heap_inv_def all_ok_def heap_on_def)
  show "ok x" if "heap_inv h" "x \<in> set h" for h x
    using that by (simp add: heap_inv_def all_ok_def)
qed (simp_all add: heap_push_inv heap_pop_inv heap_pop_parts(2) heap_pop_best)

end
