(* ===== verification/OrderBook.thy ===== *)
theory OrderBook
  imports Complex_Main GoHeap
begin

text \<open>
  \<^verbatim>\<open>pkg/dex/engine.go\<close> (the types of the matching engine and the choice of an
  implementation) and \<^verbatim>\<open>pkg/dex/engine_pure_go.go\<close> (order books on
  \<open>container/heap\<close>, greedy matching, batch auctions, cancellation, snapshots).

  A price is a \<open>float64\<close> in the code; here it is a value of any linearly ordered field
  \<open>'p\<close>, so prices are not NaN and arithmetic does not round. \<open>math.Ln2\<close> and
  \<open>math.Exp\<close> are the arguments \<open>ln2\<close> and \<open>mexp\<close>. An order is a value: one order pointer is not
  put into two places of a book. The targeting map of an order is never read and left out.
\<close>

datatype engine_error =
    ErrOrderNotFound string
  | ErrUnknownEngine string

record 'p Order =
  o_ID :: string
  o_AdSlotID :: string
  o_Price :: 'p
  o_Quantity :: u64
  o_Timestamp :: time
  o_IsBuy :: bool
  o_AdvertiserID :: string
  o_PublisherID :: string

record 'p MatchedOrder =
  mo_BuyOrderID :: string
  mo_SellOrderID :: string
  mo_OrderID :: string
  mo_AdvertiserID :: string
  mo_PublisherID :: string
  mo_Price :: 'p
  mo_Quantity :: u64

record 'p BatchAuctionResult =
  ba_SlotID :: string
  ba_ClearingPrice :: 'p
  ba_TotalVolume :: u64
  ba_MatchedOrders :: u32
  ba_Winners :: "'p MatchedOrder list"
  ba_LatencyUS :: u64

record 'p PriceLevel =
  pl_Price :: 'p
  pl_Quantity :: u64
  pl_Orders :: nat

record 'p OrderBookSnapshot =
  os_SlotID :: string
  os_Bids :: "'p PriceLevel list"
  os_Asks :: "'p PriceLevel list"
  os_LastUpdate :: time

record 'p OrderBook =
  ob_SlotID :: string
  ob_Bids :: "'p Order list"
  ob_Asks :: "'p Order list"

record 'p PureGoEngine =
  pe_orderBooks :: "string \<rightharpoonup> 'p OrderBook"
  pe_totalOrders :: u64
  pe_totalAuctions :: u64
  pe_totalVolume :: u64
  pe_decayRate :: 'p
  pe_halfLife :: duration

subsection \<open>The choice of an engine\<close>

datatype EngineType =
    EngineTypePureGo
  | EngineTypeCPU
  | EngineTypeGPU
  | EngineTypeAuto
  | EngineTypeOther string

datatype EngineImpl = PureGo | Cgo | Gpu

text \<open>\<open>os\<close> is \<open>runtime.GOOS\<close>; \<open>cgo\<close>, \<open>metal\<close> and \<open>cuda\<close> say whether the
  build's hooks return an engine.\<close>

definition tryCreateGPUEngine :: "string \<Rightarrow> bool \<Rightarrow> bool \<Rightarrow> EngineImpl option" where
  "tryCreateGPUEngine os metal cuda =
     (if os = ''darwin'' then (if metal then Some Gpu else None)
      else if os = ''linux'' \<or> os = ''windows'' then (if cuda then Some Gpu else None)
      else None)"

definition tryCreateCGOEngine :: "bool \<Rightarrow> EngineImpl option" where
  "tryCreateCGOEngine cgo = (if cgo then Some Cgo else None)"

definition autoDetectEngine :: "string \<Rightarrow> bool \<Rightarrow> bool \<Rightarrow> bool \<Rightarrow> EngineImpl" where
  "autoDetectEngine os cgo metal cuda =
     (case tryCreateGPUEngine os metal cuda of
        Some e \<Rightarrow> e
      | None \<Rightarrow> (case tryCreateCGOEngine cgo of Some e \<Rightarrow> e | None \<Rightarrow> PureGo))"

fun NewEngine :: "string \<Rightarrow> bool \<Rightarrow> bool \<Rightarrow> bool \<Rightarrow> EngineType \<Rightarrow> engine_error + EngineImpl" where
  "NewEngine os cgo metal cuda EngineTypePureGo = Inr PureGo"
| "NewEngine os cgo metal cuda EngineTypeCPU =
     (case tryCreateCGOEngine cgo of Some e \<Rightarrow> Inr e | None \<Rightarrow> Inr PureGo)"
| "NewEngine os cgo metal cuda EngineTypeGPU =
     (case tryCreateGPUEngine os metal cuda of
        Some e \<Rightarrow> Inr e
      | None \<Rightarrow> (case tryCreateCGOEngine cgo of Some e \<Rightarrow> Inr e | None \<Rightarrow> Inr PureGo))"
| "NewEngine os cgo metal cuda EngineTypeAuto = Inr (autoDetectEngine os cgo metal cuda)"
| "NewEngine os cgo metal cuda (EngineTypeOther s) = Inl (ErrUnknownEngine s)"

subsection \<open>Order books\<close>

definition OrderHeap_Less :: "'p::linorder Order list \<Rightarrow> nat \<Rightarrow> nat \<Rightarrow> bool" where
  "OrderHeap_Less h i j =
     (if length h > 0 \<and> o_IsBuy (h ! 0) then o_Price (h ! i) > o_Price (h ! j)
      else o_Price (h ! i) < o_Price (h ! j))"

definition NewOrderBook :: "string \<Rightarrow> 'p OrderBook" where
  "NewOrderBook slotID = \<lparr>ob_SlotID = slotID, ob_Bids = [], ob_Asks = []\<rparr>"

definition NewPureGoEngine :: "'p::linordered_field PureGoEngine" where
  "NewPureGoEngine =
     \<lparr>pe_orderBooks = Map.empty, pe_totalOrders = 0, pe_totalAuctions = 0, pe_totalVolume = 0,
      pe_decayRate = 1 / 10, pe_halfLife = 30 * 60 * second_ns\<rparr>"

definition AddOrder :: "'p::linorder Order \<Rightarrow> 'p PureGoEngine \<Rightarrow> 'p PureGoEngine" where
  "AddOrder order e =
     (let book = (case pe_orderBooks e (o_AdSlotID order) of
                    Some b \<Rightarrow> b | None \<Rightarrow> NewOrderBook (o_AdSlotID order));
          book' = (if o_IsBuy order
                   then book\<lparr>ob_Bids := heap_push OrderHeap_Less order (ob_Bids book)\<rparr>
                   else book\<lparr>ob_Asks := heap_push OrderHeap_Less order (ob_Asks book)\<rparr>)
      in e\<lparr>pe_orderBooks := (pe_orderBooks e)(o_AdSlotID order \<mapsto> book'),
           pe_totalOrders := pe_totalOrders e + 1\<rparr>)"

definition match_quantity :: "'p Order \<Rightarrow> 'p Order \<Rightarrow> u64" where
  "match_quantity bid ask =
     (if o_Quantity ask < o_Quantity bid then o_Quantity ask else o_Quantity bid)"

definition new_match :: "'p Order \<Rightarrow> 'p Order \<Rightarrow> 'p MatchedOrder" where
  "new_match bid ask =
     \<lparr>mo_BuyOrderID = o_ID bid, mo_SellOrderID = o_ID ask, mo_OrderID = [],
      mo_AdvertiserID = o_AdvertiserID bid, mo_PublisherID = [],
      mo_Price = o_Price ask, mo_Quantity = match_quantity bid ask\<rparr>"

text \<open>Put the rest of an order back if it is not fully filled.\<close>

definition re_add :: "'p::linorder Order \<Rightarrow> u64 \<Rightarrow> 'p Order list \<Rightarrow> 'p Order list" where
  "re_add x q h =
     (let x' = x\<lparr>o_Quantity := o_Quantity x - q\<rparr>
      in if o_Quantity x' > 0 then heap_push OrderHeap_Less x' h else h)"

lemma re_add_length: "length (re_add x q h) = (if o_Quantity x = q then length h else Suc (length h))"
  by (auto simp: re_add_def Let_def word_neq_0_conv [symmetric])

function matchOrders ::
  "'p::linorder Order list \<Rightarrow> 'p Order list \<Rightarrow>
   'p MatchedOrder list \<times> 'p Order list \<times> 'p Order list" where
  "matchOrders bids asks =
     (if length bids > 0 \<and> length asks > 0 then
        (case heap_pop OrderHeap_Less bids of (bestBid, bids1) \<Rightarrow>
         case heap_pop OrderHeap_Less asks of (bestAsk, asks1) \<Rightarrow>
           if o_Price bestBid \<ge> o_Price bestAsk then
             (let q = match_quantity bestBid bestAsk in
              case matchOrders (re_add bestBid q bids1) (re_add bestAsk q asks1) of
                (ms, bids2, asks2) \<Rightarrow> (new_match bestBid bestAsk # ms, bids2, asks2))
           else ([], heap_push OrderHeap_Less bestBid bids1,
                 heap_push OrderHeap_Less bestAsk asks1))
      else ([], bids, asks))"
  by pat_completeness auto
termination
proof (relation "measure (\<lambda>(bids, asks). length bids + length asks)", goal_cases)
  case 1
  show ?case by simp
next
  case (2 bids asks bid bids1 ask asks1 q)
  have "Suc (length bids1) = length bids" "Suc (length asks1) = length asks"
    using 2(1) 2(2,3) [symmetric] length_heap_pop [of bids OrderHeap_Less]
      length_heap_pop [of asks OrderHeap_Less] by auto
  moreover have "q = o_Quantity bid \<or> q = o_Quantity ask"
    using 2 by (simp add: match_quantity_def)
  ultimately show ?case by (auto simp: re_add_length)
qed

declare matchOrders.simps [simp del]

text \<open>The median of the match prices.\<close>

definition calculateClearingPrice :: "'p::linordered_field MatchedOrder list \<Rightarrow> 'p" where
  "calculateClearingPrice matches =
     (if length matches = 0 then 0
      else let prices = sort (map mo_Price matches) in prices ! (length prices div 2))"

definition duration_seconds :: "duration \<Rightarrow> 'p::linordered_field" where
  "duration_seconds d = of_int d / of_int second_ns"

text \<open>The code's slot and time arguments are not read.\<close>

definition calculateTimeDecayFactor ::
  "'p::linordered_field \<Rightarrow> ('p \<Rightarrow> 'p) \<Rightarrow> 'p PureGoEngine \<Rightarrow> 'p" where
  "calculateTimeDecayFactor ln2 mexp e =
     (let slotAge = 10 * 60 * second_ns;
          lambda = ln2 / duration_seconds (pe_halfLife e);
          decay = mexp (- lambda * duration_seconds slotAge)
      in if decay < 1 / 10 then 1 / 10 else decay)"

text \<open>\<open>latency\<close> is the measured duration.\<close>

definition RunBatchAuction ::
  "'p::linordered_field \<Rightarrow> ('p \<Rightarrow> 'p) \<Rightarrow> u64 \<Rightarrow> string \<Rightarrow> 'p PureGoEngine \<Rightarrow>
   'p BatchAuctionResult \<times> 'p PureGoEngine" where
  "RunBatchAuction ln2 mexp latency slotID e =
     (case pe_orderBooks e slotID of
        None \<Rightarrow> (\<lparr>ba_SlotID = slotID, ba_ClearingPrice = 0, ba_TotalVolume = 0,
                  ba_MatchedOrders = 0, ba_Winners = [], ba_LatencyUS = 0\<rparr>, e)
      | Some book \<Rightarrow>
          (case matchOrders (ob_Bids book) (ob_Asks book) of (matches, bids, asks) \<Rightarrow>
             let clearingPrice = calculateClearingPrice matches * calculateTimeDecayFactor ln2 mexp e;
                 winners = filter (\<lambda>m. mo_Price m \<ge> clearingPrice) matches;
                 totalVolume = sum_list (map mo_Quantity winners)
             in (\<lparr>ba_SlotID = slotID, ba_ClearingPrice = clearingPrice,
                  ba_TotalVolume = totalVolume, ba_MatchedOrders = of_nat (length winners),
                  ba_Winners = winners, ba_LatencyUS = latency\<rparr>,
                 e\<lparr>pe_orderBooks := (pe_orderBooks e)(slotID \<mapsto>
                     book\<lparr>ob_Bids := bids, ob_Asks := asks\<rparr>),
                   pe_totalAuctions := pe_totalAuctions e + 1,
                   pe_totalVolume := pe_totalVolume e + totalVolume\<rparr>)))"

definition remove_at :: "nat \<Rightarrow> 'a list \<Rightarrow> 'a list" where
  "remove_at i xs = take i xs @ drop (i + 1) xs"

text \<open>The two scans over one book; \<open>None\<close> when it does not hold the order.\<close>

definition cancel_in_book :: "string \<Rightarrow> 'p::linorder OrderBook \<Rightarrow> 'p OrderBook option" where
  "cancel_in_book orderID book =
     (case find_index (\<lambda>x. o_ID x = orderID) (ob_Bids book) of
        Some i \<Rightarrow> Some (book\<lparr>ob_Bids := heap_init OrderHeap_Less (remove_at i (ob_Bids book))\<rparr>)
      | None \<Rightarrow>
          (case find_index (\<lambda>x. o_ID x = orderID) (ob_Asks book) of
             Some i \<Rightarrow>
               Some (book\<lparr>ob_Asks := heap_init OrderHeap_Less (remove_at i (ob_Asks book))\<rparr>)
           | None \<Rightarrow> None))"

text \<open>\<open>slots\<close> are the keys of the book map in the order of the iteration.\<close>

fun CancelOrder ::
  "string list \<Rightarrow> string \<Rightarrow> 'p::linorder PureGoEngine \<Rightarrow> (engine_error + unit) \<times> 'p PureGoEngine" where
  "CancelOrder [] orderID e = (Inl (ErrOrderNotFound orderID), e)"
| "CancelOrder (s # slots) orderID e =
     (case pe_orderBooks e s of
        None \<Rightarrow> CancelOrder slots orderID e
      | Some book \<Rightarrow>
          (case cancel_in_book orderID book of
             None \<Rightarrow> CancelOrder slots orderID e
           | Some book' \<Rightarrow> (Inr (), e\<lparr>pe_orderBooks := (pe_orderBooks e)(s \<mapsto> book')\<rparr>)))"

text \<open>One order added to the levels gathered so far.\<close>

fun add_level :: "'p Order \<Rightarrow> 'p PriceLevel list \<Rightarrow> 'p PriceLevel list" where
  "add_level x [] = [\<lparr>pl_Price = o_Price x, pl_Quantity = o_Quantity x, pl_Orders = 1\<rparr>]"
| "add_level x (l # ls) =
     (if pl_Price l = o_Price x
      then l\<lparr>pl_Quantity := pl_Quantity l + o_Quantity x, pl_Orders := pl_Orders l + 1\<rparr> # ls
      else l # add_level x ls)"

text \<open>The levels have distinct prices, so the sorted list does not depend on the order of the
  map iteration.\<close>

definition aggregatePriceLevels :: "'p::linorder Order list \<Rightarrow> 'p PriceLevel list" where
  "aggregatePriceLevels orders =
     (let levels = fold add_level orders []; asc = sort_key pl_Price levels
      in if length orders > 0 \<and> o_IsBuy (orders ! 0) then rev asc else asc)"

definition GetOrderBook :: "time \<Rightarrow> string \<Rightarrow> 'p::linorder PureGoEngine \<Rightarrow> 'p OrderBookSnapshot" where
  "GetOrderBook now slotID e =
     (case pe_orderBooks e slotID of
        None \<Rightarrow> \<lparr>os_SlotID = slotID, os_Bids = [], os_Asks = [], os_LastUpdate = now\<rparr>
      | Some book \<Rightarrow>
          \<lparr>os_SlotID = slotID, os_Bids = aggregatePriceLevels (ob_Bids book),
           os_Asks = aggregatePriceLevels (ob_Asks book), os_LastUpdate = now\<rparr>)"

subsection \<open>The two sides are priority queues\<close>

definition better :: "bool \<Rightarrow> 'p::linorder Order \<Rightarrow> 'p Order \<Rightarrow> bool" where
  "better buy x y = (if buy then o_Price x > o_Price y else o_Price x < o_Price y)"

lemma side_less:
  assumes "\<forall>x\<in>set h. o_IsBuy x = buy" and "i < length h"
  shows "OrderHeap_Less h i j = better buy (h ! i) (h ! j)"
proof -
  have "h \<noteq> []" using assms(2) by auto
  then have "o_IsBuy (h ! 0) = buy" using assms(1) by simp
  with assms(2) show ?thesis by (auto simp: OrderHeap_Less_def better_def)
qed

interpretation bidq: heap_interface OrderHeap_Less "better True" "\<lambda>x :: 'p::linorder Order. o_IsBuy x"
proof unfold_locales
  show "OrderHeap_Less h i j = better True (h ! i) (h ! j)"
    if "\<forall>x\<in>set h. o_IsBuy x" "i < length h" "j < length h" for h :: "'p Order list" and i j
    using that by (intro side_less) auto
qed (auto simp: better_def)

interpretation askq: heap_interface OrderHeap_Less "better False"
  "\<lambda>x :: 'p::linorder Order. \<not> o_IsBuy x"
proof unfold_locales
  show "OrderHeap_Less h i j = better False (h ! i) (h ! j)"
    if "\<forall>x\<in>set h. \<not> o_IsBuy x" "i < length h" "j < length h" for h :: "'p Order list" and i j
    using that by (intro side_less) auto
qed (auto simp: better_def)

definition sides_ok :: "'p::linorder Order list \<Rightarrow> 'p Order list \<Rightarrow> bool" where
  "sides_ok bids asks \<longleftrightarrow> bidq.heap_inv bids \<and> askq.heap_inv asks"

text \<open>No buyer would accept any seller's price.\<close>

definition uncrossed :: "'p::linorder Order list \<Rightarrow> 'p Order list \<Rightarrow> bool" where
  "uncrossed bids asks \<longleftrightarrow> (\<forall>b\<in>set bids. \<forall>a\<in>set asks. o_Price b < o_Price a)"

definition volume :: "'p Order list \<Rightarrow> nat" where
  "volume h = sum_mset (image_mset (\<lambda>x. unat (o_Quantity x)) (mset h))"

definition matched :: "'p MatchedOrder list \<Rightarrow> nat" where
  "matched ms = sum_list (map (\<lambda>m. unat (mo_Quantity m)) ms)"

lemma volume_push [simp]: "volume (heap_push lessf x h) = unat (o_Quantity x) + volume h"
  by (simp add: volume_def)

lemma volume_pop:
  "h \<noteq> [] \<Longrightarrow> volume h = unat (o_Quantity (fst (heap_pop lessf h))) + volume (snd (heap_pop lessf h))"
  using heap_pop_parts(2) [of h lessf] by (simp add: volume_def)

lemma volume_re_add:
  assumes "q \<le> o_Quantity x"
  shows "volume (re_add x q h) + unat q = unat (o_Quantity x) + volume h"
proof -
  have "unat (o_Quantity x - q) + unat q = unat (o_Quantity x)"
    using assms by (simp add: unat_sub word_le_nat_alt)
  then show ?thesis by (auto simp: re_add_def Let_def word_neq_0_conv [symmetric])
qed

lemma match_quantity_le:
  "match_quantity b a \<le> o_Quantity b" "match_quantity b a \<le> o_Quantity a"
  by (auto simp: match_quantity_def)

lemma matchOrders_empty: "bids = [] \<or> asks = [] \<Longrightarrow> matchOrders bids asks = ([], bids, asks)"
  by (subst matchOrders.simps) auto

lemma matchOrders_stop:
  assumes "bids \<noteq> []" and "asks \<noteq> []"
    and "\<not> o_Price (fst (heap_pop OrderHeap_Less asks)) \<le> o_Price (fst (heap_pop OrderHeap_Less bids))"
  shows "matchOrders bids asks =
    ([], heap_push OrderHeap_Less (fst (heap_pop OrderHeap_Less bids)) (snd (heap_pop OrderHeap_Less bids)),
     heap_push OrderHeap_Less (fst (heap_pop OrderHeap_Less asks)) (snd (heap_pop OrderHeap_Less asks)))"
  using assms by (subst matchOrders.simps) (simp add: case_prod_beta)

lemma matchOrders_cross:
  fixes bids asks :: "'p::linorder Order list"
  defines "b \<equiv> fst (heap_pop OrderHeap_Less bids)" and "a \<equiv> fst (heap_pop OrderHeap_Less asks)"
  assumes "bids \<noteq> []" and "asks \<noteq> []" and "o_Price a \<le> o_Price b"
    and "matchOrders (re_add b (match_quantity b a) (snd (heap_pop OrderHeap_Less bids)))
        (re_add a (match_quantity b a) (snd (heap_pop OrderHeap_Less asks))) = (ms, bs, as)"
  shows "matchOrders bids asks = (new_match b a # ms, bs, as)"
  using assms by (subst matchOrders.simps) (simp add: case_prod_beta Let_def)

text \<open>An induction over the rounds of the matching.\<close>

lemma matchOrders_cases [consumes 1, case_names stop cross]:
  assumes "sides_ok bids asks"
  obtains (stop) "bids = [] \<or> asks = []" "matchOrders bids asks = ([], bids, asks)"
  | (uncrossed) b bs a as where "mset bids = add_mset b (mset bs)" "mset asks = add_mset a (mset as)"
      "\<forall>x\<in>set bids. o_Price x \<le> o_Price b" "\<forall>x\<in>set asks. o_Price a \<le> o_Price x"
      "o_Price b < o_Price a" "bidq.heap_inv bs" "askq.heap_inv as" "o_IsBuy b" "\<not> o_IsBuy a"
      "matchOrders bids asks = ([], heap_push OrderHeap_Less b bs, heap_push OrderHeap_Less a as)"
  | (cross) b bs a as where "mset bids = add_mset b (mset bs)" "mset asks = add_mset a (mset as)"
      "\<forall>x\<in>set bids. o_Price x \<le> o_Price b" "\<forall>x\<in>set asks. o_Price a \<le> o_Price x"
      "o_Price a \<le> o_Price b" "bidq.heap_inv bs" "askq.heap_inv as" "o_IsBuy b" "\<not> o_IsBuy a"
      "length bs < length bids" "length as < length asks"
      "\<And>ms bs' as'. matchOrders (re_add b (match_quantity b a) bs) (re_add a (match_quantity b a) as)
         = (ms, bs', as') \<Longrightarrow> matchOrders bids asks = (new_match b a # ms, bs', as')"
proof (cases "bids = [] \<or> asks = []")
  case True
  then show thesis by (intro stop) (simp_all add: matchOrders_empty)
next
  case False
  then have ne: "bids \<noteq> []" "asks \<noteq> []" by auto
  let ?b = "fst (heap_pop OrderHeap_Less bids)" and ?bs = "snd (heap_pop OrderHeap_Less bids)"
  let ?a = "fst (heap_pop OrderHeap_Less asks)" and ?as = "snd (heap_pop OrderHeap_Less asks)"
  have inv: "bidq.heap_inv bids" "askq.heap_inv asks" using assms by (simp_all add: sides_ok_def)
  note m = heap_pop_parts(2) [OF ne(1), of OrderHeap_Less] heap_pop_parts(2) [OF ne(2), of OrderHeap_Less]
  have best: "\<forall>x\<in>set bids. o_Price x \<le> o_Price ?b" "\<forall>x\<in>set asks. o_Price ?a \<le> o_Price x"
    using bidq.heap_pop_best [OF inv(1) ne(1)] askq.heap_pop_best [OF inv(2) ne(2)]
    by (auto simp: better_def not_less)
  have inv': "bidq.heap_inv ?bs" "askq.heap_inv ?as"
    using bidq.heap_pop_inv [OF inv(1) ne(1)] askq.heap_pop_inv [OF inv(2) ne(2)] by simp_all
  have kind: "o_IsBuy ?b" "\<not> o_IsBuy ?a"
    using bidq.queue.inv_ok [OF inv(1) bidq.queue.pop_in [OF ne(1)]]
      askq.queue.inv_ok [OF inv(2) askq.queue.pop_in [OF ne(2)]] by simp_all
  show thesis
  proof (cases "o_Price ?a \<le> o_Price ?b")
    case True
    show thesis
      by (rule cross [OF m best True inv' kind _ _ matchOrders_cross [OF ne True]])
        (use length_heap_pop [OF ne(1), of OrderHeap_Less] length_heap_pop [OF ne(2), of OrderHeap_Less]
          in simp_all)
  next
    case False
    then show thesis
      by (intro uncrossed [OF m best _ inv' kind matchOrders_stop [OF ne False]]) simp
  qed
qed

lemma re_add_inv:
  "bidq.heap_inv h \<Longrightarrow> o_IsBuy x \<Longrightarrow> bidq.heap_inv (re_add x q h)"
  "askq.heap_inv h \<Longrightarrow> \<not> o_IsBuy x \<Longrightarrow> askq.heap_inv (re_add x q h)"
  by (simp_all add: re_add_def Let_def bidq.heap_push_inv askq.heap_push_inv)

definition terms :: "'p Order list \<Rightarrow> (string \<times> 'p) set" where
  "terms h = (\<lambda>x. (o_ID x, o_Price x)) ` set h"

lemma terms_mset: "mset h = add_mset x (mset h') \<Longrightarrow> terms h = insert (o_ID x, o_Price x) (terms h')"
proof -
  assume "mset h = add_mset x (mset h')"
  then have "set h = insert x (set h')" by (metis set_mset_add_mset_insert set_mset_mset)
  then show ?thesis by (simp add: terms_def)
qed

lemma terms_re_add: "terms (re_add x q h) \<subseteq> insert (o_ID x, o_Price x) (terms h)"
proof -
  have "terms (heap_push lessf y h) = insert (o_ID y, o_Price y) (terms h)" for lessf and y :: "'a Order"
    by (rule terms_mset) simp
  then show ?thesis by (auto simp: re_add_def Let_def)
qed

text \<open>Each match is between two orders of the book, at the seller's price, which the buyer
  accepts.\<close>

definition fair :: "'p::linorder Order list \<Rightarrow> 'p Order list \<Rightarrow> 'p MatchedOrder \<Rightarrow> bool" where
  "fair bids asks m \<longleftrightarrow> (mo_SellOrderID m, mo_Price m) \<in> terms asks \<and>
     (\<exists>p. (mo_BuyOrderID m, p) \<in> terms bids \<and> mo_Price m \<le> p)"

lemma fair_mono: "fair b a m \<Longrightarrow> terms b \<subseteq> terms b' \<Longrightarrow> terms a \<subseteq> terms a' \<Longrightarrow> fair b' a' m"
  unfolding fair_def by blast

lemma matched_split: "matched ms = matched (filter P ms) + matched (filter (\<lambda>m. \<not> P m) ms)"
  unfolding matched_def by (induction ms) auto

lemma matchOrders_spec:
  fixes bids asks :: "'p::linorder Order list"
  assumes "sides_ok bids asks" and "matchOrders bids asks = (ms, bids', asks')"
  shows "sides_ok bids' asks' \<and> uncrossed bids' asks' \<and>
    volume bids = matched ms + volume bids' \<and> volume asks = matched ms + volume asks' \<and>
    (\<forall>m\<in>set ms. fair bids asks m) \<and> sorted (map mo_Price ms)"
  using assms
proof (induction "length bids + length asks" arbitrary: bids asks ms rule: less_induct)
  case less
  show ?case
  proof (rule matchOrders_cases [OF less.prems(1)])
    assume "bids = [] \<or> asks = []" "matchOrders bids asks = ([], bids, asks)"
    with less.prems show ?thesis by (auto simp: uncrossed_def matched_def)
  next
    fix b a :: "'p Order" and bs "as" :: "'p Order list"
    assume m: "mset bids = add_mset b (mset bs)" "mset asks = add_mset a (mset as)"
      and best: "\<forall>x\<in>set bids. o_Price x \<le> o_Price b" "\<forall>x\<in>set asks. o_Price a \<le> o_Price x"
      and lt: "o_Price b < o_Price a"
      and inv: "bidq.heap_inv bs" "askq.heap_inv as" "o_IsBuy b" "\<not> o_IsBuy a"
      and res: "matchOrders bids asks =
        ([], heap_push OrderHeap_Less b bs, heap_push OrderHeap_Less a as)"
    have out: "ms = []" "bids' = heap_push OrderHeap_Less b bs" "asks' = heap_push OrderHeap_Less a as"
      using less.prems(2) res by simp_all
    have sets: "set bids' = set bids" "set asks' = set asks"
      using m by (simp_all add: out flip: set_mset_mset)
    have "uncrossed bids' asks'"
      unfolding uncrossed_def sets using best lt by (meson le_less_trans less_le_trans)
    moreover have "volume bids' = volume bids" "volume asks' = volume asks"
      using m by (simp_all add: out volume_def)
    ultimately show ?thesis
      using inv by (simp add: out sides_ok_def matched_def bidq.heap_push_inv askq.heap_push_inv)
  next
    fix b a :: "'p Order" and bs "as" :: "'p Order list"
    let ?q = "match_quantity b a"
    assume m: "mset bids = add_mset b (mset bs)" "mset asks = add_mset a (mset as)"
      and best: "\<forall>x\<in>set bids. o_Price x \<le> o_Price b" "\<forall>x\<in>set asks. o_Price a \<le> o_Price x"
      and le: "o_Price a \<le> o_Price b"
      and inv: "bidq.heap_inv bs" "askq.heap_inv as" "o_IsBuy b" "\<not> o_IsBuy a"
      and len: "length bs < length bids" "length as < length asks"
      and res: "\<And>ms bs' as'. matchOrders (re_add b ?q bs) (re_add a ?q as) = (ms, bs', as') \<Longrightarrow>
        matchOrders bids asks = (new_match b a # ms, bs', as')"
    obtain ms1 b1 a1 where rec: "matchOrders (re_add b ?q bs) (re_add a ?q as) = (ms1, b1, a1)"
      by (metis prod_cases3)
    then have out: "ms = new_match b a # ms1" "bids' = b1" "asks' = a1"
      using res [OF rec] less.prems(2) by simp_all
    have short: "length (re_add b ?q bs) + length (re_add a ?q as) < length bids + length asks"
      using len by (auto simp: re_add_length match_quantity_def)
    have "sides_ok (re_add b ?q bs) (re_add a ?q as)"
      using inv by (simp add: sides_ok_def re_add_inv)
    note IH = less.hyps [OF short this, of ms1, unfolded rec out(2,3) [symmetric], OF refl]
    have vol: "volume bids = unat (o_Quantity b) + volume bs"
      "volume asks = unat (o_Quantity a) + volume as"
      using m by (simp_all add: volume_def)
    have tb: "terms (re_add b ?q bs) \<subseteq> terms bids" "terms (re_add a ?q as) \<subseteq> terms asks"
      using terms_re_add [of b ?q bs] terms_re_add [of a ?q as] terms_mset [OF m(1)]
        terms_mset [OF m(2)] by auto
    have fair: "\<forall>x\<in>set ms1. fair bids asks x" using IH tb by (blast intro: fair_mono)
    have "o_Price a \<le> mo_Price x" if "x \<in> set ms1" for x
    proof -
      from fair that have "(mo_SellOrderID x, mo_Price x) \<in> terms asks" by (simp add: fair_def)
      with best(2) show ?thesis by (auto simp: terms_def)
    qed
    moreover have "fair bids asks (new_match b a)"
      using le terms_mset [OF m(1)] terms_mset [OF m(2)] by (auto simp: fair_def new_match_def)
    ultimately show ?thesis
      using IH fair vol volume_re_add [OF match_quantity_le(1) [of b a], of bs]
        volume_re_add [OF match_quantity_le(2) [of b a], of as]
      by (auto simp: out matched_def new_match_def)
  qed
qed

lemma sorted_median:
  "sorted (map mo_Price ms) \<Longrightarrow> ms \<noteq> [] \<Longrightarrow>
     calculateClearingPrice ms = mo_Price (ms ! (length ms div 2))"
  by (simp add: calculateClearingPrice_def sorted_sort_id)

subsection \<open>The engine's runs\<close>

datatype 'p dex_op =
    OAdd "'p Order"
  | OAuction u64 string
  | OCancel "string list" string

fun dex_step :: "'p::linordered_field \<Rightarrow> ('p \<Rightarrow> 'p) \<Rightarrow> 'p dex_op \<Rightarrow> 'p PureGoEngine \<Rightarrow> 'p PureGoEngine" where
  "dex_step ln2 mexp (OAdd x) e = AddOrder x e"
| "dex_step ln2 mexp (OAuction latency slot) e = snd (RunBatchAuction ln2 mexp latency slot e)"
| "dex_step ln2 mexp (OCancel slots i) e = snd (CancelOrder slots i e)"

definition engine_ok :: "'p::linorder PureGoEngine \<Rightarrow> bool" where
  "engine_ok e \<longleftrightarrow> (\<forall>slot book. pe_orderBooks e slot = Some book \<longrightarrow>
     ob_SlotID book = slot \<and> sides_ok (ob_Bids book) (ob_Asks book))"

lemma mset_remove_at: "i < length xs \<Longrightarrow> mset xs = add_mset (xs ! i) (mset (remove_at i xs))"
  by (subst (1) id_take_nth_drop) (simp_all add: remove_at_def)

lemma set_remove_at: "set (remove_at i xs) \<subseteq> set xs"
  by (auto simp: remove_at_def dest: in_set_takeD in_set_dropD)

lemma sides_ok_Nil: "sides_ok [] []"
  by (simp add: sides_ok_def bidq.queue.inv_empty askq.queue.inv_empty)

lemma AddOrder_ok: "engine_ok e \<Longrightarrow> engine_ok (AddOrder x e)"
  by (auto simp: engine_ok_def AddOrder_def NewOrderBook_def sides_ok_def Let_def sides_ok_Nil
      bidq.heap_push_inv askq.heap_push_inv bidq.queue.inv_empty askq.queue.inv_empty
      split: option.splits)

lemma RunBatchAuction_Some:
  assumes "pe_orderBooks e slot = Some book"
    and "matchOrders (ob_Bids book) (ob_Asks book) = (ms, bids, asks)"
  shows "pe_orderBooks (snd (RunBatchAuction ln2 mexp latency slot e)) =
      (pe_orderBooks e)(slot \<mapsto> book\<lparr>ob_Bids := bids, ob_Asks := asks\<rparr>)"
    and "ba_ClearingPrice (fst (RunBatchAuction ln2 mexp latency slot e)) =
      calculateClearingPrice ms * calculateTimeDecayFactor ln2 mexp e"
    and "ba_Winners (fst (RunBatchAuction ln2 mexp latency slot e)) =
      filter (\<lambda>m. mo_Price m \<ge> calculateClearingPrice ms * calculateTimeDecayFactor ln2 mexp e) ms"
  using assms by (simp_all add: RunBatchAuction_def Let_def)

lemma RunBatchAuction_ok: "engine_ok e \<Longrightarrow> engine_ok (snd (RunBatchAuction ln2 mexp latency slot e))"
proof (cases "pe_orderBooks e slot")
  case None
  then show "engine_ok e \<Longrightarrow> ?thesis" by (simp add: RunBatchAuction_def)
next
  case (Some book)
  assume ok: "engine_ok e"
  obtain ms bids asks where m: "matchOrders (ob_Bids book) (ob_Asks book) = (ms, bids, asks)"
    by (metis prod_cases3)
  have "sides_ok (ob_Bids book) (ob_Asks book)" "ob_SlotID book = slot"
    using ok Some by (simp_all add: engine_ok_def)
  with matchOrders_spec [OF _ m] ok RunBatchAuction_Some(1) [OF Some m]
  show ?thesis by (simp add: engine_ok_def)
qed

lemma cancel_in_book_Some:
  assumes ok: "sides_ok (ob_Bids book) (ob_Asks book)" and c: "cancel_in_book i book = Some book'"
  obtains x where "o_ID x = i" "ob_SlotID book' = ob_SlotID book"
    "sides_ok (ob_Bids book') (ob_Asks book')"
    "mset (ob_Bids book) + mset (ob_Asks book) = add_mset x (mset (ob_Bids book') + mset (ob_Asks book'))"
proof (cases "find_index (\<lambda>x. o_ID x = i) (ob_Bids book)")
  case (Some k)
  from find_index_Some [OF Some] have k: "k < length (ob_Bids book)" "o_ID (ob_Bids book ! k) = i"
    by simp_all
  have "bidq.all_ok (remove_at k (ob_Bids book))"
    using ok set_remove_at [of k "ob_Bids book"]
    by (auto simp: sides_ok_def bidq.heap_inv_def bidq.all_ok_def)
  then have "bidq.heap_inv (heap_init OrderHeap_Less (remove_at k (ob_Bids book)))"
    by (rule bidq.heap_init_inv)
  with c ok Some k mset_remove_at [OF k(1)] show thesis
    by (intro that [of "ob_Bids book ! k"])
      (auto simp: cancel_in_book_def sides_ok_def heap_init_unchanged)
next
  case None
  with c obtain k where f: "find_index (\<lambda>x. o_ID x = i) (ob_Asks book) = Some k"
    and b: "book' = book\<lparr>ob_Asks := heap_init OrderHeap_Less (remove_at k (ob_Asks book))\<rparr>"
    by (auto simp: cancel_in_book_def split: option.splits)
  from find_index_Some [OF f] have k: "k < length (ob_Asks book)" "o_ID (ob_Asks book ! k) = i"
    by simp_all
  have "askq.all_ok (remove_at k (ob_Asks book))"
    using ok set_remove_at [of k "ob_Asks book"]
    by (auto simp: sides_ok_def askq.heap_inv_def askq.all_ok_def)
  then have "askq.heap_inv (heap_init OrderHeap_Less (remove_at k (ob_Asks book)))"
    by (rule askq.heap_init_inv)
  with ok b k mset_remove_at [OF k(1)] show thesis
    by (intro that [of "ob_Asks book ! k"]) (auto simp: sides_ok_def heap_init_unchanged)
qed

lemma cancel_in_book_None:
  "cancel_in_book i book = None \<longleftrightarrow> (\<forall>x\<in>set (ob_Bids book) \<union> set (ob_Asks book). o_ID x \<noteq> i)"
proof -
  have "cancel_in_book i book = None \<longleftrightarrow> find_index (\<lambda>x. o_ID x = i) (ob_Bids book) = None \<and>
      find_index (\<lambda>x. o_ID x = i) (ob_Asks book) = None"
    by (auto simp: cancel_in_book_def split: option.splits)
  then show ?thesis by (simp add: find_index_None ball_Un)
qed

lemma CancelOrder_result:
  "(\<exists>s book book'. s \<in> set slots \<and> pe_orderBooks e s = Some book \<and>
      cancel_in_book i book = Some book' \<and>
      CancelOrder slots i e = (Inr (), e\<lparr>pe_orderBooks := (pe_orderBooks e)(s \<mapsto> book')\<rparr>)) \<or>
   (CancelOrder slots i e = (Inl (ErrOrderNotFound i), e) \<and>
      (\<forall>s\<in>set slots. \<forall>book. pe_orderBooks e s = Some book \<longrightarrow> cancel_in_book i book = None))"
proof (induction slots)
  case (Cons s slots)
  show ?case
  proof (cases "pe_orderBooks e s")
    case None
    with Cons show ?thesis by auto
  next
    case book: (Some book)
    show ?thesis
    proof (cases "cancel_in_book i book")
      case None
      with Cons book show ?thesis by auto
    next
      case (Some book')
      show ?thesis
      proof (rule disjI1, intro exI conjI)
        show "s \<in> set (s # slots)" by simp
        show "pe_orderBooks e s = Some book" by (rule book)
        show "cancel_in_book i book = Some book'" by (rule Some)
      qed (simp add: book Some fun_upd_def)
    qed
  qed
qed simp

lemma CancelOrder_cases:
  obtains (gone) s book book' where "s \<in> set slots" "pe_orderBooks e s = Some book"
      "cancel_in_book i book = Some book'"
      "CancelOrder slots i e = (Inr (), e\<lparr>pe_orderBooks := (pe_orderBooks e)(s \<mapsto> book')\<rparr>)"
  | (missing) "CancelOrder slots i e = (Inl (ErrOrderNotFound i), e)"
      "\<forall>s\<in>set slots. \<forall>book. pe_orderBooks e s = Some book \<longrightarrow> cancel_in_book i book = None"
  using CancelOrder_result [of slots e i] by blast

lemma CancelOrder_ok: "engine_ok e \<Longrightarrow> engine_ok (snd (CancelOrder slots i e))"
proof (rule CancelOrder_cases [of slots e i])
  fix s book book'
  assume ok: "engine_ok e" and b: "pe_orderBooks e s = Some book"
    and c: "cancel_in_book i book = Some book'"
    and r: "CancelOrder slots i e = (Inr (), e\<lparr>pe_orderBooks := (pe_orderBooks e)(s \<mapsto> book')\<rparr>)"
  have so: "sides_ok (ob_Bids book) (ob_Asks book)" "ob_SlotID book = s"
    using ok b by (simp_all add: engine_ok_def)
  have "ob_SlotID book' = s \<and> sides_ok (ob_Bids book') (ob_Asks book')"
    using so(2) by (auto intro: cancel_in_book_Some [OF so(1) c])
  with ok r show ?thesis by (simp add: engine_ok_def)
qed simp

lemma dex_step_ok [adx_inv]: "engine_ok e \<Longrightarrow> engine_ok (dex_step ln2 mexp op e)"
  by (cases op) (simp_all add: AddOrder_ok RunBatchAuction_ok CancelOrder_ok)

interpretation dex: object_invariant "dex_step (ln2 :: 'p::linordered_field) mexp" engine_ok for ln2 mexp
  by unfold_locales (rule dex_step_ok)

lemma engine_ok_New: "engine_ok NewPureGoEngine"
  by (simp add: engine_ok_def NewPureGoEngine_def)

subsection \<open>Properties\<close>

definition demo_order :: "string \<Rightarrow> bool \<Rightarrow> rat \<Rightarrow> u64 \<Rightarrow> rat Order" where
  "demo_order i buy p q = \<lparr>o_ID = i, o_AdSlotID = ''s'', o_Price = p, o_Quantity = q,
     o_Timestamp = 0, o_IsBuy = buy, o_AdvertiserID = i, o_PublisherID = []\<rparr>"

definition demo_dex_ops :: "rat dex_op list" where
  "demo_dex_ops = map OAdd [demo_order ''b1'' True 100 5, demo_order ''b2'' True 90 5,
     demo_order ''a1'' False 10 3, demo_order ''a2'' False 80 4, demo_order ''a3'' False 95 9]"

lemma demo_book:
  "pe_orderBooks (fold (dex_step 1 (\<lambda>_. 1)) demo_dex_ops NewPureGoEngine) ''s'' = Some
     \<lparr>ob_SlotID = ''s'', ob_Bids = [demo_order ''b1'' True 100 5, demo_order ''b2'' True 90 5],
      ob_Asks = [demo_order ''a1'' False 10 3, demo_order ''a2'' False 80 4,
        demo_order ''a3'' False 95 9]\<rparr>"
  by (simp add: demo_dex_ops_def AddOrder_def NewPureGoEngine_def NewOrderBook_def demo_order_def
      heap_push_def heap_up.simps OrderHeap_Less_def Let_def)

text \<open>C7: After a batch auction the book of the slot holds no crossing orders, and the
  auction accounts for every unit: what left each side is the volume of the winners plus the
  volume of matches below the clearing price, which leaves the book without being traded.
  Every match is between a bid and an ask of the book, at the seller's price, which the buyer
  accepts. All of this holds on every state the engine can reach.\<close>

theorem batch_auction_clears:
  assumes "e = fold (dex_step ln2 mexp) ops NewPureGoEngine"
    and "pe_orderBooks e slot = Some book"
    and "RunBatchAuction ln2 mexp latency slot e = (res, e')"
  shows "\<exists>book' matches lost. pe_orderBooks e' slot = Some book' \<and>
    uncrossed (ob_Bids book') (ob_Asks book') \<and>
    mset matches = mset (ba_Winners res) + mset lost \<and>
    volume (ob_Bids book) = matched (ba_Winners res) + matched lost + volume (ob_Bids book') \<and>
    volume (ob_Asks book) = matched (ba_Winners res) + matched lost + volume (ob_Asks book') \<and>
    (\<forall>m\<in>set matches. fair (ob_Bids book) (ob_Asks book) m) \<and>
    (matches \<noteq> [] \<longrightarrow> ba_ClearingPrice res =
       mo_Price (matches ! (length matches div 2)) * calculateTimeDecayFactor ln2 mexp e) \<and>
    (\<forall>m\<in>set lost. mo_Price m < ba_ClearingPrice res)"
proof -
  have "engine_ok e" using dex.run_inv [OF engine_ok_New] assms(1) by simp
  then have ok: "sides_ok (ob_Bids book) (ob_Asks book)" using assms(2) by (simp add: engine_ok_def)
  obtain ms bids asks where m: "matchOrders (ob_Bids book) (ob_Asks book) = (ms, bids, asks)"
    by (metis prod_cases3)
  let ?p = "calculateClearingPrice ms * calculateTimeDecayFactor ln2 mexp e"
  let ?won = "\<lambda>m. mo_Price m \<ge> ?p"
  have e: "pe_orderBooks e' slot = Some (book\<lparr>ob_Bids := bids, ob_Asks := asks\<rparr>)"
    "ba_Winners res = filter ?won ms" "ba_ClearingPrice res = ?p"
    using RunBatchAuction_Some [OF assms(2) m, of ln2 mexp latency] assms(3) by simp_all
  note spec = matchOrders_spec [OF ok m]
  have split: "mset ms = mset (filter ?won ms) + mset (filter (\<lambda>m. \<not> ?won m) ms)"
    by (simp add: multiset_partition)
  have "matched ms = matched (filter ?won ms) + matched (filter (\<lambda>m. \<not> ?won m) ms)"
    by (rule matched_split)
  moreover have "ms \<noteq> [] \<Longrightarrow> calculateClearingPrice ms = mo_Price (ms ! (length ms div 2))"
    using spec sorted_median by blast
  ultimately show ?thesis
    using spec e split
    by (intro exI [of _ "book\<lparr>ob_Bids := bids, ob_Asks := asks\<rparr>"] exI [of _ ms]
        exI [of _ "filter (\<lambda>m. \<not> ?won m) ms"]) auto
qed

lemma demo_matching:
  "matchOrders [demo_order ''b1'' True 100 5, demo_order ''b2'' True 90 5]
     [demo_order ''a1'' False 10 3, demo_order ''a2'' False 80 4, demo_order ''a3'' False 95 9]
   = ([new_match (demo_order ''b1'' True 100 5) (demo_order ''a1'' False 10 3),
       new_match (demo_order ''b1'' True 100 2) (demo_order ''a2'' False 80 4),
       new_match (demo_order ''b2'' True 90 5) (demo_order ''a2'' False 80 2)],
      [demo_order ''b2'' True 90 3], [demo_order ''a3'' False 95 9])"
  by code_simp

theorem batch_auction_clears_witness:
  "(let r = RunBatchAuction 1 (\<lambda>_. 1) 0 ''s'' (fold (dex_step 1 (\<lambda>_. 1)) demo_dex_ops NewPureGoEngine)
    in matched (ba_Winners (fst r)) = 4 \<and>
       (\<exists>book (lost :: rat MatchedOrder list). pe_orderBooks (snd r) ''s'' = Some book \<and>
          10 = 4 + matched lost + volume (ob_Bids book)))"
proof -
  let ?e = "fold (dex_step 1 (\<lambda>_. 1)) demo_dex_ops NewPureGoEngine"
  let ?b = "[demo_order ''b1'' True 100 5, demo_order ''b2'' True 90 5]"
  obtain res e' where r: "RunBatchAuction 1 (\<lambda>_. 1) 0 ''s'' ?e = (res, e')" by force
  let ?ms = "[new_match (demo_order ''b1'' True 100 5) (demo_order ''a1'' False 10 3),
       new_match (demo_order ''b1'' True 100 2) (demo_order ''a2'' False 80 4),
       new_match (demo_order ''b2'' True 90 5) (demo_order ''a2'' False 80 2)]"
  let ?e = "fold (dex_step 1 (\<lambda>_. 1)) demo_dex_ops NewPureGoEngine"
  have p: "calculateClearingPrice ?ms = 80" "calculateTimeDecayFactor 1 (\<lambda>_. 1) ?e = 1"
    by (simp_all add: calculateClearingPrice_def new_match_def demo_order_def
        calculateTimeDecayFactor_def)
  have "ba_Winners res = filter (\<lambda>m. mo_Price m \<ge>
      calculateClearingPrice ?ms * calculateTimeDecayFactor 1 (\<lambda>_. 1) ?e) ?ms"
    using RunBatchAuction_Some(3) [OF demo_book, of ?ms _ _ 1 "\<lambda>_. 1" 0] r demo_matching by simp
  then have w: "matched (ba_Winners res) = 4"
    unfolding p by (simp add: new_match_def demo_order_def match_quantity_def matched_def)
  moreover have "volume ?b = 10" by (simp add: volume_def demo_order_def)
  moreover have "\<exists>book' (lost :: rat MatchedOrder list). pe_orderBooks e' ''s'' = Some book' \<and>
      volume ?b = matched (ba_Winners res) + matched lost + volume (ob_Bids book')"
    using batch_auction_clears [OF refl demo_book r]
    by auto
  ultimately show ?thesis using r by (auto simp: Let_def)
qed

text \<open>Cancelling removes exactly one order with the given ID from the books and keeps every
  book a pair of heaps; an error means that no book searched holds such an order, and changes
  nothing.\<close>

theorem cancel_removes_one_order:
  assumes "e = fold (dex_step ln2 mexp) ops NewPureGoEngine"
    and "CancelOrder slots i e = (r, e')"
  shows "if is_ok r then \<exists>s book book' x. s \<in> set slots \<and> pe_orderBooks e s = Some book \<and>
      e' = e\<lparr>pe_orderBooks := (pe_orderBooks e)(s \<mapsto> book')\<rparr> \<and> o_ID x = i \<and>
      mset (ob_Bids book) + mset (ob_Asks book) =
        add_mset x (mset (ob_Bids book') + mset (ob_Asks book')) \<and>
      sides_ok (ob_Bids book') (ob_Asks book')
    else e' = e \<and> r = Inl (ErrOrderNotFound i) \<and>
      (\<forall>s\<in>set slots. \<forall>book. pe_orderBooks e s = Some book \<longrightarrow>
         (\<forall>x\<in>set (ob_Bids book) \<union> set (ob_Asks book). o_ID x \<noteq> i))"
proof (rule CancelOrder_cases [of slots e i])
  fix s book book'
  assume c: "s \<in> set slots" "pe_orderBooks e s = Some book" "cancel_in_book i book = Some book'"
    "CancelOrder slots i e = (Inr (), e\<lparr>pe_orderBooks := (pe_orderBooks e)(s \<mapsto> book')\<rparr>)"
  have "engine_ok e" using dex.run_inv [OF engine_ok_New] assms(1) by simp
  then have so: "sides_ok (ob_Bids book) (ob_Asks book)" using c(2) by (simp add: engine_ok_def)
  obtain x where "o_ID x = i" "sides_ok (ob_Bids book') (ob_Asks book')"
    "mset (ob_Bids book) + mset (ob_Asks book) =
       add_mset x (mset (ob_Bids book') + mset (ob_Asks book'))"
    using cancel_in_book_Some [OF so c(3)] by metis
  with c assms(2) show ?thesis by auto
next
  assume "CancelOrder slots i e = (Inl (ErrOrderNotFound i), e)"
    "\<forall>s\<in>set slots. \<forall>book. pe_orderBooks e s = Some book \<longrightarrow> cancel_in_book i book = None"
  with assms(2) show ?thesis by (auto simp: cancel_in_book_None)
qed

theorem cancel_removes_one_order_witness:
  "is_ok (fst (CancelOrder [''s''] ''b2'' (fold (dex_step 1 (\<lambda>_. 1)) demo_dex_ops NewPureGoEngine)))"
proof (rule ccontr)
  let ?e = "fold (dex_step 1 (\<lambda>_. 1)) demo_dex_ops NewPureGoEngine"
  obtain r e' where r: "CancelOrder [''s''] ''b2'' ?e = (r, e')" by force
  assume "\<not> is_ok (fst (CancelOrder [''s''] ''b2'' ?e))"
  with cancel_removes_one_order [OF refl r] r demo_book
  have "\<forall>x\<in>set [demo_order ''b1'' True 100 5, demo_order ''b2'' True 90 5]. o_ID x \<noteq> ''b2''"
    by auto
  then show False by (simp add: demo_order_def)
qed

subsection \<open>Metrics\<close>

record 'p EngineMetrics =
  em_Implementation :: string
  em_TotalOrders :: u64
  em_ActiveOrders :: u64
  em_TotalAuctions :: u64
  em_TotalVolume :: u64
  em_AvgLatencyUS :: u64
  em_P99LatencyUS :: u64
  em_OrdersPerSec :: 'p
  em_AuctionsPerSec :: 'p
  em_CPUCoresUsed :: int
  em_SIMDEnabled :: bool
  em_GPUEnabled :: bool
  em_GPUDevice :: string
  em_GPUMemoryUsed :: u64
  em_GPUUtilization :: 'p

text \<open>\<open>slots\<close> are the keys of the book map and \<open>uptime\<close> the seconds since the start of the
  process, which the rates divide by.\<close>

definition book_orders :: "'p PureGoEngine \<Rightarrow> string \<Rightarrow> u64" where
  "book_orders e s =
     (case pe_orderBooks e s of
        None \<Rightarrow> 0 | Some book \<Rightarrow> of_nat (length (ob_Bids book) + length (ob_Asks book)))"

definition Engine_GetMetrics :: "'p \<Rightarrow> string list \<Rightarrow> 'p::linordered_field PureGoEngine \<Rightarrow> 'p EngineMetrics" where
  "Engine_GetMetrics uptime slots e =
     \<lparr>em_Implementation = ''pure-go'', em_TotalOrders = pe_totalOrders e,
      em_ActiveOrders = sum_list (map (book_orders e) slots), em_TotalAuctions = pe_totalAuctions e,
      em_TotalVolume = pe_totalVolume e, em_AvgLatencyUS = 100, em_P99LatencyUS = 500,
      em_OrdersPerSec = of_int (uint (pe_totalOrders e)) / uptime,
      em_AuctionsPerSec = of_int (uint (pe_totalAuctions e)) / uptime,
      em_CPUCoresUsed = 0, em_SIMDEnabled = False, em_GPUEnabled = False, em_GPUDevice = [],
      em_GPUMemoryUsed = 0, em_GPUUtilization = 0\<rparr>"

lemma book_orders_AddOrder:
  "book_orders (AddOrder order e) s = book_orders e s + (if s = o_AdSlotID order then 1 else 0)"
  by (auto simp: book_orders_def AddOrder_def NewOrderBook_def Let_def split: option.splits)

text \<open>An added order is active, and counted once.\<close>

lemma active_orders_AddOrder:
  assumes "distinct slots" "o_AdSlotID order \<in> set slots"
  shows "em_ActiveOrders (Engine_GetMetrics uptime slots (AddOrder order e))
    = em_ActiveOrders (Engine_GetMetrics uptime slots e) + 1"
proof -
  have "sum_list (map (\<lambda>s. if s = o_AdSlotID order then 1 else (0 :: u64)) slots) = 1"
    using assms by (simp add: sum_list_distinct_conv_sum_set)
  then show ?thesis by (simp add: Engine_GetMetrics_def ext [OF book_orders_AddOrder] sum_list_addf)
qed

text \<open>The number of orders never falls, matched or cancelled: it counts the orders ever added.\<close>

lemma total_orders_AddOrder:
  "em_TotalOrders (Engine_GetMetrics uptime slots (AddOrder order e))
    = em_TotalOrders (Engine_GetMetrics uptime slots e) + 1"
  by (simp add: Engine_GetMetrics_def AddOrder_def Let_def)

end
