(* ===== verification/CppWrapper.thy ===== *)
theory CppWrapper
  imports Complex_Main Prelude
begin

text \<open>
  \<^verbatim>\<open>pkg/dex/adx_engine_wrapper.cpp\<close>: the C interface of the C++ matching engine,
  which \<^verbatim>\<open>pkg/dex/engine_cgo.go\<close> calls.

  The model keeps a ledger of the memory that crosses the border: which addresses are allocated,
  by which allocator, and whether memory has been used or released that was not. A pointer is an
  option, \<open>None\<close> the null pointer; a C string is its address with its contents, which end at the
  first NUL.

  The class \<open>ADXMatchingEngine\<close> that the wrapper calls is declared in
  \<^verbatim>\<open>adx_matching_engine.h\<close>, which the repository does not contain, and JSON text is
  read and written by the library \<open>nlohmann::json\<close>: the record \<open>adx_class\<close> and the record \<open>nlohmann\<close>
  hold what the wrapper calls of them, a thrown exception being \<open>None\<close>. Memory that the class and
  the library manage themselves is not counted. Allocation does not fail.
\<close>

subsection \<open>The ledger of C memory\<close>

text \<open>An address comes from \<open>malloc\<close>, which \<open>strdup\<close> and \<^verbatim>\<open>C.CString\<close> call, or from \<open>new\<close>,
  and has to be given back to the same allocator.\<close>

datatype c_kind = Malloc | New

record cheap =
  ch_next :: nat
  ch_live :: "(c_kind \<times> nat) set"
  ch_fault :: bool

definition c_alloc :: "c_kind \<Rightarrow> cheap \<Rightarrow> nat \<times> cheap" where
  "c_alloc k h =
     (ch_next h, h\<lparr>ch_next := ch_next h + 1, ch_live := insert (k, ch_next h) (ch_live h)\<rparr>)"

definition c_free :: "c_kind \<Rightarrow> nat \<Rightarrow> cheap \<Rightarrow> cheap" where
  "c_free k p h = h\<lparr>ch_live := ch_live h - {(k, p)}, ch_fault := ch_fault h \<or> (k, p) \<notin> ch_live h\<rparr>"

definition c_use :: "c_kind \<Rightarrow> nat \<Rightarrow> cheap \<Rightarrow> cheap" where
  "c_use k p h = h\<lparr>ch_fault := ch_fault h \<or> (k, p) \<notin> ch_live h\<rparr>"

type_synonym cstr = "(nat \<times> string) option"

definition c_contents :: "string \<Rightarrow> string" where
  "c_contents s = takeWhile (\<lambda>c. c \<noteq> CHR 0x00) s"

definition strdup :: "string \<Rightarrow> cheap \<Rightarrow> cstr \<times> cheap" where
  "strdup s h = (let (p, h') = c_alloc Malloc h in (Some (p, c_contents s), h'))"

definition cstr_use :: "cstr \<Rightarrow> cheap \<Rightarrow> cheap" where
  "cstr_use s h = (case s of None \<Rightarrow> h | Some (p, _) \<Rightarrow> c_use Malloc p h)"

definition cstr_free :: "cstr \<Rightarrow> cheap \<Rightarrow> cheap" where
  "cstr_free s h = (case s of None \<Rightarrow> h | Some (p, _) \<Rightarrow> c_free Malloc p h)"

text \<open>What a string that may be null holds: \<open>s ? s : ""\<close>.\<close>

definition cstr_or_empty :: "cstr \<Rightarrow> string" where
  "cstr_or_empty s = (case s of None \<Rightarrow> '''' | Some (_, t) \<Rightarrow> t)"

subsection \<open>Types\<close>

record 'p COrder =
  co_id :: cstr
  co_ad_slot_id :: cstr
  co_price :: 'p
  co_quantity :: u64
  co_timestamp_ms :: u64
  co_is_buy :: byte
  co_advertiser_id :: cstr
  co_targeting_json :: cstr

record 'p CBatchResult =
  cb_slot_id :: cstr
  cb_clearing_price :: 'p
  cb_total_volume :: u64
  cb_matched_orders :: u32
  cb_winners_json :: cstr

text \<open>A JSON document; an object is the list of its members.\<close>

datatype 'p nj_value =
    NjNull
  | NjBool bool
  | NjInt int
  | NjFloat 'p
  | NjString string
  | NjArray "'p nj_value list"
  | NjObject "(string \<times> 'p nj_value) list"

record 'p nlohmann =
  nl_parse :: "string \<Rightarrow> 'p nj_value option"
  nl_dump :: "'p nj_value \<Rightarrow> string option"

text \<open>The members of the engine's own types that the wrapper reads or sets.\<close>

record 'p Cpp_Order =
  od_id :: string
  od_ad_slot_id :: string
  od_price :: 'p
  od_quantity :: u64
  od_timestamp_ms :: u64
  od_is_buy :: bool
  od_advertiser_id :: string
  od_targeting :: "'p nj_value"

record 'p Cpp_Match =
  mt_order_id :: string
  mt_advertiser_id :: string
  mt_price :: 'p
  mt_quantity :: u64

record 'p Cpp_BatchResult =
  br_slot_id :: string
  br_clearing_price :: 'p
  br_total_volume :: u64
  br_matched_orders :: u32
  br_winners :: "'p Cpp_Match list"

record 'p Cpp_Level =
  lv_price :: 'p
  lv_quantity :: u64
  lv_order_count :: u64

record 'p Cpp_OrderBook =
  bk_slot_id :: string
  bk_bids :: "'p Cpp_Level list"
  bk_asks :: "'p Cpp_Level list"
  bk_last_update_ms :: u64

record 'p Cpp_Metrics =
  mx_total_orders :: u64
  mx_active_orders :: u64
  mx_total_auctions :: u64
  mx_total_volume :: u64
  mx_avg_latency_us :: u64
  mx_p99_latency_us :: u64
  mx_gpu_utilization :: 'p
  mx_orders_per_second :: 'p
  mx_auctions_per_second :: 'p

text \<open>The constructor and the methods of \<open>ADXMatchingEngine\<close>, on a state \<open>'w\<close>.\<close>

record ('p, 'w) adx_class =
  ac_new :: "'w \<Rightarrow> unit option \<times> 'w"
  ac_delete :: "'w \<Rightarrow> 'w"
  ac_addOrder :: "'p Cpp_Order \<Rightarrow> 'w \<Rightarrow> bool option \<times> 'w"
  ac_runBatchAuction :: "string \<Rightarrow> u32 \<Rightarrow> 'w \<Rightarrow> 'p Cpp_BatchResult option \<times> 'w"
  ac_calculateTimeDecay :: "string \<Rightarrow> u64 \<Rightarrow> 'w \<Rightarrow> 'p option \<times> 'w"
  ac_cancelOrder :: "string \<Rightarrow> 'w \<Rightarrow> bool option \<times> 'w"
  ac_getOrderBook :: "string \<Rightarrow> 'w \<Rightarrow> 'p Cpp_OrderBook option \<times> 'w"
  ac_getMetrics :: "'w \<Rightarrow> 'p Cpp_Metrics option \<times> 'w"
subsection \<open>The engine object\<close>

definition create_adx_engine :: "('p, 'w) adx_class \<Rightarrow> cheap \<Rightarrow> 'w \<Rightarrow> nat option \<times> cheap \<times> 'w" where
  "create_adx_engine ac h w =
     (case ac_new ac w of
        (None, w') \<Rightarrow> (None, h, w')
      | (Some _, w') \<Rightarrow> let (p, h') = c_alloc New h in (Some p, h', w'))"

definition destroy_adx_engine ::
  "('p, 'w) adx_class \<Rightarrow> nat option \<Rightarrow> cheap \<Rightarrow> 'w \<Rightarrow> cheap \<times> 'w" where
  "destroy_adx_engine ac engine h w =
     (case engine of None \<Rightarrow> (h, w) | Some p \<Rightarrow> (c_free New p h, ac_delete ac w))"

subsection \<open>Orders\<close>

text \<open>The order argument is a pointer to the caller's memory.\<close>

definition add_order ::
  "('p, 'w) adx_class \<Rightarrow> 'p nlohmann \<Rightarrow> nat option \<Rightarrow> 'p COrder option \<Rightarrow> cheap \<Rightarrow> 'w \<Rightarrow>
   int \<times> cheap \<times> 'w" where
  "add_order ac nl engine c_order h w =
     (case (engine, c_order) of
        (Some p, Some c) \<Rightarrow>
          let h1 = cstr_use (co_targeting_json c) h;
              targeting = (case co_targeting_json c of
                  None \<Rightarrow> Some NjNull
                | Some (_, s) \<Rightarrow> nl_parse nl s)
          in (case targeting of
                None \<Rightarrow> (-3, h1, w)
              | Some t \<Rightarrow>
                  let h2 = cstr_use (co_advertiser_id c) (cstr_use (co_ad_slot_id c) (cstr_use (co_id c) h1));
                      order = \<lparr>od_id = cstr_or_empty (co_id c),
                               od_ad_slot_id = cstr_or_empty (co_ad_slot_id c),
                               od_price = co_price c, od_quantity = co_quantity c,
                               od_timestamp_ms = co_timestamp_ms c, od_is_buy = (co_is_buy c \<noteq> 0),
                               od_advertiser_id = cstr_or_empty (co_advertiser_id c), od_targeting = t\<rparr>;
                      (added, w') = ac_addOrder ac order w
                  in (case added of None \<Rightarrow> -3 | Some b \<Rightarrow> if b then 0 else -2, c_use New p h2, w'))
      | _ \<Rightarrow> (-1, h, w))"

definition cancel_order ::
  "('p, 'w) adx_class \<Rightarrow> nat option \<Rightarrow> cstr \<Rightarrow> cheap \<Rightarrow> 'w \<Rightarrow> int \<times> cheap \<times> 'w" where
  "cancel_order ac engine order_id h w =
     (case (engine, order_id) of
        (Some p, Some (q, s)) \<Rightarrow>
          let (cancelled, w') = ac_cancelOrder ac s w
          in (case cancelled of None \<Rightarrow> -3 | Some b \<Rightarrow> if b then 0 else -2,
              c_use New p (c_use Malloc q h), w')
      | _ \<Rightarrow> (-1, h, w))"

subsection \<open>Auctions\<close>

definition winner_json :: "'p Cpp_Match \<Rightarrow> 'p nj_value" where
  "winner_json m = NjObject
     [(''order_id'', NjString (mt_order_id m)), (''advertiser_id'', NjString (mt_advertiser_id m)),
      (''price'', NjFloat (mt_price m)), (''quantity'', NjInt (uint (mt_quantity m)))]"

text \<open>The result object and its first string are allocated before the winners are written; when
  writing them throws, both stay allocated and the caller gets no pointer to them.\<close>

definition run_batch_auction ::
  "('p, 'w) adx_class \<Rightarrow> 'p nlohmann \<Rightarrow> nat option \<Rightarrow> cstr \<Rightarrow> u32 \<Rightarrow> cheap \<Rightarrow> 'w \<Rightarrow>
   (nat \<times> 'p CBatchResult) option \<times> cheap \<times> 'w" where
  "run_batch_auction ac nl engine slot_id batch_ms h w =
     (case (engine, slot_id) of
        (Some p, Some (q, s)) \<Rightarrow>
          let h1 = c_use New p (c_use Malloc q h)
          in (case ac_runBatchAuction ac s batch_ms w of
                (None, w') \<Rightarrow> (None, h1, w')
              | (Some result, w') \<Rightarrow>
                  let (r, h2) = c_alloc New h1;
                      (slot, h3) = strdup (br_slot_id result) h2
                  in (case nl_dump nl (NjArray (map winner_json (br_winners result))) of
                        None \<Rightarrow> (None, h3, w')
                      | Some winners_str \<Rightarrow>
                          let (winners, h4) = strdup winners_str h3
                          in (Some (r, \<lparr>cb_slot_id = slot, cb_clearing_price = br_clearing_price result,
                                        cb_total_volume = br_total_volume result,
                                        cb_matched_orders = br_matched_orders result,
                                        cb_winners_json = winners\<rparr>), h4, w')))
      | _ \<Rightarrow> (None, h, w))"

definition free_batch_result :: "(nat \<times> 'p CBatchResult) option \<Rightarrow> cheap \<Rightarrow> cheap" where
  "free_batch_result result h =
     (case result of
        None \<Rightarrow> h
      | Some (r, c) \<Rightarrow> c_free New r (cstr_free (cb_winners_json c) (cstr_free (cb_slot_id c) (c_use New r h))))"

definition calculate_time_decay ::
  "('p::zero, 'w) adx_class \<Rightarrow> nat option \<Rightarrow> cstr \<Rightarrow> u64 \<Rightarrow> cheap \<Rightarrow> 'w \<Rightarrow> 'p \<times> cheap \<times> 'w" where
  "calculate_time_decay ac engine slot_id timestamp_ms h w =
     (case (engine, slot_id) of
        (Some p, Some (q, s)) \<Rightarrow>
          let (decay, w') = ac_calculateTimeDecay ac s timestamp_ms w
          in (case decay of None \<Rightarrow> 0 | Some d \<Rightarrow> d, c_use New p (c_use Malloc q h), w')
      | _ \<Rightarrow> (0, h, w))"

subsection \<open>Reports\<close>

definition level_json :: "'p Cpp_Level \<Rightarrow> 'p nj_value" where
  "level_json l = NjObject
     [(''price'', NjFloat (lv_price l)), (''quantity'', NjInt (uint (lv_quantity l))),
      (''orders'', NjInt (uint (lv_order_count l)))]"

definition order_book_json :: "'p Cpp_OrderBook \<Rightarrow> 'p nj_value" where
  "order_book_json b = NjObject
     [(''slot_id'', NjString (bk_slot_id b)), (''bids'', NjArray (map level_json (bk_bids b))),
      (''asks'', NjArray (map level_json (bk_asks b))),
      (''last_update'', NjInt (uint (bk_last_update_ms b)))]"

definition metrics_json :: "'p Cpp_Metrics \<Rightarrow> 'p nj_value" where
  "metrics_json m = NjObject
     [(''total_orders'', NjInt (uint (mx_total_orders m))),
      (''active_orders'', NjInt (uint (mx_active_orders m))),
      (''total_auctions'', NjInt (uint (mx_total_auctions m))),
      (''total_volume'', NjInt (uint (mx_total_volume m))),
      (''avg_latency_us'', NjInt (uint (mx_avg_latency_us m))),
      (''p99_latency_us'', NjInt (uint (mx_p99_latency_us m))),
      (''gpu_utilization'', NjFloat (mx_gpu_utilization m)),
      (''orders_per_second'', NjFloat (mx_orders_per_second m)),
      (''auctions_per_second'', NjFloat (mx_auctions_per_second m))]"

text \<open>The end that the two reports share: the document is written, then copied for the caller.\<close>

definition dump_and_copy :: "'p nlohmann \<Rightarrow> 'p nj_value \<Rightarrow> cheap \<Rightarrow> cstr \<times> cheap" where
  "dump_and_copy nl j h = (case nl_dump nl j of None \<Rightarrow> (None, h) | Some s \<Rightarrow> strdup s h)"

definition get_order_book_json ::
  "('p, 'w) adx_class \<Rightarrow> 'p nlohmann \<Rightarrow> nat option \<Rightarrow> cstr \<Rightarrow> cheap \<Rightarrow> 'w \<Rightarrow> cstr \<times> cheap \<times> 'w" where
  "get_order_book_json ac nl engine slot_id h w =
     (case (engine, slot_id) of
        (Some p, Some (q, s)) \<Rightarrow>
          let h1 = c_use New p (c_use Malloc q h)
          in (case ac_getOrderBook ac s w of
                (None, w') \<Rightarrow> (None, h1, w')
              | (Some b, w') \<Rightarrow>
                  let (json, h2) = dump_and_copy nl (order_book_json b) h1 in (json, h2, w'))
      | _ \<Rightarrow> (None, h, w))"

definition get_metrics_json ::
  "('p, 'w) adx_class \<Rightarrow> 'p nlohmann \<Rightarrow> nat option \<Rightarrow> cheap \<Rightarrow> 'w \<Rightarrow> cstr \<times> cheap \<times> 'w" where
  "get_metrics_json ac nl engine h w =
     (case engine of
        Some p \<Rightarrow>
          let h1 = c_use New p h
          in (case ac_getMetrics ac w of
                (None, w') \<Rightarrow> (None, h1, w')
              | (Some m, w') \<Rightarrow>
                  let (json, h2) = dump_and_copy nl (metrics_json m) h1 in (json, h2, w'))
      | None \<Rightarrow> (None, h, w))"
subsection \<open>What a call does to the ledger\<close>

definition cheap_ok :: "cheap \<Rightarrow> bool" where
  "cheap_ok h \<longleftrightarrow> (\<forall>(k, p)\<in>ch_live h. p < ch_next h)"

lemma fresh_addresses: "cheap_ok h \<Longrightarrow> ch_next h \<le> p \<Longrightarrow> (k, p) \<notin> ch_live h"
  by (auto simp: cheap_ok_def)

lemma c_use_live [simp]: "(k, p) \<in> ch_live h \<Longrightarrow> c_use k p h = h"
  by (simp add: c_use_def)

text \<open>A string that is allocated, or null.\<close>

definition cstr_live :: "cstr \<Rightarrow> cheap \<Rightarrow> bool" where
  "cstr_live s h \<longleftrightarrow> (case s of None \<Rightarrow> True | Some (p, _) \<Rightarrow> (Malloc, p) \<in> ch_live h)"

lemma cstr_live_simps [simp]:
  "cstr_live None h"
  "cstr_live (Some (p, t)) h \<longleftrightarrow> (Malloc, p) \<in> ch_live h"
  by (simp_all add: cstr_live_def)

lemma cstr_use_live [simp]: "cstr_live s h \<Longrightarrow> cstr_use s h = h"
  by (auto simp: cstr_live_def cstr_use_def split: option.splits)

lemma strdup_simp:
  "strdup s h = (Some (ch_next h, c_contents s),
     h\<lparr>ch_next := Suc (ch_next h), ch_live := insert (Malloc, ch_next h) (ch_live h)\<rparr>)"
  by (simp add: strdup_def c_alloc_def)

text \<open>Calls with live arguments leave the ledger alone, or return memory that was allocated for
  the answer.\<close>

lemma add_order_ledger:
  assumes "(New, p) \<in> ch_live h"
    and "cstr_live (co_id c) h" "cstr_live (co_ad_slot_id c) h"
    and "cstr_live (co_advertiser_id c) h" "cstr_live (co_targeting_json c) h"
  shows "fst (snd (add_order ac nl (Some p) (Some c) h w)) = h"
  using assms by (simp add: add_order_def Let_def split: option.split prod.split)

lemma cancel_order_ledger:
  "(New, p) \<in> ch_live h \<Longrightarrow> cstr_live s h \<Longrightarrow> fst (snd (cancel_order ac (Some p) s h w)) = h"
  by (cases s) (auto simp: cancel_order_def split: prod.split)

lemma calculate_time_decay_ledger:
  "(New, p) \<in> ch_live h \<Longrightarrow> cstr_live s h \<Longrightarrow> fst (snd (calculate_time_decay ac (Some p) s t h w)) = h"
  by (cases s) (auto simp: calculate_time_decay_def split: prod.split)

lemma dump_and_copy_cases:
  obtains "dump_and_copy nl j h = (None, h)" | t where "dump_and_copy nl j h = strdup t h"
  by (cases "nl_dump nl j") (simp_all add: dump_and_copy_def)

lemma get_order_book_json_cases:
  assumes "(New, p) \<in> ch_live h" "(Malloc, q) \<in> ch_live h"
  obtains w' where "get_order_book_json ac nl (Some p) (Some (q, s)) h w = (None, h, w')"
  | t w' where "get_order_book_json ac nl (Some p) (Some (q, s)) h w = (fst (strdup t h), snd (strdup t h), w')"
proof -
  obtain b w' where b: "ac_getOrderBook ac s w = (b, w')" by fastforce
  show thesis
  proof (cases b)
    case None
    then show thesis using that(1) b assms by (simp add: get_order_book_json_def)
  next
    case (Some k)
    then show thesis
      using that b assms
      by (cases rule: dump_and_copy_cases [of nl "order_book_json k" h])
        (simp_all add: get_order_book_json_def split_beta)
  qed
qed

lemma get_metrics_json_cases:
  assumes "(New, p) \<in> ch_live h"
  obtains w' where "get_metrics_json ac nl (Some p) h w = (None, h, w')"
  | t w' where "get_metrics_json ac nl (Some p) h w = (fst (strdup t h), snd (strdup t h), w')"
proof -
  obtain b w' where b: "ac_getMetrics ac w = (b, w')" by fastforce
  show thesis
  proof (cases b)
    case None
    then show thesis using that(1) b assms by (simp add: get_metrics_json_def)
  next
    case (Some m)
    then show thesis
      using that b assms
      by (cases rule: dump_and_copy_cases [of nl "metrics_json m" h])
        (simp_all add: get_metrics_json_def split_beta)
  qed
qed

text \<open>An auction whose winners cannot be written: what it allocated is not returned.\<close>

definition winners_lost :: "('p, 'w) adx_class \<Rightarrow> 'p nlohmann \<Rightarrow> string \<Rightarrow> u32 \<Rightarrow> 'w \<Rightarrow> bool" where
  "winners_lost ac nl s ms w =
     (case fst (ac_runBatchAuction ac s ms w) of
        None \<Rightarrow> False
      | Some result \<Rightarrow> nl_dump nl (NjArray (map winner_json (br_winners result))) = None)"

lemma run_batch_auction_cases:
  assumes "(New, p) \<in> ch_live h" "(Malloc, q) \<in> ch_live h"
  obtains (failed) w' where "\<not> winners_lost ac nl s ms w"
      "run_batch_auction ac nl (Some p) (Some (q, s)) ms h w = (None, h, w')"
  | (lost) w' where "winners_lost ac nl s ms w"
      "run_batch_auction ac nl (Some p) (Some (q, s)) ms h w = (None, h\<lparr>ch_next := ch_next h + 2,
         ch_live := {(New, ch_next h), (Malloc, ch_next h + 1)} \<union> ch_live h\<rparr>, w')"
  | (answer) c t u w' where "\<not> winners_lost ac nl s ms w"
      "cb_slot_id c = Some (ch_next h + 1, t)" "cb_winners_json c = Some (ch_next h + 2, u)"
      "run_batch_auction ac nl (Some p) (Some (q, s)) ms h w = (Some (ch_next h, c), h\<lparr>ch_next := ch_next h + 3,
         ch_live := {(New, ch_next h), (Malloc, ch_next h + 1), (Malloc, ch_next h + 2)} \<union> ch_live h\<rparr>, w')"
proof -
  obtain b w' where b: "ac_runBatchAuction ac s ms w = (b, w')" by fastforce
  show thesis
  proof (cases b)
    case None
    then show thesis using failed b assms by (simp add: run_batch_auction_def winners_lost_def)
  next
    case (Some result)
    show thesis
    proof (cases "nl_dump nl (NjArray (map winner_json (br_winners result)))")
      case None
      then show thesis
        using lost b Some assms
        by (simp add: run_batch_auction_def winners_lost_def strdup_simp c_alloc_def numeral_2_eq_2 insert_commute)
    next
      case dump: (Some u)
      define r where "r = \<lparr>cb_slot_id = Some (ch_next h + 1, c_contents (br_slot_id result)),
        cb_clearing_price = br_clearing_price result, cb_total_volume = br_total_volume result,
        cb_matched_orders = br_matched_orders result, cb_winners_json = Some (ch_next h + 2, c_contents u)\<rparr>"
      have "run_batch_auction ac nl (Some p) (Some (q, s)) ms h w = (Some (ch_next h, r), h\<lparr>ch_next := ch_next h + 3,
         ch_live := {(New, ch_next h), (Malloc, ch_next h + 1), (Malloc, ch_next h + 2)} \<union> ch_live h\<rparr>, w')"
        using dump b Some assms
        by (simp add: run_batch_auction_def strdup_simp c_alloc_def r_def numeral_2_eq_2 numeral_3_eq_3 insert_commute)
      then show thesis
        using answer [of r] dump b Some by (simp add: winners_lost_def r_def)
    qed
  qed
qed

end
