(* ===== verification/CgoEngine.thy ===== *)
theory CgoEngine
  imports Complex_Main CppWrapper
begin

text \<open>
  \<^verbatim>\<open>pkg/dex/engine_cgo.go\<close>: the Go side of the C++ matching engine.

  The functions of \<^verbatim>\<open>adx_engine_wrapper.cpp\<close> that it calls, and the ledger of the
  memory shared with C, are those of the theory \<open>CppWrapper\<close>; the engine class behind them and the
  JSON coding are parameters. A float is a value of \<open>'p\<close>. An operation is the whole method, under
  its lock; \<open>Close\<close> takes no lock, so the theorems are about calls that do not overlap a \<open>Close\<close>,
  and the lemma \<open>close_during_add_faults\<close> is about one that does. The finalizer never overlaps a
  call: a call keeps the engine reachable.
\<close>

subsection \<open>Types\<close>

record ('p, 't) Cgo_Order =
  go_ID :: string
  go_AdSlotID :: string
  go_Price :: 'p
  go_Quantity :: u64
  go_Timestamp :: time
  go_IsBuy :: bool
  go_AdvertiserID :: string
  go_Targeting :: 't

record 'p Cgo_MatchedOrder =
  gm_OrderID :: string
  gm_AdvertiserID :: string
  gm_Price :: 'p
  gm_Quantity :: u64

record 'p Cgo_BatchResult =
  gb_SlotID :: string
  gb_ClearingPrice :: 'p
  gb_TotalVolume :: u64
  gb_MatchedOrders :: u32
  gb_Winners :: "'p Cgo_MatchedOrder list"

record 'p OrderLevel =
  ol_Price :: 'p
  ol_Quantity :: u64
  ol_Orders :: int

record 'p Cgo_OrderBook =
  gk_SlotID :: string
  gk_Bids :: "'p OrderLevel list"
  gk_Asks :: "'p OrderLevel list"
  gk_LastUpdate :: time

record 'p Cgo_EngineMetrics =
  ge_TotalOrders :: u64
  ge_ActiveOrders :: u64
  ge_TotalAuctions :: u64
  ge_TotalVolume :: u64
  ge_AvgLatencyUS :: u64
  ge_P99LatencyUS :: u64
  ge_GPUUtilization :: 'p
  ge_OrdersPerSecond :: 'p
  ge_AuctionsPerSecond :: 'p

record CGOEngine =
  ce_engine :: "nat option"
  ce_finalizer :: bool

datatype 'e cgo_error =
    ErrCreateEngine
  | ErrEngineClosed
  | ErrMarshalTargeting 'e
  | ErrAddOrder int
  | ErrBatchFailed
  | ErrParse 'e
  | ErrCancelOrder int
  | ErrNoAnswer

text \<open>The C++ engine class and the JSON library behind the wrapper.\<close>

record ('p, 'w) cpp_side =
  cpp_class :: "('p, 'w) adx_class"
  cpp_json :: "'p nlohmann"

text \<open>What an operation works on: the Go object, the ledger and the state of the C++ engine.\<close>

record 'w cgo =
  cg_engine :: CGOEngine
  cg_heap :: cheap
  cg_world :: 'w

subsection \<open>The life of an engine\<close>

definition NewCGOEngine :: "('p, 'w) cpp_side \<Rightarrow> cheap \<Rightarrow> 'w \<Rightarrow> ('e cgo_error + CGOEngine) \<times> cheap \<times> 'w" where
  "NewCGOEngine cpp h w =
     (case create_adx_engine (cpp_class cpp) h w of
        (None, h', w') \<Rightarrow> (Inl ErrCreateEngine, h', w')
      | (Some p, h', w') \<Rightarrow> (Inr \<lparr>ce_engine = Some p, ce_finalizer = True\<rparr>, h', w'))"

definition cgo_destroy :: "('p, 'w) cpp_side \<Rightarrow> 'w cgo \<Rightarrow> 'w cgo" where
  "cgo_destroy cpp s =
     (case ce_engine (cg_engine s) of
        None \<Rightarrow> s
      | Some p \<Rightarrow>
          let (h', w') = destroy_adx_engine (cpp_class cpp) (Some p) (cg_heap s) (cg_world s)
          in s\<lparr>cg_heap := h', cg_world := w', cg_engine := (cg_engine s)\<lparr>ce_engine := None\<rparr>\<rparr>)"

definition cgo_Close :: "('p, 'w) cpp_side \<Rightarrow> 'w cgo \<Rightarrow> 'w cgo" where
  "cgo_Close cpp s =
     (let s1 = cgo_destroy cpp s in s1\<lparr>cg_engine := (cg_engine s1)\<lparr>ce_finalizer := False\<rparr>\<rparr>)"

text \<open>The garbage collector runs the finalizer when it is set, and at most once.\<close>

definition cgo_collect :: "('p, 'w) cpp_side \<Rightarrow> 'w cgo \<Rightarrow> 'w cgo" where
  "cgo_collect cpp s =
     (if ce_finalizer (cg_engine s)
      then cgo_destroy cpp (s\<lparr>cg_engine := (cg_engine s)\<lparr>ce_finalizer := False\<rparr>\<rparr>)
      else s)"

subsection \<open>Operations\<close>

definition boolToUint8 :: "bool \<Rightarrow> byte" where
  "boolToUint8 b = (if b then 1 else 0)"

definition unix_milli :: "time \<Rightarrow> u64" where
  "unix_milli t = of_int (t div 1000000)"

text \<open>The part of \<open>AddOrder\<close> after its guard, on the engine address \<open>p\<close>. \<^verbatim>\<open>C.CString\<close>
  copies a string as \<open>strdup\<close> does.\<close>

definition cgo_add :: "('p, 'w) cpp_side \<Rightarrow> ('t \<Rightarrow> 'e + string) \<Rightarrow> ('p, 't) Cgo_Order \<Rightarrow> nat \<Rightarrow> 'w cgo \<Rightarrow>
   ('e cgo_error + unit) \<times> 'w cgo" where
  "cgo_add cpp marshal order p s =
     (case marshal (go_Targeting order) of
        Inl err \<Rightarrow> (Inl (ErrMarshalTargeting err), s)
      | Inr targetingJSON \<Rightarrow>
          let (c_id, h1) = strdup (go_ID order) (cg_heap s);
              (c_slot, h2) = strdup (go_AdSlotID order) h1;
              (c_adv, h3) = strdup (go_AdvertiserID order) h2;
              (c_targeting, h4) = strdup targetingJSON h3;
              cOrder = \<lparr>co_id = c_id, co_ad_slot_id = c_slot, co_price = go_Price order,
                        co_quantity = go_Quantity order, co_timestamp_ms = unix_milli (go_Timestamp order),
                        co_is_buy = boolToUint8 (go_IsBuy order), co_advertiser_id = c_adv,
                        co_targeting_json = c_targeting\<rparr>;
              (result, h5, w') = add_order (cpp_class cpp) (cpp_json cpp) (Some p) (Some cOrder) h4 (cg_world s);
              h6 = cstr_free c_targeting (cstr_free c_adv (cstr_free c_slot (cstr_free c_id h5)))
          in (if result \<noteq> 0 then Inl (ErrAddOrder result) else Inr (), s\<lparr>cg_heap := h6, cg_world := w'\<rparr>))"

definition cgo_AddOrder :: "('p, 'w) cpp_side \<Rightarrow> ('t \<Rightarrow> 'e + string) \<Rightarrow> ('p, 't) Cgo_Order \<Rightarrow> 'w cgo \<Rightarrow>
   ('e cgo_error + unit) \<times> 'w cgo" where
  "cgo_AddOrder cpp marshal order s =
     (case ce_engine (cg_engine s) of
        None \<Rightarrow> (Inl ErrEngineClosed, s)
      | Some p \<Rightarrow> cgo_add cpp marshal order p s)"

definition cgo_RunBatchAuction ::
  "('p, 'w) cpp_side \<Rightarrow> (string \<Rightarrow> 'e + 'p Cgo_MatchedOrder list) \<Rightarrow> string \<Rightarrow> u32 \<Rightarrow> 'w cgo \<Rightarrow>
   ('e cgo_error + 'p Cgo_BatchResult) \<times> 'w cgo" where
  "cgo_RunBatchAuction cpp parse slotID batchSizeMS s =
     (case ce_engine (cg_engine s) of
        None \<Rightarrow> (Inl ErrEngineClosed, s)
      | Some p \<Rightarrow>
          let (c_slot, h1) = strdup slotID (cg_heap s);
              (cResult, h2, w') =
                run_batch_auction (cpp_class cpp) (cpp_json cpp) (Some p) c_slot batchSizeMS h1 (cg_world s)
          in (case cResult of
                None \<Rightarrow> (Inl ErrBatchFailed, s\<lparr>cg_heap := cstr_free c_slot h2, cg_world := w'\<rparr>)
              | Some (q, r) \<Rightarrow>
                  let h3 = cstr_use (cb_winners_json r) (c_use New q h2);
                      winners = (case cb_winners_json r of None \<Rightarrow> Inr [] | Some (_, j) \<Rightarrow> parse j)
                  in (case winners of
                        Inl err \<Rightarrow>
                          (Inl (ErrParse err),
                           s\<lparr>cg_heap := cstr_free c_slot (free_batch_result cResult h3), cg_world := w'\<rparr>)
                      | Inr ws \<Rightarrow>
                          (Inr \<lparr>gb_SlotID = cstr_or_empty (cb_slot_id r), gb_ClearingPrice = cb_clearing_price r,
                                gb_TotalVolume = cb_total_volume r, gb_MatchedOrders = cb_matched_orders r,
                                gb_Winners = ws\<rparr>,
                           s\<lparr>cg_heap := cstr_free c_slot (free_batch_result cResult (cstr_use (cb_slot_id r) h3)),
                             cg_world := w'\<rparr>))))"

definition cgo_CalculateTimeDecay ::
  "('p::zero, 'w) cpp_side \<Rightarrow> string \<Rightarrow> time \<Rightarrow> 'w cgo \<Rightarrow> ('e cgo_error + 'p) \<times> 'w cgo" where
  "cgo_CalculateTimeDecay cpp slotID timestamp s =
     (case ce_engine (cg_engine s) of
        None \<Rightarrow> (Inl ErrEngineClosed, s)
      | Some p \<Rightarrow>
          let (c_slot, h1) = strdup slotID (cg_heap s);
              (decay, h2, w') =
                calculate_time_decay (cpp_class cpp) (Some p) c_slot (unix_milli timestamp) h1 (cg_world s)
          in (Inr decay, s\<lparr>cg_heap := cstr_free c_slot h2, cg_world := w'\<rparr>))"

definition cgo_CancelOrder :: "('p, 'w) cpp_side \<Rightarrow> string \<Rightarrow> 'w cgo \<Rightarrow> ('e cgo_error + unit) \<times> 'w cgo" where
  "cgo_CancelOrder cpp orderID s =
     (case ce_engine (cg_engine s) of
        None \<Rightarrow> (Inl ErrEngineClosed, s)
      | Some p \<Rightarrow>
          let (c_order, h1) = strdup orderID (cg_heap s);
              (result, h2, w') = cancel_order (cpp_class cpp) (Some p) c_order h1 (cg_world s)
          in (if result \<noteq> 0 then Inl (ErrCancelOrder result) else Inr (),
              s\<lparr>cg_heap := cstr_free c_order h2, cg_world := w'\<rparr>))"

definition cgo_GetOrderBook ::
  "('p, 'w) cpp_side \<Rightarrow> (string \<Rightarrow> 'e + 'p Cgo_OrderBook) \<Rightarrow> string \<Rightarrow> 'w cgo \<Rightarrow>
   ('e cgo_error + 'p Cgo_OrderBook) \<times> 'w cgo" where
  "cgo_GetOrderBook cpp parse slotID s =
     (case ce_engine (cg_engine s) of
        None \<Rightarrow> (Inl ErrEngineClosed, s)
      | Some p \<Rightarrow>
          let (c_slot, h1) = strdup slotID (cg_heap s);
              (cJSON, h2, w') =
                get_order_book_json (cpp_class cpp) (cpp_json cpp) (Some p) c_slot h1 (cg_world s)
          in (case cJSON of
                None \<Rightarrow> (Inl ErrNoAnswer, s\<lparr>cg_heap := cstr_free c_slot h2, cg_world := w'\<rparr>)
              | Some (q, j) \<Rightarrow>
                  let s' = s\<lparr>cg_heap := cstr_free c_slot (cstr_free cJSON (cstr_use cJSON h2)), cg_world := w'\<rparr>
                  in (case parse j of Inl err \<Rightarrow> (Inl (ErrParse err), s') | Inr ob \<Rightarrow> (Inr ob, s'))))"

definition cgo_GetMetrics ::
  "('p, 'w) cpp_side \<Rightarrow> (string \<Rightarrow> 'e + 'p Cgo_EngineMetrics) \<Rightarrow> 'w cgo \<Rightarrow>
   ('e cgo_error + 'p Cgo_EngineMetrics) \<times> 'w cgo" where
  "cgo_GetMetrics cpp parse s =
     (case ce_engine (cg_engine s) of
        None \<Rightarrow> (Inl ErrEngineClosed, s)
      | Some p \<Rightarrow>
          let (cJSON, h1, w') = get_metrics_json (cpp_class cpp) (cpp_json cpp) (Some p) (cg_heap s) (cg_world s)
          in (case cJSON of
                None \<Rightarrow> (Inl ErrNoAnswer, s\<lparr>cg_heap := h1, cg_world := w'\<rparr>)
              | Some (q, j) \<Rightarrow>
                  let s' = s\<lparr>cg_heap := cstr_free cJSON (cstr_use cJSON h1), cg_world := w'\<rparr>
                  in (case parse j of Inl err \<Rightarrow> (Inl (ErrParse err), s') | Inr m \<Rightarrow> (Inr m, s'))))"

subsection \<open>Sequences of calls\<close>

datatype ('p, 't) cgo_op =
    CgoAdd "('p, 't) Cgo_Order"
  | CgoBatch string u32
  | CgoDecay string time
  | CgoCancel string
  | CgoBook string
  | CgoMetrics
  | CgoClose
  | CgoCollect

record ('p, 't, 'e) cgo_json =
  cj_targeting :: "'t \<Rightarrow> 'e + string"
  cj_winners :: "string \<Rightarrow> 'e + 'p Cgo_MatchedOrder list"
  cj_book :: "string \<Rightarrow> 'e + 'p Cgo_OrderBook"
  cj_metrics :: "string \<Rightarrow> 'e + 'p Cgo_EngineMetrics"

fun cgo_step ::
  "('p::zero, 'w) cpp_side \<Rightarrow> ('p, 't, 'e) cgo_json \<Rightarrow> ('p, 't) cgo_op \<Rightarrow> 'w cgo \<Rightarrow> 'w cgo" where
  "cgo_step cpp js (CgoAdd order) s = snd (cgo_AddOrder cpp (cj_targeting js) order s)"
| "cgo_step cpp js (CgoBatch slotID ms) s = snd (cgo_RunBatchAuction cpp (cj_winners js) slotID ms s)"
| "cgo_step cpp js (CgoDecay slotID t) s = snd (cgo_CalculateTimeDecay cpp slotID t s :: ('e cgo_error + 'p) \<times> 'w cgo)"
| "cgo_step cpp js (CgoCancel orderID) s = snd (cgo_CancelOrder cpp orderID s :: ('e cgo_error + unit) \<times> 'w cgo)"
| "cgo_step cpp js (CgoBook slotID) s = snd (cgo_GetOrderBook cpp (cj_book js) slotID s)"
| "cgo_step cpp js CgoMetrics s = snd (cgo_GetMetrics cpp (cj_metrics js) s)"
| "cgo_step cpp js CgoClose s = cgo_Close cpp s"
| "cgo_step cpp js CgoCollect s = cgo_collect cpp s"

definition cgo_run ::
  "('p::zero, 'w) cpp_side \<Rightarrow> ('p, 't, 'e) cgo_json \<Rightarrow> ('p, 't) cgo_op list \<Rightarrow> 'w cgo \<Rightarrow> 'w cgo" where
  "cgo_run cpp js ops s = fold (cgo_step cpp js) ops s"

text \<open>Whether a call is an auction whose winners the C++ wrapper cannot write, and how many calls
  of a run are.\<close>

definition cgo_loses :: "('p, 'w) cpp_side \<Rightarrow> ('p, 't) cgo_op \<Rightarrow> 'w cgo \<Rightarrow> bool" where
  "cgo_loses cpp c s =
     (case c of
        CgoBatch slotID ms \<Rightarrow> ce_engine (cg_engine s) \<noteq> None \<and>
          winners_lost (cpp_class cpp) (cpp_json cpp) (c_contents slotID) ms (cg_world s)
      | _ \<Rightarrow> False)"

fun cgo_losses ::
  "('p::zero, 'w) cpp_side \<Rightarrow> ('p, 't, 'e) cgo_json \<Rightarrow> ('p, 't) cgo_op list \<Rightarrow> 'w cgo \<Rightarrow> nat" where
  "cgo_losses cpp js [] s = 0"
| "cgo_losses cpp js (c # cs) s =
     (if cgo_loses cpp c s then 1 else 0) + cgo_losses cpp js cs (cgo_step cpp js c s)"
subsection \<open>What an operation does to the memory\<close>

text \<open>Two ledgers on which the same memory is allocated and the same faults have happened.\<close>

definition same_memory :: "cheap \<Rightarrow> cheap \<Rightarrow> bool" where
  "same_memory h h' \<longleftrightarrow>
     ch_live h' = ch_live h \<and> ch_fault h' = ch_fault h \<and> cheap_ok h' \<and> ch_next h \<le> ch_next h'"

lemma same_memory_refl: "cheap_ok h \<Longrightarrow> same_memory h h"
  by (simp add: same_memory_def)

lemmas ledger_simps = strdup_simp cstr_free_def cstr_use_def c_free_def c_use_def

lemma same_memoryI:
  assumes "cheap_ok h" "ch_live h' = ch_live h" "ch_fault h' = ch_fault h" "ch_next h \<le> ch_next h'"
  shows "same_memory h h'"
  using assms by (fastforce simp: same_memory_def cheap_ok_def)

text \<open>Memory that is allocated from the next address on and released again.\<close>

lemma fresh_removed:
  assumes "cheap_ok h" "\<forall>(k, p)\<in>N. ch_next h \<le> p"
  shows "(N \<union> ch_live h) - N = ch_live h"
  using assms fresh_addresses [OF assms(1)] by fastforce

lemma string_freed:
  assumes "cheap_ok h"
  shows "same_memory h (cstr_free (fst (strdup t h)) (snd (strdup t h)))"
  using fresh_addresses [OF assms] by (intro same_memoryI [OF assms]) (auto simp: ledger_simps)

lemma string_and_answer_freed:
  assumes "cheap_ok h"
  shows "same_memory h (cstr_free (fst (strdup t h))
    (cstr_free (fst (strdup u (snd (strdup t h)))) (snd (strdup u (snd (strdup t h))))))"
  using fresh_addresses [OF assms] by (intro same_memoryI [OF assms]) (auto simp: ledger_simps)

lemma four_strings_freed:
  assumes "cheap_ok h" "strdup a h = (c_a, h1)" "strdup b h1 = (c_b, h2)" "strdup c h2 = (c_c, h3)"
    "strdup d h3 = (c_d, h4)"
  shows "same_memory h (cstr_free c_d (cstr_free c_c (cstr_free c_b (cstr_free c_a h4))))"
    and "cstr_live c_a h4" "cstr_live c_b h4" "cstr_live c_c h4" "cstr_live c_d h4" "ch_live h \<subseteq> ch_live h4"
proof -
  let ?n = "ch_next h"
  have e: "c_a = Some (?n, c_contents a)" "c_b = Some (Suc ?n, c_contents b)"
    "c_c = Some (Suc (Suc ?n), c_contents c)" "c_d = Some (Suc (Suc (Suc ?n)), c_contents d)"
    "h4 = h\<lparr>ch_next := Suc (Suc (Suc (Suc ?n))), ch_live := {(Malloc, Suc (Suc (Suc ?n))),
       (Malloc, Suc (Suc ?n)), (Malloc, Suc ?n), (Malloc, ?n)} \<union> ch_live h\<rparr>"
    using assms(2-5) by (auto simp: strdup_simp)
  show "cstr_live c_a h4" "cstr_live c_b h4" "cstr_live c_c h4" "cstr_live c_d h4" "ch_live h \<subseteq> ch_live h4"
    by (auto simp: e)
  show "same_memory h (cstr_free c_d (cstr_free c_c (cstr_free c_b (cstr_free c_a h4))))"
    using fresh_addresses [OF assms(1)]
    by (intro same_memoryI [OF assms(1)]) (auto simp: e cstr_free_def c_free_def)
qed

lemma cgo_add_memory:
  assumes "cheap_ok (cg_heap s)" "(New, p) \<in> ch_live (cg_heap s)"
  shows "cg_engine (snd (cgo_add cpp marshal order p s)) = cg_engine s \<and>
    same_memory (cg_heap s) (cg_heap (snd (cgo_add cpp marshal order p s)))"
proof (cases "marshal (go_Targeting order)")
  case (Inl err)
  then show ?thesis using assms(1) by (simp add: cgo_add_def same_memory_refl)
next
  case (Inr j)
  obtain c_a h1 where a: "strdup (go_ID order) (cg_heap s) = (c_a, h1)" by fastforce
  obtain c_b h2 where b: "strdup (go_AdSlotID order) h1 = (c_b, h2)" by fastforce
  obtain c_c h3 where c: "strdup (go_AdvertiserID order) h2 = (c_c, h3)" by fastforce
  obtain c_d h4 where d: "strdup j h3 = (c_d, h4)" by fastforce
  note freed = four_strings_freed [OF assms(1) a b c d]
  define ord where "ord = \<lparr>co_id = c_a, co_ad_slot_id = c_b, co_price = go_Price order,
    co_quantity = go_Quantity order, co_timestamp_ms = unix_milli (go_Timestamp order),
    co_is_buy = boolToUint8 (go_IsBuy order), co_advertiser_id = c_c, co_targeting_json = c_d\<rparr>"
  have l: "fst (snd (add_order (cpp_class cpp) (cpp_json cpp) (Some p) (Some ord) h4 (cg_world s))) = h4"
    using assms(2) freed by (intro add_order_ledger) (auto simp: ord_def)
  obtain rc h5 w' where r: "add_order (cpp_class cpp) (cpp_json cpp) (Some p) (Some ord) h4 (cg_world s) = (rc, h5, w')"
    by (cases rule: prod_cases3)
  then show ?thesis
    using freed(1) l Inr by (simp add: cgo_add_def a b c d ord_def split: prod.split)
qed
lemma cgo_CalculateTimeDecay_memory:
  assumes "cheap_ok (cg_heap s)" "ce_engine (cg_engine s) = Some p" "(New, p) \<in> ch_live (cg_heap s)"
  shows "cg_engine (snd (cgo_CalculateTimeDecay cpp slotID t s)) = cg_engine s \<and>
    same_memory (cg_heap s) (cg_heap (snd (cgo_CalculateTimeDecay cpp slotID t s)))"
proof -
  obtain c h1 where c: "strdup slotID (cg_heap s) = (c, h1)" by fastforce
  have "(New, p) \<in> ch_live h1" "cstr_live c h1" using assms(3) c by (auto simp: strdup_simp)
  from calculate_time_decay_ledger [OF this]
  have "fst (snd (calculate_time_decay (cpp_class cpp) (Some p) c (unix_milli t) h1 (cg_world s))) = h1" .
  then show ?thesis
    using string_freed [OF assms(1), of slotID] assms(2)
    by (simp add: cgo_CalculateTimeDecay_def c split_beta)
qed

lemma cgo_CancelOrder_memory:
  assumes "cheap_ok (cg_heap s)" "ce_engine (cg_engine s) = Some p" "(New, p) \<in> ch_live (cg_heap s)"
  shows "cg_engine (snd (cgo_CancelOrder cpp orderID s)) = cg_engine s \<and>
    same_memory (cg_heap s) (cg_heap (snd (cgo_CancelOrder cpp orderID s)))"
proof -
  obtain c h1 where c: "strdup orderID (cg_heap s) = (c, h1)" by fastforce
  have "(New, p) \<in> ch_live h1" "cstr_live c h1" using assms(3) c by (auto simp: strdup_simp)
  from cancel_order_ledger [OF this]
  have "fst (snd (cancel_order (cpp_class cpp) (Some p) c h1 (cg_world s))) = h1" .
  then show ?thesis
    using string_freed [OF assms(1), of orderID] assms(2)
    by (simp add: cgo_CancelOrder_def c split_beta)
qed

lemma cgo_GetOrderBook_memory:
  assumes "cheap_ok (cg_heap s)" "ce_engine (cg_engine s) = Some p" "(New, p) \<in> ch_live (cg_heap s)"
  shows "cg_engine (snd (cgo_GetOrderBook cpp parse slotID s)) = cg_engine s \<and>
    same_memory (cg_heap s) (cg_heap (snd (cgo_GetOrderBook cpp parse slotID s)))"
proof -
  let ?n = "ch_next (cg_heap s)"
  obtain h1 where c: "strdup slotID (cg_heap s) = (Some (?n, c_contents slotID), h1)"
    by (simp add: strdup_simp)
  have l: "(New, p) \<in> ch_live h1" "(Malloc, ?n) \<in> ch_live h1"
    using assms(3) c by (auto simp: strdup_simp)
  show ?thesis
  proof (cases rule: get_order_book_json_cases [OF l, of "cpp_class cpp" "cpp_json cpp" "c_contents slotID" "cg_world s"])
    case (1 w')
    then show ?thesis
      using string_freed [OF assms(1), of slotID] assms(2) by (simp add: cgo_GetOrderBook_def c)
  next
    case (2 t w')
    obtain q j h2 where d: "strdup t h1 = (Some (q, j), h2)" by (simp add: strdup_simp)
    then have "cstr_live (Some (q, j)) h2" by (auto simp: strdup_simp)
    then show ?thesis
      using string_and_answer_freed [OF assms(1), of slotID t] assms(2) 2
      by (simp add: cgo_GetOrderBook_def c d Let_def split: sum.split)
  qed
qed

lemma cgo_GetMetrics_memory:
  assumes "cheap_ok (cg_heap s)" "ce_engine (cg_engine s) = Some p" "(New, p) \<in> ch_live (cg_heap s)"
  shows "cg_engine (snd (cgo_GetMetrics cpp parse s)) = cg_engine s \<and>
    same_memory (cg_heap s) (cg_heap (snd (cgo_GetMetrics cpp parse s)))"
proof (cases rule: get_metrics_json_cases [OF assms(3), of "cpp_class cpp" "cpp_json cpp" "cg_world s"])
  case (1 w')
  then show ?thesis
    using assms(1,2) by (simp add: cgo_GetMetrics_def same_memory_refl)
next
  case (2 t w')
  have "cstr_live (fst (strdup t (cg_heap s))) (snd (strdup t (cg_heap s)))" by (simp add: strdup_simp)
  moreover obtain q j where "fst (strdup t (cg_heap s)) = Some (q, j)" by (simp add: strdup_simp)
  ultimately show ?thesis
    using string_freed [OF assms(1), of t] assms(2) 2
    by (simp add: cgo_GetMetrics_def Let_def split: sum.split)
qed

text \<open>An auction releases all it was given, unless the winners were lost: then the result object
  and the copy of the slot stay allocated.\<close>

lemma cgo_RunBatchAuction_memory:
  fixes cpp :: "('p, 'w) cpp_side" and s :: "'w cgo"
  assumes "cheap_ok (cg_heap s)" "ce_engine (cg_engine s) = Some p" "(New, p) \<in> ch_live (cg_heap s)"
    and "s' = snd (cgo_RunBatchAuction cpp parse slotID ms s)" "n = ch_next (cg_heap s)"
  shows "cg_engine s' = cg_engine s"
    and "\<not> winners_lost (cpp_class cpp) (cpp_json cpp) (c_contents slotID) ms (cg_world s) \<Longrightarrow>
      same_memory (cg_heap s) (cg_heap s')"
    and "winners_lost (cpp_class cpp) (cpp_json cpp) (c_contents slotID) ms (cg_world s) \<Longrightarrow>
      cheap_ok (cg_heap s') \<and> ch_fault (cg_heap s') = ch_fault (cg_heap s) \<and>
      ch_live (cg_heap s') = {(New, n + 1), (Malloc, n + 2)} \<union> ch_live (cg_heap s)"
proof -
  let ?h = "cg_heap s"
  obtain h1 where c: "strdup slotID ?h = (Some (n, c_contents slotID), h1)"
    using assms(5) by (simp add: strdup_simp)
  then have h1: "h1 = ?h\<lparr>ch_next := Suc n, ch_live := insert (Malloc, n) (ch_live ?h)\<rparr>"
    using assms(5) by (auto simp: strdup_simp)
  then have l: "(New, p) \<in> ch_live h1" "(Malloc, n) \<in> ch_live h1" and n1: "ch_next h1 = Suc n"
    using assms(3) by simp_all
  note fresh = fresh_addresses [OF assms(1), folded assms(5)]
  consider (none) "\<not> winners_lost (cpp_class cpp) (cpp_json cpp) (c_contents slotID) ms (cg_world s)"
      "cg_heap s' = cstr_free (Some (n, c_contents slotID)) h1"
    | (lost) "winners_lost (cpp_class cpp) (cpp_json cpp) (c_contents slotID) ms (cg_world s)"
      "cg_heap s' = cstr_free (Some (n, c_contents slotID)) (h1\<lparr>ch_next := n + 3,
         ch_live := {(New, n + 1), (Malloc, n + 2)} \<union> ch_live h1\<rparr>)"
    | (answer) d :: "'p CBatchResult" and t u where
      "\<not> winners_lost (cpp_class cpp) (cpp_json cpp) (c_contents slotID) ms (cg_world s)"
      "cb_slot_id d = Some (n + 2, t)" "cb_winners_json d = Some (n + 3, u)"
      "cg_heap s' = cstr_free (Some (n, c_contents slotID)) (free_batch_result (Some (n + 1, d)) (h1\<lparr>ch_next := n + 4,
         ch_live := {(New, n + 1), (Malloc, n + 2), (Malloc, n + 3)} \<union> ch_live h1\<rparr>))"
  proof (cases rule: run_batch_auction_cases [OF l, of "cpp_class cpp" "cpp_json cpp" "c_contents slotID" ms "cg_world s"])
    case (1 w')
    then show ?thesis
      using that(1) assms(2,4) c by (simp add: cgo_RunBatchAuction_def)
  next
    case (2 w')
    then show ?thesis
      using that(2) assms(2,4) c n1 by (simp add: cgo_RunBatchAuction_def eval_nat_numeral)
  next
    case (3 d t u w')
    then show ?thesis
      using that(3) [of d t u] assms(2,4) c n1
      by (simp add: cgo_RunBatchAuction_def Let_def cstr_use_def eval_nat_numeral split: sum.split_asm)
  qed
  note heap = this
  show "cg_engine s' = cg_engine s"
    using assms(2,4) by (auto simp: cgo_RunBatchAuction_def Let_def split: prod.splits option.splits sum.splits)
  show "same_memory ?h (cg_heap s')"
    if "\<not> winners_lost (cpp_class cpp) (cpp_json cpp) (c_contents slotID) ms (cg_world s)"
    using heap
  proof cases
    case none
    then show ?thesis using string_freed [OF assms(1), of slotID] by (simp add: c)
  next
    case (answer d t u)
    then show ?thesis
      using fresh
      by (intro same_memoryI [OF assms(1)])
        (auto simp: free_batch_result_def ledger_simps h1 assms(5))
  qed (use that in simp)
  show "cheap_ok (cg_heap s') \<and> ch_fault (cg_heap s') = ch_fault ?h \<and>
      ch_live (cg_heap s') = {(New, n + 1), (Malloc, n + 2)} \<union> ch_live ?h"
    if "winners_lost (cpp_class cpp) (cpp_json cpp) (c_contents slotID) ms (cg_world s)"
    using heap
  proof cases
    case lost
    have "x < n + 3" if "(k, x) \<in> ch_live ?h" for k x
      using assms(1,5) that by (fastforce simp: cheap_ok_def)
    then show ?thesis
      using fresh lost by (auto simp: ledger_simps h1 cheap_ok_def assms(5))
  qed (use that in simp_all)
qed
subsection \<open>Every operation balances its memory\<close>

definition engine_object :: "'w cgo \<Rightarrow> (c_kind \<times> nat) set" where
  "engine_object s = (case ce_engine (cg_engine s) of None \<Rightarrow> {} | Some p \<Rightarrow> {(New, p)})"

text \<open>What holds of the engine over the memory \<open>M\<close> that was allocated before it, when \<open>k\<close> calls
  have lost the winners of an auction: nothing has gone wrong, and beside \<open>M\<close> the engine object is
  allocated, as long as it is open, and the two pieces of each lost result.\<close>

definition owns :: "(c_kind \<times> nat) set \<Rightarrow> nat \<Rightarrow> 'w cgo \<Rightarrow> bool" where
  "owns M k s \<longleftrightarrow> cheap_ok (cg_heap s) \<and> \<not> ch_fault (cg_heap s) \<and> engine_object s \<inter> M = {} \<and>
     (\<exists>K. finite K \<and> card K = 2 * k \<and> K \<inter> (M \<union> engine_object s) = {} \<and>
        ch_live (cg_heap s) = M \<union> K \<union> engine_object s)"

lemma owns_same_memory:
  assumes "owns M k s" "cg_engine s' = cg_engine s \<and> same_memory (cg_heap s) (cg_heap s')"
  shows "owns M k s'"
  using assms by (simp add: owns_def same_memory_def engine_object_def)

lemma owns_engine:
  assumes "owns M k s" "ce_engine (cg_engine s) = Some p"
  shows "cheap_ok (cg_heap s)" "(New, p) \<in> ch_live (cg_heap s)"
  using assms by (auto simp: owns_def engine_object_def)

lemma owns_lost:
  assumes "owns M k s" "cg_engine s' = cg_engine s" "cheap_ok (cg_heap s')"
    and "ch_fault (cg_heap s') = ch_fault (cg_heap s)" "a \<noteq> b"
    and "a \<notin> ch_live (cg_heap s)" "b \<notin> ch_live (cg_heap s)"
    and "ch_live (cg_heap s') = {a, b} \<union> ch_live (cg_heap s)"
  shows "owns M (Suc k) s'"
proof -
  obtain K where K: "finite K" "card K = 2 * k" "K \<inter> (M \<union> engine_object s) = {}"
    "ch_live (cg_heap s) = M \<union> K \<union> engine_object s"
    using assms(1) by (auto simp: owns_def)
  have e: "engine_object s' = engine_object s" using assms(2) by (simp add: engine_object_def)
  have "card ({a, b} \<union> K) = 2 * Suc k" "finite ({a, b} \<union> K)"
    using K assms(5-7) by auto
  moreover have "({a, b} \<union> K) \<inter> (M \<union> engine_object s') = {}"
    using K assms(6,7) by (auto simp: e)
  moreover have "ch_live (cg_heap s') = M \<union> ({a, b} \<union> K) \<union> engine_object s'"
    using K(4) assms(8) by (auto simp: e)
  moreover have "cheap_ok (cg_heap s')" "\<not> ch_fault (cg_heap s')" "engine_object s' \<inter> M = {}"
    using assms(1,3,4) by (auto simp: owns_def e)
  ultimately show ?thesis unfolding owns_def by blast
qed

lemma cgo_destroy_owns: "owns M k s \<Longrightarrow> owns M k (cgo_destroy cpp s)"
proof (cases "ce_engine (cg_engine s)")
  case (Some p)
  assume s: "owns M k s"
  obtain K where K: "finite K" "card K = 2 * k" "K \<inter> (M \<union> engine_object s) = {}"
    "ch_live (cg_heap s) = M \<union> K \<union> engine_object s" "engine_object s \<inter> M = {}"
    using s by (auto simp: owns_def)
  then have "ch_live (cg_heap s) - {(New, p)} = M \<union> K" "K \<inter> M = {}"
    by (auto simp: engine_object_def Some)
  moreover have "cheap_ok (c_free New p (cg_heap s))" "\<not> ch_fault (c_free New p (cg_heap s))"
    using s owns_engine [OF s Some] by (auto simp: owns_def c_free_def cheap_ok_def)
  ultimately show ?thesis
    using K(1,2) by (auto simp: cgo_destroy_def destroy_adx_engine_def owns_def engine_object_def Some c_free_def)
qed (simp add: cgo_destroy_def)

lemma owns_finalizer: "owns M k s \<Longrightarrow> owns M k (s\<lparr>cg_engine := (cg_engine s)\<lparr>ce_finalizer := b\<rparr>\<rparr>)"
  by (simp add: owns_def engine_object_def)

lemma cgo_Close_owns: "owns M k s \<Longrightarrow> owns M k (cgo_Close cpp s)"
  by (simp add: cgo_Close_def Let_def owns_finalizer cgo_destroy_owns)

lemma cgo_collect_owns: "owns M k s \<Longrightarrow> owns M k (cgo_collect cpp s)"
  by (simp add: cgo_collect_def owns_finalizer cgo_destroy_owns)

lemma cgo_RunBatchAuction_owns:
  assumes s: "owns M k s"
  shows "owns M (if cgo_loses cpp (CgoBatch slotID ms) s then Suc k else k)
    (snd (cgo_RunBatchAuction cpp parse slotID ms s))"
proof (cases "ce_engine (cg_engine s)")
  case None
  then show ?thesis using s by (simp add: cgo_RunBatchAuction_def cgo_loses_def)
next
  case (Some p)
  let ?s' = "snd (cgo_RunBatchAuction cpp parse slotID ms s)"
  note m = cgo_RunBatchAuction_memory [OF owns_engine(1) [OF s Some] Some owns_engine(2) [OF s Some] refl refl,
      where cpp = cpp and parse = parse and slotID = slotID and ms = ms]
  show ?thesis
  proof (cases "winners_lost (cpp_class cpp) (cpp_json cpp) (c_contents slotID) ms (cg_world s)")
    case True
    have "owns M (Suc k) ?s'"
      using fresh_addresses [OF owns_engine(1) [OF s Some]] m(1) m(3) [OF True]
      by (intro owns_lost [OF s, where a = "(New, ch_next (cg_heap s) + 1)" and b = "(Malloc, ch_next (cg_heap s) + 2)"]) auto
    then show ?thesis using True Some by (simp add: cgo_loses_def)
  next
    case False
    then show ?thesis
      using owns_same_memory [OF s, of ?s'] m(1) m(2) [OF False] by (simp add: cgo_loses_def)
  qed
qed

lemma cgo_step_owns:
  assumes s: "owns M k s"
  shows "owns M (if cgo_loses cpp c s then Suc k else k) (cgo_step cpp js c s)"
proof (cases "ce_engine (cg_engine s)")
  case None
  then show ?thesis
    using s by (cases c) (simp_all add: cgo_loses_def cgo_AddOrder_def cgo_RunBatchAuction_def
        cgo_CalculateTimeDecay_def cgo_CancelOrder_def cgo_GetOrderBook_def cgo_GetMetrics_def
        cgo_Close_owns cgo_collect_owns)
next
  case (Some p)
  note e = owns_engine [OF s Some]
  show ?thesis
  proof (cases c)
    case (CgoAdd order)
    then show ?thesis
      using owns_same_memory [OF s cgo_add_memory [OF e]] Some by (simp add: cgo_loses_def cgo_AddOrder_def)
  next
    case (CgoBatch slotID ms)
    then show ?thesis using cgo_RunBatchAuction_owns [OF s, where cpp = cpp and parse = "cj_winners js" and slotID = slotID and ms = ms] by simp
  next
    case (CgoDecay slotID t)
    then show ?thesis
      using owns_same_memory [OF s cgo_CalculateTimeDecay_memory [OF e(1) Some e(2)]] by (simp add: cgo_loses_def)
  next
    case (CgoCancel orderID)
    then show ?thesis
      using owns_same_memory [OF s cgo_CancelOrder_memory [OF e(1) Some e(2)]] by (simp add: cgo_loses_def)
  next
    case (CgoBook slotID)
    then show ?thesis
      using owns_same_memory [OF s cgo_GetOrderBook_memory [OF e(1) Some e(2)]] by (simp add: cgo_loses_def)
  next
    case CgoMetrics
    then show ?thesis
      using owns_same_memory [OF s cgo_GetMetrics_memory [OF e(1) Some e(2)]] by (simp add: cgo_loses_def)
  qed (use s in \<open>simp_all add: cgo_loses_def cgo_Close_owns cgo_collect_owns\<close>)
qed

lemma cgo_run_owns: "owns M k s \<Longrightarrow> owns M (k + cgo_losses cpp js ops s) (cgo_run cpp js ops s)"
proof (induction ops arbitrary: k s)
  case (Cons c cs)
  from Cons.IH [OF cgo_step_owns [OF Cons.prems, where cpp = cpp and js = js and c = c]]
  show ?case by (simp add: cgo_run_def split: if_splits)
qed (simp add: cgo_run_def)

lemma NewCGOEngine_owns:
  assumes "cheap_ok h" "\<not> ch_fault h" "NewCGOEngine cpp h w = (Inr e, h', w')"
  shows "owns (ch_live h) 0 \<lparr>cg_engine = e, cg_heap = h', cg_world = w'\<rparr>"
  using assms fresh_addresses [OF assms(1) order_refl]
  by (auto simp: NewCGOEngine_def create_adx_engine_def owns_def engine_object_def c_alloc_def cheap_ok_def
      Let_def less_Suc_eq split: prod.splits option.splits)
text \<open>C35: Memory across the border between Go and C++, for the whole code of both wrappers and
  whatever the C++ engine class and the JSON libraries answer or throw: on a new engine, after any
  sequence of calls made one after another (additions, auctions, cancellations, reports, closings
  and garbage collections, none overlapping another), no memory has been released twice, released
  to the wrong allocator, or used after its release. Beside the memory from before, which is left
  alone, what is allocated is the engine object while the engine is open, nothing for it once it
  is closed, and exactly two pieces for every auction whose winners the C++ wrapper could not
  write as JSON: its result object and the copy of the slot, which nothing releases any more.\<close>

theorem cgo_memory_is_managed:
  assumes "cheap_ok h" "\<not> ch_fault h" "NewCGOEngine cpp h w = (Inr e, h', w')"
    and "s0 = \<lparr>cg_engine = e, cg_heap = h', cg_world = w'\<rparr>" "s = cgo_run cpp js ops s0"
  shows "\<not> ch_fault (cg_heap s) \<and> engine_object s \<inter> ch_live h = {} \<and>
    (\<exists>K. finite K \<and> card K = 2 * cgo_losses cpp js ops s0 \<and> K \<inter> (ch_live h \<union> engine_object s) = {} \<and>
       ch_live (cg_heap s) = ch_live h \<union> K \<union> engine_object s)"
  using cgo_run_owns [OF NewCGOEngine_owns [OF assms(1-3)], of cpp js ops] assms(4,5)
  by (simp add: owns_def)

lemma after_close:
  assumes "ce_engine (cg_engine s) = None"
  shows "cgo_AddOrder cpp marshal order s = (Inl ErrEngineClosed, s)"
    "cgo_RunBatchAuction cpp parse slotID ms s = (Inl ErrEngineClosed, s)"
    "cgo_CancelOrder cpp orderID s = (Inl ErrEngineClosed, s)"
  using assms by (simp_all add: cgo_AddOrder_def cgo_RunBatchAuction_def cgo_CancelOrder_def)

lemma closed_and_collected: "ce_engine (cg_engine (cgo_collect cpp (cgo_Close cpp s))) = None"
  by (simp add: cgo_collect_def cgo_Close_def cgo_destroy_def Let_def split: option.split prod.split)

text \<open>\<open>Close\<close> takes no lock: when it runs between the guard of \<open>AddOrder\<close> and the call of the
  C++ engine, and the targeting is JSON, the engine object is used after its release.\<close>

lemma close_during_add_faults:
  assumes "owns M k s" "ce_engine (cg_engine s) = Some p"
    and "marshal (go_Targeting order) = Inr j" "nl_parse (cpp_json cpp) (c_contents j) = Some t"
  shows "ch_fault (cg_heap (snd (cgo_add cpp marshal order p (cgo_Close cpp s))))"
proof -
  have "(New, p) \<notin> ch_live (cg_heap (cgo_Close cpp s))"
    using assms(2) by (simp add: cgo_Close_def cgo_destroy_def destroy_adx_engine_def c_free_def Let_def)
  then show ?thesis
    using assms(3,4)
    by (simp add: cgo_add_def add_order_def strdup_simp cstr_free_def c_free_def cstr_use_def c_use_def
        split: prod.split)
qed

subsection \<open>An example\<close>

text \<open>An engine whose second auction is won by an order with an identifier that is not UTF-8,
  which \<open>dump\<close> refuses.\<close>

definition demo_winner :: "nat \<Rightarrow> rat Cpp_Match" where
  "demo_winner n = \<lparr>mt_order_id = (if n = 1 then [CHR 0xFF] else ''o''), mt_advertiser_id = ''a'',
     mt_price = 3, mt_quantity = 5\<rparr>"

definition demo_class :: "(rat, nat) adx_class" where
  "demo_class = \<lparr>ac_new = (\<lambda>w. (Some (), w)), ac_delete = (\<lambda>w. w), ac_addOrder = (\<lambda>_ w. (Some True, w)),
     ac_runBatchAuction = (\<lambda>slot _ w. (Some \<lparr>br_slot_id = slot, br_clearing_price = 3, br_total_volume = 5,
       br_matched_orders = 1, br_winners = [demo_winner w]\<rparr>, Suc w)),
     ac_calculateTimeDecay = (\<lambda>_ _ w. (None, w)), ac_cancelOrder = (\<lambda>_ w. (Some False, w)),
     ac_getOrderBook = (\<lambda>_ w. (Some \<lparr>bk_slot_id = ''s'', bk_bids = [], bk_asks = [], bk_last_update_ms = 0\<rparr>, w)),
     ac_getMetrics = (\<lambda>w. (None, w))\<rparr>"

definition demo_cpp :: "(rat, nat) cpp_side" where
  "demo_cpp = \<lparr>cpp_class = demo_class,
     cpp_json = \<lparr>nl_parse = (\<lambda>_. Some NjNull),
       nl_dump = (\<lambda>j. if j = NjArray [winner_json (demo_winner 1)] then None else Some ''[]'')\<rparr>\<rparr>"

definition demo_cgo_json :: "(rat, unit, string) cgo_json" where
  "demo_cgo_json = \<lparr>cj_targeting = (\<lambda>_. Inr ''{}''), cj_winners = (\<lambda>_. Inr []), cj_book = (\<lambda>_. Inl ''bad''),
     cj_metrics = (\<lambda>_. Inl ''bad'')\<rparr>"

definition demo_heap :: cheap where
  "demo_heap = \<lparr>ch_next = 0, ch_live = {}, ch_fault = False\<rparr>"

definition demo_cgo_order :: "(rat, unit) Cgo_Order" where
  "demo_cgo_order = \<lparr>go_ID = ''o'', go_AdSlotID = ''s'', go_Price = 1, go_Quantity = 5, go_Timestamp = 0,
     go_IsBuy = True, go_AdvertiserID = ''a'', go_Targeting = ()\<rparr>"

definition demo_calls :: "(rat, unit) cgo_op list" where
  "demo_calls = [CgoAdd demo_cgo_order, CgoBatch ''s'' 100, CgoBatch ''s'' 100, CgoBook ''s'', CgoMetrics,
     CgoClose, CgoCollect]"

theorem cgo_memory_is_managed_witness:
  "\<exists>e h' w' s. NewCGOEngine demo_cpp demo_heap 0 = ((Inr e :: string cgo_error + CGOEngine), h', w') \<and>
     cgo_losses demo_cpp demo_cgo_json demo_calls \<lparr>cg_engine = e, cg_heap = h', cg_world = w'\<rparr> = 1 \<and>
     s = cgo_run demo_cpp demo_cgo_json demo_calls \<lparr>cg_engine = e, cg_heap = h', cg_world = w'\<rparr> \<and>
     \<not> ch_fault (cg_heap s) \<and> (\<exists>K. finite K \<and> card K = 2 \<and> ch_live (cg_heap s) = K)"
proof -
  have ok: "cheap_ok demo_heap" "\<not> ch_fault demo_heap" by (simp_all add: demo_heap_def cheap_ok_def)
  let ?e = "\<lparr>ce_engine = Some 0, ce_finalizer = True\<rparr>"
  let ?h = "\<lparr>ch_next = 1, ch_live = {(New, 0)}, ch_fault = False\<rparr>"
  let ?s0 = "\<lparr>cg_engine = ?e, cg_heap = ?h, cg_world = 0\<rparr>"
  have n: "NewCGOEngine demo_cpp demo_heap 0 = ((Inr ?e :: string cgo_error + CGOEngine), ?h, 0)"
    by (simp add: NewCGOEngine_def create_adx_engine_def demo_cpp_def demo_class_def c_alloc_def demo_heap_def)
  have l: "cgo_losses demo_cpp demo_cgo_json demo_calls ?s0 = 1"
    by (simp add: demo_calls_def cgo_loses_def winners_lost_def demo_cpp_def demo_class_def demo_winner_def
        winner_json_def c_contents_def demo_cgo_json_def cgo_AddOrder_def cgo_add_def add_order_def
        cgo_RunBatchAuction_def run_batch_auction_def strdup_def c_alloc_def free_batch_result_def
        cstr_use_def cstr_free_def c_use_def c_free_def)
  have c: "ce_engine (cg_engine (cgo_run demo_cpp demo_cgo_json demo_calls ?s0)) = None"
    by (simp add: demo_calls_def cgo_run_def closed_and_collected)
  from cgo_memory_is_managed [OF ok n refl refl, of demo_cgo_json demo_calls] l c
  have "\<not> ch_fault (cg_heap (cgo_run demo_cpp demo_cgo_json demo_calls ?s0)) \<and>
    (\<exists>K. finite K \<and> card K = 2 \<and> ch_live (cg_heap (cgo_run demo_cpp demo_cgo_json demo_calls ?s0)) = K)"
    by (auto simp: engine_object_def demo_heap_def)
  with n l show ?thesis by blast
qed

end
