(* ===== verification/Ledger.thy ===== *)
theory Ledger
  imports Prelude
begin

text \<open>
  \<^verbatim>\<open>pkg/dex/engine_old.go\<close>: the asset ledger behind the escrow, balances per asset
  and account. A \<open>decimal.Decimal\<close> is a value of an ordered ring \<open>'d\<close>, in which the
  library's \<open>Add\<close>, \<open>Sub\<close>, \<open>Mul\<close> and comparisons are exact; its \<open>Div\<close> and
  \<open>Sqrt\<close>, which round, are the fields of \<open>decimal_ops\<close> and are arguments wherever the
  code uses them. A key that is missing reads as \<open>decimal.Zero\<close>.
\<close>

record 'd decimal_ops =
  dc_Div :: "'d \<Rightarrow> 'd \<Rightarrow> 'd"
  dc_Sqrt :: "'d \<Rightarrow> 'd"

datatype ledger_error = ErrAmountNotPositive | ErrInsufficientBalance

record 'd LedgerEngine =
  le_balances :: "string \<rightharpoonup> (string \<rightharpoonup> 'd)"

definition NewLedgerEngine :: "'d LedgerEngine" where
  "NewLedgerEngine = \<lparr>le_balances = Map.empty\<rparr>"

definition asset_map :: "string \<Rightarrow> 'd LedgerEngine \<Rightarrow> (string \<rightharpoonup> 'd)" where
  "asset_map assetID e = (case le_balances e assetID of None \<Rightarrow> Map.empty | Some m \<Rightarrow> m)"

text \<open>Reading a Go map of decimals.\<close>

definition read_dec :: "(string \<rightharpoonup> 'd::zero) \<Rightarrow> string \<Rightarrow> 'd" where
  "read_dec m k = (case m k of None \<Rightarrow> 0 | Some x \<Rightarrow> x)"

definition TransferAsset ::
  "string \<Rightarrow> string \<Rightarrow> string \<Rightarrow> 'd::linordered_idom \<Rightarrow> 'd LedgerEngine \<Rightarrow>
   (ledger_error + unit) \<times> 'd LedgerEngine" where
  "TransferAsset assetID frm to amount e =
     (if amount \<le> 0 then (Inl ErrAmountNotPositive, e)
      else
        let e1 = e\<lparr>le_balances := (le_balances e)(assetID \<mapsto> asset_map assetID e)\<rparr>;
            m = asset_map assetID e1
        in case m frm of
             None \<Rightarrow> (Inl ErrInsufficientBalance, e1)
           | Some fromBalance \<Rightarrow>
               if fromBalance < amount then (Inl ErrInsufficientBalance, e1)
               else
                 let m1 = m(frm \<mapsto> fromBalance - amount);
                     toBalance = read_dec m1 to;
                     m2 = m1(to \<mapsto> toBalance + amount)
                 in (Inr (), e1\<lparr>le_balances := (le_balances e1)(assetID \<mapsto> m2)\<rparr>))"

definition GetBalance :: "string \<Rightarrow> string \<Rightarrow> 'd::zero LedgerEngine \<Rightarrow> 'd" where
  "GetBalance assetID account e =
     (case le_balances e assetID of None \<Rightarrow> 0 | Some m \<Rightarrow> read_dec m account)"

definition SetBalance :: "string \<Rightarrow> string \<Rightarrow> 'd \<Rightarrow> 'd LedgerEngine \<Rightarrow> 'd LedgerEngine" where
  "SetBalance assetID account amount e =
     e\<lparr>le_balances := (le_balances e)(assetID \<mapsto> (asset_map assetID e)(account \<mapsto> amount))\<rparr>"

subsection \<open>Transfers conserve every asset\<close>

lemma GetBalance_read: "GetBalance a k e = read_dec (asset_map a e) k"
  by (simp add: GetBalance_def asset_map_def read_dec_def split: option.splits)

lemma asset_map_upd [simp]:
  "asset_map a (e\<lparr>le_balances := (le_balances e)(b \<mapsto> m)\<rparr>) = (if a = b then m else asset_map a e)"
  by (simp add: asset_map_def)

lemma read_dec_upd [simp]: "read_dec (m(k \<mapsto> x)) j = (if j = k then x else read_dec m j)"
  by (simp add: read_dec_def)

lemma TransferAsset_cases:
  obtains (err) er where "TransferAsset a f t x e = (Inl er, snd (TransferAsset a f t x e))"
    "\<And>b. asset_map b (snd (TransferAsset a f t x e)) = asset_map b e"
  | (ok) fb where "fst (TransferAsset a f t x e) = Inr ()" "0 < x" "asset_map a e f = Some fb" "x \<le> fb"
    "\<And>b. asset_map b (snd (TransferAsset a f t x e)) =
       (if b = a then ((asset_map a e)(f \<mapsto> fb - x))(t \<mapsto> read_dec ((asset_map a e)(f \<mapsto> fb - x)) t + x)
        else asset_map b e)"
proof (cases "is_ok (fst (TransferAsset a f t x e))")
  case True
  then obtain fb where "0 < x" "asset_map a e f = Some fb" "x \<le> fb"
    by (auto simp: TransferAsset_def Let_def not_le split: if_splits option.splits)
  then show thesis
    by (intro ok [of fb]) (simp_all add: TransferAsset_def Let_def)
next
  case False
  then obtain er where "fst (TransferAsset a f t x e) = Inl er"
    by (cases "fst (TransferAsset a f t x e)") auto
  moreover have "asset_map b (snd (TransferAsset a f t x e)) = asset_map b e" for b
    using False by (auto simp: TransferAsset_def Let_def split: if_splits option.splits)
  ultimately show thesis by (intro err) (simp_all add: prod_eq_iff)
qed

definition ledger_total :: "string \<Rightarrow> 'd::comm_monoid_add LedgerEngine \<Rightarrow> 'd" where
  "ledger_total a e = (\<Sum>k\<in>dom (asset_map a e). the (asset_map a e k))"

type_synonym 'd transfer = "string \<times> string \<times> string \<times> 'd"

definition ledger_step :: "'d::linordered_idom transfer \<Rightarrow> 'd LedgerEngine \<Rightarrow> 'd LedgerEngine" where
  "ledger_step t e = (case t of (a, frm, to, x) \<Rightarrow> snd (TransferAsset a frm to x e))"

definition ledger_ok :: "string \<Rightarrow> 'd::linordered_idom \<Rightarrow> 'd LedgerEngine \<Rightarrow> bool" where
  "ledger_ok a amt e \<longleftrightarrow> finite (dom (asset_map a e)) \<and> ledger_total a e = amt \<and>
     (\<forall>k x. asset_map a e k = Some x \<longrightarrow> 0 \<le> x)"

lemma ledger_step_ok [adx_inv]:
  assumes "ledger_ok a amt e" shows "ledger_ok a amt (ledger_step t e)"
proof -
  obtain b f u x where t: "t = (b, f, u, x)" by (cases t)
  show ?thesis
  proof (rule TransferAsset_cases [of b f u x e])
    assume "\<And>c. asset_map c (snd (TransferAsset b f u x e)) = asset_map c e"
    with assms show ?thesis by (simp add: ledger_ok_def ledger_step_def ledger_total_def t)
  next
    fix fb
    assume p: "0 < x" "asset_map b e f = Some fb" "x \<le> fb"
      and m: "\<And>c. asset_map c (snd (TransferAsset b f u x e)) =
        (if c = b then ((asset_map b e)(f \<mapsto> fb - x))(u \<mapsto> read_dec ((asset_map b e)(f \<mapsto> fb - x)) u + x)
         else asset_map c e)"
    show ?thesis
    proof (cases "a = b")
      case False
      with m assms show ?thesis by (simp add: ledger_ok_def ledger_step_def ledger_total_def t)
    next
      case True
      let ?m1 = "(asset_map b e)(f \<mapsto> fb - x)"
      have fin: "finite (dom (asset_map b e))" "finite (dom ?m1)"
        using assms True by (simp_all add: ledger_ok_def)
      have am: "asset_map b (ledger_step t e) = ?m1(u \<mapsto> read_dec ?m1 u + x)"
        by (simp add: ledger_step_def t m True)
      have "ledger_total a (ledger_step t e) = ledger_total a e"
        unfolding ledger_total_def True am
        by (simp only: sum_map_upd [OF fin(2), of "\<lambda>x. x"] sum_map_upd [OF fin(1), of "\<lambda>x. x"] p(2) option.case
            read_dec_def [symmetric])
      moreover have "0 \<le> read_dec ?m1 u" if "0 \<le> fb - x"
        using assms that True by (auto simp: ledger_ok_def read_dec_def split: option.splits)
      ultimately show ?thesis
        using assms p True fin
        by (auto simp: ledger_ok_def ledger_step_def t m split: if_splits)
    qed
  qed
qed

interpretation ledger: object_invariant ledger_step "ledger_ok a amt" for a amt
  by unfold_locales (rule ledger_step_ok)

subsection \<open>Properties\<close>

text \<open>C10: Transfers conserve money: along every run of transfers, successful or not, between
  different accounts or from an account to itself, the sum of all balances of an asset stays
  what it was and no balance becomes negative.\<close>

theorem transfers_conserve_assets:
  assumes "finite (dom (asset_map a e))"
    and "\<forall>k x. asset_map a e k = Some x \<longrightarrow> 0 \<le> x"
  shows "ledger_total a (fold ledger_step ops e) = ledger_total a e \<and>
    0 \<le> GetBalance a k (fold ledger_step ops e)"
proof -
  have "ledger_ok a (ledger_total a e) e" using assms by (simp add: ledger_ok_def)
  from ledger.run_inv [OF this, of ops]
  show ?thesis by (auto simp: ledger_ok_def GetBalance_read read_dec_def split: option.splits)
qed

theorem transfers_conserve_assets_witness:
  "ledger_total ''AUSD'' (fold ledger_step [(''AUSD'', ''a'', ''b'', 30), (''AUSD'', ''b'', ''b'', 10),
      (''AUSD'', ''b'', ''c'', 500)] (SetBalance ''AUSD'' ''a'' (100 :: int) NewLedgerEngine)) = 100"
proof -
  let ?e = "SetBalance ''AUSD'' ''a'' (100 :: int) NewLedgerEngine"
  have m: "asset_map ''AUSD'' ?e = [''a'' \<mapsto> 100]"
    by (simp add: SetBalance_def NewLedgerEngine_def asset_map_def)
  then have "ledger_total ''AUSD'' ?e = 100" by (simp add: ledger_total_def)
  then show ?thesis
    by (subst transfers_conserve_assets [THEN conjunct1]) (auto simp: m split: if_splits)
qed

end
