(* ===== verification/Escrow.thy ===== *)
theory Escrow
  imports Ledger
begin

text \<open>
  \<^verbatim>\<open>pkg/chainvm/escrow_rpc.go\<close>: campaign escrow on the AUSD ledger. \<open>VMState\<close> is
  not defined in the repository: its accessors are the fields of a record \<open>V\<close> over an
  unknown state \<open>'s\<close>, and the lemmas assume \<open>vm_ok V\<close>, that what is set is what is read
  and nothing else changes. Money and the \<open>float64\<close> viewability are values of an ordered
  ring \<open>'d\<close>; \<open>D\<close> holds the decimal library's division. \<open>now\<close> arguments are the
  values of \<open>time.Now()\<close>. A nil pointer that is dereferenced is the error \<open>EscrowPanic\<close>.
\<close>

datatype escrow_error =
    ErrNonPositiveAmount
  | ErrHoldbackTooHigh
  | ErrNotCampaignOwner
  | ErrAUSDTransfer ledger_error
  | ErrTTLTooLong
  | ErrReservationExists
  | ErrCampaignInactive
  | ErrCampaignBudget
  | ErrReservationNotFound
  | ErrAlreadySettled
  | ErrReservationExpired
  | ErrDeliveryProof string
  | ErrCampaignNotFound
  | ErrPGBudget
  | EscrowPanic

record 'd PGDeal =
  pg_ID :: string
  pg_Publisher :: string
  pg_StartTime :: time
  pg_EndTime :: time
  pg_TotalImprs :: u64
  pg_DeliveredImprs :: u64
  pg_FixedCPM :: 'd
  pg_EscrowAmount :: 'd
  pg_PenaltyRate :: 'd

record 'd Campaign =
  ca_ID :: string
  ca_Advertiser :: string
  ca_TotalBudget :: 'd
  ca_AvailableBudget :: 'd
  ca_ReservedBudget :: 'd
  ca_SpentBudget :: 'd
  ca_Active :: bool
  ca_HoldbackBps :: u16
  ca_Created :: time
  ca_GuaranteedDeals :: "'d PGDeal list"

record 'd ReservationMeta =
  rm_Placement :: string
  rm_Geo :: string
  rm_DeviceType :: string
  rm_Categories :: "string list"
  rm_Viewability :: 'd
  rm_UserHash :: string

record 'd Reservation =
  re_ID :: string
  re_CampaignID :: string
  re_Publisher :: string
  re_Amount :: 'd
  re_Expires :: time
  re_Settled :: bool
  re_Metadata :: "'d ReservationMeta"

record ('s, 'd) VMState =
  GetCampaign :: "'s \<Rightarrow> string \<Rightarrow> 'd Campaign option"
  SetCampaign :: "string \<Rightarrow> 'd Campaign \<Rightarrow> 's \<Rightarrow> 's"
  GetReservation :: "'s \<Rightarrow> string \<Rightarrow> 'd Reservation option"
  SetReservation :: "string \<Rightarrow> 'd Reservation \<Rightarrow> 's \<Rightarrow> 's"
  GetPublisherBalance :: "'s \<Rightarrow> string \<Rightarrow> 'd"
  SetPublisherBalance :: "string \<Rightarrow> 'd \<Rightarrow> 's \<Rightarrow> 's"
  AddPendingRelease :: "string \<Rightarrow> 'd \<Rightarrow> time \<Rightarrow> 's \<Rightarrow> 's"

record ('s, 'd) EscrowManager =
  em_state :: 's
  em_dex :: "'d LedgerEngine"
  em_ausdID :: string

subsection \<open>Requests and responses\<close>

record 'd FundCampaignRequest =
  fq_CampaignID :: string
  fq_Advertiser :: string
  fq_Amount :: 'd
  fq_HoldbackBps :: u16

record 'd FundCampaignResponse =
  fs_Success :: bool
  fs_NewTotalBudget :: 'd
  fs_AvailableBudget :: 'd

record 'd ReserveBudgetRequest =
  rq_ReservationID :: string
  rq_CampaignID :: string
  rq_Publisher :: string
  rq_Amount :: 'd
  rq_TTLSeconds :: u32
  rq_Metadata :: "'d ReservationMeta"

record 'd ReserveBudgetResponse =
  rs_Success :: bool
  rs_Expires :: time
  rs_RemainingBudget :: 'd

record SettleReceiptRequest =
  sq_ReservationID :: string
  sq_VerificationProof :: string

record 'd SettleReceiptResponse =
  ss_Success :: bool
  ss_PaidAmount :: 'd
  ss_HoldbackAmount :: 'd
  ss_PublisherBalance :: 'd

record 'd CreatePGDealRequest =
  pq_CampaignID :: string
  pq_DealID :: string
  pq_Publisher :: string
  pq_StartTime :: time
  pq_EndTime :: time
  pq_TotalImpressions :: u64
  pq_FixedCPM :: 'd
  pq_PenaltyRate :: 'd

record 'd CreatePGDealResponse =
  ps_Success :: bool
  ps_EscrowAmount :: 'd
  ps_DealID :: string

subsection \<open>The methods\<close>

definition transferAUSD ::
  "string \<Rightarrow> string \<Rightarrow> 'd::linordered_idom \<Rightarrow> ('s, 'd) EscrowManager \<Rightarrow>
   (ledger_error + unit) \<times> ('s, 'd) EscrowManager" where
  "transferAUSD frm to amount e =
     (case TransferAsset (em_ausdID e) frm to amount (em_dex e) of
        (r, dex') \<Rightarrow> (r, e\<lparr>em_dex := dex'\<rparr>))"

definition FundCampaign ::
  "('s, 'd::linordered_idom) VMState \<Rightarrow> time \<Rightarrow> 'd FundCampaignRequest \<Rightarrow> ('s, 'd) EscrowManager \<Rightarrow>
   (escrow_error + 'd FundCampaignResponse) \<times> ('s, 'd) EscrowManager" where
  "FundCampaign V now req e =
     (if fq_Amount req \<le> 0 then (Inl ErrNonPositiveAmount, e)
      else if fq_HoldbackBps req > 2000 then (Inl ErrHoldbackTooHigh, e)
      else
        let found = GetCampaign V (em_state e) (fq_CampaignID req);
            campaign = (case found of
              None \<Rightarrow> \<lparr>ca_ID = fq_CampaignID req, ca_Advertiser = fq_Advertiser req,
                      ca_TotalBudget = 0, ca_AvailableBudget = 0, ca_ReservedBudget = 0,
                      ca_SpentBudget = 0, ca_Active = True, ca_HoldbackBps = fq_HoldbackBps req,
                      ca_Created = now, ca_GuaranteedDeals = []\<rparr>
            | Some c \<Rightarrow> c)
        in if found \<noteq> None \<and> ca_Advertiser campaign \<noteq> fq_Advertiser req
           then (Inl ErrNotCampaignOwner, e)
           else (case transferAUSD (fq_Advertiser req) ''escrow'' (fq_Amount req) e of
              (Inl err, e1) \<Rightarrow> (Inl (ErrAUSDTransfer err), e1)
            | (Inr _, e1) \<Rightarrow>
                let campaign' = campaign
                      \<lparr>ca_TotalBudget := ca_TotalBudget campaign + fq_Amount req,
                       ca_AvailableBudget := ca_AvailableBudget campaign + fq_Amount req\<rparr>
                in (Inr \<lparr>fs_Success = True, fs_NewTotalBudget = ca_TotalBudget campaign',
                         fs_AvailableBudget = ca_AvailableBudget campaign'\<rparr>,
                    e1\<lparr>em_state := SetCampaign V (fq_CampaignID req) campaign' (em_state e1)\<rparr>)))"

definition ReserveBudget ::
  "('s, 'd::linordered_idom) VMState \<Rightarrow> time \<Rightarrow> 'd ReserveBudgetRequest \<Rightarrow> ('s, 'd) EscrowManager \<Rightarrow>
   (escrow_error + 'd ReserveBudgetResponse) \<times> ('s, 'd) EscrowManager" where
  "ReserveBudget V now req e =
     (if rq_TTLSeconds req > 10 then (Inl ErrTTLTooLong, e)
      else if rq_Amount req \<le> 0 then (Inl ErrNonPositiveAmount, e)
      else if GetReservation V (em_state e) (rq_ReservationID req) \<noteq> None
      then (Inl ErrReservationExists, e)
      else
        (case GetCampaign V (em_state e) (rq_CampaignID req) of
           None \<Rightarrow> (Inl ErrCampaignInactive, e)
         | Some campaign \<Rightarrow>
             if \<not> ca_Active campaign then (Inl ErrCampaignInactive, e)
             else if ca_AvailableBudget campaign < rq_Amount req then (Inl ErrCampaignBudget, e)
             else
               let reservation =
                     \<lparr>re_ID = rq_ReservationID req, re_CampaignID = rq_CampaignID req,
                      re_Publisher = rq_Publisher req, re_Amount = rq_Amount req,
                      re_Expires = now + uint (rq_TTLSeconds req) * second_ns,
                      re_Settled = False, re_Metadata = rq_Metadata req\<rparr>;
                   campaign' = campaign
                     \<lparr>ca_AvailableBudget := ca_AvailableBudget campaign - rq_Amount req,
                      ca_ReservedBudget := ca_ReservedBudget campaign + rq_Amount req\<rparr>
               in (Inr \<lparr>rs_Success = True, rs_Expires = re_Expires reservation,
                        rs_RemainingBudget = ca_AvailableBudget campaign'\<rparr>,
                   e\<lparr>em_state := SetReservation V (rq_ReservationID req) reservation
                       (SetCampaign V (rq_CampaignID req) campaign' (em_state e))\<rparr>)))"

text \<open>\<open>sha256.Sum256\<close> returns an array of 32 bytes, so the lengths compared are constants.\<close>

definition verifyDeliveryProof :: "string \<Rightarrow> 'd Reservation \<Rightarrow> escrow_error option" where
  "verifyDeliveryProof proof reservation =
     (let proofHashLen = (32::nat); expectedHashLen = 32
      in if length proof < 32 then Some (ErrDeliveryProof ''invalid proof format'')
         else if proofHashLen \<noteq> expectedHashLen
         then Some (ErrDeliveryProof ''proof verification failed'')
         else None)"

definition scheduleHoldbackRelease ::
  "('s, 'd) VMState \<Rightarrow> time \<Rightarrow> string \<Rightarrow> 'd \<Rightarrow> duration \<Rightarrow> ('s, 'd) EscrowManager \<Rightarrow>
   ('s, 'd) EscrowManager" where
  "scheduleHoldbackRelease V now publisher amount delay e =
     e\<lparr>em_state := AddPendingRelease V publisher amount (now + delay) (em_state e)\<rparr>"

definition SettleReceipt ::
  "('s, 'd::linordered_idom) VMState \<Rightarrow> 'd decimal_ops \<Rightarrow> time \<Rightarrow> time \<Rightarrow> SettleReceiptRequest \<Rightarrow>
   ('s, 'd) EscrowManager \<Rightarrow>
   (escrow_error + 'd SettleReceiptResponse) \<times> ('s, 'd) EscrowManager" where
  "SettleReceipt V D now1 now2 req e =
     (case GetReservation V (em_state e) (sq_ReservationID req) of
        None \<Rightarrow> (Inl ErrReservationNotFound, e)
      | Some reservation \<Rightarrow>
          if re_Settled reservation then (Inl ErrAlreadySettled, e)
          else if re_Expires reservation < now1 then (Inl ErrReservationExpired, e)
          else (case verifyDeliveryProof (sq_VerificationProof req) reservation of
            Some err \<Rightarrow> (Inl err, e)
          | None \<Rightarrow>
             (case GetCampaign V (em_state e) (re_CampaignID reservation) of
                None \<Rightarrow> (Inl EscrowPanic, e)
              | Some campaign \<Rightarrow>
                  let holdbackAmount = dc_Div D
                        (re_Amount reservation * of_int (uint (ca_HoldbackBps campaign))) (of_int 10000);
                      immediateAmount = re_Amount reservation - holdbackAmount;
                      campaign' = campaign
                        \<lparr>ca_ReservedBudget := ca_ReservedBudget campaign - re_Amount reservation,
                         ca_SpentBudget := ca_SpentBudget campaign + re_Amount reservation\<rparr>;
                      publisherBalance =
                        GetPublisherBalance V (em_state e) (re_Publisher reservation) + immediateAmount;
                      e1 = e\<lparr>em_state := SetPublisherBalance V (re_Publisher reservation)
                               publisherBalance (em_state e)\<rparr>;
                      e2 = (if holdbackAmount > 0
                            then scheduleHoldbackRelease V now2 (re_Publisher reservation)
                                   holdbackAmount (48 * 3600 * second_ns) e1
                            else e1);
                      reservation' = reservation\<lparr>re_Settled := True\<rparr>
                  in (Inr \<lparr>ss_Success = True, ss_PaidAmount = immediateAmount,
                           ss_HoldbackAmount = holdbackAmount,
                           ss_PublisherBalance = publisherBalance\<rparr>,
                      e2\<lparr>em_state := SetReservation V (sq_ReservationID req) reservation'
                          (SetCampaign V (re_CampaignID reservation) campaign' (em_state e2))\<rparr>))))"

definition CreatePGDeal ::
  "('s, 'd::linordered_idom) VMState \<Rightarrow> 'd decimal_ops \<Rightarrow> 'd CreatePGDealRequest \<Rightarrow>
   ('s, 'd) EscrowManager \<Rightarrow>
   (escrow_error + 'd CreatePGDealResponse) \<times> ('s, 'd) EscrowManager" where
  "CreatePGDeal V D req e =
     (case GetCampaign V (em_state e) (pq_CampaignID req) of
        None \<Rightarrow> (Inl ErrCampaignNotFound, e)
      | Some campaign \<Rightarrow>
          let totalCost = dc_Div D (of_int (sint (pq_TotalImpressions req)) * pq_FixedCPM req)
                            (of_int 1000);
              penaltyBuffer = totalCost * pq_PenaltyRate req;
              escrowAmount = totalCost + penaltyBuffer
          in if ca_AvailableBudget campaign < escrowAmount then (Inl ErrPGBudget, e)
             else
               let deal = \<lparr>pg_ID = pq_DealID req, pg_Publisher = pq_Publisher req,
                           pg_StartTime = pq_StartTime req, pg_EndTime = pq_EndTime req,
                           pg_TotalImprs = pq_TotalImpressions req, pg_DeliveredImprs = 0,
                           pg_FixedCPM = pq_FixedCPM req, pg_EscrowAmount = escrowAmount,
                           pg_PenaltyRate = pq_PenaltyRate req\<rparr>;
                   campaign' = campaign
                     \<lparr>ca_AvailableBudget := ca_AvailableBudget campaign - escrowAmount,
                      ca_GuaranteedDeals := ca_GuaranteedDeals campaign @ [deal]\<rparr>
               in (Inr \<lparr>ps_Success = True, ps_EscrowAmount = escrowAmount,
                        ps_DealID = pq_DealID req\<rparr>,
                   e\<lparr>em_state := SetCampaign V (pq_CampaignID req) campaign' (em_state e)\<rparr>))"

subsection \<open>The laws of the VM state\<close>

definition vm_ok :: "('s, 'd) VMState \<Rightarrow> bool" where
  "vm_ok V \<longleftrightarrow>
     (\<forall>s k c. GetCampaign V (SetCampaign V k c s) = (GetCampaign V s)(k \<mapsto> c) \<and>
        GetReservation V (SetCampaign V k c s) = GetReservation V s \<and>
        GetPublisherBalance V (SetCampaign V k c s) = GetPublisherBalance V s) \<and>
     (\<forall>s k r. GetReservation V (SetReservation V k r s) = (GetReservation V s)(k \<mapsto> r) \<and>
        GetCampaign V (SetReservation V k r s) = GetCampaign V s \<and>
        GetPublisherBalance V (SetReservation V k r s) = GetPublisherBalance V s) \<and>
     (\<forall>s p b. GetPublisherBalance V (SetPublisherBalance V p b s) = (GetPublisherBalance V s)(p := b) \<and>
        GetCampaign V (SetPublisherBalance V p b s) = GetCampaign V s \<and>
        GetReservation V (SetPublisherBalance V p b s) = GetReservation V s) \<and>
     (\<forall>s p a t. GetPublisherBalance V (AddPendingRelease V p a t s) = GetPublisherBalance V s \<and>
        GetCampaign V (AddPendingRelease V p a t s) = GetCampaign V s \<and>
        GetReservation V (AddPendingRelease V p a t s) = GetReservation V s)"

lemma vm_simps [simp]:
  assumes "vm_ok V"
  shows "GetCampaign V (SetCampaign V k c s) = (GetCampaign V s)(k \<mapsto> c)"
    "GetReservation V (SetCampaign V k c s) = GetReservation V s"
    "GetPublisherBalance V (SetCampaign V k c s) = GetPublisherBalance V s"
    "GetReservation V (SetReservation V k r s) = (GetReservation V s)(k \<mapsto> r)"
    "GetCampaign V (SetReservation V k r s) = GetCampaign V s"
    "GetPublisherBalance V (SetReservation V k r s) = GetPublisherBalance V s"
    "GetPublisherBalance V (SetPublisherBalance V p b s) = (GetPublisherBalance V s)(p := b)"
    "GetCampaign V (SetPublisherBalance V p b s) = GetCampaign V s"
    "GetReservation V (SetPublisherBalance V p b s) = GetReservation V s"
    "GetPublisherBalance V (AddPendingRelease V p a t s) = GetPublisherBalance V s"
    "GetCampaign V (AddPendingRelease V p a t s) = GetCampaign V s"
    "GetReservation V (AddPendingRelease V p a t s) = GetReservation V s"
  using assms by (simp_all add: vm_ok_def)

subsection \<open>What each method does to the books\<close>

abbreviation camps :: "('s, 'd) VMState \<Rightarrow> ('s, 'd) EscrowManager \<Rightarrow> string \<Rightarrow> 'd Campaign option" where
  "camps V e \<equiv> GetCampaign V (em_state e)"

abbreviation ress :: "('s, 'd) VMState \<Rightarrow> ('s, 'd) EscrowManager \<Rightarrow> string \<Rightarrow> 'd Reservation option" where
  "ress V e \<equiv> GetReservation V (em_state e)"

abbreviation bal :: "('s, 'd) VMState \<Rightarrow> ('s, 'd) EscrowManager \<Rightarrow> string \<Rightarrow> 'd" where
  "bal V e \<equiv> GetPublisherBalance V (em_state e)"

lemma transferAUSD_frame [simp]:
  "em_state (snd (transferAUSD a b x e)) = em_state e"
  "em_ausdID (snd (transferAUSD a b x e)) = em_ausdID e"
  by (simp_all add: transferAUSD_def split: prod.splits)

definition funded :: "'d::linordered_idom FundCampaignRequest \<Rightarrow> time \<Rightarrow> 'd Campaign option \<Rightarrow> 'd Campaign" where
  "funded req now found =
     (let c = (case found of
              None \<Rightarrow> \<lparr>ca_ID = fq_CampaignID req, ca_Advertiser = fq_Advertiser req,
                      ca_TotalBudget = 0, ca_AvailableBudget = 0, ca_ReservedBudget = 0,
                      ca_SpentBudget = 0, ca_Active = True, ca_HoldbackBps = fq_HoldbackBps req,
                      ca_Created = now, ca_GuaranteedDeals = []\<rparr>
            | Some c \<Rightarrow> c)
      in c\<lparr>ca_TotalBudget := ca_TotalBudget c + fq_Amount req,
           ca_AvailableBudget := ca_AvailableBudget c + fq_Amount req\<rparr>)"

lemma FundCampaign_cases:
  assumes "vm_ok V"
  obtains (err) er where "fst (FundCampaign V now req e) = Inl er"
      "em_state (snd (FundCampaign V now req e)) = em_state e"
  | (ok) r where "fst (FundCampaign V now req e) = Inr r"
      "0 < fq_Amount req" "fq_HoldbackBps req \<le> 2000"
      "snd (FundCampaign V now req e) = (snd (transferAUSD (fq_Advertiser req) ''escrow'' (fq_Amount req) e))
         \<lparr>em_state := SetCampaign V (fq_CampaignID req)
             (funded req now (camps V e (fq_CampaignID req))) (em_state e)\<rparr>"
      "fst (transferAUSD (fq_Advertiser req) ''escrow'' (fq_Amount req) e) = Inr ()"
proof -
  obtain tr e1 where t: "transferAUSD (fq_Advertiser req) ''escrow'' (fq_Amount req) e = (tr, e1)"
    by force
  have st: "em_state e1 = em_state e"
    using transferAUSD_frame(1) [of "fq_Advertiser req" "''escrow''" "fq_Amount req" e] t by simp
  show thesis
  proof (cases "fst (FundCampaign V now req e)")
    case (Inl er)
    then have "em_state (snd (FundCampaign V now req e)) = em_state e"
      using t st by (auto simp: FundCampaign_def Let_def split: if_splits sum.splits)
    with Inl show thesis by (rule err)
  next
    case (Inr r)
    have g: "0 < fq_Amount req" "fq_HoldbackBps req \<le> 2000" "tr = Inr ()"
      using Inr t by (auto simp: FundCampaign_def Let_def not_le not_less split: if_splits sum.splits)
    have "snd (FundCampaign V now req e) = e1\<lparr>em_state := SetCampaign V (fq_CampaignID req)
               (funded req now (camps V e (fq_CampaignID req))) (em_state e)\<rparr>"
      using Inr t g st
      by (auto simp: FundCampaign_def Let_def funded_def split: if_splits)
    with Inr g t show thesis by (intro ok [of r]) simp_all
  qed
qed

lemma ReserveBudget_cases:
  assumes "vm_ok V"
  obtains (err) er where "fst (ReserveBudget V now req e) = Inl er" "snd (ReserveBudget V now req e) = e"
  | (ok) r c rv where "fst (ReserveBudget V now req e) = Inr r" "0 < rq_Amount req"
      "ress V e (rq_ReservationID req) = None" "camps V e (rq_CampaignID req) = Some c"
      "ca_Active c" "rq_Amount req \<le> ca_AvailableBudget c"
      "camps V (snd (ReserveBudget V now req e)) = (camps V e)(rq_CampaignID req \<mapsto>
         c\<lparr>ca_AvailableBudget := ca_AvailableBudget c - rq_Amount req,
           ca_ReservedBudget := ca_ReservedBudget c + rq_Amount req\<rparr>)"
      "ress V (snd (ReserveBudget V now req e)) = (ress V e)(rq_ReservationID req \<mapsto> rv)"
      "re_CampaignID rv = rq_CampaignID req" "re_Amount rv = rq_Amount req" "\<not> re_Settled rv"
      "re_Publisher rv = rq_Publisher req"
      "re_Expires rv = now + uint (rq_TTLSeconds req) * second_ns"
      "bal V (snd (ReserveBudget V now req e)) = bal V e"
      "em_dex (snd (ReserveBudget V now req e)) = em_dex e"
proof (cases "fst (ReserveBudget V now req e)")
  case (Inl er)
  then have "snd (ReserveBudget V now req e) = e"
    by (auto simp: ReserveBudget_def Let_def split: if_splits option.splits)
  with Inl show thesis by (rule err)
next
  case (Inr r)
  then obtain c where "0 < rq_Amount req" "ress V e (rq_ReservationID req) = None"
      "camps V e (rq_CampaignID req) = Some c" "ca_Active c"
      "rq_Amount req \<le> ca_AvailableBudget c" "\<not> 10 < rq_TTLSeconds req"
    by (auto simp: ReserveBudget_def Let_def not_le not_less split: if_splits option.splits)
  then show thesis
    using Inr assms
    by (intro ok [of r c "\<lparr>re_ID = rq_ReservationID req, re_CampaignID = rq_CampaignID req,
            re_Publisher = rq_Publisher req, re_Amount = rq_Amount req,
            re_Expires = now + uint (rq_TTLSeconds req) * second_ns,
            re_Settled = False, re_Metadata = rq_Metadata req\<rparr>"])
      (simp_all add: ReserveBudget_def Let_def)
qed

lemma SettleReceipt_cases:
  assumes "vm_ok V"
  obtains (err) er where "fst (SettleReceipt V D t1 t2 req e) = Inl er" "snd (SettleReceipt V D t1 t2 req e) = e"
  | (ok) r c rv where "fst (SettleReceipt V D t1 t2 req e) = Inr r"
      "ress V e (sq_ReservationID req) = Some rv" "\<not> re_Settled rv" "t1 \<le> re_Expires rv"
      "32 \<le> length (sq_VerificationProof req)" "camps V e (re_CampaignID rv) = Some c"
      "ss_HoldbackAmount r = dc_Div D (re_Amount rv * of_int (uint (ca_HoldbackBps c))) (of_int 10000)"
      "ss_PaidAmount r = re_Amount rv - ss_HoldbackAmount r"
      "camps V (snd (SettleReceipt V D t1 t2 req e)) = (camps V e)(re_CampaignID rv \<mapsto>
         c\<lparr>ca_ReservedBudget := ca_ReservedBudget c - re_Amount rv,
           ca_SpentBudget := ca_SpentBudget c + re_Amount rv\<rparr>)"
      "ress V (snd (SettleReceipt V D t1 t2 req e)) =
         (ress V e)(sq_ReservationID req \<mapsto> rv\<lparr>re_Settled := True\<rparr>)"
      "bal V (snd (SettleReceipt V D t1 t2 req e)) =
         (bal V e)(re_Publisher rv := bal V e (re_Publisher rv) + ss_PaidAmount r)"
      "em_dex (snd (SettleReceipt V D t1 t2 req e)) = em_dex e"
proof (cases "fst (SettleReceipt V D t1 t2 req e)")
  case (Inl er)
  then have "snd (SettleReceipt V D t1 t2 req e) = e"
    by (auto simp: SettleReceipt_def Let_def split: if_splits option.splits)
  with Inl show thesis by (rule err)
next
  case (Inr r)
  then obtain c rv where g: "ress V e (sq_ReservationID req) = Some rv" "\<not> re_Settled rv"
      "t1 \<le> re_Expires rv" "32 \<le> length (sq_VerificationProof req)"
      "camps V e (re_CampaignID rv) = Some c"
    by (auto simp: SettleReceipt_def verifyDeliveryProof_def Let_def not_le not_less
        split: if_splits option.splits)
  have v: "verifyDeliveryProof (sq_VerificationProof req) rv = None"
    using g by (simp add: verifyDeliveryProof_def)
  show thesis
    by (rule ok [of r rv c])
      (use Inr g v assms in \<open>auto simp: SettleReceipt_def Let_def scheduleHoldbackRelease_def not_less\<close>)
qed

lemma CreatePGDeal_cases:
  assumes "vm_ok V"
  obtains (err) er where "fst (CreatePGDeal V D req e) = Inl er" "snd (CreatePGDeal V D req e) = e"
  | (ok) r c d where "fst (CreatePGDeal V D req e) = Inr r" "camps V e (pq_CampaignID req) = Some c"
      "pg_EscrowAmount d \<le> ca_AvailableBudget c"
      "pg_EscrowAmount d = dc_Div D (of_int (sint (pq_TotalImpressions req)) * pq_FixedCPM req) (of_int 1000)
         + dc_Div D (of_int (sint (pq_TotalImpressions req)) * pq_FixedCPM req) (of_int 1000)
            * pq_PenaltyRate req"
      "camps V (snd (CreatePGDeal V D req e)) = (camps V e)(pq_CampaignID req \<mapsto>
         c\<lparr>ca_AvailableBudget := ca_AvailableBudget c - pg_EscrowAmount d,
           ca_GuaranteedDeals := ca_GuaranteedDeals c @ [d]\<rparr>)"
      "ress V (snd (CreatePGDeal V D req e)) = ress V e" "bal V (snd (CreatePGDeal V D req e)) = bal V e"
      "em_dex (snd (CreatePGDeal V D req e)) = em_dex e"
proof (cases "fst (CreatePGDeal V D req e)")
  case (Inl er)
  then have "snd (CreatePGDeal V D req e) = e"
    by (auto simp: CreatePGDeal_def Let_def split: if_splits option.splits)
  with Inl show thesis by (rule err)
next
  case (Inr r)
  let ?cost = "dc_Div D (of_int (sint (pq_TotalImpressions req)) * pq_FixedCPM req) (of_int 1000)"
  let ?d = "\<lparr>pg_ID = pq_DealID req, pg_Publisher = pq_Publisher req,
       pg_StartTime = pq_StartTime req, pg_EndTime = pq_EndTime req,
       pg_TotalImprs = pq_TotalImpressions req, pg_DeliveredImprs = 0,
       pg_FixedCPM = pq_FixedCPM req, pg_EscrowAmount = ?cost + ?cost * pq_PenaltyRate req,
       pg_PenaltyRate = pq_PenaltyRate req\<rparr>"
  from Inr obtain c where g: "camps V e (pq_CampaignID req) = Some c"
      "?cost + ?cost * pq_PenaltyRate req \<le> ca_AvailableBudget c"
    by (auto simp: CreatePGDeal_def Let_def not_less split: if_splits option.splits)
  show thesis
    by (rule ok [of r c ?d]) (use Inr g assms in \<open>simp_all add: CreatePGDeal_def Let_def not_less\<close>)
qed

subsection \<open>The books balance\<close>

datatype 'd escrow_op =
    EFund time "'d FundCampaignRequest"
  | EReserve time "'d ReserveBudgetRequest"
  | ESettle time time SettleReceiptRequest
  | EDeal "'d CreatePGDealRequest"

fun escrow_step ::
  "('s, 'd::linordered_idom) VMState \<Rightarrow> 'd decimal_ops \<Rightarrow> 'd escrow_op \<Rightarrow>
   ('s, 'd) EscrowManager \<Rightarrow> ('s, 'd) EscrowManager" where
  "escrow_step V D (EFund now req) e = snd (FundCampaign V now req e)"
| "escrow_step V D (EReserve now req) e = snd (ReserveBudget V now req e)"
| "escrow_step V D (ESettle t1 t2 req) e = snd (SettleReceipt V D t1 t2 req e)"
| "escrow_step V D (EDeal req) e = snd (CreatePGDeal V D req e)"

text \<open>What an open reservation holds back in the campaign \<open>k\<close>.\<close>

definition open_amount :: "string \<Rightarrow> 'd::zero Reservation \<Rightarrow> 'd" where
  "open_amount k r = (if re_CampaignID r = k \<and> \<not> re_Settled r then re_Amount r else 0)"

definition reserved_for :: "(string \<rightharpoonup> 'd::comm_monoid_add Reservation) \<Rightarrow> string \<Rightarrow> 'd" where
  "reserved_for R k = (\<Sum>i\<in>dom R. open_amount k (the (R i)))"

definition in_deals :: "'d::comm_monoid_add Campaign \<Rightarrow> 'd" where
  "in_deals c = sum_list (map pg_EscrowAmount (ca_GuaranteedDeals c))"

definition campaign_ok :: "'d::linordered_idom \<Rightarrow> 'd Campaign \<Rightarrow> bool" where
  "campaign_ok res c \<longleftrightarrow> 0 \<le> ca_AvailableBudget c \<and> 0 \<le> ca_SpentBudget c \<and>
     ca_HoldbackBps c \<le> 2000 \<and> ca_ReservedBudget c = res \<and>
     ca_TotalBudget c = ca_AvailableBudget c + ca_ReservedBudget c + ca_SpentBudget c + in_deals c"

definition escrow_ok :: "('s, 'd::linordered_idom) VMState \<Rightarrow> ('s, 'd) EscrowManager \<Rightarrow> bool" where
  "escrow_ok V e \<longleftrightarrow> finite (dom (ress V e)) \<and>
     (\<forall>k c. camps V e k = Some c \<longrightarrow> campaign_ok (reserved_for (ress V e) k) c) \<and>
     (\<forall>i r. ress V e i = Some r \<longrightarrow> 0 < re_Amount r \<and> camps V e (re_CampaignID r) \<noteq> None)"

lemma reserved_for_upd:
  fixes R :: "string \<rightharpoonup> 'd::linordered_idom Reservation"
  assumes "finite (dom R)"
  shows "reserved_for (R(i \<mapsto> r)) k =
    reserved_for R k - (case R i of None \<Rightarrow> 0 | Some y \<Rightarrow> open_amount k y) + open_amount k r"
  unfolding reserved_for_def by (rule sum_map_upd [OF assms])

lemma reserved_for_nonneg:
  fixes R :: "string \<rightharpoonup> 'd::linordered_idom Reservation"
  shows "\<forall>i r. R i = Some r \<longrightarrow> 0 < re_Amount r \<Longrightarrow> 0 \<le> reserved_for R k"
  unfolding reserved_for_def by (intro sum_nonneg) (auto simp: open_amount_def less_imp_le)

lemma reserved_for_ge:
  fixes R :: "string \<rightharpoonup> 'd::linordered_idom Reservation"
  assumes "finite (dom R)" and "\<forall>i r. R i = Some r \<longrightarrow> 0 < re_Amount r" and "R i = Some r"
  shows "open_amount k r \<le> reserved_for R k"
proof -
  have "open_amount k (the (R i)) \<le> (\<Sum>j\<in>dom R. open_amount k (the (R j)))"
    by (rule member_le_sum) (use assms in \<open>auto simp: open_amount_def less_imp_le\<close>)
  with assms(3) show ?thesis by (simp add: reserved_for_def)
qed

lemma Fund_ok:
  assumes V: "vm_ok V" and ok: "escrow_ok V e"
  shows "escrow_ok V (snd (FundCampaign V now req e))"
proof (rule FundCampaign_cases [OF V, of now req e])
  assume "em_state (snd (FundCampaign V now req e)) = em_state e"
  with ok show ?thesis by (simp add: escrow_ok_def)
next
  let ?k = "fq_CampaignID req"
  assume g: "0 < fq_Amount req" "fq_HoldbackBps req \<le> 2000"
    and r: "snd (FundCampaign V now req e) =
      (snd (transferAUSD (fq_Advertiser req) ''escrow'' (fq_Amount req) e))
         \<lparr>em_state := SetCampaign V ?k (funded req now (camps V e ?k)) (em_state e)\<rparr>"
  have none: "reserved_for (ress V e) ?k = 0" if "camps V e ?k = None"
    unfolding reserved_for_def
    by (intro sum.neutral) (use ok that in \<open>force simp: escrow_ok_def open_amount_def\<close>)
  have "campaign_ok (reserved_for (ress V e) ?k) (funded req now (camps V e ?k))"
  proof (cases "camps V e ?k")
    case None
    with none g show ?thesis by (simp add: funded_def campaign_ok_def in_deals_def)
  next
    case (Some c)
    with ok have "campaign_ok (reserved_for (ress V e) ?k) c" by (simp add: escrow_ok_def)
    with g Some show ?thesis by (auto simp: funded_def campaign_ok_def in_deals_def Let_def)
  qed
  with ok V show ?thesis by (auto simp: r escrow_ok_def)
qed

lemma Reserve_ok:
  assumes V: "vm_ok V" and ok: "escrow_ok V e"
  shows "escrow_ok V (snd (ReserveBudget V now req e))"
proof (rule ReserveBudget_cases [OF V, of now req e])
  assume "snd (ReserveBudget V now req e) = e"
  with ok show ?thesis by simp
next
  let ?k = "rq_CampaignID req" and ?i = "rq_ReservationID req"
  fix c rv
  assume g: "0 < rq_Amount req" "ress V e ?i = None" "camps V e ?k = Some c"
      "rq_Amount req \<le> ca_AvailableBudget c"
    and rv: "re_CampaignID rv = ?k" "re_Amount rv = rq_Amount req" "\<not> re_Settled rv"
    and upd: "camps V (snd (ReserveBudget V now req e)) = (camps V e)(?k \<mapsto>
         c\<lparr>ca_AvailableBudget := ca_AvailableBudget c - rq_Amount req,
           ca_ReservedBudget := ca_ReservedBudget c + rq_Amount req\<rparr>)"
      "ress V (snd (ReserveBudget V now req e)) = (ress V e)(?i \<mapsto> rv)"
  have fin: "finite (dom (ress V e))" using ok by (simp add: escrow_ok_def)
  have res: "reserved_for ((ress V e)(?i \<mapsto> rv)) k =
      reserved_for (ress V e) k + (if k = ?k then rq_Amount req else 0)" for k
    using g rv by (simp add: reserved_for_upd [OF fin] open_amount_def)
  have "campaign_ok (reserved_for (ress V e) ?k) c" using ok g by (simp add: escrow_ok_def)
  then have "campaign_ok (reserved_for (ress V e) ?k + rq_Amount req)
      (c\<lparr>ca_AvailableBudget := ca_AvailableBudget c - rq_Amount req,
           ca_ReservedBudget := ca_ReservedBudget c + rq_Amount req\<rparr>)"
    using g by (simp add: campaign_ok_def in_deals_def)
  with ok g rv show ?thesis
    by (auto simp: escrow_ok_def upd res)
qed

lemma Settle_ok:
  fixes e :: "('s, 'd::linordered_idom) EscrowManager"
  assumes V: "vm_ok V" and ok: "escrow_ok V e"
  shows "escrow_ok V (snd (SettleReceipt V D t1 t2 req e))"
proof (rule SettleReceipt_cases [OF V, of D t1 t2 req e])
  assume "snd (SettleReceipt V D t1 t2 req e) = e"
  with ok show ?thesis by simp
next
  let ?i = "sq_ReservationID req"
  fix c :: "'d Campaign" and rv :: "'d Reservation"
  let ?k = "re_CampaignID rv"
  assume g: "ress V e ?i = Some rv" "\<not> re_Settled rv" "camps V e ?k = Some c"
    and upd: "camps V (snd (SettleReceipt V D t1 t2 req e)) = (camps V e)(?k \<mapsto>
         c\<lparr>ca_ReservedBudget := ca_ReservedBudget c - re_Amount rv,
           ca_SpentBudget := ca_SpentBudget c + re_Amount rv\<rparr>)"
      "ress V (snd (SettleReceipt V D t1 t2 req e)) = (ress V e)(?i \<mapsto> rv\<lparr>re_Settled := True\<rparr>)"
  have fin: "finite (dom (ress V e))" using ok by (simp add: escrow_ok_def)
  have res: "reserved_for ((ress V e)(?i \<mapsto> rv\<lparr>re_Settled := True\<rparr>)) k =
      reserved_for (ress V e) k - (if k = ?k then re_Amount rv else 0)" for k
    using g by (simp add: reserved_for_upd [OF fin] open_amount_def)
  have "campaign_ok (reserved_for (ress V e) ?k) c" "0 < re_Amount rv"
    using ok g by (auto simp: escrow_ok_def)
  then have "campaign_ok (reserved_for (ress V e) ?k - re_Amount rv)
      (c\<lparr>ca_ReservedBudget := ca_ReservedBudget c - re_Amount rv,
           ca_SpentBudget := ca_SpentBudget c + re_Amount rv\<rparr>)"
    using g by (simp add: campaign_ok_def in_deals_def)
  with ok g show ?thesis
    by (auto simp: escrow_ok_def upd res)
qed

lemma Deal_ok:
  assumes V: "vm_ok V" and ok: "escrow_ok V e"
  shows "escrow_ok V (snd (CreatePGDeal V D req e))"
proof (rule CreatePGDeal_cases [OF V, of D req e])
  assume "snd (CreatePGDeal V D req e) = e"
  with ok show ?thesis by simp
next
  fix c d
  assume g: "camps V e (pq_CampaignID req) = Some c" "pg_EscrowAmount d \<le> ca_AvailableBudget c"
    and upd: "camps V (snd (CreatePGDeal V D req e)) = (camps V e)(pq_CampaignID req \<mapsto>
         c\<lparr>ca_AvailableBudget := ca_AvailableBudget c - pg_EscrowAmount d,
           ca_GuaranteedDeals := ca_GuaranteedDeals c @ [d]\<rparr>)"
      "ress V (snd (CreatePGDeal V D req e)) = ress V e"
  have "campaign_ok (reserved_for (ress V e) (pq_CampaignID req)) c"
    using ok g by (simp add: escrow_ok_def)
  then have "campaign_ok (reserved_for (ress V e) (pq_CampaignID req))
      (c\<lparr>ca_AvailableBudget := ca_AvailableBudget c - pg_EscrowAmount d,
           ca_GuaranteedDeals := ca_GuaranteedDeals c @ [d]\<rparr>)"
    using g by (simp add: campaign_ok_def in_deals_def)
  with ok g show ?thesis by (auto simp: escrow_ok_def upd)
qed

lemma escrow_step_ok [adx_inv]: "vm_ok V \<Longrightarrow> escrow_ok V e \<Longrightarrow> escrow_ok V (escrow_step V D op e)"
  by (cases op) (simp_all add: Fund_ok Reserve_ok Settle_ok Deal_ok)

interpretation escrow: object_invariant "escrow_step V D" "\<lambda>e. vm_ok V \<and> escrow_ok V e" for V D
  by unfold_locales (simp add: escrow_step_ok)

lemma escrow_ok_init: "camps V e = Map.empty \<Longrightarrow> ress V e = Map.empty \<Longrightarrow> escrow_ok V e"
  by (simp add: escrow_ok_def)

lemma escrow_reachable:
  assumes "vm_ok V" and "camps V e0 = Map.empty" and "ress V e0 = Map.empty"
    and "e = fold (escrow_step V D) ops e0"
  shows "escrow_ok V e"
  using escrow.run_inv [of V e0 D ops] assms escrow_ok_init by blast

subsection \<open>Reservations are settled once\<close>

text \<open>A reservation keeps its data; it can only become settled.\<close>

definition res_grows :: "('s, 'd) VMState \<Rightarrow> ('s, 'd) EscrowManager \<Rightarrow> ('s, 'd) EscrowManager \<Rightarrow> bool" where
  "res_grows V e e' \<longleftrightarrow> vm_ok V \<longrightarrow> (\<forall>i r. ress V e i = Some r \<longrightarrow>
     ress V e' i = Some r \<or> ress V e' i = Some (r\<lparr>re_Settled := True\<rparr>))"

lemma res_grows_step: "res_grows V e (escrow_step V D op e)"
  unfolding res_grows_def
proof (intro impI allI)
  fix i r
  assume V: "vm_ok V" and i: "ress V e i = Some r"
  show "ress V (escrow_step V D op e) i = Some r \<or>
      ress V (escrow_step V D op e) i = Some (r\<lparr>re_Settled := True\<rparr>)"
  proof (cases op)
    case (EFund now req)
    then show ?thesis using V i by (cases rule: FundCampaign_cases [OF V, of now req e]) simp_all
  next
    case (EReserve now req)
    then show ?thesis using i by (cases rule: ReserveBudget_cases [OF V, of now req e]) auto
  next
    case (ESettle t1 t2 req)
    then show ?thesis using i by (cases rule: SettleReceipt_cases [OF V, of D t1 t2 req e]) auto
  next
    case (EDeal req)
    then show ?thesis using i by (cases rule: CreatePGDeal_cases [OF V, of D req e]) auto
  qed
qed

interpretation escrow_log: object_relation "escrow_step V D" "res_grows V" for V D
proof unfold_locales
  show "res_grows V s s" for s by (simp add: res_grows_def)
  show "res_grows V s u" if "res_grows V s t" "res_grows V t u" for s t u
    using that unfolding res_grows_def by fastforce
qed (rule res_grows_step)

text \<open>The payments of a run: reservation, publisher, amount paid at once and amount held back.\<close>

definition payout ::
  "('s, 'd::linordered_idom) VMState \<Rightarrow> 'd decimal_ops \<Rightarrow> 'd escrow_op \<Rightarrow> ('s, 'd) EscrowManager \<Rightarrow>
   (string \<times> string \<times> 'd \<times> 'd) list" where
  "payout V D op e =
     (case op of
        ESettle t1 t2 req \<Rightarrow>
          (case fst (SettleReceipt V D t1 t2 req e) of
             Inl _ \<Rightarrow> []
           | Inr r \<Rightarrow> [(sq_ReservationID req, re_Publisher (the (ress V e (sq_ReservationID req))),
                        ss_PaidAmount r, ss_HoldbackAmount r)])
      | _ \<Rightarrow> [])"

fun payouts ::
  "('s, 'd::linordered_idom) VMState \<Rightarrow> 'd decimal_ops \<Rightarrow> 'd escrow_op list \<Rightarrow> ('s, 'd) EscrowManager \<Rightarrow>
   (string \<times> string \<times> 'd \<times> 'd) list" where
  "payouts V D [] e = []"
| "payouts V D (op # ops) e = payout V D op e @ payouts V D ops (escrow_step V D op e)"

definition paid_to :: "string \<Rightarrow> (string \<times> string \<times> 'd::comm_monoid_add \<times> 'd) list \<Rightarrow> 'd" where
  "paid_to p ps = sum_list (map (\<lambda>(i, q, paid, held). paid) (filter (\<lambda>(i, q, paid, held). q = p) ps))"

definition settled_as :: "('s, 'd::linordered_idom) VMState \<Rightarrow> ('s, 'd) EscrowManager \<Rightarrow>
    string \<times> string \<times> 'd \<times> 'd \<Rightarrow> bool" where
  "settled_as V e x = (case x of (i, p, paid, held) \<Rightarrow>
     \<exists>r. ress V e i = Some r \<and> re_Settled r \<and> re_Publisher r = p \<and> paid + held = re_Amount r)"

lemma settled_as_grows: "vm_ok V \<Longrightarrow> res_grows V e e' \<Longrightarrow> settled_as V e x \<Longrightarrow> settled_as V e' x"
  by (cases x) (fastforce simp: res_grows_def settled_as_def)

lemma payout_step:
  assumes V: "vm_ok V"
  shows "bal V (escrow_step V D op e) p = bal V e p + paid_to p (payout V D op e)"
    and "x \<in> set (payout V D op e) \<Longrightarrow> settled_as V (escrow_step V D op e) x"
    and "i \<in> fst ` set (payout V D op e) \<Longrightarrow> \<exists>r. ress V e i = Some r \<and> \<not> re_Settled r"
    and "length (payout V D op e) \<le> 1"
proof -
  have "bal V (escrow_step V D op e) p = bal V e p + paid_to p (payout V D op e) \<and>
    (x \<in> set (payout V D op e) \<longrightarrow> settled_as V (escrow_step V D op e) x) \<and>
    (i \<in> fst ` set (payout V D op e) \<longrightarrow> (\<exists>r. ress V e i = Some r \<and> \<not> re_Settled r)) \<and>
    length (payout V D op e) \<le> 1"
  proof (cases op)
    case (EFund now req)
    then show ?thesis
      using V by (cases rule: FundCampaign_cases [OF V, of now req e]) (simp_all add: payout_def paid_to_def)
  next
    case (EReserve now req)
    then show ?thesis
      by (cases rule: ReserveBudget_cases [OF V, of now req e]) (simp_all add: payout_def paid_to_def)
  next
    case (ESettle t1 t2 req)
    then show ?thesis
      by (cases rule: SettleReceipt_cases [OF V, of D t1 t2 req e])
        (simp_all add: payout_def paid_to_def settled_as_def)
  next
    case (EDeal req)
    then show ?thesis
      by (cases rule: CreatePGDeal_cases [OF V, of D req e]) (simp_all add: payout_def paid_to_def)
  qed
  then show "bal V (escrow_step V D op e) p = bal V e p + paid_to p (payout V D op e)"
    and "x \<in> set (payout V D op e) \<Longrightarrow> settled_as V (escrow_step V D op e) x"
    and "i \<in> fst ` set (payout V D op e) \<Longrightarrow> \<exists>r. ress V e i = Some r \<and> \<not> re_Settled r"
    and "length (payout V D op e) \<le> 1" by auto
qed

lemma payouts_unsettled:
  assumes V: "vm_ok V"
  shows "i \<in> fst ` set (payouts V D ops e) \<Longrightarrow> \<not> (\<exists>r. ress V e i = Some r \<and> re_Settled r)"
proof (induction ops arbitrary: e)
  case (Cons op ops)
  show ?case
  proof (cases "i \<in> fst ` set (payout V D op e)")
    case True
    from payout_step(3) [OF V True] show ?thesis by auto
  next
    case False
    with Cons.prems have "i \<in> fst ` set (payouts V D ops (escrow_step V D op e))" by auto
    from Cons.IH [OF this] res_grows_step [of V e D op] V show ?thesis
      by (fastforce simp: res_grows_def)
  qed
qed simp

lemma payouts_run:
  assumes V: "vm_ok V"
  shows "distinct (map fst (payouts V D ops e)) \<and>
    bal V (fold (escrow_step V D) ops e) p = bal V e p + paid_to p (payouts V D ops e) \<and>
    (\<forall>x\<in>set (payouts V D ops e). settled_as V (fold (escrow_step V D) ops e) x)"
proof (induction ops arbitrary: e)
  case Nil
  show ?case by (simp add: paid_to_def)
next
  case (Cons op ops)
  let ?e = "escrow_step V D op e"
  have sum: "paid_to p (xs @ ys) = paid_to p xs + paid_to p ys" for xs ys
    by (simp add: paid_to_def)
  have d1: "distinct (map fst (payout V D op e))"
    using payout_step(4) [OF V, of D op e] by (cases "payout V D op e") auto
  have "i \<notin> fst ` set (payouts V D ops ?e)" if i: "i \<in> fst ` set (payout V D op e)" for i
  proof
    assume "i \<in> fst ` set (payouts V D ops ?e)"
    moreover obtain x where "x \<in> set (payout V D op e)" "fst x = i" using i by auto
    then have "\<exists>r. ress V ?e i = Some r \<and> re_Settled r"
      using payout_step(2) [OF V, of x D op e] by (cases x) (auto simp: settled_as_def)
    ultimately show False using payouts_unsettled [OF V] by blast
  qed
  moreover have "settled_as V (fold (escrow_step V D) ops ?e) x" if "x \<in> set (payout V D op e)" for x
    using settled_as_grows [OF V escrow_log.run_rel payout_step(2) [OF V that]] by simp
  ultimately show ?case
    using Cons.IH [of ?e] d1 payout_step(1) [OF V, of D op e p] by (auto simp: sum)
qed

subsection \<open>Funding is backed by the ledger\<close>

definition accepted ::
  "('s, 'd::linordered_idom) VMState \<Rightarrow> 'd escrow_op \<Rightarrow> ('s, 'd) EscrowManager \<Rightarrow> (string \<times> 'd) list" where
  "accepted V op e =
     (case op of
        EFund now req \<Rightarrow>
          if is_ok (fst (FundCampaign V now req e)) then [(fq_CampaignID req, fq_Amount req)] else []
      | _ \<Rightarrow> [])"

fun fundings ::
  "('s, 'd::linordered_idom) VMState \<Rightarrow> 'd decimal_ops \<Rightarrow> 'd escrow_op list \<Rightarrow> ('s, 'd) EscrowManager \<Rightarrow>
   (string \<times> 'd) list" where
  "fundings V D [] e = []"
| "fundings V D (op # ops) e = accepted V op e @ fundings V D ops (escrow_step V D op e)"

definition total_of :: "('s, 'd::zero) VMState \<Rightarrow> string \<Rightarrow> ('s, 'd) EscrowManager \<Rightarrow> 'd" where
  "total_of V k e = (case camps V e k of None \<Rightarrow> 0 | Some c \<Rightarrow> ca_TotalBudget c)"

definition escrow_balance :: "('s, 'd::zero) EscrowManager \<Rightarrow> 'd" where
  "escrow_balance e = GetBalance (em_ausdID e) ''escrow'' (em_dex e)"

definition self_funding :: "'d escrow_op \<Rightarrow> bool" where
  "self_funding op = (case op of EFund now req \<Rightarrow> fq_Advertiser req = ''escrow'' | _ \<Rightarrow> False)"

lemma transferAUSD_escrow:
  assumes "a \<noteq> ''escrow''"
  shows "escrow_balance (snd (transferAUSD a ''escrow'' x e)) =
    escrow_balance e + (if is_ok (fst (transferAUSD a ''escrow'' x e)) then x else 0)"
proof (rule TransferAsset_cases [of "em_ausdID e" a "''escrow''" x "em_dex e"])
  fix er
  assume "TransferAsset (em_ausdID e) a ''escrow'' x (em_dex e) =
      (Inl er, snd (TransferAsset (em_ausdID e) a ''escrow'' x (em_dex e)))"
    and "\<And>b. asset_map b (snd (TransferAsset (em_ausdID e) a ''escrow'' x (em_dex e))) =
      asset_map b (em_dex e)"
  then show ?thesis
    by (auto simp: transferAUSD_def escrow_balance_def GetBalance_read split: prod.splits)
next
  fix fb
  assume "fst (TransferAsset (em_ausdID e) a ''escrow'' x (em_dex e)) = Inr ()"
    and "\<And>b. asset_map b (snd (TransferAsset (em_ausdID e) a ''escrow'' x (em_dex e))) =
      (if b = em_ausdID e then ((asset_map (em_ausdID e) (em_dex e))(a \<mapsto> fb - x))
         (''escrow'' \<mapsto> read_dec ((asset_map (em_ausdID e) (em_dex e))(a \<mapsto> fb - x)) ''escrow'' + x)
       else asset_map b (em_dex e))"
  with assms show ?thesis
    by (auto simp: transferAUSD_def escrow_balance_def GetBalance_read split: prod.splits)
qed

lemma sum_keyed_append:
  "sum_list (map snd (filter (\<lambda>x. fst x = k) (xs @ ys))) =
   sum_list (map snd (filter (\<lambda>x. fst x = k) xs)) + sum_list (map snd (filter (\<lambda>x. fst x = k) ys))"
  for xs :: "('k \<times> 'd::comm_monoid_add) list"
  by simp

lemma fund_step:
  assumes V: "vm_ok V" and op: "\<not> self_funding op"
  shows "escrow_balance (escrow_step V D op e) = escrow_balance e + sum_list (map snd (accepted V op e)) \<and>
    total_of V k (escrow_step V D op e) =
      total_of V k e + sum_list (map snd (filter (\<lambda>x. fst x = k) (accepted V op e)))"
proof (cases op)
  case (EFund now req)
  with op have a: "fq_Advertiser req \<noteq> ''escrow''" by (simp add: self_funding_def)
  show ?thesis
  proof (cases "is_ok (fst (FundCampaign V now req e))")
    case True
    then show ?thesis
      using transferAUSD_escrow [OF a, of "fq_Amount req" e] V EFund
      by (cases rule: FundCampaign_cases [OF V, of now req e])
        (auto simp: accepted_def escrow_balance_def total_of_def funded_def Let_def split: option.splits)
  next
    case False
    have "fst (transferAUSD (fq_Advertiser req) ''escrow'' (fq_Amount req) e) = Inr () \<Longrightarrow>
        snd (FundCampaign V now req e) = e"
      using False by (auto simp: FundCampaign_def Let_def split: if_splits prod.splits sum.splits)
    moreover have "snd (FundCampaign V now req e) =
        snd (transferAUSD (fq_Advertiser req) ''escrow'' (fq_Amount req) e) \<or>
        snd (FundCampaign V now req e) = e"
      using False by (auto simp: FundCampaign_def Let_def split: if_splits prod.splits sum.splits)
    moreover have "escrow_balance (snd (transferAUSD (fq_Advertiser req) ''escrow'' (fq_Amount req) e)) =
        escrow_balance e"
      if "fst (transferAUSD (fq_Advertiser req) ''escrow'' (fq_Amount req) e) \<noteq> Inr ()"
    proof -
      have "\<not> is_ok (fst (transferAUSD (fq_Advertiser req) ''escrow'' (fq_Amount req) e))"
        using that by (cases "fst (transferAUSD (fq_Advertiser req) ''escrow'' (fq_Amount req) e)") auto
      with transferAUSD_escrow [OF a, of "fq_Amount req" e] show ?thesis by simp
    qed
    ultimately have "escrow_balance (snd (FundCampaign V now req e)) = escrow_balance e" by metis
    moreover have "em_state (snd (FundCampaign V now req e)) = em_state e"
      using False by (cases rule: FundCampaign_cases [OF V, of now req e]) simp_all
    ultimately show ?thesis using EFund False by (simp add: accepted_def total_of_def)
  qed
next
  case (EReserve now req)
  have "em_ausdID (snd (ReserveBudget V now req e)) = em_ausdID e"
    by (auto simp: ReserveBudget_def Let_def split: option.splits)
  with EReserve show ?thesis
    by (cases rule: ReserveBudget_cases [OF V, of now req e])
      (auto simp: accepted_def total_of_def escrow_balance_def)
next
  case (ESettle t1 t2 req)
  have "em_ausdID (snd (SettleReceipt V D t1 t2 req e)) = em_ausdID e"
    by (auto simp: SettleReceipt_def scheduleHoldbackRelease_def Let_def split: option.splits)
  with ESettle show ?thesis
    by (cases rule: SettleReceipt_cases [OF V, of D t1 t2 req e])
      (auto simp: accepted_def total_of_def escrow_balance_def)
next
  case (EDeal req)
  have "em_ausdID (snd (CreatePGDeal V D req e)) = em_ausdID e"
    by (auto simp: CreatePGDeal_def Let_def split: option.splits)
  with EDeal show ?thesis
    by (cases rule: CreatePGDeal_cases [OF V, of D req e])
      (auto simp: accepted_def total_of_def escrow_balance_def)
qed

lemma fund_run:
  assumes V: "vm_ok V"
  shows "\<forall>op\<in>set ops. \<not> self_funding op \<Longrightarrow>
    escrow_balance (fold (escrow_step V D) ops e) =
      escrow_balance e + sum_list (map snd (fundings V D ops e)) \<and>
    total_of V k (fold (escrow_step V D) ops e) =
      total_of V k e + sum_list (map snd (filter (\<lambda>x. fst x = k) (fundings V D ops e)))"
proof (induction ops arbitrary: e)
  case (Cons op ops)
  then have "\<not> self_funding op" by simp
  from fund_step [OF V this, of D e k] Cons.IH [of "escrow_step V D op e"] Cons.prems
  show ?case by (simp add: add.assoc)
qed simp

subsection \<open>Expired reservations\<close>

definition settles_after :: "time \<Rightarrow> 'd escrow_op \<Rightarrow> bool" where
  "settles_after t op = (case op of ESettle t1 t2 req \<Rightarrow> t < t1 | _ \<Rightarrow> True)"

lemma expired_step:
  assumes V: "vm_ok V" and i: "ress V e i = Some r" and op: "settles_after (re_Expires r) op"
  shows "ress V (escrow_step V D op e) i = Some r"
proof (cases op)
  case (EFund now req)
  then show ?thesis using V i by (cases rule: FundCampaign_cases [OF V, of now req e]) simp_all
next
  case (EReserve now req)
  then show ?thesis using i by (cases rule: ReserveBudget_cases [OF V, of now req e]) auto
next
  case (ESettle t1 t2 req)
  then show ?thesis
    using i op by (cases rule: SettleReceipt_cases [OF V, of D t1 t2 req e])
      (auto simp: settles_after_def)
next
  case (EDeal req)
  then show ?thesis using i by (cases rule: CreatePGDeal_cases [OF V, of D req e]) auto
qed

lemma expired_run:
  assumes V: "vm_ok V"
  shows "ress V e i = Some r \<Longrightarrow> \<forall>op\<in>set ops. settles_after (re_Expires r) op \<Longrightarrow>
    ress V (fold (escrow_step V D) ops e) i = Some r"
  by (induction ops arbitrary: e) (simp_all add: expired_step [OF V])

text \<open>Any string of 32 characters passes for a proof of delivery.\<close>

lemma verifyDeliveryProof_length: "verifyDeliveryProof p r = None \<longleftrightarrow> 32 \<le> length p"
  by (simp add: verifyDeliveryProof_def)

text \<open>Nothing bounds the terms of a deal from below: a negative cost is a deal that raises the
  available budget.\<close>

lemma negative_deal_raises_budget:
  fixes V :: "('s, 'd::linordered_idom) VMState"
  defines "cost D req \<equiv> dc_Div D (of_int (sint (pq_TotalImpressions req)) * pq_FixedCPM req) (of_int 1000 :: 'd)"
  assumes V: "vm_ok V" and c: "camps V e (pq_CampaignID req) = Some c" and "0 \<le> ca_AvailableBudget c"
    and neg: "cost D req + cost D req * pq_PenaltyRate req < 0"
  shows "\<exists>c'. camps V (snd (CreatePGDeal V D req e)) (pq_CampaignID req) = Some c' \<and>
    ca_AvailableBudget c < ca_AvailableBudget c' \<and> ca_TotalBudget c' = ca_TotalBudget c"
  using assms by (simp add: CreatePGDeal_def Let_def not_less)

subsection \<open>Properties\<close>

type_synonym 'd demo_vm = "(string \<rightharpoonup> 'd Campaign) \<times> (string \<rightharpoonup> 'd Reservation) \<times> (string \<Rightarrow> 'd)"

definition map_vm :: "('d demo_vm, 'd) VMState" where
  "map_vm =
     \<lparr>GetCampaign = (\<lambda>(c, r, b). c), SetCampaign = (\<lambda>k x (c, r, b). (c(k \<mapsto> x), r, b)),
      GetReservation = (\<lambda>(c, r, b). r), SetReservation = (\<lambda>k x (c, r, b). (c, r(k \<mapsto> x), b)),
      GetPublisherBalance = (\<lambda>(c, r, b). b), SetPublisherBalance = (\<lambda>k x (c, r, b). (c, r, b(k := x))),
      AddPendingRelease = (\<lambda>p a t s. s)\<rparr>"

lemma map_vm_ok: "vm_ok map_vm"
  by (simp add: vm_ok_def map_vm_def split: prod.splits)

definition int_ops :: "int decimal_ops" where
  "int_ops = \<lparr>dc_Div = (div), dc_Sqrt = id\<rparr>"

definition demo_escrow :: "(int demo_vm, int) EscrowManager" where
  "demo_escrow = \<lparr>em_state = (Map.empty, Map.empty, \<lambda>_. 0),
     em_dex = SetBalance ''AUSD'' ''brand'' 1000 NewLedgerEngine, em_ausdID = ''AUSD''\<rparr>"

definition demo_meta :: "int ReservationMeta" where
  "demo_meta = \<lparr>rm_Placement = ''ctv'', rm_Geo = ''US'', rm_DeviceType = ''tv'',
     rm_Categories = [], rm_Viewability = 70, rm_UserHash = []\<rparr>"

definition demo_fund :: "int escrow_op" where
  "demo_fund = EFund 0 \<lparr>fq_CampaignID = ''c'', fq_Advertiser = ''brand'', fq_Amount = 600,
     fq_HoldbackBps = 1000\<rparr>"

definition demo_reserve :: "string \<Rightarrow> int \<Rightarrow> int escrow_op" where
  "demo_reserve i x = EReserve 0 \<lparr>rq_ReservationID = i, rq_CampaignID = ''c'', rq_Publisher = ''pub'',
     rq_Amount = x, rq_TTLSeconds = 2, rq_Metadata = demo_meta\<rparr>"

definition demo_settle :: "string \<Rightarrow> int escrow_op" where
  "demo_settle i = ESettle 5 6 \<lparr>sq_ReservationID = i, sq_VerificationProof = replicate 32 CHR ''x''\<rparr>"

definition demo_escrow_ops :: "int escrow_op list" where
  "demo_escrow_ops = [demo_fund, demo_reserve ''r1'' 100, demo_reserve ''r2'' 50,
     demo_settle ''r1'', demo_settle ''r1'']"

lemmas escrow_eval = demo_escrow_ops_def demo_fund_def demo_reserve_def demo_settle_def
  demo_escrow_def map_vm_def int_ops_def FundCampaign_def ReserveBudget_def SettleReceipt_def
  verifyDeliveryProof_def scheduleHoldbackRelease_def transferAUSD_def TransferAsset_def
  asset_map_def read_dec_def SetBalance_def NewLedgerEngine_def second_ns_def Let_def

lemma demo_escrow_run:
  "camps map_vm (fold (escrow_step map_vm int_ops) demo_escrow_ops demo_escrow) ''c'' =
     Some \<lparr>ca_ID = ''c'', ca_Advertiser = ''brand'', ca_TotalBudget = 600, ca_AvailableBudget = 450,
       ca_ReservedBudget = 50, ca_SpentBudget = 100, ca_Active = True, ca_HoldbackBps = 1000,
       ca_Created = 0, ca_GuaranteedDeals = []\<rparr>"
  by (simp add: escrow_eval)

lemma demo_escrow_init: "camps map_vm demo_escrow = Map.empty" "ress map_vm demo_escrow = Map.empty"
  by (simp_all add: escrow_eval)

text \<open>C3: The books of the escrow balance: whatever calls an escrow manager has served since its
  state was empty, the total of every campaign is what is available, reserved, spent and locked
  in guaranteed deals; the reserved amount is the sum of the campaign's open reservations; no
  part is negative; and the holdback is at most 20 percent.\<close>

theorem escrow_books_balance:
  assumes "vm_ok V" and "camps V e0 = Map.empty" and "ress V e0 = Map.empty"
    and "e = fold (escrow_step V D) ops e0" and "camps V e k = Some c"
  shows "ca_TotalBudget c = ca_AvailableBudget c + ca_ReservedBudget c + ca_SpentBudget c + in_deals c
    \<and> ca_ReservedBudget c = reserved_for (ress V e) k \<and> 0 \<le> ca_AvailableBudget c
    \<and> 0 \<le> ca_ReservedBudget c \<and> 0 \<le> ca_SpentBudget c \<and> ca_HoldbackBps c \<le> 2000"
proof -
  have ok: "escrow_ok V e" by (rule escrow_reachable [OF assms(1-4)])
  then have "0 \<le> reserved_for (ress V e) k"
    by (intro reserved_for_nonneg) (simp add: escrow_ok_def)
  moreover have "campaign_ok (reserved_for (ress V e) k) c" using ok assms(5) by (simp add: escrow_ok_def)
  ultimately show ?thesis by (simp add: campaign_ok_def)
qed

theorem escrow_books_balance_witness:
  "reserved_for (ress map_vm (fold (escrow_step map_vm int_ops) demo_escrow_ops demo_escrow)) ''c'' = 50"
  using escrow_books_balance [OF map_vm_ok demo_escrow_init refl demo_escrow_run] by simp

text \<open>C6: A reservation is paid at most once and in full: over any run no reservation is
  settled twice, a publisher's balance grows by exactly the amounts paid to it, and for every
  payment the part paid at once and the part held back add up to the reserved amount.\<close>

theorem reservations_are_paid_once:
  assumes "vm_ok V"
  shows "distinct (map fst (payouts V D ops e)) \<and>
    bal V (fold (escrow_step V D) ops e) p = bal V e p + paid_to p (payouts V D ops e) \<and>
    (\<forall>(i, q, paid, held)\<in>set (payouts V D ops e).
       \<exists>r. ress V (fold (escrow_step V D) ops e) i = Some r \<and> re_Settled r \<and> re_Publisher r = q \<and>
           paid + held = re_Amount r)"
  using payouts_run [OF assms, of D ops e p] by (auto simp: settled_as_def)

lemma demo_payouts: "payouts map_vm int_ops demo_escrow_ops demo_escrow = [(''r1'', ''pub'', 90, 10)]"
  by (simp add: escrow_eval payout_def)

theorem reservations_are_paid_once_witness:
  "bal map_vm (fold (escrow_step map_vm int_ops) demo_escrow_ops demo_escrow) ''pub'' = 90"
  using reservations_are_paid_once [OF map_vm_ok, of int_ops demo_escrow_ops demo_escrow "''pub''"]
  unfolding demo_payouts by (simp add: paid_to_def demo_escrow_def map_vm_def)

text \<open>Campaign money is in the escrow account: as long as the escrow account does not fund
  a campaign itself, its ledger balance grows by exactly the accepted funding amounts, and the
  total of each campaign by the ones accepted for it.\<close>

theorem campaign_funds_are_in_escrow:
  assumes "vm_ok V" and "\<forall>op\<in>set ops. \<not> self_funding op"
  shows "escrow_balance (fold (escrow_step V D) ops e) =
      escrow_balance e + sum_list (map snd (fundings V D ops e)) \<and>
    total_of V k (fold (escrow_step V D) ops e) =
      total_of V k e + sum_list (map snd (filter (\<lambda>x. fst x = k) (fundings V D ops e)))"
  by (rule fund_run [OF assms])

lemma demo_fundings:
  "fundings map_vm int_ops demo_escrow_ops demo_escrow = [(''c'', 600)]"
  by (simp add: escrow_eval accepted_def)

theorem campaign_funds_are_in_escrow_witness:
  "escrow_balance (fold (escrow_step map_vm int_ops) demo_escrow_ops demo_escrow) = 600"
proof -
  have "\<forall>op\<in>set demo_escrow_ops. \<not> self_funding op"
    by (simp add: demo_escrow_ops_def demo_fund_def demo_reserve_def demo_settle_def self_funding_def)
  moreover have "escrow_balance demo_escrow = 0"
    by (simp add: escrow_balance_def demo_escrow_def SetBalance_def NewLedgerEngine_def
        GetBalance_def read_dec_def asset_map_def)
  ultimately show ?thesis
    using campaign_funds_are_in_escrow [OF map_vm_ok, of demo_escrow_ops int_ops demo_escrow]
    by (simp add: demo_fundings)
qed

text \<open>An expired reservation locks its budget for ever: once the time of a reservation has
  passed it is never settled and no call releases it, so the campaign's reserved budget stays at
  least its amount whatever happens later.\<close>

theorem expired_reservation_locks_budget:
  assumes "vm_ok V" and "camps V e0 = Map.empty" and "ress V e0 = Map.empty"
    and "e = fold (escrow_step V D) pre e0"
    and "ress V e i = Some r" and "\<not> re_Settled r"
    and "\<forall>op\<in>set ops. settles_after (re_Expires r) op"
  shows "ress V (fold (escrow_step V D) ops e) i = Some r \<and>
    (\<exists>c. camps V (fold (escrow_step V D) ops e) (re_CampaignID r) = Some c \<and>
       re_Amount r \<le> ca_ReservedBudget c)"
proof -
  let ?e = "fold (escrow_step V D) ops e"
  have "escrow_ok V e" by (rule escrow_reachable [OF assms(1-4)])
  then have ok: "escrow_ok V ?e" using escrow.run_inv [of V e D ops] assms(1) by simp
  have i: "ress V ?e i = Some r" by (rule expired_run [OF assms(1,5,7)])
  with ok obtain c where c: "camps V ?e (re_CampaignID r) = Some c"
    unfolding escrow_ok_def by blast
  have "open_amount (re_CampaignID r) r \<le> reserved_for (ress V ?e) (re_CampaignID r)"
    using ok i by (intro reserved_for_ge) (auto simp: escrow_ok_def)
  moreover have "ca_ReservedBudget c = reserved_for (ress V ?e) (re_CampaignID r)"
    using ok c by (simp add: escrow_ok_def campaign_ok_def)
  ultimately show ?thesis using i c assms(6) by (simp add: open_amount_def)
qed

theorem expired_reservation_locks_budget_witness:
  "\<exists>c. camps map_vm (fold (escrow_step map_vm int_ops)
      [ESettle 3000000000 3000000000 \<lparr>sq_ReservationID = ''r2'', sq_VerificationProof = replicate 40 CHR ''x''\<rparr>]
      (fold (escrow_step map_vm int_ops) demo_escrow_ops demo_escrow)) ''c'' = Some c \<and>
    50 \<le> ca_ReservedBudget c"
proof -
  let ?r = "\<lparr>re_ID = ''r2'', re_CampaignID = ''c'', re_Publisher = ''pub'', re_Amount = 50,
    re_Expires = 2000000000, re_Settled = False, re_Metadata = demo_meta\<rparr>"
  have "ress map_vm (fold (escrow_step map_vm int_ops) demo_escrow_ops demo_escrow) ''r2'' = Some ?r"
    by (simp add: escrow_eval)
  from expired_reservation_locks_budget [OF map_vm_ok demo_escrow_init refl this, of
      "[ESettle 3000000000 3000000000 \<lparr>sq_ReservationID = ''r2'', sq_VerificationProof = replicate 40 CHR ''x''\<rparr>]"]
  show ?thesis by (simp add: settles_after_def)
qed

end
