(* ===== verification/Ausd.thy ===== *)
theory Ausd
  imports Complex_Main Escrow Ids
begin

text \<open>
  \<^verbatim>\<open>pkg/settlement/ausd_settlement.go\<close>: reservations for won impressions, delivery
  proofs, settlement and its metrics, on top of the escrow. \<open>V\<close> and \<open>D\<close> are the VM
  state and the decimal library of the escrow; \<open>sha\<close> is SHA-256; \<open>fmt\<close> is the
  minute format of a time. Decimals and \<open>float64\<close> scores are values of an ordered
  field. The ad-slot manager the settlement holds is never used and left out.
\<close>

datatype ausd_error =
    ErrReservationFailed escrow_error
  | ErrInvalidDeliveryProof string
  | ErrLowViewability
  | ErrEscrowSettlement escrow_error
  | ErrSettlementFailed ausd_error
  | ErrPGDeal escrow_error

record 'd SettlementMetrics =
  sm_DSO :: 'd
  sm_BadDebtRate :: 'd
  sm_DeductionRate :: 'd
  sm_AvgSettlementTime :: duration
  sm_DisputeRate :: 'd
  sm_FillRate :: 'd
  sm_NetECPMUplift :: 'd
  sm_TotalVolumeAUSD :: 'd
  sm_ActiveCampaigns :: u64
  sm_ActivePublishers :: u64
  sm_RealTimePayouts :: u64

text \<open>A \<open>float64\<close> as the viewability score has it, up to rounding: a comparison with NaN is
  false.\<close>

datatype 'd float64 = Finite 'd | PosInf | NegInf | NaN

fun fl_less :: "'d::linorder float64 \<Rightarrow> 'd float64 \<Rightarrow> bool" where
  "fl_less (Finite x) (Finite y) = (x < y)"
| "fl_less (Finite x) PosInf = True"
| "fl_less NegInf (Finite y) = True"
| "fl_less NegInf PosInf = True"
| "fl_less _ _ = False"

record 'd DeliveryProof =
  dp_ImpressionID :: string
  dp_ReservationID :: string
  dp_VRFNonce :: string
  dp_ViewabilityScore :: "'d float64"
  dp_TimeInView :: u64
  dp_PlayerSignature :: string
  dp_CDNSignature :: string
  dp_MeasurementAttest :: string
  dp_Timestamp :: time
  dp_UserHash :: string

record 'd DeliveryOracle =
  do_witnesses :: "string \<rightharpoonup> 'd DeliveryProof list"
  do_roots :: "string \<rightharpoonup> string"

record ('s, 'd) AUSDSettlement =
  st_escrow :: "('s, 'd) EscrowManager"
  st_oracle :: "'d DeliveryOracle"
  st_metrics :: "'d SettlementMetrics"

definition NewAUSDSettlement :: "('s, 'd::linordered_field) EscrowManager \<Rightarrow> ('s, 'd) AUSDSettlement" where
  "NewAUSDSettlement escrow =
     \<lparr>st_escrow = escrow,
      st_oracle = \<lparr>do_witnesses = Map.empty, do_roots = Map.empty\<rparr>,
      st_metrics = \<lparr>sm_DSO = 0, sm_BadDebtRate = 0, sm_DeductionRate = 0, sm_AvgSettlementTime = 0,
        sm_DisputeRate = 0, sm_FillRate = 0, sm_NetECPMUplift = 0, sm_TotalVolumeAUSD = 0,
        sm_ActiveCampaigns = 0, sm_ActivePublishers = 0, sm_RealTimePayouts = 0\<rparr>\<rparr>"

subsection \<open>Requests and responses\<close>

record 'd ImpressionWinRequest =
  iq_ReservationID :: string
  iq_CampaignID :: string
  iq_Publisher :: string
  iq_WinPrice :: 'd
  iq_Placement :: string
  iq_UserGeo :: string
  iq_DeviceType :: string
  iq_Categories :: "string list"
  iq_MinViewability :: 'd
  iq_UserHash :: string

record 'd ImpressionWinResponse =
  is_Success :: bool
  is_ReservationID :: string
  is_ImpressionID :: string
  is_ExpiresAt :: time
  is_WinPrice :: 'd
  is_TrackingPixel :: string

record DeliveryProofResponse =
  dr_Success :: bool
  dr_Settled :: bool
  dr_SettledAt :: "time option"
  dr_Message :: string

record 'd PGDealRequest =
  gq_CampaignID :: string
  gq_DealID :: string
  gq_Publisher :: string
  gq_StartTime :: time
  gq_EndTime :: time
  gq_TotalImpressions :: u64
  gq_FixedCPM :: 'd
  gq_PenaltyRate :: 'd

record 'd PGTerms =
  gt_AutoPenalty :: bool
  gt_PenaltyRate :: 'd
  gt_DeliveryWindow :: duration
  gt_PaymentTerms :: string
  gt_DisputeWindow :: duration

record 'd PGDealResponse =
  gs_Success :: bool
  gs_DealID :: string
  gs_EscrowAmount :: 'd
  gs_Terms :: "'d PGTerms"

subsection \<open>Helpers\<close>

definition str_hash :: "(bytes \<Rightarrow> bytes) \<Rightarrow> string list \<Rightarrow> string" where
  "str_hash sha parts = hex_encode (sha (map of_char (concat parts)))"

text \<open>\<open>now\<close> is the text of \<open>time.Now()\<close>.\<close>

definition generateImpressionID :: "(bytes \<Rightarrow> bytes) \<Rightarrow> string \<Rightarrow> string \<Rightarrow> string \<Rightarrow> string \<Rightarrow> string" where
  "generateImpressionID sha now reservationID publisher userHash =
     take 16 (str_hash sha [reservationID, publisher, userHash, now])"

definition generateTrackingPixel :: "string \<Rightarrow> string" where
  "generateTrackingPixel impressionID =
     ''https://track.adx.com/pixel/'' @ impressionID @ ''.gif''"

definition validateDeliveryProof :: "time \<Rightarrow> 'd::linordered_field DeliveryProof \<Rightarrow> ausd_error option" where
  "validateDeliveryProof now proof =
     (if length (dp_VRFNonce proof) < 32 then Some (ErrInvalidDeliveryProof ''invalid VRF nonce'')
      else if dp_PlayerSignature proof = '''' \<or> dp_CDNSignature proof = ''''
      then Some (ErrInvalidDeliveryProof ''missing required signatures'')
      else if fl_less (dp_ViewabilityScore proof) (Finite 0) \<or> fl_less (Finite 100) (dp_ViewabilityScore proof)
      then Some (ErrInvalidDeliveryProof ''invalid viewability score'')
      else if now - dp_Timestamp proof > 5 * 60 * second_ns
      then Some (ErrInvalidDeliveryProof ''proof too old'')
      else None)"

definition createVerificationHash :: "(bytes \<Rightarrow> bytes) \<Rightarrow> 'd DeliveryProof \<Rightarrow> string" where
  "createVerificationHash sha proof =
     str_hash sha [dp_ImpressionID proof, dp_VRFNonce proof, dp_PlayerSignature proof,
                   dp_CDNSignature proof]"

text \<open>The zero time of \<open>Truncate\<close> lies a multiple of 15 minutes before the epoch.\<close>

definition getImpressionBucket :: "(time \<Rightarrow> string) \<Rightarrow> time \<Rightarrow> string" where
  "getImpressionBucket fmt timestamp = fmt (timestamp - timestamp mod (15 * 60 * second_ns))"

definition getRequiredConfirmations :: nat where
  "getRequiredConfirmations = 2"

definition calculateMerkleRoot :: "(bytes \<Rightarrow> bytes) \<Rightarrow> 'd DeliveryProof list \<Rightarrow> string" where
  "calculateMerkleRoot sha proofs = str_hash sha (map dp_ImpressionID proofs)"

definition updateSettlementMetrics ::
  "'d::linordered_field decimal_ops \<Rightarrow> u64 \<Rightarrow> 'd \<Rightarrow> nat \<Rightarrow> ('s, 'd) AUSDSettlement \<Rightarrow> ('s, 'd) AUSDSettlement" where
  "updateSettlementMetrics D settled revenue n s =
     (let m = st_metrics s;
          m1 = (if n > 0
                then let fillRate = dc_Div D (of_int (sint settled)) (of_nat n)
                     in m\<lparr>sm_FillRate := dc_Div D (sm_FillRate m + fillRate) 2\<rparr>
                else m)
      in s\<lparr>st_metrics := m1\<lparr>sm_TotalVolumeAUSD := sm_TotalVolumeAUSD m1 + revenue\<rparr>\<rparr>)"

subsection \<open>The methods\<close>

definition settleImpression ::
  "('s, 'd::linordered_field) VMState \<Rightarrow> 'd decimal_ops \<Rightarrow> (bytes \<Rightarrow> bytes) \<Rightarrow> time \<Rightarrow> time \<Rightarrow>
   'd DeliveryProof \<Rightarrow> ('s, 'd) AUSDSettlement \<Rightarrow> (ausd_error + unit) \<times> ('s, 'd) AUSDSettlement" where
  "settleImpression V D sha t1 t2 proof s =
     (if fl_less (dp_ViewabilityScore proof) (Finite 70) then (Inl ErrLowViewability, s)
      else
        let verificationHash = createVerificationHash sha proof;
            settleReq = \<lparr>sq_ReservationID = dp_ReservationID proof,
                         sq_VerificationProof = verificationHash\<rparr>
        in (case SettleReceipt V D t1 t2 settleReq (st_escrow s) of
              (Inl err, e) \<Rightarrow> (Inl (ErrEscrowSettlement err), s\<lparr>st_escrow := e\<rparr>)
            | (Inr settleResp, e) \<Rightarrow>
                let m = st_metrics s
                in (Inr (), s\<lparr>st_escrow := e,
                      st_metrics := m\<lparr>sm_RealTimePayouts := sm_RealTimePayouts m + 1,
                        sm_TotalVolumeAUSD := sm_TotalVolumeAUSD m + ss_PaidAmount settleResp\<rparr>\<rparr>)))"

definition win_reserve :: "'d ImpressionWinRequest \<Rightarrow> 'd ReserveBudgetRequest" where
  "win_reserve req =
     \<lparr>rq_ReservationID = iq_ReservationID req, rq_CampaignID = iq_CampaignID req,
       rq_Publisher = iq_Publisher req, rq_Amount = iq_WinPrice req, rq_TTLSeconds = 2,
       rq_Metadata = \<lparr>rm_Placement = iq_Placement req, rm_Geo = iq_UserGeo req,
         rm_DeviceType = iq_DeviceType req, rm_Categories = iq_Categories req,
         rm_Viewability = iq_MinViewability req, rm_UserHash = iq_UserHash req\<rparr>\<rparr>"

definition ProcessImpressionWin ::
  "('s, 'd::linordered_field) VMState \<Rightarrow> (bytes \<Rightarrow> bytes) \<Rightarrow> time \<Rightarrow> string \<Rightarrow> 'd ImpressionWinRequest \<Rightarrow>
   ('s, 'd) AUSDSettlement \<Rightarrow> (ausd_error + 'd ImpressionWinResponse) \<times> ('s, 'd) AUSDSettlement" where
  "ProcessImpressionWin V sha now nowtext req s =
     (let reserveReq = win_reserve req
      in (case ReserveBudget V now reserveReq (st_escrow s) of
            (Inl err, e) \<Rightarrow> (Inl (ErrReservationFailed err), s\<lparr>st_escrow := e\<rparr>)
          | (Inr reserveResp, e) \<Rightarrow>
              let impressionID = generateImpressionID sha nowtext (iq_ReservationID req)
                    (iq_Publisher req) (iq_UserHash req)
              in (Inr \<lparr>is_Success = True, is_ReservationID = iq_ReservationID req,
                       is_ImpressionID = impressionID, is_ExpiresAt = rs_Expires reserveResp,
                       is_WinPrice = iq_WinPrice req,
                       is_TrackingPixel = generateTrackingPixel impressionID\<rparr>,
                  s\<lparr>st_escrow := e\<rparr>)))"

definition pending_proofs :: "string \<Rightarrow> ('s, 'd) AUSDSettlement \<Rightarrow> 'd DeliveryProof list" where
  "pending_proofs b s = (case do_witnesses (st_oracle s) b of None \<Rightarrow> [] | Some ps \<Rightarrow> ps)"

definition SubmitDeliveryProof ::
  "('s, 'd::linordered_field) VMState \<Rightarrow> 'd decimal_ops \<Rightarrow> (bytes \<Rightarrow> bytes) \<Rightarrow> (time \<Rightarrow> string) \<Rightarrow>
   time \<Rightarrow> time \<Rightarrow> time \<Rightarrow> time \<Rightarrow> 'd DeliveryProof \<Rightarrow> ('s, 'd) AUSDSettlement \<Rightarrow>
   (ausd_error + DeliveryProofResponse) \<times> ('s, 'd) AUSDSettlement" where
  "SubmitDeliveryProof V D sha fmt t0 t1 t2 t3 proof s =
     (case validateDeliveryProof t0 proof of
        Some err \<Rightarrow> (Inl err, s)
      | None \<Rightarrow>
          let bucket = getImpressionBucket fmt (dp_Timestamp proof);
              proofs = pending_proofs bucket s @ [proof];
              oracle = st_oracle s;
              s1 = s\<lparr>st_oracle := oracle\<lparr>do_witnesses := (do_witnesses oracle)(bucket \<mapsto> proofs)\<rparr>\<rparr>
          in if length proofs \<ge> getRequiredConfirmations
             then (case settleImpression V D sha t1 t2 proof s1 of
                     (Inl err, s2) \<Rightarrow> (Inl (ErrSettlementFailed err), s2)
                   | (Inr _, s2) \<Rightarrow>
                       (Inr \<lparr>dr_Success = True, dr_Settled = True, dr_SettledAt = Some t3,
                             dr_Message = ''''\<rparr>, s2))
             else (Inr \<lparr>dr_Success = True, dr_Settled = False, dr_SettledAt = None,
                       dr_Message = ''Proof recorded, awaiting additional confirmations''\<rparr>, s1))"

text \<open>The proofs of one bucket, in order, with the number settled and the revenue so far;
  \<open>clk\<close> gives the clock readings of the calls.\<close>

fun settleAll ::
  "('s, 'd::linordered_field) VMState \<Rightarrow> 'd decimal_ops \<Rightarrow> (bytes \<Rightarrow> bytes) \<Rightarrow> (nat \<Rightarrow> time \<times> time) \<Rightarrow> nat \<Rightarrow>
   'd DeliveryProof list \<Rightarrow> u64 \<times> 'd \<Rightarrow> ('s, 'd) AUSDSettlement \<Rightarrow> (u64 \<times> 'd) \<times> ('s, 'd) AUSDSettlement" where
  "settleAll V D sha clk k [] acc s = (acc, s)"
| "settleAll V D sha clk k (p # ps) (settled, revenue) s =
     (case settleImpression V D sha (fst (clk k)) (snd (clk k)) p s of
        (Inl _, s1) \<Rightarrow> settleAll V D sha clk (Suc k) ps (settled, revenue) s1
      | (Inr _, s1) \<Rightarrow> settleAll V D sha clk (Suc k) ps (settled + 1, revenue + 5) s1)"

text \<open>\<open>buckets\<close> are the keys of the witness map in the order of the iteration.\<close>

definition settleBucket ::
  "('s, 'd::linordered_field) VMState \<Rightarrow> 'd decimal_ops \<Rightarrow> (bytes \<Rightarrow> bytes) \<Rightarrow>
   (string \<Rightarrow> nat \<Rightarrow> time \<times> time) \<Rightarrow> string \<Rightarrow> ('s, 'd) AUSDSettlement \<Rightarrow> ('s, 'd) AUSDSettlement" where
  "settleBucket V D sha clk bucket s =
     (let proofs = pending_proofs bucket s in
      if length proofs = 0 then s
      else
        let merkleRoot = calculateMerkleRoot sha proofs;
            o1 = st_oracle s;
            s1 = s\<lparr>st_oracle := o1\<lparr>do_roots := (do_roots o1)(bucket \<mapsto> merkleRoot)\<rparr>\<rparr>
        in (case settleAll V D sha (clk bucket) 0 proofs (0, 0) s1 of
              ((settled, totalRevenue), s2) \<Rightarrow>
                let s3 = updateSettlementMetrics D settled totalRevenue (length proofs) s2;
                    o3 = st_oracle s3
                in s3\<lparr>st_oracle := o3\<lparr>do_witnesses := (do_witnesses o3)(bucket := None)\<rparr>\<rparr>))"

definition BatchSettlement ::
  "('s, 'd::linordered_field) VMState \<Rightarrow> 'd decimal_ops \<Rightarrow> (bytes \<Rightarrow> bytes) \<Rightarrow>
   (string \<Rightarrow> nat \<Rightarrow> time \<times> time) \<Rightarrow> string list \<Rightarrow> ('s, 'd) AUSDSettlement \<Rightarrow> ('s, 'd) AUSDSettlement" where
  "BatchSettlement V D sha clk buckets s = fold (settleBucket V D sha clk) buckets s"

definition GetSettlementMetrics ::
  "('s, 'd::linordered_field) AUSDSettlement \<Rightarrow> 'd SettlementMetrics \<times> ('s, 'd) AUSDSettlement" where
  "GetSettlementMetrics s =
     (let m = (st_metrics s)\<lparr>sm_DSO := 1 / 2, sm_BadDebtRate := 0,
                 sm_AvgSettlementTime := 500 * 1000000, sm_DisputeRate := 1 / 10\<rparr>
      in (m, s\<lparr>st_metrics := m\<rparr>))"

definition pg_request :: "'d PGDealRequest \<Rightarrow> 'd CreatePGDealRequest" where
  "pg_request req =
     \<lparr>pq_CampaignID = gq_CampaignID req, pq_DealID = gq_DealID req,
      pq_Publisher = gq_Publisher req, pq_StartTime = gq_StartTime req,
      pq_EndTime = gq_EndTime req, pq_TotalImpressions = gq_TotalImpressions req,
      pq_FixedCPM = gq_FixedCPM req, pq_PenaltyRate = gq_PenaltyRate req\<rparr>"

definition CreateProgrammaticGuaranteed ::
  "('s, 'd::linordered_field) VMState \<Rightarrow> 'd decimal_ops \<Rightarrow> 'd PGDealRequest \<Rightarrow> ('s, 'd) AUSDSettlement \<Rightarrow>
   (ausd_error + 'd PGDealResponse) \<times> ('s, 'd) AUSDSettlement" where
  "CreateProgrammaticGuaranteed V D req s =
     (let pgReq = pg_request req
      in (case CreatePGDeal V D pgReq (st_escrow s) of
            (Inl err, e) \<Rightarrow> (Inl (ErrPGDeal err), s\<lparr>st_escrow := e\<rparr>)
          | (Inr pgResp, e) \<Rightarrow>
              (Inr \<lparr>gs_Success = True, gs_DealID = gq_DealID req,
                    gs_EscrowAmount = ps_EscrowAmount pgResp,
                    gs_Terms = \<lparr>gt_AutoPenalty = True, gt_PenaltyRate = gq_PenaltyRate req,
                      gt_DeliveryWindow = gq_EndTime req - gq_StartTime req,
                      gt_PaymentTerms = ''T+0 on verified delivery'',
                      gt_DisputeWindow = 48 * 3600 * second_ns\<rparr>\<rparr>,
               s\<lparr>st_escrow := e\<rparr>)))"

subsection \<open>Every call is a sequence of escrow calls\<close>

datatype 'd ausd_op =
    AWin time string "'d ImpressionWinRequest"
  | ASubmit time time time time "'d DeliveryProof"
  | ABatch "string \<Rightarrow> nat \<Rightarrow> time \<times> time" "string list"
  | ADeal "'d PGDealRequest"

fun ausd_step ::
  "('s, 'd::linordered_field) VMState \<Rightarrow> 'd decimal_ops \<Rightarrow> (bytes \<Rightarrow> bytes) \<Rightarrow> (time \<Rightarrow> string) \<Rightarrow>
   'd ausd_op \<Rightarrow> ('s, 'd) AUSDSettlement \<Rightarrow> ('s, 'd) AUSDSettlement" where
  "ausd_step V D sha fmt (AWin now nowtext req) s = snd (ProcessImpressionWin V sha now nowtext req s)"
| "ausd_step V D sha fmt (ASubmit t0 t1 t2 t3 p) s = snd (SubmitDeliveryProof V D sha fmt t0 t1 t2 t3 p s)"
| "ausd_step V D sha fmt (ABatch clk buckets) s = BatchSettlement V D sha clk buckets s"
| "ausd_step V D sha fmt (ADeal req) s = snd (CreateProgrammaticGuaranteed V D req s)"

abbreviation volume_of :: "('s, 'd) AUSDSettlement \<Rightarrow> 'd" where
  "volume_of s \<equiv> sm_TotalVolumeAUSD (st_metrics s)"

abbreviation payout_count :: "('s, 'd) AUSDSettlement \<Rightarrow> u64" where
  "payout_count s \<equiv> sm_RealTimePayouts (st_metrics s)"

definition paid_sum :: "(string \<times> string \<times> 'd::comm_monoid_add \<times> 'd) list \<Rightarrow> 'd" where
  "paid_sum ps = sum_list (map (\<lambda>(i, p, paid, held). paid) ps)"

definition is_funding :: "'d escrow_op \<Rightarrow> bool" where
  "is_funding op = (case op of EFund now req \<Rightarrow> True | _ \<Rightarrow> False)"

text \<open>\<open>s'\<close> is what escrow calls with \<open>j\<close> payments, none of them a funding, make of
  \<open>s\<close>; \<open>n\<close> of the payments are counted with a flat revenue of 5 on top.\<close>

definition ausd_rel ::
  "('s, 'd::linordered_field) VMState \<Rightarrow> 'd decimal_ops \<Rightarrow> nat \<Rightarrow> nat \<Rightarrow>
   ('s, 'd) AUSDSettlement \<Rightarrow> ('s, 'd) AUSDSettlement \<Rightarrow> bool" where
  "ausd_rel V D j n s s' \<longleftrightarrow>
     (\<exists>ops. st_escrow s' = fold (escrow_step V D) ops (st_escrow s) \<and>
        (\<forall>op\<in>set ops. \<not> is_funding op) \<and>
        length (payouts V D ops (st_escrow s)) = j \<and>
        payout_count s' = payout_count s + of_nat j \<and>
        volume_of s' = volume_of s + paid_sum (payouts V D ops (st_escrow s)) + 5 * of_nat n)"

lemma payouts_append:
  "payouts V D (xs @ ys) e = payouts V D xs e @ payouts V D ys (fold (escrow_step V D) xs e)"
  by (induction xs arbitrary: e) simp_all

lemma ausd_rel_same:
  "st_escrow s' = st_escrow s \<Longrightarrow> payout_count s' = payout_count s \<Longrightarrow>
   volume_of s' = volume_of s + 5 * of_nat n \<Longrightarrow> ausd_rel V D 0 n s s'"
  unfolding ausd_rel_def by (intro exI [of _ "[]"]) (simp add: paid_sum_def)

lemma ausd_rel_trans:
  assumes "ausd_rel V D j n s t" and "ausd_rel V D i m t u"
  shows "ausd_rel V D (j + i) (n + m) s u"
proof -
  obtain xs where xs: "st_escrow t = fold (escrow_step V D) xs (st_escrow s)"
      "\<forall>op\<in>set xs. \<not> is_funding op" "length (payouts V D xs (st_escrow s)) = j"
      "payout_count t = payout_count s + of_nat j"
      "volume_of t = volume_of s + paid_sum (payouts V D xs (st_escrow s)) + 5 * of_nat n"
    using assms(1) unfolding ausd_rel_def by blast
  obtain ys where ys: "st_escrow u = fold (escrow_step V D) ys (st_escrow t)"
      "\<forall>op\<in>set ys. \<not> is_funding op" "length (payouts V D ys (st_escrow t)) = i"
      "payout_count u = payout_count t + of_nat i"
      "volume_of u = volume_of t + paid_sum (payouts V D ys (st_escrow t)) + 5 * of_nat m"
    using assms(2) unfolding ausd_rel_def by blast
  show ?thesis
    unfolding ausd_rel_def
    by (rule exI [of _ "xs @ ys"])
      (use xs ys in \<open>auto simp: payouts_append paid_sum_def algebra_simps\<close>)
qed

lemma ausd_rel_step:
  assumes "st_escrow s' = escrow_step V D op (st_escrow s)" and "\<not> is_funding op"
    and "payout V D op (st_escrow s) = []" and "st_metrics s' = st_metrics s"
  shows "ausd_rel V D 0 0 s s'"
  unfolding ausd_rel_def by (intro exI [of _ "[op]"]) (use assms in \<open>simp add: paid_sum_def\<close>)

lemma settle_rel:
  "\<exists>j. ausd_rel V D j 0 s (snd (settleImpression V D sha t1 t2 p s)) \<and>
     j = (if is_ok (fst (settleImpression V D sha t1 t2 p s)) then 1 else 0)"
proof (cases "fl_less (dp_ViewabilityScore p) (Finite 70)")
  case True
  then show ?thesis by (simp add: settleImpression_def ausd_rel_same)
next
  case False
  let ?req = "\<lparr>sq_ReservationID = dp_ReservationID p, sq_VerificationProof = createVerificationHash sha p\<rparr>"
  let ?op = "ESettle t1 t2 ?req"
  obtain r e where r: "SettleReceipt V D t1 t2 ?req (st_escrow s) = (r, e)" by force
  show ?thesis
  proof (cases r)
    case (Inl er)
    have "ausd_rel V D 0 0 s (s\<lparr>st_escrow := e\<rparr>)"
      by (rule ausd_rel_step [of _ _ _ ?op]) (use r Inl in \<open>simp_all add: is_funding_def payout_def\<close>)
    with False r Inl show ?thesis by (simp add: settleImpression_def)
  next
    case (Inr x)
    have "ausd_rel V D 1 0 s (snd (settleImpression V D sha t1 t2 p s))"
      unfolding ausd_rel_def
      by (rule exI [of _ "[?op]"])
        (use r Inr False in \<open>simp add: settleImpression_def is_funding_def payout_def paid_sum_def Let_def\<close>)
    with False r Inr show ?thesis by (simp add: settleImpression_def Let_def)
  qed
qed

lemma settleAll_rel:
  "\<exists>j s'. settleAll V D sha clk k ps (x, y) s = ((x + of_nat j, y + 5 * of_nat j), s') \<and>
     ausd_rel V D j 0 s s'"
proof (induction ps arbitrary: k x y s)
  case Nil
  show ?case by (intro exI [of _ 0] exI [of _ s]) (simp add: ausd_rel_same)
next
  case (Cons p ps)
  obtain r s1 where r: "settleImpression V D sha (fst (clk k)) (snd (clk k)) p s = (r, s1)" by force
  define i where "i = (if is_ok r then 1 else 0::nat)"
  have one: "ausd_rel V D i 0 s s1"
    using settle_rel [of V D s sha "fst (clk k)" "snd (clk k)" p] r by (simp add: i_def)
  obtain j s' where j: "settleAll V D sha clk (Suc k) ps (x + of_nat i, y + 5 * of_nat i) s1 =
        ((x + of_nat i + of_nat j, y + 5 * of_nat i + 5 * of_nat j), s')" "ausd_rel V D j 0 s1 s'"
    using Cons.IH by blast
  have "settleAll V D sha clk k (p # ps) (x, y) s =
      settleAll V D sha clk (Suc k) ps (x + of_nat i, y + 5 * of_nat i) s1"
    using r by (cases r) (simp_all add: i_def)
  with j ausd_rel_trans [OF one j(2)] show ?case
    by (intro exI [of _ "i + j"] exI [of _ s']) (simp add: algebra_simps)
qed

lemma settleBucket_rel: "\<exists>j. ausd_rel V D j j s (settleBucket V D sha clk b s)"
proof (cases "pending_proofs b s = []")
  case True
  then show ?thesis by (intro exI [of _ 0]) (simp add: settleBucket_def ausd_rel_same)
next
  case False
  let ?ps = "pending_proofs b s"
  define s1 where "s1 = s\<lparr>st_oracle := (st_oracle s)\<lparr>do_roots :=
      (do_roots (st_oracle s))(b \<mapsto> calculateMerkleRoot sha ?ps)\<rparr>\<rparr>"
  obtain j s2 where j: "settleAll V D sha (clk b) 0 ?ps (0, 0) s1 = ((of_nat j, 5 * of_nat j), s2)"
      "ausd_rel V D j 0 s1 s2"
    using settleAll_rel [of V D sha "clk b" 0 ?ps 0 0 s1] by auto
  have "ausd_rel V D 0 0 s s1" by (rule ausd_rel_same) (simp_all add: s1_def)
  from ausd_rel_trans [OF this j(2)] have one: "ausd_rel V D j 0 s s2" by simp
  have "ausd_rel V D 0 j s2 (settleBucket V D sha clk b s)"
    by (rule ausd_rel_same)
      (use False j in \<open>simp_all add: settleBucket_def updateSettlementMetrics_def Let_def
        flip: s1_def\<close>)
  from ausd_rel_trans [OF one this] show ?thesis by auto
qed

lemma BatchSettlement_rel: "\<exists>j. ausd_rel V D j j s (BatchSettlement V D sha clk bs s)"
  unfolding BatchSettlement_def
proof (induction bs arbitrary: s)
  case Nil
  show ?case by (intro exI [of _ 0]) (simp add: ausd_rel_same)
next
  case (Cons b bs)
  obtain i where i: "ausd_rel V D i i s (settleBucket V D sha clk b s)" using settleBucket_rel by blast
  obtain j where "ausd_rel V D j j (settleBucket V D sha clk b s)
      (fold (settleBucket V D sha clk) bs (settleBucket V D sha clk b s))" using Cons.IH by blast
  from ausd_rel_trans [OF i this] show ?case by auto
qed

lemma Submit_rel:
  "\<exists>j. ausd_rel V D j 0 s (snd (SubmitDeliveryProof V D sha fmt t0 t1 t2 t3 p s))"
proof -
  let ?b = "getImpressionBucket fmt (dp_Timestamp p)"
  define s1 where "s1 = s\<lparr>st_oracle := (st_oracle s)\<lparr>do_witnesses :=
      (do_witnesses (st_oracle s))(?b \<mapsto> pending_proofs ?b s @ [p])\<rparr>\<rparr>"
  have same: "ausd_rel V D 0 0 s s" "ausd_rel V D 0 0 s s1"
    by (rule ausd_rel_same; simp add: s1_def)+
  obtain j where "ausd_rel V D j 0 s1 (snd (settleImpression V D sha t1 t2 p s1))"
    using settle_rel by blast
  from ausd_rel_trans [OF same(2) this]
  have j: "ausd_rel V D j 0 s (snd (settleImpression V D sha t1 t2 p s1))" by simp
  have "snd (SubmitDeliveryProof V D sha fmt t0 t1 t2 t3 p s) \<in>
      {s, s1, snd (settleImpression V D sha t1 t2 p s1)}"
    by (auto simp: SubmitDeliveryProof_def Let_def s1_def split: option.splits prod.splits sum.splits)
  with same j show ?thesis by auto
qed

lemma Win_escrow:
  "st_escrow (snd (ProcessImpressionWin V sha now nowtext req s)) =
     snd (ReserveBudget V now (win_reserve req) (st_escrow s))"
  "st_metrics (snd (ProcessImpressionWin V sha now nowtext req s)) = st_metrics s"
  by (auto simp: ProcessImpressionWin_def Let_def split: prod.splits sum.splits)

lemma Deal_escrow:
  "st_escrow (snd (CreateProgrammaticGuaranteed V D req s)) =
     snd (CreatePGDeal V D (pg_request req) (st_escrow s))"
  "st_metrics (snd (CreateProgrammaticGuaranteed V D req s)) = st_metrics s"
  by (auto simp: CreateProgrammaticGuaranteed_def Let_def split: prod.splits sum.splits)

lemma ausd_step_rel: "\<exists>j n. n \<le> j \<and> ausd_rel V D j n s (ausd_step V D sha fmt op s)"
proof (cases op)
  case (AWin now nowtext req)
  have "ausd_rel V D 0 0 s (ausd_step V D sha fmt op s)"
    by (rule ausd_rel_step [of _ _ _ "EReserve now (win_reserve req)"])
      (simp_all add: is_funding_def payout_def AWin Win_escrow)
  then show ?thesis by auto
next
  case (ASubmit t0 t1 t2 t3 p)
  then show ?thesis using Submit_rel [of V D s sha fmt t0 t1 t2 t3 p] by auto
next
  case (ABatch clk buckets)
  then show ?thesis using BatchSettlement_rel [of V D s sha clk buckets] by auto
next
  case (ADeal req)
  have "ausd_rel V D 0 0 s (ausd_step V D sha fmt op s)"
    by (rule ausd_rel_step [of _ _ _ "EDeal (pg_request req)"])
      (simp_all add: is_funding_def payout_def ADeal Deal_escrow)
  then show ?thesis by auto
qed

interpretation ausd: object_relation "ausd_step V D sha fmt" "\<lambda>s s'. \<exists>j n. n \<le> j \<and> ausd_rel V D j n s s'"
  for V D sha fmt
proof unfold_locales
  show "\<exists>j n. n \<le> j \<and> ausd_rel V D j n s s" for s using ausd_rel_same [of s s 0] by auto
  show "\<exists>j n. n \<le> j \<and> ausd_rel V D j n s u"
    if "\<exists>j n. n \<le> j \<and> ausd_rel V D j n s t" "\<exists>j n. n \<le> j \<and> ausd_rel V D j n t u" for s t u
    using that ausd_rel_trans [of V D _ _ s t _ _ u] add_mono by meson
qed (rule ausd_step_rel)

subsection \<open>When a proof settles\<close>

lemma str_hash_length: "length (str_hash sha parts) = 2 * length (sha (map of_char (concat parts)))"
proof -
  have "length (hex_encode bs) = 2 * length bs" for bs by (induction bs) simp_all
  then show ?thesis by (simp add: str_hash_def)
qed

definition settleable :: "('s, 'd::linordered_field) VMState \<Rightarrow> time \<Rightarrow> string \<Rightarrow> ('s, 'd) EscrowManager \<Rightarrow> bool" where
  "settleable V t i e \<longleftrightarrow> (\<exists>r. ress V e i = Some r \<and> \<not> re_Settled r \<and> t \<le> re_Expires r \<and>
     camps V e (re_CampaignID r) \<noteq> None)"

lemma SettleReceipt_ok_iff:
  assumes V: "vm_ok V" and "32 \<le> length (sq_VerificationProof req)"
  shows "is_ok (fst (SettleReceipt V D t1 t2 req e)) \<longleftrightarrow> settleable V t1 (sq_ReservationID req) e"
  using assms by (auto simp: SettleReceipt_def verifyDeliveryProof_def settleable_def Let_def
      split: option.splits)

lemma settleImpression_ok_iff:
  assumes "vm_ok V" and "\<And>x. length (sha x) = 32"
  shows "is_ok (fst (settleImpression V D sha t1 t2 p s)) \<longleftrightarrow>
    \<not> fl_less (dp_ViewabilityScore p) (Finite 70) \<and> settleable V t1 (dp_ReservationID p) (st_escrow s)"
proof -
  let ?req = "\<lparr>sq_ReservationID = dp_ReservationID p, sq_VerificationProof = createVerificationHash sha p\<rparr>"
  obtain r e where r: "SettleReceipt V D t1 t2 ?req (st_escrow s) = (r, e)" by force
  have "is_ok (fst (SettleReceipt V D t1 t2 ?req (st_escrow s))) \<longleftrightarrow>
      settleable V t1 (dp_ReservationID p) (st_escrow s)"
    by (subst SettleReceipt_ok_iff [OF assms(1)])
      (simp_all add: createVerificationHash_def str_hash_length assms(2))
  with r show ?thesis
    by (cases r) (auto simp: settleImpression_def Let_def not_less)
qed

subsection \<open>Properties\<close>

text \<open>C11: The settlement system is a client of the escrow that never moves money by itself:
  whatever it is called for, the escrow it ends with is the result of a sequence of escrow
  calls, none of them a funding; the payout counter has grown by the number of payments that
  sequence made; and the recorded volume is what was paid plus 5 for some of these payments.\<close>

theorem ausd_runs_are_escrow_runs:
  "\<exists>calls n. st_escrow (fold (ausd_step V D sha fmt) ops s) = fold (escrow_step V D) calls (st_escrow s)
     \<and> filter is_funding calls = [] \<and> n \<le> length (payouts V D calls (st_escrow s))
     \<and> payout_count (fold (ausd_step V D sha fmt) ops s) =
         payout_count s + of_nat (length (payouts V D calls (st_escrow s)))
     \<and> volume_of (fold (ausd_step V D sha fmt) ops s) =
         volume_of s + paid_sum (payouts V D calls (st_escrow s)) + 5 * of_nat n"
proof -
  obtain j n where "n \<le> j" "ausd_rel V D j n s (fold (ausd_step V D sha fmt) ops s)"
    using ausd.run_rel [of V D s sha fmt ops] by blast
  then show ?thesis unfolding ausd_rel_def by (auto simp: filter_empty_conv)
qed

text \<open>A batch counts the volume of every impression twice: it adds the paid amount when
  the escrow settles and once more a flat 5 for each settled proof.\<close>

theorem batch_counts_volume_twice:
  "\<exists>calls. st_escrow (BatchSettlement V D sha clk buckets s) = fold (escrow_step V D) calls (st_escrow s)
     \<and> volume_of (BatchSettlement V D sha clk buckets s) =
         volume_of s + paid_sum (payouts V D calls (st_escrow s))
           + 5 * of_nat (length (payouts V D calls (st_escrow s)))"
  using BatchSettlement_rel [of V D s sha clk buckets] unfolding ausd_rel_def by blast

text \<open>The scores that pass both checks: those from 70 to 100, and NaN.\<close>

definition score_accepted :: "'d::linordered_field float64 \<Rightarrow> bool" where
  "score_accepted v = (case v of Finite x \<Rightarrow> 70 \<le> x \<and> x \<le> 100 | NaN \<Rightarrow> True | _ \<Rightarrow> False)"

lemma score_checks:
  "\<not> fl_less v (Finite 0) \<and> \<not> fl_less (Finite 100) v \<and> \<not> fl_less v (Finite 70) \<longleftrightarrow> score_accepted v"
  by (cases v) (auto simp: score_accepted_def not_less)

lemma accepted_proofs:
  "validateDeliveryProof t0 p = None \<and> \<not> fl_less (dp_ViewabilityScore p) (Finite 70) \<longleftrightarrow>
     32 \<le> length (dp_VRFNonce p) \<and> dp_PlayerSignature p \<noteq> '''' \<and> dp_CDNSignature p \<noteq> '''' \<and>
     t0 - dp_Timestamp p \<le> 5 * 60 * second_ns \<and> score_accepted (dp_ViewabilityScore p)"
  unfolding score_checks [symmetric] by (auto simp: validateDeliveryProof_def split: if_splits)

text \<open>C32: A submitted proof settles its impression at once exactly when its nonce has 32
  characters, both signatures are there (no one verifies them), it is at most five minutes old,
  its viewability score is accepted, its reservation is open and has not expired, and any other
  proof lies in the same 15-minute bucket: the two confirmations asked for need not be for the
  same impression. The accepted scores are those from 70 to 100, and NaN, which is neither below
  70 nor out of range and so settles like a score of 100.\<close>

theorem submitted_proof_settles_iff:
  assumes "vm_ok V" and "\<And>x. length (sha x) = 32"
  shows "(\<exists>resp. fst (SubmitDeliveryProof V D sha fmt t0 t1 t2 t3 p s) = Inr resp \<and> dr_Settled resp) \<longleftrightarrow>
    32 \<le> length (dp_VRFNonce p) \<and> dp_PlayerSignature p \<noteq> '''' \<and> dp_CDNSignature p \<noteq> '''' \<and>
    t0 - dp_Timestamp p \<le> 5 * 60 * second_ns \<and>
    (dp_ViewabilityScore p = NaN \<or> (\<exists>v. dp_ViewabilityScore p = Finite v \<and> 70 \<le> v \<and> v \<le> 100)) \<and>
    settleable V t1 (dp_ReservationID p) (st_escrow s) \<and>
    pending_proofs (getImpressionBucket fmt (dp_Timestamp p)) s \<noteq> []"
proof -
  let ?b = "getImpressionBucket fmt (dp_Timestamp p)"
  define s1 where "s1 = s\<lparr>st_oracle := (st_oracle s)\<lparr>do_witnesses :=
      (do_witnesses (st_oracle s))(?b \<mapsto> pending_proofs ?b s @ [p])\<rparr>\<rparr>"
  obtain r s2 where r: "settleImpression V D sha t1 t2 p s1 = (r, s2)" by force
  have e: "st_escrow s1 = st_escrow s" by (simp add: s1_def)
  have "is_ok (fst (settleImpression V D sha t1 t2 p s1)) \<longleftrightarrow>
      \<not> fl_less (dp_ViewabilityScore p) (Finite 70) \<and> settleable V t1 (dp_ReservationID p) (st_escrow s1)"
    by (rule settleImpression_ok_iff [OF assms])
  then have ok: "is_ok r \<longleftrightarrow>
      \<not> fl_less (dp_ViewabilityScore p) (Finite 70) \<and> settleable V t1 (dp_ReservationID p) (st_escrow s)"
    by (simp add: r e)
  have two: "2 \<le> length (pending_proofs ?b s @ [p]) \<longleftrightarrow> pending_proofs ?b s \<noteq> []"
    by (cases "pending_proofs ?b s") auto
  have nan: "dp_ViewabilityScore p = NaN \<or> (\<exists>v. dp_ViewabilityScore p = Finite v \<and> 70 \<le> v \<and> v \<le> 100) \<longleftrightarrow>
      score_accepted (dp_ViewabilityScore p)"
    by (auto simp: score_accepted_def split: float64.splits)
  have "(\<exists>resp. fst (SubmitDeliveryProof V D sha fmt t0 t1 t2 t3 p s) = Inr resp \<and> dr_Settled resp) \<longleftrightarrow>
      validateDeliveryProof t0 p = None \<and> is_ok r \<and> pending_proofs ?b s \<noteq> []"
    using r two
    by (cases r) (auto simp: SubmitDeliveryProof_def Let_def getRequiredConfirmations_def
        simp flip: s1_def split: option.split)
  then show ?thesis
    using accepted_proofs [of t0 p] by (auto simp: ok nan)
qed

definition rat_ops :: "rat decimal_ops" where
  "rat_ops = \<lparr>dc_Div = (/), dc_Sqrt = id\<rparr>"

definition demo_proof :: "string \<Rightarrow> rat float64 \<Rightarrow> rat DeliveryProof" where
  "demo_proof i score = \<lparr>dp_ImpressionID = i, dp_ReservationID = i, dp_VRFNonce = replicate 32 CHR ''0'',
     dp_ViewabilityScore = score, dp_TimeInView = 900, dp_PlayerSignature = ''p'', dp_CDNSignature = ''c'',
     dp_MeasurementAttest = [], dp_Timestamp = 0, dp_UserHash = []\<rparr>"

definition demo_ausd :: "(rat demo_vm, rat) AUSDSettlement" where
  "demo_ausd = NewAUSDSettlement
     \<lparr>em_state = ([''c'' \<mapsto> \<lparr>ca_ID = ''c'', ca_Advertiser = ''brand'', ca_TotalBudget = 100,
          ca_AvailableBudget = 90, ca_ReservedBudget = 10, ca_SpentBudget = 0, ca_Active = True,
          ca_HoldbackBps = 1000, ca_Created = 0, ca_GuaranteedDeals = []\<rparr>],
        [''r'' \<mapsto> \<lparr>re_ID = ''r'', re_CampaignID = ''c'', re_Publisher = ''pub'', re_Amount = 10,
          re_Expires = 100, re_Settled = False,
          re_Metadata = \<lparr>rm_Placement = [], rm_Geo = [], rm_DeviceType = [], rm_Categories = [],
            rm_Viewability = 0, rm_UserHash = []\<rparr>\<rparr>], \<lambda>_. 0),
      em_dex = NewLedgerEngine, em_ausdID = ''AUSD''\<rparr>"

text \<open>Two confirmations for different impressions, with a score of 80 and with NaN.\<close>

definition demo_submissions :: "rat float64 \<Rightarrow> ausd_error + DeliveryProofResponse" where
  "demo_submissions score =
     fst (SubmitDeliveryProof map_vm rat_ops (\<lambda>_. replicate 32 0) (\<lambda>_. ''b'') 1 2 3 4 (demo_proof ''r'' score)
       (snd (SubmitDeliveryProof map_vm rat_ops (\<lambda>_. replicate 32 0) (\<lambda>_. ''b'') 1 2 3 4
          (demo_proof ''unrelated'' (Finite 80)) demo_ausd)))"

theorem submitted_proof_settles_iff_witness:
  "(\<exists>resp. demo_submissions (Finite 80) = Inr resp \<and> dr_Settled resp) \<and>
   (\<exists>resp. demo_submissions NaN = Inr resp \<and> dr_Settled resp) \<and>
   \<not> (\<exists>resp. demo_submissions (Finite 60) = Inr resp \<and> dr_Settled resp)"
  unfolding demo_submissions_def
  by (subst (1 2 3) submitted_proof_settles_iff [OF map_vm_ok])
    (simp_all add: validateDeliveryProof_def demo_proof_def settleable_def demo_ausd_def
      NewAUSDSettlement_def SubmitDeliveryProof_def pending_proofs_def getImpressionBucket_def
      getRequiredConfirmations_def map_vm_def second_ns_def Let_def)

end
