(* ===== verification/AdSlot.thy ===== *)
theory AdSlot
  imports Complex_Main Escrow Ids
begin

text \<open>
  \<^verbatim>\<open>pkg/chainvm/adslot_rpc.go\<close>: ad slots as perishable tokens, orders with commit and
  reveal, an automated market maker per slot and the recording of deliveries.

  The VM state and the asset registry of the DEX engine are not defined in the repository:
  \<open>V\<close> holds the accessors of the state, \<open>X\<close> the registry calls with their errors and
  the helpers the file calls and nothing defines (\<open>transferAUSD\<close> of the slot manager,
  \<open>hashCommitment\<close>, \<open>estimateOrderFill\<close>, \<open>convertToGDexOrder\<close>,
  \<open>calculateSlippage\<close>). The request types the file only announces are modelled by the
  fields it reads. Decimals and \<open>float64\<close> values are elements of an ordered field;
  \<open>D\<close> has the decimal library's division and square root. The targeting's custom fields
  are never read and left out. A division by zero and a nil pointer are \<open>SlotPanic\<close>.
\<close>

datatype slot_error =
    ErrInvalidWindow
  | ErrWindowEnded
  | ErrNoImpressions
  | ErrMint string
  | ErrSlotNotFound
  | ErrSlotInactive
  | ErrSlotExpired
  | ErrInvalidQuantity
  | ErrBidBelowPrice
  | ErrCommitHashRequired
  | ErrAddOrder string
  | ErrSlotOrderNotFound
  | ErrNotCommitReveal
  | ErrAlreadyRevealed
  | ErrInvalidReveal
  | ErrPoolExists
  | ErrPoolTransfer string
  | ErrPoolNotFound
  | ErrInsufficientLiquidity
  | ErrOutsideWindow
  | ErrExceedsCapacity
  | ErrBurn string
  | SlotPanic

record TargetingPredicate =
  tp_GeoTargets :: "string list"
  tp_DeviceTypes :: "string list"
  tp_Categories :: "string list"
  tp_MinAge :: u32
  tp_MaxAge :: u32

record 'd SecondaryListing =
  sl_SellerID :: string
  sl_Quantity :: u64
  sl_AskPrice :: 'd
  sl_ListedAt :: time
  sl_FlashLoanOK :: bool

record 'd AdSlot =
  sd_ID :: u64
  sd_Publisher :: string
  sd_Placement :: string
  sd_TargetingHash :: string
  sd_StartTime :: time
  sd_EndTime :: time
  sd_MaxImpressions :: u64
  sd_DeliveredImprs :: u64
  sd_MinViewability :: 'd
  sd_FloorCPM :: 'd
  sd_Active :: bool
  sd_Targeting :: TargetingPredicate
  sd_SecondaryMarkets :: "'d SecondaryListing list"

record 'd AdMM_Pool =
  po_SlotID :: u64
  po_ReserveAUSD :: 'd
  po_ReserveSlots :: u64
  po_LastPrice :: 'd
  po_LPTokenSupply :: 'd
  po_TimeDecayRate :: 'd
  po_CreatedAt :: time

record 'd AdSlotOrder =
  so_ID :: string
  so_TraderID :: string
  so_SlotID :: u64
  so_IsBuy :: bool
  so_OrderType :: string
  so_LimitPrice :: 'd
  so_Quantity :: u64
  so_Filled :: u64
  so_Status :: string
  so_CreatedAt :: time
  so_ExpiresAt :: time
  so_CommitHash :: string
  so_RevealedPrice :: 'd
  so_Revealed :: bool

record ('s, 'd) SlotState =
  GetAdSlot :: "'s \<Rightarrow> u64 \<Rightarrow> 'd AdSlot option"
  SetAdSlot :: "u64 \<Rightarrow> 'd AdSlot \<Rightarrow> 's \<Rightarrow> 's"
  GetAdSlotOrder :: "'s \<Rightarrow> string \<Rightarrow> 'd AdSlotOrder option"
  SetAdSlotOrder :: "string \<Rightarrow> 'd AdSlotOrder \<Rightarrow> 's \<Rightarrow> 's"
  GetAdMM_Pool :: "'s \<Rightarrow> u64 \<Rightarrow> 'd AdMM_Pool option"
  SetAdMM_Pool :: "u64 \<Rightarrow> 'd AdMM_Pool \<Rightarrow> 's \<Rightarrow> 's"

text \<open>The asset registry: minting, burning and adding an order, on its own state \<open>'x\<close>.\<close>

record ('x, 'd) Registry =
  MintAsset :: "string \<Rightarrow> string \<Rightarrow> u64 \<Rightarrow> 'x \<Rightarrow> (string + unit) \<times> 'x"
  BurnAsset :: "string \<Rightarrow> string \<Rightarrow> u64 \<Rightarrow> 'x \<Rightarrow> (string + unit) \<times> 'x"
  RegAddOrder :: "'d AdSlotOrder \<Rightarrow> 'd AdSlot \<Rightarrow> 'x \<Rightarrow> (string + unit) \<times> 'x"
  slotTransferAUSD :: "string \<Rightarrow> string \<Rightarrow> 'd \<Rightarrow> 'x \<Rightarrow> (string + unit) \<times> 'x"
  IntPart :: "'d \<Rightarrow> int"
  hashCommitment :: "'d \<Rightarrow> string \<Rightarrow> string"
  estimateOrderFill :: "'d AdSlotOrder \<Rightarrow> 'd AdSlot \<Rightarrow> 'd"
  calculateSlippage :: "'d \<Rightarrow> 'd \<Rightarrow> 'd"

record ('s, 'x) AdSlotManager =
  am_state :: 's
  am_dex :: 'x
  am_nextID :: u64

record 'd CreateAdSlotRequest =
  cq_Publisher :: string
  cq_Placement :: string
  cq_Targeting :: TargetingPredicate
  cq_StartTime :: time
  cq_EndTime :: time
  cq_MaxImpressions :: u64
  cq_MinViewability :: 'd
  cq_FloorCPM :: 'd

record CreateAdSlotResponse =
  cs_Success :: bool
  cs_SlotID :: u64
  cs_TokenID :: string

record 'd PlaceOrderRequest =
  oq_OrderID :: string
  oq_TraderID :: string
  oq_SlotID :: u64
  oq_IsBuy :: bool
  oq_OrderType :: string
  oq_LimitPrice :: 'd
  oq_Quantity :: u64
  oq_ExpiresAt :: time
  oq_CommitHash :: string

record 'd PlaceOrderResponse =
  oo_Success :: bool
  oo_OrderID :: string
  oo_CurrentPrice :: 'd
  oo_EstimatedFill :: 'd

subsection \<open>Prices\<close>

definition slot_token :: "u64 \<Rightarrow> string" where
  "slot_token i = ''adslot-'' @ show_nat (unat i)"

definition le32 :: "u32 \<Rightarrow> bytes" where
  "le32 w = map (\<lambda>i. ucast (drop_bit (8 * i) w)) [0..<4]"

definition hashTargeting :: "(bytes \<Rightarrow> bytes) \<Rightarrow> TargetingPredicate \<Rightarrow> string" where
  "hashTargeting sha t =
     hex_encode (sha (map of_char (concat (tp_GeoTargets t) @ concat (tp_DeviceTypes t)
                                    @ concat (tp_Categories t))
                      @ le32 (tp_MinAge t) @ le32 (tp_MaxAge t)))"

definition seconds :: "duration \<Rightarrow> 'd::linordered_field" where
  "seconds d = of_int d / of_int second_ns"

definition calculateCurrentPrice ::
  "'d::linordered_field decimal_ops \<Rightarrow> time \<Rightarrow> 'd AdSlot \<Rightarrow> 'd" where
  "calculateCurrentPrice D now slot =
     (if sd_EndTime slot < now \<or> \<not> sd_Active slot then 0
      else if now < sd_StartTime slot then sd_FloorCPM slot
      else
        let timeRemaining = seconds (sd_EndTime slot - now);
            totalWindow = seconds (sd_EndTime slot - sd_StartTime slot)
        in if totalWindow \<le> (0 :: 'd) then sd_FloorCPM slot
           else let premium = dc_Div D (sd_FloorCPM slot) 2;
                    timeRatio = timeRemaining / totalWindow
                in sd_FloorCPM slot + premium * timeRatio)"

definition calculateTimeDecay :: "time \<Rightarrow> 'd::linordered_field AdSlot \<Rightarrow> 'd \<Rightarrow> 'd" where
  "calculateTimeDecay now slot decayRate =
     (if sd_EndTime slot < now then 0
      else
        let timeRemaining = seconds (sd_EndTime slot - now);
            totalWindow = seconds (sd_EndTime slot - sd_StartTime slot)
        in if totalWindow \<le> (0 :: 'd) then 1
           else let normalizedTime = 1 - timeRemaining / totalWindow;
                    exponent = - (decayRate * normalizedTime)
                in 1 + exponent)"

text \<open>\<open>NewFromInt(int64(x))\<close> of a \<open>uint64\<close>.\<close>

definition dec_u64 :: "u64 \<Rightarrow> 'd::linordered_field" where
  "dec_u64 w = of_int (sint w)"

text \<open>\<open>None\<close> is a panic: a division by zero, or a missing slot that is looked into.\<close>

definition calculateAMM_Swap ::
  "'d::linordered_field decimal_ops \<Rightarrow> time \<Rightarrow> 'd AdMM_Pool \<Rightarrow> 'd AdSlot option \<Rightarrow> u64 \<Rightarrow> bool \<Rightarrow> 'd option" where
  "calculateAMM_Swap D now pool slot amountIn buyAUSD =
     (if po_ReserveAUSD pool \<le> 0 \<or> po_ReserveSlots pool = 0 then Some 0
      else (case slot of
        None \<Rightarrow> None
      | Some sl \<Rightarrow>
          let timeDecay = calculateTimeDecay now sl (po_TimeDecayRate pool);
              effectiveK = po_ReserveAUSD pool * dec_u64 (po_ReserveSlots pool) * timeDecay
          in if buyAUSD then
               let newSlots = dec_u64 (po_ReserveSlots pool + amountIn)
               in if newSlots = 0 then None
                  else Some (po_ReserveAUSD pool - dc_Div D effectiveK newSlots)
             else
               let newAUSD = po_ReserveAUSD pool + dec_u64 amountIn
               in if newAUSD = 0 then None
                  else Some (dec_u64 (po_ReserveSlots pool) - dc_Div D effectiveK newAUSD)))"

record 'd RevealBidRequest =
  vq_OrderID :: string
  vq_RevealedPrice :: 'd
  vq_Nonce :: string

record 'd RevealBidResponse =
  vs_Success :: bool
  vs_RevealedPrice :: 'd

record 'd CreateAdMM_PoolRequest =
  mq_SlotID :: u64
  mq_InitialAUSD :: 'd
  mq_InitialSlots :: u64
  mq_TimeDecayRate :: 'd
  mq_LiquidityProvider :: string

record 'd CreateAdMM_PoolResponse =
  ms_Success :: bool
  ms_PoolID :: u64
  ms_LPTokens :: 'd
  ms_InitialPrice :: 'd

record 'd SwapAdMM_Request =
  wq_SlotID :: u64
  wq_AmountIn :: u64
  wq_BuyAUSD :: bool
  wq_ExpectedAmountOut :: 'd

record 'd SwapAdMM_Response =
  ws_Success :: bool
  ws_AmountOut :: 'd
  ws_NewPrice :: 'd
  ws_SlippageActual :: 'd

record RecordDeliveryRequest =
  dq_SlotID :: u64
  dq_Count :: u64

record RecordDeliveryResponse =
  ds_Success :: bool
  ds_DeliveredCount :: u64
  ds_TotalDelivered :: u64
  ds_RemainingSupply :: u64

subsection \<open>The methods\<close>

definition CreateAdSlot ::
  "('s, 'd::linordered_field) SlotState \<Rightarrow> ('x, 'd) Registry \<Rightarrow> (bytes \<Rightarrow> bytes) \<Rightarrow> time \<Rightarrow>
   'd CreateAdSlotRequest \<Rightarrow> ('s, 'x) AdSlotManager \<Rightarrow>
   (slot_error + CreateAdSlotResponse) \<times> ('s, 'x) AdSlotManager" where
  "CreateAdSlot V X sha now req a =
     (if cq_EndTime req < cq_StartTime req then (Inl ErrInvalidWindow, a)
      else if cq_EndTime req < now then (Inl ErrWindowEnded, a)
      else if cq_MaxImpressions req = 0 then (Inl ErrNoImpressions, a)
      else
        let targetingHash = hashTargeting sha (cq_Targeting req);
            slotID = am_nextID a;
            slot = \<lparr>sd_ID = slotID, sd_Publisher = cq_Publisher req, sd_Placement = cq_Placement req,
                    sd_TargetingHash = targetingHash, sd_StartTime = cq_StartTime req,
                    sd_EndTime = cq_EndTime req, sd_MaxImpressions = cq_MaxImpressions req,
                    sd_DeliveredImprs = 0, sd_MinViewability = cq_MinViewability req,
                    sd_FloorCPM = cq_FloorCPM req, sd_Active = True, sd_Targeting = cq_Targeting req,
                    sd_SecondaryMarkets = []\<rparr>;
            a1 = a\<lparr>am_nextID := am_nextID a + 1, am_state := SetAdSlot V slotID slot (am_state a)\<rparr>
        in (case MintAsset X (slot_token slotID) (cq_Publisher req) (cq_MaxImpressions req) (am_dex a1) of
              (Inl err, x) \<Rightarrow> (Inl (ErrMint err), a1\<lparr>am_dex := x\<rparr>)
            | (Inr _, x) \<Rightarrow>
                (Inr \<lparr>cs_Success = True, cs_SlotID = slotID, cs_TokenID = slot_token slotID\<rparr>,
                 a1\<lparr>am_dex := x\<rparr>)))"

definition PlaceOrder ::
  "('s, 'd::linordered_field) SlotState \<Rightarrow> ('x, 'd) Registry \<Rightarrow> 'd decimal_ops \<Rightarrow>
   time \<Rightarrow> time \<Rightarrow> time \<Rightarrow> 'd PlaceOrderRequest \<Rightarrow> ('s, 'x) AdSlotManager \<Rightarrow>
   (slot_error + 'd PlaceOrderResponse) \<times> ('s, 'x) AdSlotManager" where
  "PlaceOrder V X D t1 t2 t3 req a =
     (case GetAdSlot V (am_state a) (oq_SlotID req) of
        None \<Rightarrow> (Inl ErrSlotNotFound, a)
      | Some slot \<Rightarrow>
          if \<not> sd_Active slot then (Inl ErrSlotInactive, a)
          else if sd_EndTime slot < t1 then (Inl ErrSlotExpired, a)
          else if oq_Quantity req = 0 then (Inl ErrInvalidQuantity, a)
          else
            let currentPrice = calculateCurrentPrice D t2 slot in
            if oq_IsBuy req \<and> oq_LimitPrice req < currentPrice then (Inl ErrBidBelowPrice, a)
            else
              let sealed = (oq_OrderType req = ''commit-reveal'');
                  order = \<lparr>so_ID = oq_OrderID req, so_TraderID = oq_TraderID req,
                    so_SlotID = oq_SlotID req, so_IsBuy = oq_IsBuy req,
                    so_OrderType = oq_OrderType req, so_LimitPrice = oq_LimitPrice req,
                    so_Quantity = oq_Quantity req, so_Filled = 0, so_Status = ''active'',
                    so_CreatedAt = t3, so_ExpiresAt = oq_ExpiresAt req,
                    so_CommitHash = (if sealed then oq_CommitHash req else ''''),
                    so_RevealedPrice = 0, so_Revealed = False\<rparr>
              in if sealed \<and> oq_CommitHash req = '''' then (Inl ErrCommitHashRequired, a)
                 else
                   let a1 = a\<lparr>am_state := SetAdSlotOrder V (oq_OrderID req) order (am_state a)\<rparr>
                   in (case RegAddOrder X order slot (am_dex a1) of
                         (Inl err, x) \<Rightarrow> (Inl (ErrAddOrder err), a1\<lparr>am_dex := x\<rparr>)
                       | (Inr _, x) \<Rightarrow>
                           (Inr \<lparr>oo_Success = True, oo_OrderID = oq_OrderID req,
                                 oo_CurrentPrice = currentPrice,
                                 oo_EstimatedFill = estimateOrderFill X order slot\<rparr>,
                            a1\<lparr>am_dex := x\<rparr>)))"

definition RevealBid ::
  "('s, 'd::linordered_field) SlotState \<Rightarrow> ('x, 'd) Registry \<Rightarrow> 'd RevealBidRequest \<Rightarrow>
   ('s, 'x) AdSlotManager \<Rightarrow> (slot_error + 'd RevealBidResponse) \<times> ('s, 'x) AdSlotManager" where
  "RevealBid V X req a =
     (case GetAdSlotOrder V (am_state a) (vq_OrderID req) of
        None \<Rightarrow> (Inl ErrSlotOrderNotFound, a)
      | Some order \<Rightarrow>
          if so_OrderType order \<noteq> ''commit-reveal'' then (Inl ErrNotCommitReveal, a)
          else if so_Revealed order then (Inl ErrAlreadyRevealed, a)
          else if hashCommitment X (vq_RevealedPrice req) (vq_Nonce req) \<noteq> so_CommitHash order
          then (Inl ErrInvalidReveal, a)
          else
            let order' = order\<lparr>so_RevealedPrice := vq_RevealedPrice req, so_Revealed := True,
                               so_LimitPrice := vq_RevealedPrice req\<rparr>
            in (Inr \<lparr>vs_Success = True, vs_RevealedPrice = vq_RevealedPrice req\<rparr>,
                a\<lparr>am_state := SetAdSlotOrder V (vq_OrderID req) order' (am_state a)\<rparr>))"

definition CreateAdMM_Pool ::
  "('s, 'd::linordered_field) SlotState \<Rightarrow> ('x, 'd) Registry \<Rightarrow> 'd decimal_ops \<Rightarrow> time \<Rightarrow>
   'd CreateAdMM_PoolRequest \<Rightarrow> ('s, 'x) AdSlotManager \<Rightarrow>
   (slot_error + 'd CreateAdMM_PoolResponse) \<times> ('s, 'x) AdSlotManager" where
  "CreateAdMM_Pool V X D now req a =
     (case GetAdSlot V (am_state a) (mq_SlotID req) of
        None \<Rightarrow> (Inl ErrSlotNotFound, a)
      | Some slot \<Rightarrow>
          if GetAdMM_Pool V (am_state a) (mq_SlotID req) \<noteq> None then (Inl ErrPoolExists, a)
          else if mq_InitialSlots req = 0 then (Inl SlotPanic, a)
          else
            let initialPrice = dc_Div D (mq_InitialAUSD req) (dec_u64 (mq_InitialSlots req));
                lpTokens = dc_Sqrt D (mq_InitialAUSD req * dec_u64 (mq_InitialSlots req));
                pool = \<lparr>po_SlotID = mq_SlotID req, po_ReserveAUSD = mq_InitialAUSD req,
                        po_ReserveSlots = mq_InitialSlots req, po_LastPrice = initialPrice,
                        po_LPTokenSupply = lpTokens, po_TimeDecayRate = mq_TimeDecayRate req,
                        po_CreatedAt = now\<rparr>;
                a1 = a\<lparr>am_state := SetAdMM_Pool V (mq_SlotID req) pool (am_state a)\<rparr>
            in (case slotTransferAUSD X (mq_LiquidityProvider req) ''pool'' (mq_InitialAUSD req)
                       (am_dex a1) of
                  (Inl err, x) \<Rightarrow> (Inl (ErrPoolTransfer err), a1\<lparr>am_dex := x\<rparr>)
                | (Inr _, x) \<Rightarrow>
                    (Inr \<lparr>ms_Success = True, ms_PoolID = mq_SlotID req, ms_LPTokens = lpTokens,
                          ms_InitialPrice = initialPrice\<rparr>, a1\<lparr>am_dex := x\<rparr>)))"

text \<open>What a swap of \<open>swapAmount\<close> makes of the pool.\<close>

definition swap_pool ::
  "('x, 'd::linordered_field) Registry \<Rightarrow> 'd decimal_ops \<Rightarrow> 'd SwapAdMM_Request \<Rightarrow> 'd \<Rightarrow> 'd AdMM_Pool \<Rightarrow> 'd AdMM_Pool" where
  "swap_pool X D req swapAmount pool =
     (let pool1 =
            (if wq_BuyAUSD req
             then pool\<lparr>po_ReserveSlots := po_ReserveSlots pool + wq_AmountIn req,
                       po_ReserveAUSD := po_ReserveAUSD pool - swapAmount\<rparr>
             else pool\<lparr>po_ReserveAUSD := po_ReserveAUSD pool + dec_u64 (wq_AmountIn req),
                       po_ReserveSlots := po_ReserveSlots pool - of_int (IntPart X swapAmount)\<rparr>)
      in if po_ReserveSlots pool1 > 0
         then pool1\<lparr>po_LastPrice := dc_Div D (po_ReserveAUSD pool1) (dec_u64 (po_ReserveSlots pool1))\<rparr>
         else pool1)"

definition SwapAdMM ::
  "('s, 'd::linordered_field) SlotState \<Rightarrow> ('x, 'd) Registry \<Rightarrow> 'd decimal_ops \<Rightarrow> time \<Rightarrow>
   'd SwapAdMM_Request \<Rightarrow> ('s, 'x) AdSlotManager \<Rightarrow>
   (slot_error + 'd SwapAdMM_Response) \<times> ('s, 'x) AdSlotManager" where
  "SwapAdMM V X D now req a =
     (case GetAdMM_Pool V (am_state a) (wq_SlotID req) of
        None \<Rightarrow> (Inl ErrPoolNotFound, a)
      | Some pool \<Rightarrow>
          (case calculateAMM_Swap D now pool (GetAdSlot V (am_state a) (wq_SlotID req))
                  (wq_AmountIn req) (wq_BuyAUSD req) of
             None \<Rightarrow> (Inl SlotPanic, a)
           | Some swapAmount \<Rightarrow>
               if swapAmount \<le> 0 then (Inl ErrInsufficientLiquidity, a)
               else
                 let pool' = swap_pool X D req swapAmount pool
                 in (Inr \<lparr>ws_Success = True, ws_AmountOut = swapAmount,
                          ws_NewPrice = po_LastPrice pool',
                          ws_SlippageActual = calculateSlippage X (wq_ExpectedAmountOut req) swapAmount\<rparr>,
                     a\<lparr>am_state := SetAdMM_Pool V (wq_SlotID req) pool' (am_state a)\<rparr>)))"

definition RecordDelivery ::
  "('s, 'd::linordered_field) SlotState \<Rightarrow> ('x, 'd) Registry \<Rightarrow> time \<Rightarrow> RecordDeliveryRequest \<Rightarrow>
   ('s, 'x) AdSlotManager \<Rightarrow> (slot_error + RecordDeliveryResponse) \<times> ('s, 'x) AdSlotManager" where
  "RecordDelivery V X now req a =
     (case GetAdSlot V (am_state a) (dq_SlotID req) of
        None \<Rightarrow> (Inl ErrSlotNotFound, a)
      | Some slot \<Rightarrow>
          if now < sd_StartTime slot \<or> sd_EndTime slot < now then (Inl ErrOutsideWindow, a)
          else if sd_DeliveredImprs slot + dq_Count req > sd_MaxImpressions slot
          then (Inl ErrExceedsCapacity, a)
          else
            let slot' = slot\<lparr>sd_DeliveredImprs := sd_DeliveredImprs slot + dq_Count req\<rparr>;
                a1 = a\<lparr>am_state := SetAdSlot V (dq_SlotID req) slot' (am_state a)\<rparr>
            in (case BurnAsset X (slot_token (dq_SlotID req)) (sd_Publisher slot') (dq_Count req)
                       (am_dex a1) of
                  (Inl err, x) \<Rightarrow> (Inl (ErrBurn err), a1\<lparr>am_dex := x\<rparr>)
                | (Inr _, x) \<Rightarrow>
                    (Inr \<lparr>ds_Success = True, ds_DeliveredCount = dq_Count req,
                          ds_TotalDelivered = sd_DeliveredImprs slot',
                          ds_RemainingSupply = sd_MaxImpressions slot' - sd_DeliveredImprs slot'\<rparr>,
                     a1\<lparr>am_dex := x\<rparr>)))"

subsection \<open>The price of a slot\<close>

lemma seconds_mono: "seconds a \<le> (seconds b :: 'd::linordered_field) \<longleftrightarrow> a \<le> b"
  by (simp add: seconds_def second_ns_def divide_le_cancel)

lemma seconds_0 [simp]: "seconds 0 = (0 :: 'd::linordered_field)"
  by (simp add: seconds_def)

lemma seconds_nonneg: "0 \<le> (seconds a :: 'd::linordered_field) \<longleftrightarrow> 0 \<le> a"
  using seconds_mono [of 0 a] by simp

lemma seconds_pos: "0 < (seconds a :: 'd::linordered_field) \<longleftrightarrow> 0 < a"
  by (simp add: seconds_def second_ns_def zero_less_divide_iff)

text \<open>The share of the window that is left.\<close>

definition remaining :: "'d AdSlot \<Rightarrow> time \<Rightarrow> 'd::linordered_field" where
  "remaining slot now = seconds (sd_EndTime slot - now) / seconds (sd_EndTime slot - sd_StartTime slot)"

lemma remaining_bounds:
  fixes slot :: "'d::linordered_field AdSlot"
  assumes "sd_StartTime slot < sd_EndTime slot" and "sd_StartTime slot \<le> t" and "t \<le> sd_EndTime slot"
  shows "0 \<le> remaining slot t" and "remaining slot t \<le> 1"
    and "t \<le> t' \<Longrightarrow> remaining slot t' \<le> remaining slot t"
proof -
  have w: "0 < (seconds (sd_EndTime slot - sd_StartTime slot) :: 'd)"
    using assms by (simp add: seconds_pos)
  have n: "0 \<le> (seconds (sd_EndTime slot - t) :: 'd)" using assms by (simp add: seconds_nonneg)
  show "0 \<le> remaining slot t"
    unfolding remaining_def using w n by simp
  have m: "seconds (sd_EndTime slot - t) \<le> (seconds (sd_EndTime slot - sd_StartTime slot) :: 'd)"
    using assms by (simp add: seconds_mono)
  show "remaining slot t \<le> 1"
    unfolding remaining_def using w m by simp
  show "remaining slot t' \<le> remaining slot t" if "t \<le> t'"
  proof -
    have "seconds (sd_EndTime slot - t') \<le> (seconds (sd_EndTime slot - t) :: 'd)"
      using that by (simp add: seconds_mono)
    then show ?thesis unfolding remaining_def using w by (simp add: divide_right_mono)
  qed
qed

lemma price_in_window:
  fixes slot :: "'d::linordered_field AdSlot"
  assumes "sd_Active slot" and "sd_StartTime slot < sd_EndTime slot"
    and "sd_StartTime slot \<le> t" and "t \<le> sd_EndTime slot"
  shows "calculateCurrentPrice D t slot = sd_FloorCPM slot + dc_Div D (sd_FloorCPM slot) 2 * remaining slot t"
proof -
  have "\<not> (seconds (sd_EndTime slot - sd_StartTime slot) :: 'd) \<le> 0"
    using assms by (simp add: not_le seconds_pos)
  with assms show ?thesis by (auto simp: calculateCurrentPrice_def remaining_def Let_def)
qed

lemma decay_in_window:
  fixes slot :: "'d::linordered_field AdSlot"
  assumes "sd_StartTime slot < sd_EndTime slot" and "t \<le> sd_EndTime slot"
  shows "calculateTimeDecay t slot r = 1 - r * (1 - remaining slot t)"
proof -
  have "\<not> (seconds (sd_EndTime slot - sd_StartTime slot) :: 'd) \<le> 0"
    using assms by (simp add: not_le seconds_pos)
  with assms show ?thesis by (auto simp: calculateTimeDecay_def remaining_def Let_def)
qed

lemma dec_u64_nonzero:
  assumes "0 < unat w" and "unat w < 2 ^ 63"
  shows "dec_u64 w \<noteq> (0 :: 'd::linordered_field)"
proof -
  have "sint w \<noteq> 0" unfolding sint_small64 [OF assms(2)] of_nat_eq_0_iff using assms(1) by simp
  then show ?thesis unfolding dec_u64_def by (simp only: of_int_eq_0_iff not_False_eq_True)
qed

subsection \<open>The laws of the slot state\<close>

definition slots_ok :: "('s, 'd) SlotState \<Rightarrow> bool" where
  "slots_ok V \<longleftrightarrow>
     (\<forall>s k c. GetAdSlot V (SetAdSlot V k c s) = (GetAdSlot V s)(k \<mapsto> c) \<and>
        GetAdSlotOrder V (SetAdSlot V k c s) = GetAdSlotOrder V s \<and>
        GetAdMM_Pool V (SetAdSlot V k c s) = GetAdMM_Pool V s) \<and>
     (\<forall>s k c. GetAdSlotOrder V (SetAdSlotOrder V k c s) = (GetAdSlotOrder V s)(k \<mapsto> c) \<and>
        GetAdSlot V (SetAdSlotOrder V k c s) = GetAdSlot V s \<and>
        GetAdMM_Pool V (SetAdSlotOrder V k c s) = GetAdMM_Pool V s) \<and>
     (\<forall>s k c. GetAdMM_Pool V (SetAdMM_Pool V k c s) = (GetAdMM_Pool V s)(k \<mapsto> c) \<and>
        GetAdSlot V (SetAdMM_Pool V k c s) = GetAdSlot V s \<and>
        GetAdSlotOrder V (SetAdMM_Pool V k c s) = GetAdSlotOrder V s)"

lemma slot_simps [simp]:
  assumes "slots_ok V"
  shows "GetAdSlot V (SetAdSlot V k c s) = (GetAdSlot V s)(k \<mapsto> c)"
    "GetAdSlotOrder V (SetAdSlot V k c s) = GetAdSlotOrder V s"
    "GetAdMM_Pool V (SetAdSlot V k c s) = GetAdMM_Pool V s"
    "GetAdSlotOrder V (SetAdSlotOrder V i x s) = (GetAdSlotOrder V s)(i \<mapsto> x)"
    "GetAdSlot V (SetAdSlotOrder V i x s) = GetAdSlot V s"
    "GetAdMM_Pool V (SetAdSlotOrder V i x s) = GetAdMM_Pool V s"
    "GetAdMM_Pool V (SetAdMM_Pool V k p s) = (GetAdMM_Pool V s)(k \<mapsto> p)"
    "GetAdSlot V (SetAdMM_Pool V k p s) = GetAdSlot V s"
    "GetAdSlotOrder V (SetAdMM_Pool V k p s) = GetAdSlotOrder V s"
  using assms by (simp_all add: slots_ok_def)

abbreviation slots_of :: "('s, 'd) SlotState \<Rightarrow> ('s, 'x) AdSlotManager \<Rightarrow> u64 \<Rightarrow> 'd AdSlot option" where
  "slots_of V a \<equiv> GetAdSlot V (am_state a)"

subsection \<open>Runs\<close>

datatype 'd slot_op =
    SCreate time "'d CreateAdSlotRequest"
  | SPlace time time time "'d PlaceOrderRequest"
  | SReveal "'d RevealBidRequest"
  | SPool time "'d CreateAdMM_PoolRequest"
  | SSwap time "'d SwapAdMM_Request"
  | SDeliver time RecordDeliveryRequest

fun slot_step ::
  "('s, 'd::linordered_field) SlotState \<Rightarrow> ('x, 'd) Registry \<Rightarrow> 'd decimal_ops \<Rightarrow> (bytes \<Rightarrow> bytes) \<Rightarrow>
   'd slot_op \<Rightarrow> ('s, 'x) AdSlotManager \<Rightarrow> ('s, 'x) AdSlotManager" where
  "slot_step V X D sha (SCreate now req) a = snd (CreateAdSlot V X sha now req a)"
| "slot_step V X D sha (SPlace t1 t2 t3 req) a = snd (PlaceOrder V X D t1 t2 t3 req a)"
| "slot_step V X D sha (SReveal req) a = snd (RevealBid V X req a)"
| "slot_step V X D sha (SPool now req) a = snd (CreateAdMM_Pool V X D now req a)"
| "slot_step V X D sha (SSwap now req) a = snd (SwapAdMM V X D now req a)"
| "slot_step V X D sha (SDeliver now req) a = snd (RecordDelivery V X now req a)"

text \<open>The impressions a call adds to a slot: a delivery counts once it has passed the capacity
  check, also when burning the tokens fails afterwards.\<close>

definition delivers ::
  "('s, 'd::linordered_field) SlotState \<Rightarrow> ('x, 'd) Registry \<Rightarrow> u64 \<Rightarrow> 'd slot_op \<Rightarrow> ('s, 'x) AdSlotManager \<Rightarrow> u64 list" where
  "delivers V X i op a =
     (case op of
        SDeliver now req \<Rightarrow>
          (if dq_SlotID req \<noteq> i then []
           else (case fst (RecordDelivery V X now req a) of
                   Inr _ \<Rightarrow> [dq_Count req] | Inl (ErrBurn _) \<Rightarrow> [dq_Count req] | Inl _ \<Rightarrow> []))
      | _ \<Rightarrow> [])"

fun all_delivered ::
  "('s, 'd::linordered_field) SlotState \<Rightarrow> ('x, 'd) Registry \<Rightarrow> 'd decimal_ops \<Rightarrow> (bytes \<Rightarrow> bytes) \<Rightarrow> u64 \<Rightarrow>
   'd slot_op list \<Rightarrow> ('s, 'x) AdSlotManager \<Rightarrow> u64 list" where
  "all_delivered V X D sha i [] a = []"
| "all_delivered V X D sha i (op # ops) a =
     delivers V X i op a @ all_delivered V X D sha i ops (slot_step V X D sha op a)"

lemma RecordDelivery_cases:
  assumes "slots_ok V"
  obtains (err) "am_state (snd (RecordDelivery V X now req a)) = am_state a"
      "delivers V X i (SDeliver now req) a = []"
  | (ok) slot where "slots_of V a (dq_SlotID req) = Some slot"
      "sd_StartTime slot \<le> now" "now \<le> sd_EndTime slot"
      "sd_DeliveredImprs slot + dq_Count req \<le> sd_MaxImpressions slot"
      "slots_of V (snd (RecordDelivery V X now req a)) = (slots_of V a)(dq_SlotID req \<mapsto>
         slot\<lparr>sd_DeliveredImprs := sd_DeliveredImprs slot + dq_Count req\<rparr>)"
      "delivers V X i (SDeliver now req) a = (if dq_SlotID req = i then [dq_Count req] else [])"
      "am_nextID (snd (RecordDelivery V X now req a)) = am_nextID a"
proof (cases "\<exists>slot. slots_of V a (dq_SlotID req) = Some slot \<and> sd_StartTime slot \<le> now \<and>
    now \<le> sd_EndTime slot \<and> sd_DeliveredImprs slot + dq_Count req \<le> sd_MaxImpressions slot")
  case False
  then show thesis
    by (intro err) (auto simp: RecordDelivery_def delivers_def Let_def not_less split: option.splits if_splits)
next
  case True
  then obtain slot where s: "slots_of V a (dq_SlotID req) = Some slot" "sd_StartTime slot \<le> now"
    "now \<le> sd_EndTime slot" "sd_DeliveredImprs slot + dq_Count req \<le> sd_MaxImpressions slot" by blast
  obtain r x where b: "BurnAsset X (slot_token (dq_SlotID req)) (sd_Publisher slot) (dq_Count req) (am_dex a)
      = (r, x)" by force
  have n: "\<not> (now < sd_StartTime slot \<or> sd_EndTime slot < now)"
    "\<not> sd_MaxImpressions slot < sd_DeliveredImprs slot + dq_Count req"
    using s by (simp_all add: not_less)
  have f: "fst (RecordDelivery V X now req a) = (case r of Inl er \<Rightarrow> Inl (ErrBurn er) | Inr _ \<Rightarrow>
      Inr \<lparr>ds_Success = True, ds_DeliveredCount = dq_Count req,
          ds_TotalDelivered = sd_DeliveredImprs slot + dq_Count req,
          ds_RemainingSupply = sd_MaxImpressions slot - (sd_DeliveredImprs slot + dq_Count req)\<rparr>)"
    and st: "am_state (snd (RecordDelivery V X now req a)) = SetAdSlot V (dq_SlotID req)
      (slot\<lparr>sd_DeliveredImprs := sd_DeliveredImprs slot + dq_Count req\<rparr>) (am_state a)"
    and nx: "am_nextID (snd (RecordDelivery V X now req a)) = am_nextID a"
    using b by (cases r; simp add: RecordDelivery_def s(1) n Let_def)+
  have d: "delivers V X i (SDeliver now req) a = (if dq_SlotID req = i then [dq_Count req] else [])"
    by (cases r) (simp_all add: delivers_def f)
  show thesis
    by (rule ok [OF s _ d nx]) (simp add: st assms)
qed

lemma slot_step_other:
  assumes V: "slots_ok V" and i: "slots_of V a i = Some s" and lt: "unat i < unat (am_nextID a)"
    and op: "\<forall>now req. op \<noteq> SDeliver now req"
  shows "slots_of V (slot_step V X D sha op a) i = Some s \<and> delivers V X i op a = [] \<and>
    (am_nextID (slot_step V X D sha op a) = am_nextID a \<or>
     am_nextID (slot_step V X D sha op a) = am_nextID a + 1)"
proof -
  have ne: "i \<noteq> am_nextID a" using lt by auto
  show ?thesis
  proof (cases op)
    case (SCreate now req)
    then show ?thesis
      using V i ne by (auto simp: CreateAdSlot_def delivers_def Let_def split: prod.splits sum.splits)
  next
    case (SPlace t1 t2 t3 req)
    then show ?thesis
      using V i by (auto simp: PlaceOrder_def delivers_def Let_def split: option.splits prod.splits sum.splits)
  next
    case (SReveal req)
    then show ?thesis
      using V i by (auto simp: RevealBid_def delivers_def Let_def split: option.splits)
  next
    case (SPool now req)
    then show ?thesis
      using V i by (auto simp: CreateAdMM_Pool_def delivers_def Let_def split: option.splits prod.splits sum.splits)
  next
    case (SSwap now req)
    then show ?thesis
      using V i by (auto simp: SwapAdMM_def delivers_def Let_def split: option.splits)
  qed (use op in auto)
qed

text \<open>No count of a delivery to slot \<open>i\<close> wraps around on top of \<open>m\<close>.\<close>

definition counts_fit :: "u64 \<Rightarrow> u64 \<Rightarrow> 'd slot_op \<Rightarrow> bool" where
  "counts_fit i m op = (case op of
     SDeliver now req \<Rightarrow> dq_SlotID req = i \<longrightarrow> unat m + unat (dq_Count req) < 2 ^ 64
   | _ \<Rightarrow> True)"

lemma deliver_run:
  assumes V: "slots_ok V"
  shows "slots_of V a i = Some s \<Longrightarrow> sd_DeliveredImprs s \<le> sd_MaxImpressions s \<Longrightarrow>
    unat i < unat (am_nextID a) \<Longrightarrow> unat (am_nextID a) + length ops < 2 ^ 64 \<Longrightarrow>
    \<forall>op\<in>set ops. counts_fit i (sd_MaxImpressions s) op \<Longrightarrow>
    \<exists>n. slots_of V (fold (slot_step V X D sha) ops a) i = Some (s\<lparr>sd_DeliveredImprs := n\<rparr>) \<and>
      n \<le> sd_MaxImpressions s \<and>
      unat n = unat (sd_DeliveredImprs s) + sum_list (map unat (all_delivered V X D sha i ops a))"
proof (induction ops arbitrary: a s)
  case Nil
  then show ?case by (intro exI [of _ "sd_DeliveredImprs s"]) simp
next
  case (Cons op ops)
  let ?a = "slot_step V X D sha op a"
  have next_word: "unat (am_nextID a + 1) = unat (am_nextID a) + 1"
    using Cons.prems(4) by (simp add: unat_word_ariths)
  have step: "\<exists>n. slots_of V ?a i = Some (s\<lparr>sd_DeliveredImprs := n\<rparr>) \<and> n \<le> sd_MaxImpressions s \<and>
      unat n = unat (sd_DeliveredImprs s) + sum_list (map unat (delivers V X i op a)) \<and>
      (am_nextID ?a = am_nextID a \<or> am_nextID ?a = am_nextID a + 1)"
  proof (cases "\<exists>now req. op = SDeliver now req")
    case False
    then have "slots_of V ?a i = Some s \<and> delivers V X i op a = [] \<and>
        (am_nextID ?a = am_nextID a \<or> am_nextID ?a = am_nextID a + 1)"
      by (intro slot_step_other [OF V Cons.prems(1,3)]) simp
    with Cons.prems(2) show ?thesis by (intro exI [of _ "sd_DeliveredImprs s"]) simp
  next
    case True
    then obtain now req where op: "op = SDeliver now req" by blast
    show ?thesis
    proof (rule RecordDelivery_cases [OF V, of X now req a i])
      assume "am_state (snd (RecordDelivery V X now req a)) = am_state a"
        and "delivers V X i (SDeliver now req) a = []"
      moreover from this have "am_nextID (snd (RecordDelivery V X now req a)) = am_nextID a"
        by (auto simp: RecordDelivery_def Let_def split: option.splits prod.splits sum.splits)
      ultimately show ?thesis
        using Cons.prems(1,2) op by (intro exI [of _ "sd_DeliveredImprs s"]) simp
    next
      fix slot
      assume g: "slots_of V a (dq_SlotID req) = Some slot"
        "sd_DeliveredImprs slot + dq_Count req \<le> sd_MaxImpressions slot"
        and u: "slots_of V (snd (RecordDelivery V X now req a)) = (slots_of V a)(dq_SlotID req \<mapsto>
         slot\<lparr>sd_DeliveredImprs := sd_DeliveredImprs slot + dq_Count req\<rparr>)"
        "delivers V X i (SDeliver now req) a = (if dq_SlotID req = i then [dq_Count req] else [])"
        "am_nextID (snd (RecordDelivery V X now req a)) = am_nextID a"
      show ?thesis
      proof (cases "dq_SlotID req = i")
        case False
        with u op Cons.prems(1,2) show ?thesis by (intro exI [of _ "sd_DeliveredImprs s"]) simp
      next
        case True
        with g Cons.prems(1) have s: "slot = s" by simp
        have "unat (sd_MaxImpressions s) + unat (dq_Count req) < 2 ^ 64"
          using Cons.prems(5) op True by (auto simp: counts_fit_def)
        moreover have "unat (sd_DeliveredImprs s) \<le> unat (sd_MaxImpressions s)"
          using Cons.prems(2) by (simp add: word_le_nat_alt)
        ultimately have "unat (sd_DeliveredImprs s + dq_Count req) =
            unat (sd_DeliveredImprs s) + unat (dq_Count req)"
          by (intro unat_add_lem [THEN iffD1]) simp
        with u g op True s show ?thesis
          by (intro exI [of _ "sd_DeliveredImprs s + dq_Count req"]) simp
      qed
    qed
  qed
  then obtain n where n: "slots_of V ?a i = Some (s\<lparr>sd_DeliveredImprs := n\<rparr>)" "n \<le> sd_MaxImpressions s"
      "unat n = unat (sd_DeliveredImprs s) + sum_list (map unat (delivers V X i op a))"
      "am_nextID ?a = am_nextID a \<or> am_nextID ?a = am_nextID a + 1" by blast
  have "unat i < unat (am_nextID ?a)" "unat (am_nextID ?a) + length ops < 2 ^ 64"
    using n(4) next_word Cons.prems(3,4) by auto
  from Cons.IH [OF n(1) _ this] n Cons.prems(5) show ?case by auto
qed

subsection \<open>Properties\<close>

text \<open>C14: A slot never delivers more than it holds: along every run whose delivery counts do not
  wrap around (and in which the slot counter does not), the impressions recorded for a slot are
  exactly the counts of the deliveries that passed its checks, and stay within its supply; nothing
  else of the slot changes.\<close>

theorem deliveries_within_supply:
  assumes "slots_ok V" and "slots_of V a i = Some s" and "sd_DeliveredImprs s \<le> sd_MaxImpressions s"
    and "unat i < unat (am_nextID a)" and "unat (am_nextID a) + length ops < 2 ^ 64"
    and "\<forall>op\<in>set ops. counts_fit i (sd_MaxImpressions s) op"
  shows "\<exists>n. slots_of V (fold (slot_step V X D sha) ops a) i = Some (s\<lparr>sd_DeliveredImprs := n\<rparr>) \<and>
      n \<le> sd_MaxImpressions s \<and>
      unat n = unat (sd_DeliveredImprs s) + sum_list (map unat (all_delivered V X D sha i ops a))"
  by (rule deliver_run [OF assms])

text \<open>Without that bound the sum wraps: a huge count passes the capacity check and lowers the
  number of impressions delivered.\<close>

lemma huge_delivery_passes:
  assumes "slots_ok V" and "slots_of V a (dq_SlotID req) = Some s"
    and "sd_StartTime s \<le> now" and "now \<le> sd_EndTime s"
    and "sd_DeliveredImprs s \<le> sd_MaxImpressions s"
    and "2 ^ 64 \<le> unat (sd_DeliveredImprs s) + unat (dq_Count req)"
  shows "\<exists>n. slots_of V (snd (RecordDelivery V X now req a)) (dq_SlotID req) =
      Some (s\<lparr>sd_DeliveredImprs := n\<rparr>) \<and> unat n < unat (sd_DeliveredImprs s)"
proof -
  let ?n = "sd_DeliveredImprs s + dq_Count req"
  have "unat ?n = unat (sd_DeliveredImprs s) + unat (dq_Count req) - 2 ^ 64"
    using assms(6) unat_less64 [of "sd_DeliveredImprs s"] unat_less64 [of "dq_Count req"]
    by (simp add: unat_word_ariths mod_if)
  then have n: "unat ?n < unat (sd_DeliveredImprs s)"
    using unat_less64 [of "dq_Count req"] assms(6) by simp
  then have "?n \<le> sd_MaxImpressions s"
    using assms(5) by (simp add: word_le_nat_alt)
  then have m: "\<not> sd_MaxImpressions s < ?n" by simp
  have w: "\<not> (now < sd_StartTime s \<or> sd_EndTime s < now)" using assms(3,4) by simp
  have "am_state (snd (RecordDelivery V X now req a)) =
      SetAdSlot V (dq_SlotID req) (s\<lparr>sd_DeliveredImprs := ?n\<rparr>) (am_state a)"
    by (simp add: RecordDelivery_def assms(2) m w Let_def split: prod.splits sum.splits)
  with n assms(1) show ?thesis by (intro exI [of _ ?n]) simp
qed

text \<open>The price of a slot decays: within the delivery window it never rises and lies between
  the floor and one and a half times the floor; after the window it is zero. Before the window it
  is only the floor, although the comment there says full price.\<close>

theorem slot_price_decays:
  fixes slot :: "'d::linordered_field AdSlot"
  assumes "sd_Active slot" and "sd_StartTime slot < sd_EndTime slot" and "0 \<le> sd_FloorCPM slot"
    and "dc_Div D (sd_FloorCPM slot) 2 = sd_FloorCPM slot / 2"
    and "sd_StartTime slot \<le> t" and "t \<le> t'" and "t' \<le> sd_EndTime slot"
    and "early < sd_StartTime slot" and "sd_EndTime slot < late"
  shows "sd_FloorCPM slot \<le> calculateCurrentPrice D t' slot \<and>
    calculateCurrentPrice D t' slot \<le> calculateCurrentPrice D t slot \<and>
    calculateCurrentPrice D t slot \<le> calculateCurrentPrice D (sd_StartTime slot) slot \<and>
    calculateCurrentPrice D (sd_StartTime slot) slot = 3 / 2 * sd_FloorCPM slot \<and>
    calculateCurrentPrice D early slot = sd_FloorCPM slot \<and> calculateCurrentPrice D late slot = 0"
proof -
  let ?f = "sd_FloorCPM slot"
  have r: "0 \<le> remaining slot t'" "remaining slot t' \<le> remaining slot t" "remaining slot t \<le> 1"
    using remaining_bounds [OF assms(2), of t'] remaining_bounds [OF assms(2), of t] assms(5-7)
    by auto
  have p: "calculateCurrentPrice D t slot = ?f + ?f / 2 * remaining slot t"
    "calculateCurrentPrice D t' slot = ?f + ?f / 2 * remaining slot t'"
    "calculateCurrentPrice D (sd_StartTime slot) slot = ?f + ?f / 2 * remaining slot (sd_StartTime slot)"
    using assms by (simp_all add: price_in_window)
  have "0 < (seconds (sd_EndTime slot - sd_StartTime slot) :: 'd)"
    using assms(2) by (simp add: seconds_pos)
  then have "remaining slot (sd_StartTime slot) = 1" by (simp add: remaining_def)
  moreover have "?f / 2 * remaining slot t' \<le> ?f / 2 * remaining slot t"
    using r assms(3) by (intro mult_left_mono) auto
  moreover have "?f / 2 * remaining slot t \<le> ?f / 2"
    using mult_left_mono [OF r(3), of "?f / 2"] assms(3) by simp
  moreover have "0 \<le> ?f / 2 * remaining slot t'" using r assms(3) by simp
  moreover have "calculateCurrentPrice D early slot = ?f"
    using assms by (simp add: calculateCurrentPrice_def)
  moreover have "calculateCurrentPrice D late slot = 0"
    using assms by (simp add: calculateCurrentPrice_def)
  ultimately show ?thesis by (simp add: p)
qed

text \<open>A sale of slots to the pool keeps the product of the reserves up to the time decay: the
  pool pays exactly what brings the product down to the decayed one. Selling nothing at all is
  therefore paid too, with the share of the reserve that has decayed.\<close>

theorem swap_pays_out_decay:
  fixes slot :: "'d::linordered_field AdSlot"
  assumes "slots_ok V" and "GetAdMM_Pool V (am_state a) (wq_SlotID req) = Some pool"
    and "slots_of V a (wq_SlotID req) = Some slot"
    and "sd_StartTime slot < sd_EndTime slot" and "now \<le> sd_EndTime slot"
    and "\<And>x y. y \<noteq> 0 \<Longrightarrow> dc_Div D x y = x / y"
    and "wq_BuyAUSD req" and "unat (po_ReserveSlots pool) + unat (wq_AmountIn req) < 2 ^ 63"
    and "SwapAdMM V X D now req a = (Inr resp, a')"
  shows "\<exists>pool'. GetAdMM_Pool V (am_state a') (wq_SlotID req) = Some pool' \<and>
    po_ReserveAUSD pool' = po_ReserveAUSD pool - ws_AmountOut resp \<and>
    po_ReserveSlots pool' = po_ReserveSlots pool + wq_AmountIn req \<and>
    po_ReserveAUSD pool' * dec_u64 (po_ReserveSlots pool') =
      po_ReserveAUSD pool * dec_u64 (po_ReserveSlots pool)
        * (1 - po_TimeDecayRate pool * (1 - remaining slot now)) \<and>
    (wq_AmountIn req = 0 \<longrightarrow> ws_AmountOut resp =
       po_ReserveAUSD pool * (po_TimeDecayRate pool * (1 - remaining slot now)))"
proof -
  let ?k = "1 - po_TimeDecayRate pool * (1 - remaining slot now)"
  let ?n = "po_ReserveSlots pool + wq_AmountIn req"
  have dec: "calculateTimeDecay now slot (po_TimeDecayRate pool) = ?k"
    by (rule decay_in_window [OF assms(4,5)])
  obtain amt where amt: "calculateAMM_Swap D now pool (Some slot) (wq_AmountIn req) True = Some amt"
    "0 < amt" "ws_AmountOut resp = amt"
    "a' = a\<lparr>am_state := SetAdMM_Pool V (wq_SlotID req) (swap_pool X D req amt pool) (am_state a)\<rparr>"
    using assms(9) by (auto simp: SwapAdMM_def assms(2,3,7) Let_def not_le split: option.splits if_splits)
  have pos: "\<not> (po_ReserveAUSD pool \<le> 0 \<or> po_ReserveSlots pool = 0)"
    using amt by (auto simp: calculateAMM_Swap_def split: if_splits)
  have ps: "0 < unat (po_ReserveSlots pool)" using pos by (simp add: unat_gt_0)
  have un: "unat ?n = unat (po_ReserveSlots pool) + unat (wq_AmountIn req)"
    using assms(8) by (intro unat_add_lem [THEN iffD1]) simp
  have nz: "dec_u64 ?n \<noteq> (0 :: 'd)" "dec_u64 (po_ReserveSlots pool) \<noteq> (0 :: 'd)"
    using ps un assms(8) by (intro dec_u64_nonzero; simp)+
  have out: "amt = po_ReserveAUSD pool - po_ReserveAUSD pool * dec_u64 (po_ReserveSlots pool) * ?k / dec_u64 ?n"
    using amt(1) pos nz by (simp add: calculateAMM_Swap_def dec Let_def assms(6))
  have new: "po_ReserveAUSD (swap_pool X D req amt pool) = po_ReserveAUSD pool - amt"
    "po_ReserveSlots (swap_pool X D req amt pool) = ?n"
    by (simp_all add: swap_pool_def assms(7) Let_def)
  have "(po_ReserveAUSD pool - amt) * dec_u64 ?n =
      po_ReserveAUSD pool * dec_u64 (po_ReserveSlots pool) * ?k"
    using nz by (simp add: out)
  moreover have "wq_AmountIn req = 0 \<longrightarrow> amt =
      po_ReserveAUSD pool * (po_TimeDecayRate pool * (1 - remaining slot now))"
    using nz by (simp add: out field_simps)
  ultimately show ?thesis
    using amt assms(1) new by (intro exI [of _ "swap_pool X D req amt pool"]) simp
qed

subsection \<open>Concrete instances\<close>

type_synonym 'd demo_slots = "(u64 \<rightharpoonup> 'd AdSlot) \<times> (string \<rightharpoonup> 'd AdSlotOrder) \<times> (u64 \<rightharpoonup> 'd AdMM_Pool)"

definition map_slots :: "('d demo_slots, 'd) SlotState" where
  "map_slots =
     \<lparr>GetAdSlot = (\<lambda>(s, r, p). s), SetAdSlot = (\<lambda>k x (s, r, p). (s(k \<mapsto> x), r, p)),
      GetAdSlotOrder = (\<lambda>(s, r, p). r), SetAdSlotOrder = (\<lambda>k x (s, r, p). (s, r(k \<mapsto> x), p)),
      GetAdMM_Pool = (\<lambda>(s, r, p). p), SetAdMM_Pool = (\<lambda>k x (s, r, p). (s, r, p(k \<mapsto> x)))\<rparr>"

lemma map_slots_ok: "slots_ok map_slots"
  by (simp add: slots_ok_def map_slots_def split: prod.splits)

definition demo_registry :: "(unit, rat) Registry" where
  "demo_registry =
     \<lparr>MintAsset = (\<lambda>a p n x. (Inr (), x)), BurnAsset = (\<lambda>a p n x. (Inr (), x)),
      RegAddOrder = (\<lambda>r s x. (Inr (), x)), slotTransferAUSD = (\<lambda>a b d x. (Inr (), x)),
      IntPart = floor, hashCommitment = (\<lambda>p n. n), estimateOrderFill = (\<lambda>r s. 0),
      calculateSlippage = (\<lambda>x y. x - y)\<rparr>"

definition demo_decimals :: "rat decimal_ops" where
  "demo_decimals = \<lparr>dc_Div = (/), dc_Sqrt = id\<rparr>"

definition demo_slot :: "rat AdSlot" where
  "demo_slot = \<lparr>sd_ID = 1, sd_Publisher = ''pub'', sd_Placement = ''ctv'', sd_TargetingHash = [],
     sd_StartTime = 0, sd_EndTime = 100, sd_MaxImpressions = 10, sd_DeliveredImprs = 0,
     sd_MinViewability = 0, sd_FloorCPM = 8, sd_Active = True,
     sd_Targeting = \<lparr>tp_GeoTargets = [], tp_DeviceTypes = [], tp_Categories = [], tp_MinAge = 0,
       tp_MaxAge = 0\<rparr>, sd_SecondaryMarkets = []\<rparr>"

definition demo_pool :: "rat AdMM_Pool" where
  "demo_pool = \<lparr>po_SlotID = 1, po_ReserveAUSD = 100, po_ReserveSlots = 10, po_LastPrice = 10,
     po_LPTokenSupply = 1, po_TimeDecayRate = 1 / 2, po_CreatedAt = 0\<rparr>"

definition demo_market :: "(rat demo_slots, unit) AdSlotManager" where
  "demo_market = \<lparr>am_state = ([1 \<mapsto> demo_slot], Map.empty, [1 \<mapsto> demo_pool]), am_dex = (), am_nextID = 2\<rparr>"

lemma demo_market_gets:
  "GetAdSlot map_slots (am_state demo_market) 1 = Some demo_slot"
  "GetAdMM_Pool map_slots (am_state demo_market) 1 = Some demo_pool" "am_nextID demo_market = 2"
  by (simp_all add: demo_market_def map_slots_def)

definition demo_delivery :: "u64 \<Rightarrow> rat slot_op" where
  "demo_delivery n = SDeliver 5 \<lparr>dq_SlotID = 1, dq_Count = n\<rparr>"

theorem deliveries_within_supply_witness:
  "\<exists>n. slots_of map_slots (fold (slot_step map_slots demo_registry demo_decimals id)
      [demo_delivery 6, demo_delivery 6, demo_delivery 4] demo_market) 1 =
      Some (demo_slot\<lparr>sd_DeliveredImprs := n\<rparr>) \<and> n \<le> 10"
  using deliveries_within_supply [OF map_slots_ok demo_market_gets(1), of
      "[demo_delivery 6, demo_delivery 6, demo_delivery 4]" demo_registry demo_decimals id]
  by (auto simp: demo_market_gets(3) demo_slot_def counts_fit_def demo_delivery_def)

theorem slot_price_decays_witness:
  "calculateCurrentPrice demo_decimals 70 demo_slot \<le> calculateCurrentPrice demo_decimals 30 demo_slot
   \<and> calculateCurrentPrice demo_decimals 30 demo_slot \<le> 12"
  using slot_price_decays [of demo_slot demo_decimals 30 70 "-1" 101]
  by (simp add: demo_slot_def demo_decimals_def)

theorem swap_pays_out_decay_witness:
  "\<exists>resp a'. SwapAdMM map_slots demo_registry demo_decimals 50
      \<lparr>wq_SlotID = 1, wq_AmountIn = 0, wq_BuyAUSD = True, wq_ExpectedAmountOut = 0\<rparr> demo_market = (Inr resp, a')
    \<and> ws_AmountOut resp = 25"
proof -
  let ?req = "\<lparr>wq_SlotID = 1, wq_AmountIn = 0, wq_BuyAUSD = True, wq_ExpectedAmountOut = 0\<rparr> :: rat SwapAdMM_Request"
  have win: "sd_StartTime demo_slot < sd_EndTime demo_slot" "50 \<le> sd_EndTime demo_slot"
    by (simp_all add: demo_slot_def)
  have rem: "remaining demo_slot 50 = (1 / 2 :: rat)"
    by (simp add: remaining_def demo_slot_def seconds_def second_ns_def)
  have k: "calculateTimeDecay 50 demo_slot (po_TimeDecayRate demo_pool) = 3 / 4"
    by (simp add: decay_in_window [OF win] rem demo_pool_def)
  have "calculateAMM_Swap demo_decimals 50 demo_pool (Some demo_slot) 0 True = Some 25"
    by (simp add: calculateAMM_Swap_def k Let_def) (simp add: demo_pool_def demo_decimals_def dec_u64_def)
  then obtain resp a' where r: "SwapAdMM map_slots demo_registry demo_decimals 50 ?req demo_market = (Inr resp, a')"
    by (simp add: SwapAdMM_def demo_market_gets Let_def)
  have "ws_AmountOut resp = 25"
    using swap_pays_out_decay [OF map_slots_ok _ _ win _ _ _ r, of demo_pool] rem
    by (auto simp: demo_market_gets demo_decimals_def demo_pool_def)
  with r show ?thesis by blast
qed

end
