(* ===== verification/Paillier.thy ===== *)
theory Paillier
  imports Complex_Main BigInt
begin

text \<open>
  The arithmetic behind \<^verbatim>\<open>pkg/fhe/privacy.go\<close>: Fermat's little theorem, powers of numbers
  that are one modulo \<open>n\<close>, and the Paillier decryption formula modulo \<open>n ^ 2\<close>. Everything
  is about integers; congruence is stated by divisibility. Nothing here is code: the code's
  definitions are in theory Fhe.
\<close>

definition prime_num :: "int \<Rightarrow> bool" where
  "prime_num p \<longleftrightarrow> 1 < p \<and> (\<forall>d. 0 \<le> d \<and> d dvd p \<longrightarrow> d = 1 \<or> d = p)"

lemma prime_num_gt: "prime_num p \<Longrightarrow> 1 < p"
  by (simp add: prime_num_def)

lemma prime_coprime:
  assumes "prime_num p" and "\<not> p dvd a" shows "coprime p a"
proof (rule coprimeI)
  fix d assume d: "d dvd p" "d dvd a"
  then have "\<bar>d\<bar> = 1 \<or> \<bar>d\<bar> = p" using assms(1) unfolding prime_num_def by (metis abs_dvd_iff abs_ge_zero)
  with d(2) assms(2) show "is_unit d" by (auto simp: abs_dvd_iff)
qed

lemma prime_not_dvd_below: "prime_num p \<Longrightarrow> 0 < k \<Longrightarrow> k < p \<Longrightarrow> coprime p k"
  by (rule prime_coprime) (auto dest: zdvd_imp_le)

lemma primes_coprime:
  assumes "prime_num p" "prime_num q" "p \<noteq> q" shows "coprime p q"
proof (rule prime_coprime [OF assms(1)])
  have p: "1 < p" by (rule prime_num_gt [OF assms(1)])
  have "0 \<le> p \<and> p dvd q \<longrightarrow> p = 1 \<or> p = q" using assms(2) unfolding prime_num_def by blast
  then show "\<not> p dvd q" using p assms(3) by auto
qed

subsection \<open>Powers and divisibility\<close>

lemma one_minus_dvd_power: "(x - 1 :: int) dvd x ^ k - 1"
proof (induction k)
  case (Suc k)
  have "x ^ Suc k - 1 = x * (x ^ k - 1) + (x - 1)" by (simp add: algebra_simps)
  with Suc show ?case by (metis dvd_add dvd_mult dvd_refl)
qed simp

lemma dvd_power_one: "(n :: int) dvd x - 1 \<Longrightarrow> n dvd x ^ k - 1"
  using dvd_trans one_minus_dvd_power by blast

lemma power_one_plus: "(n * n :: int) dvd (1 + n * t) ^ k - (1 + int k * n * t)"
proof (induction k)
  case (Suc k)
  have "(1 + n * t) ^ Suc k - (1 + int (Suc k) * n * t) =
      (1 + n * t) * ((1 + n * t) ^ k - (1 + int k * n * t)) + n * n * (int k * t * t)"
    by (simp add: algebra_simps)
  with Suc show ?case by (simp add: dvd_add)
qed simp

lemma power_of_one_mod:
  assumes "(n :: int) dvd x - 1" and "0 \<le> n" shows "n * n dvd x ^ nat n - 1"
proof -
  obtain t where "x - 1 = n * t" using assms(1) by (rule dvdE)
  then have x: "x = 1 + n * t" by simp
  have "n * n dvd x ^ nat n - (1 + n * n * t)" using power_one_plus [of n t "nat n"] assms(2) by (simp add: x)
  moreover have "x ^ nat n - 1 = (x ^ nat n - (1 + n * n * t)) + n * n * t" by simp
  ultimately show ?thesis by (metis dvd_add dvd_triv_left)
qed

subsection \<open>Fermat's little theorem\<close>

lemma prime_dvd_choose:
  assumes "prime_num (int p)" and "0 < k" and "k < p" shows "int p dvd int (p choose k)"
proof -
  have "k * (p choose k) = p * ((p - 1) choose (k - 1))"
    using assms(2) times_binomial_minus1_eq by simp
  then have "int p dvd int k * int (p choose k)" by (metis dvd_triv_left of_nat_dvd_iff of_nat_mult)
  moreover have "coprime (int p) (int k)" by (rule prime_not_dvd_below) (use assms in auto)
  ultimately show ?thesis by (simp add: coprime_dvd_mult_right_iff)
qed

lemma prime_power_add:
  assumes "prime_num (int p)" shows "int p dvd (int a + 1) ^ p - (int a ^ p + 1)"
proof -
  have p: "0 < p" using prime_num_gt [OF assms] by simp
  have "(int a + 1) ^ p = (\<Sum>k\<le>p. int (p choose k) * int a ^ k)"
    using binomial_ring [of "int a" 1 p] by simp
  also have "{..p} = insert 0 (insert p {0<..<p})" using p by auto
  also have "(\<Sum>k\<in>\<dots>. int (p choose k) * int a ^ k) =
      1 + (int a ^ p + (\<Sum>k\<in>{0<..<p}. int (p choose k) * int a ^ k))"
    using p by simp
  finally have "(int a + 1) ^ p - (int a ^ p + 1) = (\<Sum>k\<in>{0<..<p}. int (p choose k) * int a ^ k)"
    by simp
  moreover have "int p dvd (\<Sum>k\<in>{0<..<p}. int (p choose k) * int a ^ k)"
    by (intro dvd_sum dvd_mult2 prime_dvd_choose [OF assms]) auto
  ultimately show ?thesis by simp
qed

lemma fermat_power:
  assumes "prime_num (int p)" shows "int p dvd int a ^ p - int a"
proof (induction a)
  case 0
  show ?case using prime_num_gt [OF assms] by (simp add: zero_power)
next
  case (Suc a)
  have "int (Suc a) ^ p - int (Suc a) = ((int a + 1) ^ p - (int a ^ p + 1)) + (int a ^ p - int a)"
    by (simp add: add.commute)
  with prime_power_add [OF assms, of a] Suc show ?case by (metis dvd_add)
qed

lemma fermat_little:
  assumes "prime_num p" and "0 \<le> a" and "coprime p a" shows "p dvd a ^ nat (p - 1) - 1"
proof -
  have p: "1 < p" "int (nat p) = p" using prime_num_gt [OF assms(1)] by simp_all
  have "int (nat p) dvd int (nat a) ^ nat p - int (nat a)"
    by (rule fermat_power) (use p assms(1) in simp)
  then have "p dvd a ^ nat p - a" using assms(2) p(2) by simp
  moreover have "a ^ nat p - a = a * (a ^ nat (p - 1) - 1)"
  proof -
    have "nat p = Suc (nat (p - 1))" using p by simp
    then show ?thesis by (simp add: algebra_simps)
  qed
  ultimately show ?thesis using assms(3) by (simp add: coprime_dvd_mult_right_iff)
qed

lemma fermat_multiple:
  assumes "prime_num p" and "0 \<le> a" and "coprime p a" and "p - 1 dvd l" and "0 \<le> l"
  shows "p dvd a ^ nat l - 1"
proof -
  from assms(4) obtain j where j: "l = (p - 1) * j" by (rule dvdE)
  have p: "0 < p - 1" using prime_num_gt [OF assms(1)] by simp
  then have "0 \<le> j" using assms(5) j by (simp add: zero_le_mult_iff)
  then have "nat l = nat (p - 1) * nat j" using p by (simp add: j nat_mult_distrib)
  then have "a ^ nat l = (a ^ nat (p - 1)) ^ nat j" by (simp add: power_mult)
  with dvd_power_one [OF fermat_little [OF assms(1-3)]] show ?thesis by simp
qed

subsection \<open>The modulus and its exponent\<close>

text \<open>What the decryption needs of a key: \<open>l\<close> kills every invertible residue modulo
  \<open>n\<close>, and \<open>u\<close> is the inverse of \<open>l\<close> modulo \<open>n\<close>.\<close>

definition kills :: "int \<Rightarrow> int \<Rightarrow> bool" where
  "kills n l \<longleftrightarrow> 1 < n \<and> 0 \<le> l \<and> (\<forall>r. 0 \<le> r \<and> coprime n r \<longrightarrow> n dvd r ^ nat l - 1)"

lemma kills_primes:
  assumes "prime_num p" and "prime_num q" and "p \<noteq> q" and "p - 1 dvd l" and "q - 1 dvd l" and "0 \<le> l"
  shows "kills (p * q) l"
  unfolding kills_def
proof (intro conjI allI impI)
  have pq: "1 < p" "1 < q" using assms(1,2) by (simp_all add: prime_num_gt)
  then show "1 < p * q" by (simp add: less_1_mult)
  show "0 \<le> l" by fact
  fix r :: int assume r: "0 \<le> r \<and> coprime (p * q) r"
  then have "p dvd r ^ nat l - 1" "q dvd r ^ nat l - 1"
    using fermat_multiple [OF assms(1) _ _ assms(4,6)] fermat_multiple [OF assms(2) _ _ assms(5,6)] by auto
  moreover have "coprime p q" by (rule primes_coprime [OF assms(1-3)])
  ultimately show "p * q dvd r ^ nat l - 1" by (simp add: divides_mult)
qed

text \<open>The heart of Paillier: what raising a ciphertext to \<open>l\<close> leaves.\<close>

lemma cipher_power:
  assumes "kills n l" and "0 \<le> r" and "coprime n r" and "0 \<le> m"
  shows "(((1 + n) ^ nat m * r ^ nat n) ^ nat l) mod (n * n) = 1 + n * ((m * l) mod n)"
proof -
  have n: "1 < n" and l: "0 \<le> l" and r: "n dvd r ^ nat l - 1" using assms by (auto simp: kills_def)
  let ?x = "(1 + n) ^ (nat m * nat l)" and ?y = "(r ^ nat l) ^ nat n"
  have xy: "((1 + n) ^ nat m * r ^ nat n) ^ nat l = ?x * ?y"
    by (simp add: power_mult_distrib flip: power_mult) (simp add: mult.commute)
  have "n * n dvd ?x - (1 + int (nat m * nat l) * n)" using power_one_plus [of n 1 "nat m * nat l"] by simp
  then have x: "n * n dvd ?x - (1 + m * l * n)" using assms(4) l by simp
  have y: "n * n dvd ?y - 1" using n by (intro power_of_one_mod [OF r]) simp
  let ?z = "(m * l) mod n"
  have "1 + m * l * n - (1 + n * ?z) = n * (n * ((m * l) div n))"
    by (simp add: minus_mod_eq_mult_div [symmetric] algebra_simps)
  then have z: "n * n dvd 1 + m * l * n - (1 + n * ?z)" by simp
  have "?x * ?y - (1 + n * ?z) =
      ?x * (?y - 1) + (?x - (1 + m * l * n)) + (1 + m * l * n - (1 + n * ?z))"
    by (simp add: algebra_simps)
  then have "n * n dvd ?x * ?y - (1 + n * ?z)" using x y z by (metis dvd_add dvd_mult)
  then have "(?x * ?y) mod (n * n) = (1 + n * ?z) mod (n * n)" by (simp add: mod_eq_dvd_iff)
  also have "\<dots> = 1 + n * ?z"
  proof (rule mod_pos_pos_trivial)
    have zl: "0 \<le> ?z" "?z \<le> n - 1" using n by (simp_all add: zle_diff1_eq)
    show "0 \<le> 1 + n * ?z" using zl(1) n by simp
    have "n * ?z \<le> n * (n - 1)" using zl(2) n by (intro mult_left_mono) simp_all
    moreover have "1 + n * (n - 1) < n * n" using n by (simp add: algebra_simps)
    ultimately show "1 + n * ?z < n * n" by linarith
  qed
  finally show ?thesis by (simp add: xy)
qed

end
