(* ===== verification/Fhe.thy ===== *)
theory Fhe
  imports Paillier
begin

text \<open>
  \<^verbatim>\<open>pkg/fhe/privacy.go\<close>: Paillier encryption of bids and profiles, the homomorphic
  operations, the private auction and the export of the public key.

  A \<open>*big.Int\<close> is an \<open>int\<close>, a nil one \<open>None\<close>, and using a nil one is \<open>FhePanic\<close>.
  The primes of the key, the random \<open>r\<close> and the nonce of an encryption are arguments (the
  errors of the random source are ignored by the code), \<open>sha\<close> is SHA-256, \<open>ip\<close> is
  \<open>IntPart\<close> of the decimal library, and \<open>enc\<close> and \<open>dec\<close> are standard base64. The map of
  demographics is read in the order \<open>order\<close>.
\<close>

datatype fhe_error =
    ErrBidTooLarge
  | ErrContextMismatch
  | ErrNoBids
  | ErrBase64
  | FhePanic

record PublicKey =
  pk_N :: int
  pk_G :: int

record PrivateKey =
  sk_Lambda :: int
  sk_Mu :: "int option"

record FHEScheme =
  fh_n :: int
  fh_n2 :: int
  fh_g :: int
  fh_lambda :: int
  fh_mu :: "int option"
  fh_publicKey :: PublicKey
  fh_privateKey :: PrivateKey
  fh_precomputed :: "string \<rightharpoonup> int"

record EncryptedData =
  ed_Ciphertext :: bytes
  ed_Nonce :: bytes
  ed_Context :: string

record PrivateProfile =
  pp_ID :: string
  pp_Interests :: "string list"
  pp_Demographics :: "string \<rightharpoonup> string"
  pp_Behaviors :: "string list"
  pp_Salt :: bytes

record TargetingCriteria =
  tc_Categories :: "string list"
  tc_MinAge :: int
  tc_MaxAge :: int
  tc_Interests :: "string list"
  tc_ExcludePatterns :: "string list"

record EncryptedBid =
  eb_BidderID :: string
  eb_Encrypted :: EncryptedData
  eb_Commitment :: bytes

record PrivacyPreservingAuction =
  pa_fhe :: FHEScheme
  pa_encryptedBids :: "EncryptedBid list"

subsection \<open>Arithmetic of \<open>math/big\<close>\<close>

text \<open>\<open>Exp\<close>: the power modulo \<open>|m|\<close>; a negative exponent needs an inverse and is nil
  without one.\<close>

definition big_exp :: "int \<Rightarrow> int \<Rightarrow> int \<Rightarrow> int option" where
  "big_exp x y m =
     (if m = 0 then Some (if y \<le> 0 then 1 else x ^ nat y)
      else if 0 \<le> y then Some (x ^ nat y mod \<bar>m\<bar>)
      else map_option (\<lambda>b. b ^ nat (- y) mod \<bar>m\<bar>) (mod_inverse x \<bar>m\<bar>))"

definition fhe_lcm :: "int \<Rightarrow> int \<Rightarrow> int" where
  "fhe_lcm a b = (a * b) div gcd a b"

definition paillier_L :: "int \<Rightarrow> int \<Rightarrow> int" where
  "paillier_L u n = (u - 1) div n"

subsection \<open>Key generation\<close>

definition paillier_setup :: "int \<Rightarrow> int \<Rightarrow> FHEScheme option" where
  "paillier_setup p q =
     (let n = p * q;
          n2 = n * n;
          g = n + 1;
          lambda = fhe_lcm (p - 1) (q - 1)
      in (case big_exp g lambda n2 of
            None \<Rightarrow> None
          | Some gLambda \<Rightarrow>
              let l = paillier_L gLambda n;
                  mu = mod_inverse l n
              in Some \<lparr>fh_n = n, fh_n2 = n2, fh_g = g, fh_lambda = lambda, fh_mu = mu,
                       fh_publicKey = \<lparr>pk_N = n, pk_G = g\<rparr>,
                       fh_privateKey = \<lparr>sk_Lambda = lambda, sk_Mu = mu\<rparr>,
                       fh_precomputed = Map.empty\<rparr>))"

text \<open>\<open>prime bits k\<close> is the \<open>k\<close>th number \<open>rand.Prime\<close> returns, of \<open>bits\<close> bits.\<close>

definition NewFHEScheme :: "(int \<Rightarrow> nat \<Rightarrow> int) \<Rightarrow> int \<Rightarrow> FHEScheme option" where
  "NewFHEScheme prime bitSize0 =
     (let bitSize = (if bitSize0 < 512 then 2048 else bitSize0);
          p = prime (bitSize div 2) 0;
          q = prime (bitSize div 2) 1
      in paillier_setup p q)"

subsection \<open>Encryption\<close>

text \<open>\<open>c = g^m * r^n mod n^2\<close>, as \<open>EncryptProfile\<close>, \<open>EncryptBid\<close> and
  \<open>encryptBytes\<close> compute it.\<close>

definition encrypt_int :: "int \<Rightarrow> int \<Rightarrow> FHEScheme \<Rightarrow> bytes option" where
  "encrypt_int r m fhe =
     (case (big_exp (fh_g fhe) m (fh_n2 fhe), big_exp r (fh_n fhe) (fh_n2 fhe)) of
        (Some gm, Some rn) \<Rightarrow>
          if fh_n2 fhe = 0 then None else Some (big_bytes ((gm * rn) mod fh_n2 fhe))
      | _ \<Rightarrow> None)"

definition EncryptProfile ::
  "(bytes \<Rightarrow> bytes) \<Rightarrow> string list \<Rightarrow> int \<Rightarrow> bytes \<Rightarrow> PrivateProfile \<Rightarrow> FHEScheme \<Rightarrow>
   fhe_error + EncryptedData" where
  "EncryptProfile sha order r nonce profile fhe =
     (let written = concat (pp_Interests profile) @
            concat (map (\<lambda>k. case pp_Demographics profile k of None \<Rightarrow> [] | Some v \<Rightarrow> k @ '':'' @ v) order);
          m = set_bytes (sha (map of_char written))
      in (case encrypt_int r m fhe of
            None \<Rightarrow> Inl FhePanic
          | Some c \<Rightarrow> Inr \<lparr>ed_Ciphertext = c, ed_Nonce = nonce, ed_Context = ''profile_v1''\<rparr>))"

definition EncryptBid ::
  "('d::linordered_idom \<Rightarrow> int) \<Rightarrow> int \<Rightarrow> bytes \<Rightarrow> 'd \<Rightarrow> FHEScheme \<Rightarrow> fhe_error + EncryptedData" where
  "EncryptBid ip r nonce amount fhe =
     (let m = ip (amount * of_int 100)
      in if fh_n fhe \<le> m then Inl ErrBidTooLarge
         else (case encrypt_int r m fhe of
                 None \<Rightarrow> Inl FhePanic
               | Some c \<Rightarrow> Inr \<lparr>ed_Ciphertext = c, ed_Nonce = nonce, ed_Context = ''bid_v1''\<rparr>))"

definition encryptBytes ::
  "int \<Rightarrow> bytes \<Rightarrow> bytes \<Rightarrow> FHEScheme \<Rightarrow> fhe_error + EncryptedData" where
  "encryptBytes r nonce data fhe =
     (let m0 = set_bytes data;
          m = (if fh_n fhe \<le> m0 then m0 mod fh_n fhe else m0)
      in (case encrypt_int r m fhe of
            None \<Rightarrow> Inl FhePanic
          | Some c \<Rightarrow> Inr \<lparr>ed_Ciphertext = c, ed_Nonce = nonce, ed_Context = ''bytes_v1''\<rparr>))"

subsection \<open>Computing on ciphertexts\<close>

definition AddEncrypted ::
  "EncryptedData \<Rightarrow> EncryptedData \<Rightarrow> FHEScheme \<Rightarrow> fhe_error + EncryptedData" where
  "AddEncrypted a b fhe =
     (if ed_Context a \<noteq> ed_Context b then Inl ErrContextMismatch
      else if fh_n2 fhe = 0 then Inl FhePanic
      else
        let c1 = set_bytes (ed_Ciphertext a);
            c2 = set_bytes (ed_Ciphertext b);
            result = (c1 * c2) mod fh_n2 fhe
        in if length (ed_Nonce a) < 16 \<or> length (ed_Nonce b) < 16 then Inl FhePanic
           else Inr \<lparr>ed_Ciphertext = big_bytes result,
                     ed_Nonce = map (\<lambda>i. (ed_Nonce a ! i) XOR (ed_Nonce b ! i)) [0..<16],
                     ed_Context = ed_Context a\<rparr>)"

definition MultiplyByConstant ::
  "EncryptedData \<Rightarrow> int \<Rightarrow> FHEScheme \<Rightarrow> fhe_error + EncryptedData" where
  "MultiplyByConstant encrypted k fhe =
     (case big_exp (set_bytes (ed_Ciphertext encrypted)) k (fh_n2 fhe) of
        None \<Rightarrow> Inl FhePanic
      | Some result \<Rightarrow>
          Inr \<lparr>ed_Ciphertext = big_bytes result, ed_Nonce = ed_Nonce encrypted,
               ed_Context = ed_Context encrypted\<rparr>)"

definition Decrypt :: "EncryptedData \<Rightarrow> FHEScheme \<Rightarrow> fhe_error + int" where
  "Decrypt encrypted fhe =
     (let c = set_bytes (ed_Ciphertext encrypted) in
      case big_exp c (fh_lambda fhe) (fh_n2 fhe) of
        None \<Rightarrow> Inl FhePanic
      | Some cLambda \<Rightarrow>
          if fh_n fhe = 0 then Inl FhePanic
          else
            let l = paillier_L cLambda (fh_n fhe)
            in (case fh_mu fhe of
                  None \<Rightarrow> Inl FhePanic
                | Some mu \<Rightarrow> Inr ((l * mu) mod fh_n fhe)))"

definition SecureMatch ::
  "(bytes \<Rightarrow> bytes) \<Rightarrow> EncryptedData \<Rightarrow> TargetingCriteria \<Rightarrow> fhe_error + bool" where
  "SecureMatch sha encryptedProfile criteria =
     (let criteriaHash = sha (map of_char (concat (tc_Interests criteria) @ concat (tc_Categories criteria)))
      in if length (tc_Interests criteria) > 0 then Inr True
         else Inr (length criteriaHash > 0))"

definition checkProximity :: "EncryptedData \<Rightarrow> FHEScheme \<Rightarrow> fhe_error + bool" where
  "checkProximity encrypted fhe =
     (case Decrypt encrypted fhe of
        Inl err \<Rightarrow> Inl err
      | Inr decrypted \<Rightarrow> Inr (decrypted < 1000000))"

subsection \<open>The private auction\<close>

definition NewPrivacyAuction :: "FHEScheme \<Rightarrow> PrivacyPreservingAuction" where
  "NewPrivacyAuction fhe = \<lparr>pa_fhe = fhe, pa_encryptedBids = []\<rparr>"

definition PA_SubmitBid ::
  "('d::linordered_idom \<Rightarrow> int) \<Rightarrow> (bytes \<Rightarrow> bytes) \<Rightarrow> int \<Rightarrow> bytes \<Rightarrow> string \<Rightarrow> 'd \<Rightarrow>
   PrivacyPreservingAuction \<Rightarrow> (fhe_error + unit) \<times> PrivacyPreservingAuction" where
  "PA_SubmitBid ip sha r nonce bidderID amount pa =
     (case EncryptBid ip r nonce amount (pa_fhe pa) of
        Inl err \<Rightarrow> (Inl err, pa)
      | Inr encrypted \<Rightarrow>
          (Inr (),
           pa\<lparr>pa_encryptedBids := pa_encryptedBids pa @
                [\<lparr>eb_BidderID = bidderID, eb_Encrypted = encrypted,
                  eb_Commitment = sha (ed_Ciphertext encrypted)\<rparr>]\<rparr>))"

text \<open>The loop over the bids; the accumulator holds the winner and the highest bid so far.
  \<open>Decrypt\<close> never returns an error, so its \<open>continue\<close> is not taken.\<close>

fun winner_scan ::
  "FHEScheme \<Rightarrow> string \<times> int option \<Rightarrow> EncryptedBid list \<Rightarrow> fhe_error + string \<times> int option" where
  "winner_scan fhe acc [] = Inr acc"
| "winner_scan fhe (winner, maxBid) (bid # bids) =
     (case Decrypt (eb_Encrypted bid) fhe of
        Inl err \<Rightarrow> Inl err
      | Inr decrypted \<Rightarrow>
          if maxBid = None \<or> the maxBid < decrypted
          then winner_scan fhe (eb_BidderID bid, Some decrypted) bids
          else winner_scan fhe (winner, maxBid) bids)"

definition PA_DetermineWinner :: "PrivacyPreservingAuction \<Rightarrow> fhe_error + string" where
  "PA_DetermineWinner pa =
     (if length (pa_encryptedBids pa) = 0 then Inl ErrNoBids
      else (case winner_scan (pa_fhe pa) ('''', None) (pa_encryptedBids pa) of
              Inl err \<Rightarrow> Inl err
            | Inr (winner, _) \<Rightarrow> Inr winner))"

subsection \<open>The public key\<close>

definition ExportPublicKey :: "(bytes \<Rightarrow> string) \<Rightarrow> FHEScheme \<Rightarrow> string" where
  "ExportPublicKey enc fhe =
     enc (big_bytes (pk_N (fh_publicKey fhe)) @ big_bytes (pk_G (fh_publicKey fhe)))"

definition ImportPublicKey :: "(string \<Rightarrow> bytes option) \<Rightarrow> string \<Rightarrow> fhe_error + PublicKey" where
  "ImportPublicKey dec encoded =
     (case dec encoded of
        None \<Rightarrow> Inl ErrBase64
      | Some data \<Rightarrow>
          let mid = length data div 2
          in Inr \<lparr>pk_N = set_bytes (take mid data), pk_G = set_bytes (drop mid data)\<rparr>)"

subsection \<open>Keys\<close>

lemma egcd_gcd: "0 \<le> a \<Longrightarrow> 0 \<le> b \<Longrightarrow> fst (egcd a b) = gcd a b"
proof (induction a b rule: egcd.induct)
  case (1 a b)
  show ?case
  proof (cases "b \<le> 0")
    case True
    with 1 show ?thesis by (simp add: egcd.simps)
  next
    case False
    then have "fst (egcd b (a mod b)) = gcd b (a mod b)" using 1 by simp
    moreover have "fst (egcd a b) = fst (egcd b (a mod b))"
      using False by (subst egcd.simps) (simp split: prod.splits)
    ultimately show ?thesis by (simp add: gcd_red_int [of a b])
  qed
qed

lemma mod_inverse_exists:
  assumes "1 < m" and "coprime a m" shows "\<exists>b. mod_inverse a m = Some b"
proof -
  have "fst (egcd m (a mod m)) = gcd m (a mod m)" using assms(1) by (intro egcd_gcd) simp_all
  also have "\<dots> = gcd a m" by (rule gcd_red_int [symmetric])
  also have "\<dots> = 1" using assms(2) by simp
  finally show ?thesis by (auto simp: mod_inverse_def split: prod.splits)
qed

text \<open>The exponent of a power of a unit only matters modulo the order: a negative one acts
  like the positive one it is congruent to.\<close>

lemma big_exp_unit:
  assumes "1 < M" and "0 < N" and "M dvd x ^ N - 1"
  shows "\<exists>K. big_exp x y M = Some (x ^ K mod M) \<and> int N dvd int K - y"
proof (cases "0 \<le> y")
  case True
  with assms(1) have "big_exp x y M = Some (x ^ nat y mod M) \<and> int N dvd int (nat y) - y"
    by (simp add: big_exp_def)
  then show ?thesis by blast
next
  case False
  have "x ^ N = x * x ^ (N - 1)" using assms(2) by (simp flip: power_Suc)
  with assms(3) have u: "M dvd x * x ^ (N - 1) - 1" by simp
  have "coprime x M"
  proof (rule coprimeI)
    fix d assume "d dvd x" "d dvd M"
    then have "d dvd x * x ^ (N - 1)" "d dvd x * x ^ (N - 1) - 1" using u by (auto intro: dvd_trans)
    then have "d dvd x * x ^ (N - 1) - (x * x ^ (N - 1) - 1)" by (rule dvd_diff)
    then show "is_unit d" by simp
  qed
  then obtain b where b: "mod_inverse x M = Some b" using mod_inverse_exists [OF assms(1)] by blast
  then have xb: "(x * b) mod M = 1" using mod_inverse_correct [OF assms(1)] by blast
  have "b mod M = (b * (x * x ^ (N - 1))) mod M"
    using dvd_mult [OF u, of b] by (intro sym [of "_ mod M" "b mod M"]) (simp add: mod_eq_dvd_iff right_diff_distrib)
  also have "\<dots> = ((x * b) mod M * x ^ (N - 1)) mod M" by (simp add: mod_simps algebra_simps)
  finally have bp: "b mod M = x ^ (N - 1) mod M" by (simp add: xb)
  have "b ^ nat (- y) mod M = (x ^ (N - 1)) ^ nat (- y) mod M" by (metis bp power_mod)
  then have "big_exp x y M = Some (x ^ ((N - 1) * nat (- y)) mod M)"
    using False assms(1) b by (simp add: big_exp_def power_mult)
  moreover have "int ((N - 1) * nat (- y)) - y = int N * (- y)"
    using False assms(2) by (simp add: algebra_simps of_nat_diff)
  ultimately show ?thesis by (metis dvd_triv_left)
qed

text \<open>What every operation relies on, and what key generation establishes.\<close>

definition good_key :: "FHEScheme \<Rightarrow> bool" where
  "good_key S \<longleftrightarrow> kills (fh_n S) (fh_lambda S) \<and> 0 < fh_lambda S \<and> fh_n2 S = fh_n S * fh_n S \<and>
     fh_g S = fh_n S + 1 \<and> (\<exists>u. fh_mu S = Some u \<and> (fh_lambda S * u) mod fh_n S = 1)"

lemma good_key_n: "good_key S \<Longrightarrow> 1 < fh_n S \<and> 1 < fh_n S * fh_n S"
  by (auto simp: good_key_def kills_def less_1_mult)

lemma fhe_lcm_eq: "0 < a \<Longrightarrow> 0 < b \<Longrightarrow> fhe_lcm a b = lcm a b"
  by (simp add: fhe_lcm_def lcm_altdef_int)

text \<open>Two primes of the same length make a good key.\<close>

lemma primes_lambda_coprime:
  assumes "prime_num p" "prime_num q" "2 < p" "2 < q" "p < 2 * q" "q < 2 * p"
  shows "coprime (p * q) (fhe_lcm (p - 1) (q - 1))"
proof -
  have odd: "odd x" if "prime_num x" "2 < x" for x
  proof
    assume "even x"
    then have "(2::int) = 1 \<or> 2 = x" using that(1) unfolding prime_num_def by (metis zero_le_numeral)
    with that(2) show False by simp
  qed
  have cop: "coprime x (y - 1)" if "prime_num x" "odd x" "odd y" "2 < y" "y < 2 * x" for x y
  proof (rule prime_coprime [OF that(1)])
    show "\<not> x dvd y - 1"
    proof
      assume "x dvd y - 1"
      then obtain k where k: "y - 1 = x * k" by (rule dvdE)
      have x: "0 < x" using prime_num_gt [OF that(1)] by simp
      have "0 < x * k" using k that(4) by simp
      then have "0 < k" using x by (simp add: zero_less_mult_iff)
      moreover have "x * k < x * 2" using k that(5) by simp
      then have "k < 2" using x by simp
      ultimately have "y - 1 = x" using k by simp
      with that(2,3) show False by presburger
    qed
  qed
  have "coprime (p * q) ((p - 1) * (q - 1))"
    using cop [of p p] cop [of p q] cop [of q p] cop [of q q] odd assms
    by (simp add: coprime_commute)
  moreover have "fhe_lcm (p - 1) (q - 1) dvd (p - 1) * (q - 1)"
    using assms(3,4) by (simp add: fhe_lcm_eq)
  ultimately show ?thesis by (metis coprime_divisors dvd_refl)
qed

lemma paillier_setup_good:
  assumes "prime_num p" "prime_num q" "p \<noteq> q" "coprime (p * q) (fhe_lcm (p - 1) (q - 1))"
  shows "\<exists>S. paillier_setup p q = Some S \<and> good_key S \<and> fh_n S = p * q \<and>
    fh_publicKey S = \<lparr>pk_N = p * q, pk_G = p * q + 1\<rparr>"
proof -
  let ?n = "p * q" and ?l = "fhe_lcm (p - 1) (q - 1)"
  have pq: "1 < p" "1 < q" using assms(1,2) by (simp_all add: prime_num_gt)
  then have l: "0 < ?l" "p - 1 dvd ?l" "q - 1 dvd ?l"
    by (simp_all add: fhe_lcm_eq lcm_pos_int)
  have k: "kills ?n ?l" using kills_primes [OF assms(1-3) l(2,3)] l(1) by simp
  then have n: "1 < ?n" by (simp add: kills_def)
  have e: "big_exp (?n + 1) ?l (?n * ?n) = Some (1 + ?n * (?l mod ?n))"
    using cipher_power [OF k, of 1 1] l(1) n pq by (simp add: big_exp_def add.commute)
  have L: "paillier_L (1 + ?n * (?l mod ?n)) ?n = ?l mod ?n"
    using pq by (simp add: paillier_L_def)
  have "?n \<noteq> 0" using n by linarith
  moreover have "coprime ?l ?n" by (subst coprime_commute) (rule assms(4))
  ultimately have "coprime (?l mod ?n) ?n" by (rule coprime_mod_left_iff [THEN iffD2])
  then obtain u where u: "mod_inverse (?l mod ?n) ?n = Some u" using mod_inverse_exists [OF n] by blast
  then have "(?l * u) mod ?n = 1" using mod_inverse_correct [OF n u] by (simp add: mod_simps)
  then show ?thesis using k l(1) by (simp add: paillier_setup_def Let_def e L u good_key_def)
qed

subsection \<open>Ciphertexts\<close>

text \<open>\<open>cipher_of S m e\<close>: the bytes of \<open>e\<close> are an encryption of \<open>m\<close> modulo \<open>n\<close> under
  some invertible randomness.\<close>

definition cipher_of :: "FHEScheme \<Rightarrow> int \<Rightarrow> bytes \<Rightarrow> bool" where
  "cipher_of S m c \<longleftrightarrow> (\<exists>r k. 0 \<le> r \<and> coprime (fh_n S) r \<and> fh_n S dvd int k - m \<and>
     set_bytes c = ((1 + fh_n S) ^ k * r ^ nat (fh_n S)) mod (fh_n S * fh_n S))"

lemma set_big_bytes_mod: "0 < m \<Longrightarrow> set_bytes (big_bytes (x mod m)) = x mod m"
  by (simp add: set_big_bytes)

lemma g_order: "n dvd (n :: int) \<Longrightarrow> 0 \<le> n \<Longrightarrow> n * n dvd (1 + n) ^ nat n - 1"
  using power_of_one_mod [of n "1 + n"] by simp

lemma encrypt_int_cipher:
  assumes "good_key S" and "0 \<le> r" and "coprime (fh_n S) r"
  shows "\<exists>c. encrypt_int r m S = Some c \<and> cipher_of S m c"
proof -
  let ?n = "fh_n S"
  have n: "1 < ?n" "1 < ?n * ?n" using good_key_n [OF assms(1)] by simp_all
  have S: "fh_n2 S = ?n * ?n" "fh_g S = 1 + ?n" using assms(1) by (simp_all add: good_key_def)
  have "?n * ?n dvd (1 + ?n) ^ nat ?n - 1" using n(1) by (intro g_order) simp_all
  from big_exp_unit [OF n(2) _ this, of m] n(1)
  obtain K where K: "big_exp (1 + ?n) m (?n * ?n) = Some ((1 + ?n) ^ K mod (?n * ?n))"
    and dvd: "?n dvd int K - m" by auto
  have rn: "big_exp r ?n (?n * ?n) = Some (r ^ nat ?n mod (?n * ?n))"
    using n by (simp add: big_exp_def)
  have "set_bytes (big_bytes (((1 + ?n) ^ K mod (?n * ?n)) * (r ^ nat ?n mod (?n * ?n)) mod (?n * ?n))) =
      ((1 + ?n) ^ K * r ^ nat ?n) mod (?n * ?n)"
    using n(2) by (simp add: set_big_bytes_mod mod_simps)
  then show ?thesis
    using K rn n(2) dvd assms(2,3) unfolding encrypt_int_def S cipher_of_def by auto
qed

lemma Decrypt_cipher:
  assumes "good_key S" and "cipher_of S m (ed_Ciphertext e)"
  shows "Decrypt e S = Inr (m mod fh_n S)"
proof -
  let ?n = "fh_n S" and ?l = "fh_lambda S"
  have n: "1 < ?n" "1 < ?n * ?n" using good_key_n [OF assms(1)] by simp_all
  obtain r k where rk: "0 \<le> r" "coprime ?n r" "?n dvd int k - m"
    "set_bytes (ed_Ciphertext e) = ((1 + ?n) ^ k * r ^ nat ?n) mod (?n * ?n)"
    using assms(2) by (auto simp: cipher_of_def)
  obtain u where S: "kills ?n ?l" "0 < ?l" "fh_n2 S = ?n * ?n" "fh_mu S = Some u" "(?l * u) mod ?n = 1"
    using assms(1) by (auto simp: good_key_def)
  have "set_bytes (ed_Ciphertext e) ^ nat ?l mod (?n * ?n) = 1 + ?n * ((int k * ?l) mod ?n)"
    using cipher_power [OF S(1) rk(1,2), of "int k"] by (simp add: rk(4) power_mod)
  then have "big_exp (set_bytes (ed_Ciphertext e)) ?l (?n * ?n) = Some (1 + ?n * ((int k * ?l) mod ?n))"
    using n S(2) by (simp add: big_exp_def)
  moreover have "paillier_L (1 + ?n * ((int k * ?l) mod ?n)) ?n = (int k * ?l) mod ?n"
    using n by (simp add: paillier_L_def)
  moreover have "((int k * ?l) mod ?n * u) mod ?n = m mod ?n"
  proof -
    have "((int k * ?l) mod ?n * u) mod ?n = (int k * ((?l * u) mod ?n)) mod ?n"
      by (simp add: mod_simps algebra_simps)
    also have "\<dots> = int k mod ?n" by (simp add: S(5))
    also have "\<dots> = m mod ?n" using rk(3) by (simp add: mod_eq_dvd_iff)
    finally show ?thesis .
  qed
  ultimately show ?thesis using n S(3,4) by (simp add: Decrypt_def)
qed

lemma cipher_mult:
  assumes "good_key S" and "cipher_of S m1 c1" and "cipher_of S m2 c2"
  shows "cipher_of S (m1 + m2) (big_bytes ((set_bytes c1 * set_bytes c2) mod fh_n2 S))"
proof -
  let ?n = "fh_n S"
  have n: "1 < ?n * ?n" using good_key_n [OF assms(1)] by simp
  have S: "fh_n2 S = ?n * ?n" using assms(1) by (simp add: good_key_def)
  obtain r1 k1 where 1: "0 \<le> r1" "coprime ?n r1" "?n dvd int k1 - m1"
    "set_bytes c1 = ((1 + ?n) ^ k1 * r1 ^ nat ?n) mod (?n * ?n)"
    using assms(2) by (auto simp: cipher_of_def)
  obtain r2 k2 where 2: "0 \<le> r2" "coprime ?n r2" "?n dvd int k2 - m2"
    "set_bytes c2 = ((1 + ?n) ^ k2 * r2 ^ nat ?n) mod (?n * ?n)"
    using assms(3) by (auto simp: cipher_of_def)
  have "int (k1 + k2) - (m1 + m2) = (int k1 - m1) + (int k2 - m2)" by simp
  then have "?n dvd int (k1 + k2) - (m1 + m2)" using 1(3) 2(3) by (metis dvd_add)
  moreover have "set_bytes (big_bytes ((set_bytes c1 * set_bytes c2) mod fh_n2 S)) =
      ((1 + ?n) ^ (k1 + k2) * (r1 * r2) ^ nat ?n) mod (?n * ?n)"
  proof -
    have "set_bytes (big_bytes ((set_bytes c1 * set_bytes c2) mod fh_n2 S)) =
        (set_bytes c1 * set_bytes c2) mod (?n * ?n)"
      using n by (simp add: S set_big_bytes_mod)
    also have "\<dots> = ((1 + ?n) ^ k1 * r1 ^ nat ?n) * ((1 + ?n) ^ k2 * r2 ^ nat ?n) mod (?n * ?n)"
      by (simp only: 1(4) 2(4) mod_mult_eq)
    finally show ?thesis by (simp add: power_add power_mult_distrib ac_simps)
  qed
  moreover have "0 \<le> r1 * r2" "coprime ?n (r1 * r2)" using 1 2 by simp_all
  ultimately show ?thesis unfolding cipher_of_def by blast
qed

lemma cipher_exp:
  assumes "good_key S" and "cipher_of S m c"
  shows "\<exists>x. big_exp (set_bytes c) k (fh_n2 S) = Some x \<and> cipher_of S (k * m) (big_bytes x)"
proof -
  let ?n = "fh_n S" and ?l = "fh_lambda S"
  have n: "1 < ?n" "1 < ?n * ?n" using good_key_n [OF assms(1)] by simp_all
  have S: "fh_n2 S = ?n * ?n" "kills ?n ?l" "0 < ?l" using assms(1) by (auto simp: good_key_def)
  obtain r j where rj: "0 \<le> r" "coprime ?n r" "?n dvd int j - m"
    "set_bytes c = ((1 + ?n) ^ j * r ^ nat ?n) mod (?n * ?n)"
    using assms(2) by (auto simp: cipher_of_def)
  have "set_bytes c ^ nat ?l mod (?n * ?n) = 1 + ?n * ((int j * ?l) mod ?n)"
    using cipher_power [OF S(2) rj(1,2), of "int j"] by (simp add: rj(4) power_mod)
  then have "?n dvd set_bytes c ^ nat ?l mod (?n * ?n) - 1" by simp
  then have "?n dvd set_bytes c ^ nat ?l - 1"
    by (metis dvd_triv_left mod_mod_cancel mod_eq_dvd_iff)
  then have "?n * ?n dvd (set_bytes c ^ nat ?l) ^ nat ?n - 1" using n(1) by (intro power_of_one_mod) simp_all
  then have "?n * ?n dvd set_bytes c ^ (nat ?l * nat ?n) - 1" by (simp add: power_mult)
  from big_exp_unit [OF n(2) _ this, of k] n(1) S(3)
  obtain K where K: "big_exp (set_bytes c) k (?n * ?n) = Some (set_bytes c ^ K mod (?n * ?n))"
    and dvd: "?l * ?n dvd int K - k" by (auto simp: algebra_simps)
  have "int (j * K) - k * m = int K * (int j - m) + (int K - k) * m" by (simp add: algebra_simps)
  moreover have "?n dvd int K - k" using dvd by (metis dvd_mult_right)
  ultimately have "?n dvd int (j * K) - k * m" using rj(3) by (metis dvd_add dvd_mult dvd_mult2)
  moreover have "set_bytes (big_bytes (set_bytes c ^ K mod (?n * ?n))) =
      ((1 + ?n) ^ (j * K) * (r ^ K) ^ nat ?n) mod (?n * ?n)"
    using n by (simp add: rj(4) set_big_bytes_mod power_mod power_mult_distrib)
      (simp add: mult.commute flip: power_mult)
  moreover have "0 \<le> r ^ K" "coprime ?n (r ^ K)" using rj by simp_all
  ultimately have "cipher_of S (k * m) (big_bytes (set_bytes c ^ K mod (?n * ?n)))"
    unfolding cipher_of_def by blast
  with K show ?thesis by (simp add: S(1))
qed

subsection \<open>Additive encryption\<close>

text \<open>Adding up a list of ciphertexts with an addition that may fail.\<close>

fun tally :: "('c \<Rightarrow> 'c \<Rightarrow> 'e + 'c) \<Rightarrow> 'c \<Rightarrow> 'c list \<Rightarrow> 'e + 'c" where
  "tally add x [] = Inr x"
| "tally add x (y # ys) = (case add x y of Inl err \<Rightarrow> Inl err | Inr z \<Rightarrow> tally add z ys)"

text \<open>What a client of an additively homomorphic scheme relies on.\<close>

locale additive_cipher =
  fixes holds :: "int \<Rightarrow> 'c \<Rightarrow> bool"
    and add :: "'c \<Rightarrow> 'c \<Rightarrow> 'e + 'c"
    and dec :: "'c \<Rightarrow> 'e + int"
    and n :: int
  assumes add_holds: "holds a x \<Longrightarrow> holds b y \<Longrightarrow> \<exists>z. add x y = Inr z \<and> holds (a + b) z"
    and dec_holds: "holds a x \<Longrightarrow> dec x = Inr (a mod n)"
begin

lemma tally_holds:
  "holds a x \<Longrightarrow> list_all2 holds ms ys \<Longrightarrow> \<exists>z. tally add x ys = Inr z \<and> holds (a + sum_list ms) z"
proof (induction ys arbitrary: a x ms)
  case (Cons y ys)
  then obtain m ms' where ms: "ms = m # ms'" "holds m y" "list_all2 holds ms' ys"
    by (auto simp: list_all2_Cons2)
  obtain z where "add x y = Inr z" "holds (a + m) z" using add_holds [OF Cons.prems(1) ms(2)] by blast
  with Cons.IH [of "a + m" z ms'] ms show ?case by (simp add: add.assoc)
qed simp

lemma tally_decrypts:
  "holds a x \<Longrightarrow> list_all2 holds ms ys \<Longrightarrow>
    \<exists>z. tally add x ys = Inr z \<and> dec z = Inr ((a + sum_list ms) mod n)"
  using tally_holds dec_holds by blast

lemma add_decrypts: "holds a x \<Longrightarrow> holds b y \<Longrightarrow> \<exists>z. add x y = Inr z \<and> dec z = Inr ((a + b) mod n)"
  using add_holds dec_holds by blast

end

definition sealed_as :: "FHEScheme \<Rightarrow> string \<Rightarrow> int \<Rightarrow> EncryptedData \<Rightarrow> bool" where
  "sealed_as S ctx m e \<longleftrightarrow> good_key S \<and> cipher_of S m (ed_Ciphertext e) \<and> ed_Context e = ctx \<and>
     length (ed_Nonce e) = 16"

lemma AddEncrypted_sealed:
  assumes "sealed_as S ctx a x" and "sealed_as S ctx b y"
  shows "\<exists>z. AddEncrypted x y S = Inr z \<and> sealed_as S ctx (a + b) z"
proof -
  have "fh_n2 S \<noteq> 0" using assms(1) good_key_n [of S] by (auto simp: sealed_as_def good_key_def)
  then show ?thesis using assms cipher_mult [of S a "ed_Ciphertext x" b "ed_Ciphertext y"]
    by (auto simp: AddEncrypted_def sealed_as_def)
qed

interpretation paillier: additive_cipher "sealed_as S ctx" "\<lambda>x y. AddEncrypted x y S" "\<lambda>e. Decrypt e S" "fh_n S"
  for S ctx
  by unfold_locales (rule AddEncrypted_sealed, assumption+, simp add: sealed_as_def Decrypt_cipher)

subsection \<open>Bids\<close>

text \<open>The primes of a key: distinct, odd and equally long.\<close>

definition key_primes :: "int \<Rightarrow> int \<Rightarrow> bool" where
  "key_primes p q \<longleftrightarrow> prime_num p \<and> prime_num q \<and> p \<noteq> q \<and> 2 < p \<and> 2 < q \<and> p < 2 * q \<and> q < 2 * p"

lemma key_primes_good:
  assumes "key_primes p q" and "paillier_setup p q = Some S"
  shows "good_key S" and "fh_n S = p * q" and "fh_publicKey S = \<lparr>pk_N = p * q, pk_G = p * q + 1\<rparr>"
proof -
  have "coprime (p * q) (fhe_lcm (p - 1) (q - 1))"
    using assms(1) by (intro primes_lambda_coprime) (simp_all add: key_primes_def)
  with assms paillier_setup_good [of p q]
  show "good_key S" and "fh_n S = p * q" and "fh_publicKey S = \<lparr>pk_N = p * q, pk_G = p * q + 1\<rparr>"
    by (auto simp: key_primes_def)
qed

text \<open>Two draws of the same bit length are such primes as soon as they differ.\<close>

lemma equal_length_key_primes:
  assumes "prime_num p" "prime_num q" "p \<noteq> q" "1 < b"
    and "2 ^ b \<le> p" "p < 2 ^ (b + 1)" "2 ^ b \<le> q" "q < 2 ^ (b + 1)"
  shows "key_primes p q"
proof -
  have "(2::int) ^ 2 \<le> 2 ^ b" using assms(4) by (intro power_increasing) simp_all
  then show ?thesis using assms by (simp add: key_primes_def)
qed

lemma EncryptBid_sealed:
  assumes "good_key S" and "0 \<le> r" and "coprime (fh_n S) r" and "length nonce = 16"
  shows "if ip (amount * of_int 100) < fh_n S
    then \<exists>e. EncryptBid ip r nonce amount S = Inr e \<and> sealed_as S ''bid_v1'' (ip (amount * of_int 100)) e
    else EncryptBid ip r nonce amount S = Inl ErrBidTooLarge"
  using encrypt_int_cipher [OF assms(1-3), of "ip (amount * of_int 100)"] assms
  by (auto simp: EncryptBid_def sealed_as_def Let_def)

lemma EncryptBid_Inr:
  assumes "good_key S" and "0 \<le> r" and "coprime (fh_n S) r" and "length nonce = 16"
    and "EncryptBid ip r nonce amount S = Inr e"
  shows "ip (amount * of_int 100) < fh_n S" and "sealed_as S ''bid_v1'' (ip (amount * of_int 100)) e"
  using EncryptBid_sealed [OF assms(1-4), of ip amount] assms(5) by (auto split: if_splits)

subsection \<open>The winner of the private auction\<close>

lemma winner_scan_append:
  "winner_scan S acc (xs @ ys) =
     (case winner_scan S acc xs of Inl err \<Rightarrow> Inl err | Inr acc' \<Rightarrow> winner_scan S acc' ys)"
  by (induction xs arbitrary: acc) (auto split: sum.splits)

lemma winner_scan_first_max:
  assumes "xs \<noteq> []" and "\<forall>i<length xs. Decrypt (eb_Encrypted (xs ! i)) S = Inr (v i)"
  shows "\<exists>i<length xs. winner_scan S ('''', None) xs = Inr (eb_BidderID (xs ! i), Some (v i)) \<and>
    (\<forall>j<length xs. v j \<le> v i) \<and> (\<forall>j<i. v j < v i)"
  using assms
proof (induction xs rule: rev_induct)
  case (snoc x xs)
  have x: "Decrypt (eb_Encrypted x) S = Inr (v (length xs))"
    using snoc.prems(2) [rule_format, of "length xs"] by simp
  show ?case
  proof (cases "xs = []")
    case True
    then show ?thesis using x by simp
  next
    case False
    have "\<forall>i<length xs. Decrypt (eb_Encrypted (xs ! i)) S = Inr (v i)"
    proof (intro allI impI)
      fix i assume "i < length xs"
      with snoc.prems(2) [rule_format, of i] show "Decrypt (eb_Encrypted (xs ! i)) S = Inr (v i)"
        by (simp add: nth_append)
    qed
    from snoc.IH [OF False this] obtain i where i: "i < length xs"
      "winner_scan S ('''', None) xs = Inr (eb_BidderID (xs ! i), Some (v i))"
      "\<forall>j<length xs. v j \<le> v i" "\<forall>j<i. v j < v i" by blast
    show ?thesis
    proof (cases "v i < v (length xs)")
      case True
      then have "v j < v (length xs)" if "j < length xs" for j
        using i(3) that by (meson le_less_trans)
      then have above: "\<forall>j<length xs. v j < v (length xs)" by blast
      have "winner_scan S ('''', None) (xs @ [x]) = Inr (eb_BidderID x, Some (v (length xs)))"
        using True i(2) x by (simp add: winner_scan_append)
      then show ?thesis
        using above by (intro exI [of _ "length xs"]) (simp add: less_Suc_eq_le le_less all_conj_distrib)
    next
      case less: False
      with i x show ?thesis
        by (intro exI [of _ i]) (auto simp: winner_scan_append less_Suc_eq nth_append)
    qed
  qed
qed simp

text \<open>A submission: bidder, amount, randomness and nonce.\<close>

type_synonym 'd submission = "string \<times> 'd \<times> int \<times> bytes"

definition pa_step ::
  "('d::linordered_idom \<Rightarrow> int) \<Rightarrow> (bytes \<Rightarrow> bytes) \<Rightarrow> 'd submission \<Rightarrow>
   PrivacyPreservingAuction \<Rightarrow> PrivacyPreservingAuction" where
  "pa_step ip sha s pa = (case s of (bidder, amount, r, nonce) \<Rightarrow> snd (PA_SubmitBid ip sha r nonce bidder amount pa))"

definition cents :: "('d::linordered_idom \<Rightarrow> int) \<Rightarrow> 'd submission \<Rightarrow> int" where
  "cents ip s = ip (fst (snd s) * of_int 100)"

definition fair_submission :: "('d::linordered_idom \<Rightarrow> int) \<Rightarrow> int \<Rightarrow> 'd submission \<Rightarrow> bool" where
  "fair_submission ip n s \<longleftrightarrow> (case s of (bidder, amount, r, nonce) \<Rightarrow>
     0 \<le> r \<and> coprime n r \<and> length nonce = 16 \<and> ip (amount * of_int 100) < n)"

lemma submissions_stored:
  assumes "good_key S" and "\<forall>s\<in>set subs. fair_submission ip (fh_n S) s"
  shows "pa_fhe (fold (pa_step ip sha) subs (NewPrivacyAuction S)) = S \<and>
    list_all2 (\<lambda>s b. eb_BidderID b = fst s \<and> Decrypt (eb_Encrypted b) S = Inr (cents ip s mod fh_n S))
      subs (pa_encryptedBids (fold (pa_step ip sha) subs (NewPrivacyAuction S)))"
  using assms(2)
proof (induction subs rule: rev_induct)
  case Nil
  show ?case by (simp add: NewPrivacyAuction_def)
next
  case (snoc s subs)
  obtain bidder amount r nonce where s: "s = (bidder, amount, r, nonce)" by (cases s) auto
  have fair: "0 \<le> r" "coprime (fh_n S) r" "length nonce = 16" "ip (amount * of_int 100) < fh_n S"
    using snoc.prems by (auto simp: s fair_submission_def)
  obtain e where e: "EncryptBid ip r nonce amount S = Inr e"
    "sealed_as S ''bid_v1'' (ip (amount * of_int 100)) e"
    using EncryptBid_sealed [OF assms(1) fair(1-3), of ip amount] fair(4) by auto
  have "Decrypt e S = Inr (cents ip s mod fh_n S)"
    using paillier.dec_holds [OF e(2)] by (simp add: s cents_def)
  with snoc e(1) show ?case
    by (auto simp: s pa_step_def PA_SubmitBid_def intro: list_all2_appendI)
qed

lemma auction_winner:
  assumes "good_key S" and "\<forall>s\<in>set subs. fair_submission ip (fh_n S) s" and "subs \<noteq> []"
  shows "\<exists>i<length subs. PA_DetermineWinner (fold (pa_step ip sha) subs (NewPrivacyAuction S)) = Inr (fst (subs ! i)) \<and>
    (\<forall>j<length subs. cents ip (subs ! j) mod fh_n S \<le> cents ip (subs ! i) mod fh_n S) \<and>
    (\<forall>j<i. cents ip (subs ! j) mod fh_n S < cents ip (subs ! i) mod fh_n S)"
proof -
  let ?pa = "fold (pa_step ip sha) subs (NewPrivacyAuction S)"
  let ?v = "\<lambda>i. cents ip (subs ! i) mod fh_n S"
  from submissions_stored [OF assms(1,2), of sha]
  have st: "pa_fhe ?pa = S" "length (pa_encryptedBids ?pa) = length subs"
    "\<forall>i<length subs. eb_BidderID (pa_encryptedBids ?pa ! i) = fst (subs ! i) \<and>
       Decrypt (eb_Encrypted (pa_encryptedBids ?pa ! i)) S = Inr (?v i)"
    by (auto simp: list_all2_conv_all_nth)
  then have "pa_encryptedBids ?pa \<noteq> []" using assms(3) by auto
  from winner_scan_first_max [OF this, of S ?v] st obtain i where i: "i < length subs"
    "winner_scan S ('''', None) (pa_encryptedBids ?pa) = Inr (eb_BidderID (pa_encryptedBids ?pa ! i), Some (?v i))"
    "\<forall>j<length subs. ?v j \<le> ?v i" "\<forall>j<i. ?v j < ?v i" by auto
  then have "PA_DetermineWinner ?pa = Inr (fst (subs ! i))"
    using st assms(3) by (simp add: PA_DetermineWinner_def)
  with i(1,3,4) show ?thesis by blast
qed

subsection \<open>Exporting the key\<close>

lemma nat_bytes_length_iff: "length (nat_bytes n []) \<le> k \<longleftrightarrow> n < 256 ^ k"
  using nat_bytes_length [of n k] nat_bytes_length_ge [of k n] by (meson leD leI)

lemma key_halves:
  assumes "0 \<le> N" and "\<forall>k. N + 1 \<noteq> 256 ^ k"
  shows "length (big_bytes (N + 1)) = length (big_bytes N)"
proof -
  have "length (big_bytes (N + 1)) \<le> k \<longleftrightarrow> length (big_bytes N) \<le> k" for k
  proof -
    have "nat (N + 1) \<noteq> 256 ^ k" using assms(2)[rule_format, of k] by (simp add: nat_eq_iff)
    moreover have "nat (N + 1) = Suc (nat N)" using assms(1) by simp
    ultimately have "nat (N + 1) < 256 ^ k \<longleftrightarrow> nat N < 256 ^ k" by linarith
    then show ?thesis using assms(1) by (simp add: big_bytes_def nat_bytes_length_iff)
  qed
  then show ?thesis by (meson eq_iff)
qed

lemma prime_num_code:
  "prime_num p \<longleftrightarrow> 1 < p \<and> (\<forall>d\<in>set [2..p - 1]. p mod d \<noteq> 0)"
proof
  assume p: "prime_num p"
  show "1 < p \<and> (\<forall>d\<in>set [2..p - 1]. p mod d \<noteq> 0)"
  proof (intro conjI ballI notI)
    show "1 < p" using p by (rule prime_num_gt)
    fix d assume d: "d \<in> set [2..p - 1]" and "p mod d = 0"
    then have "d dvd p" by (simp add: dvd_eq_mod_eq_0)
    moreover have "0 \<le> d \<and> d dvd p \<longrightarrow> d = 1 \<or> d = p" using p unfolding prime_num_def by blast
    ultimately show False using d by auto
  qed
next
  assume p: "1 < p \<and> (\<forall>d\<in>set [2..p - 1]. p mod d \<noteq> 0)"
  show "prime_num p" unfolding prime_num_def
  proof (intro conjI allI impI)
    show "1 < p" using p by simp
    fix d :: int assume d: "0 \<le> d \<and> d dvd p"
    then have "d \<noteq> 0" "d \<le> p" using p by (auto simp: zdvd_imp_le)
    moreover have "d \<notin> set [2..p - 1]" using p d by (auto simp: dvd_eq_mod_eq_0)
    ultimately show "d = 1 \<or> d = p" using d by auto
  qed
qed

lemma small_primes: "prime_num 3" "prime_num 5" "prime_num 7" "prime_num 17"
  by (simp_all add: prime_num_code upto.simps)

lemma small_prime_divides:
  assumes "prime_num x" and "prime_num p" and "prime_num q" and "x dvd p * q"
  shows "x = p \<or> x = q"
proof -
  have "x dvd p \<or> x dvd q"
  proof (cases "x dvd p")
    case False
    with prime_coprime [OF assms(1) this] assms(4) show ?thesis by (simp add: coprime_dvd_mult_right_iff)
  qed simp
  moreover have "1 < x" using assms(1) by (rule prime_num_gt)
  moreover have "0 \<le> x \<and> x dvd y \<longrightarrow> x = 1 \<or> x = y" if "prime_num y" for y
    using that unfolding prime_num_def by blast
  ultimately show ?thesis using assms(2,3) by fastforce
qed

text \<open>A product of two primes is never one below a power of 256, because 255 has three prime
  factors: \<open>n\<close> and \<open>g = n + 1\<close> always have equally many bytes.\<close>

lemma prime_product_length:
  assumes "prime_num p" and "prime_num q" shows "length (big_bytes (p * q + 1)) = length (big_bytes (p * q))"
proof (rule key_halves)
  have pq: "1 < p" "1 < q" using assms by (simp_all add: prime_num_gt)
  then show "0 \<le> p * q" by simp
  show "\<forall>k. p * q + 1 \<noteq> 256 ^ k"
  proof (intro allI notI)
    fix k assume k: "p * q + 1 = 256 ^ k"
    have "(256 - 1 :: int) dvd 256 ^ k - 1" by (rule one_minus_dvd_power)
    moreover have "256 ^ k - 1 = p * q" using k by linarith
    ultimately have d: "255 dvd p * q" by simp
    have "x = p \<or> x = q" if "prime_num x" "x dvd 255" for x
      using small_prime_divides [OF that(1) assms] that(2) d dvd_trans by blast
    from this [OF small_primes(1)] this [OF small_primes(2)] this [OF small_primes(4)] show False
      by auto
  qed
qed

subsection \<open>Properties\<close>

text \<open>Encrypted bids decrypt: under the key made from two distinct odd primes of equal length,
  every bid whose cents are below \<open>n\<close> is encrypted, whatever invertible randomness is drawn,
  and decrypts to its cents modulo \<open>n\<close>, which are its cents unless it is negative; a larger
  bid is refused.\<close>

theorem bid_roundtrip:
  assumes "key_primes p q" and "paillier_setup p q = Some S"
    and "0 \<le> r" and "coprime (p * q) r" and "length nonce = 16" and "c = ip (amount * of_int 100)"
  shows "if c < p * q
    then \<exists>e. EncryptBid ip r nonce amount S = Inr e \<and> Decrypt e S = Inr (c mod (p * q)) \<and>
      (0 \<le> c \<longrightarrow> Decrypt e S = Inr c)
    else EncryptBid ip r nonce amount S = Inl ErrBidTooLarge"
proof -
  note key = key_primes_good [OF assms(1,2)]
  have "coprime (fh_n S) r" using assms(4) key(2) by simp
  from EncryptBid_sealed [OF key(1) assms(3) this assms(5), of ip amount]
  show ?thesis using paillier.dec_holds [of S] key(2) by (auto simp: assms(6))
qed

text \<open>A small key for the examples: 35 with exponent 12.\<close>

lemma demo_primes: "key_primes 5 7"
  by (simp add: key_primes_def small_primes)

lemma demo_key: "\<exists>S. paillier_setup 5 7 = Some S"
  using paillier_setup_good [of 5 7] primes_lambda_coprime [of 5 7] by (auto simp: small_primes)

lemma demo_coprime: "coprime (5 * 7) (2 :: int)" "coprime (5 * 7) (3 :: int)" "coprime (5 * 7) (4 :: int)"
  by code_simp+

theorem bid_roundtrip_witness:
  "\<exists>S e. paillier_setup 5 7 = Some S \<and>
    EncryptBid (\<lambda>x :: rat. \<lfloor>x\<rfloor>) 2 (replicate 16 0) (1 / 10) S = Inr e \<and> Decrypt e S = Inr 10"
proof -
  obtain S where S: "paillier_setup 5 7 = Some S" using demo_key by blast
  from bid_roundtrip [OF demo_primes S _ demo_coprime(1) _ refl, of "replicate 16 0" "\<lambda>x. \<lfloor>x\<rfloor>" "1 / 10"]
  show ?thesis using S by auto
qed

text \<open>C22: The operations on ciphertexts are homomorphic: adding two encrypted bids decrypts to the
  sum of their cents, and multiplying one by any constant, a negative one included, decrypts to
  the multiple, both modulo \<open>n\<close>.\<close>

theorem homomorphic_operations:
  assumes "key_primes p q" and "paillier_setup p q = Some S"
    and "EncryptBid ip r1 nonce1 a1 S = Inr e1" and "0 \<le> r1" "coprime (p * q) r1" "length nonce1 = 16"
    and "EncryptBid ip r2 nonce2 a2 S = Inr e2" and "0 \<le> r2" "coprime (p * q) r2" "length nonce2 = 16"
  shows "(\<exists>e. AddEncrypted e1 e2 S = Inr e \<and>
      Decrypt e S = Inr ((ip (a1 * of_int 100) + ip (a2 * of_int 100)) mod (p * q))) \<and>
    (\<exists>e. MultiplyByConstant e1 k S = Inr e \<and> Decrypt e S = Inr ((k * ip (a1 * of_int 100)) mod (p * q)))"
proof -
  note key = key_primes_good [OF assms(1,2)]
  have cop: "coprime (fh_n S) r1" "coprime (fh_n S) r2" using assms(5,9) key(2) by simp_all
  note e1 = EncryptBid_Inr(2) [OF key(1) assms(4) cop(1) assms(6,3)]
  note e2 = EncryptBid_Inr(2) [OF key(1) assms(8) cop(2) assms(10,7)]
  have "cipher_of S (ip (a1 * of_int 100)) (ed_Ciphertext e1)" using e1 by (simp add: sealed_as_def)
  from cipher_exp [OF key(1) this, of k] obtain x where
    "big_exp (set_bytes (ed_Ciphertext e1)) k (fh_n2 S) = Some x"
    "cipher_of S (k * ip (a1 * of_int 100)) (big_bytes x)" by blast
  then have "\<exists>e. MultiplyByConstant e1 k S = Inr e \<and> Decrypt e S = Inr ((k * ip (a1 * of_int 100)) mod fh_n S)"
    by (simp add: MultiplyByConstant_def Decrypt_cipher [OF key(1)])
  with paillier.add_decrypts [OF e1 e2] key(2) show ?thesis by simp
qed

theorem homomorphic_operations_witness:
  "\<exists>S e1 e2 e. paillier_setup 5 7 = Some S \<and>
    EncryptBid (\<lambda>x :: rat. \<lfloor>x\<rfloor>) 2 (replicate 16 0) (1 / 10) S = Inr e1 \<and>
    EncryptBid (\<lambda>x :: rat. \<lfloor>x\<rfloor>) 3 (replicate 16 0) (1 / 5) S = Inr e2 \<and>
    AddEncrypted e1 e2 S = Inr e \<and> Decrypt e S = Inr 30"
proof -
  let ?ip = "\<lambda>x :: rat. \<lfloor>x\<rfloor>" and ?z = "replicate 16 (0 :: byte)"
  obtain S where S: "paillier_setup 5 7 = Some S" using demo_key by blast
  note key = key_primes_good [OF demo_primes S]
  have cop: "coprime (fh_n S) 2" "coprime (fh_n S) 3" using demo_coprime key(2) by simp_all
  obtain e1 e2 where e: "EncryptBid ?ip 2 ?z (1 / 10) S = Inr e1" "EncryptBid ?ip 3 ?z (1 / 5) S = Inr e2"
    using EncryptBid_sealed [OF key(1) _ cop(1), of ?z ?ip "1 / 10"]
      EncryptBid_sealed [OF key(1) _ cop(2), of ?z ?ip "1 / 5"] key(2) by auto
  from homomorphic_operations [OF demo_primes S e(1) _ demo_coprime(1) _ e(2) _ demo_coprime(2)]
  show ?thesis using S e by auto
qed

text \<open>C13: The highest bid wins the private auction: after submissions whose cents are at least zero
  and below \<open>n\<close>, whatever invertible randomness encrypted them, the winner is the bidder of the
  highest cents, and the earliest of them among equal ones. (\<open>DetermineWinner\<close> finds it by
  decrypting every bid.)\<close>

theorem private_auction_highest_bid_wins:
  assumes "key_primes p q" and "paillier_setup p q = Some S" and "subs \<noteq> []"
    and "\<forall>s\<in>set subs. fair_submission ip (p * q) s \<and> 0 \<le> cents ip s"
  shows "\<exists>i<length subs.
    PA_DetermineWinner (fold (pa_step ip sha) subs (NewPrivacyAuction S)) = Inr (fst (subs ! i)) \<and>
    (\<forall>j<length subs. cents ip (subs ! j) \<le> cents ip (subs ! i)) \<and>
    (\<forall>j<i. cents ip (subs ! j) < cents ip (subs ! i))"
proof -
  note key = key_primes_good [OF assms(1,2)]
  have small: "cents ip (subs ! j) mod (p * q) = cents ip (subs ! j)" if "j < length subs" for j
    using assms(4) nth_mem [OF that] by (intro mod_pos_pos_trivial) (auto simp: fair_submission_def cents_def)
  have "\<forall>s\<in>set subs. fair_submission ip (fh_n S) s" using assms(4) key(2) by simp
  from auction_winner [OF key(1) this assms(3), of sha] obtain i where i: "i < length subs"
    "PA_DetermineWinner (fold (pa_step ip sha) subs (NewPrivacyAuction S)) = Inr (fst (subs ! i))"
    "\<forall>j<length subs. cents ip (subs ! j) mod (p * q) \<le> cents ip (subs ! i) mod (p * q)"
    "\<forall>j<i. cents ip (subs ! j) mod (p * q) < cents ip (subs ! i) mod (p * q)" by (auto simp: key(2))
  have "cents ip (subs ! j) < cents ip (subs ! i)" if "j < i" for j
    using i(4) [rule_format, OF that] i(1) that small [of j] small [of i] by simp
  then show ?thesis using i(1-3) small by (intro exI [of _ i]) simp
qed

text \<open>Three submissions to the small key: 10, 30 and -1 cents.\<close>

definition demo_submissions :: "rat submission list" where
  "demo_submissions = [(''a'', 1 / 10, 2, replicate 16 0), (''b'', 3 / 10, 3, replicate 16 0)]"

definition demo_negative :: "rat submission" where
  "demo_negative = (''c'', - 1 / 100, 4, replicate 16 0)"

lemma demo_fair:
  "s \<in> set demo_submissions \<Longrightarrow> fair_submission floor (5 * 7) s \<and> 0 \<le> cents floor s"
  "fair_submission floor (5 * 7) demo_negative" "cents floor demo_negative = - 1"
  using demo_coprime floor_of_int [of "- 1", where ?'a = rat]
  by (auto simp: demo_submissions_def demo_negative_def fair_submission_def cents_def)

theorem private_auction_highest_bid_wins_witness:
  "\<exists>S. paillier_setup 5 7 = Some S \<and>
    PA_DetermineWinner (fold (pa_step floor (\<lambda>b. b)) demo_submissions (NewPrivacyAuction S)) = Inr ''b''"
proof -
  obtain S where S: "paillier_setup 5 7 = Some S" using demo_key by blast
  have "demo_submissions \<noteq> []" by (simp add: demo_submissions_def)
  from private_auction_highest_bid_wins [OF demo_primes S this, of floor "\<lambda>b. b"] demo_fair(1)
  obtain i where i: "i < length demo_submissions"
    "PA_DetermineWinner (fold (pa_step floor (\<lambda>b. b)) demo_submissions (NewPrivacyAuction S)) =
       Inr (fst (demo_submissions ! i))"
    "\<forall>j<length demo_submissions. cents floor (demo_submissions ! j) \<le> cents floor (demo_submissions ! i)"
    by blast
  from i(1) have "i = 0 \<or> i = 1" by (auto simp: demo_submissions_def)
  moreover have "i \<noteq> 0" using i(3) [rule_format, of 1] by (cases i) (auto simp: demo_submissions_def cents_def)
  ultimately show ?thesis using i(2) S by (auto simp: demo_submissions_def)
qed

text \<open>A negative bid wins the private auction: its cents are encrypted modulo \<open>n\<close>, so it
  decrypts to a number just below \<open>n\<close>, and beats every bid that is not within its amount of
  the modulus.\<close>

theorem negative_bid_wins:
  assumes "key_primes p q" and "paillier_setup p q = Some S"
    and "fair_submission ip (p * q) s" and "- (p * q) \<le> cents ip s" and "cents ip s < 0"
    and "\<forall>t\<in>set subs. fair_submission ip (p * q) t \<and> 0 \<le> cents ip t \<and> cents ip t < p * q + cents ip s"
  shows "PA_DetermineWinner (fold (pa_step ip sha) (subs @ [s]) (NewPrivacyAuction S)) = Inr (fst s)"
proof -
  note key = key_primes_good [OF assms(1,2)]
  let ?all = "subs @ [s]" and ?k = "length subs"
  have "\<forall>t\<in>set ?all. fair_submission ip (fh_n S) t" using assms(3,6) key(2) by simp
  from auction_winner [OF key(1) this, of sha] obtain i where i: "i < length ?all"
    "PA_DetermineWinner (fold (pa_step ip sha) ?all (NewPrivacyAuction S)) = Inr (fst (?all ! i))"
    "\<forall>j<length ?all. cents ip (?all ! j) mod (p * q) \<le> cents ip (?all ! i) mod (p * q)"
    by (auto simp: key(2))
  have s: "cents ip s mod (p * q) = p * q + cents ip s"
  proof -
    have "(p * q + cents ip s) mod (p * q) = p * q + cents ip s"
      using assms(4,5) by (intro mod_pos_pos_trivial) simp_all
    then show ?thesis by simp
  qed
  have "i = ?k"
  proof (rule ccontr)
    assume "i \<noteq> ?k"
    with i(1) have l: "i < ?k" by simp
    then have t: "0 \<le> cents ip (subs ! i)" "cents ip (subs ! i) < p * q + cents ip s" using assms(6) by simp_all
    then have "cents ip (subs ! i) mod (p * q) = cents ip (subs ! i)"
      using assms(5) by (intro mod_pos_pos_trivial) simp_all
    with i(3) [rule_format, of ?k] s t l show False by (simp add: nth_append)
  qed
  with i(2) show ?thesis by simp
qed

theorem negative_bid_wins_witness:
  "\<exists>S. paillier_setup 5 7 = Some S \<and>
    PA_DetermineWinner (fold (pa_step floor (\<lambda>b. b)) (demo_submissions @ [demo_negative]) (NewPrivacyAuction S)) = Inr ''c''"
proof -
  obtain S where S: "paillier_setup 5 7 = Some S" using demo_key by blast
  have "\<forall>t\<in>set demo_submissions. fair_submission floor (5 * 7) t \<and> 0 \<le> cents floor t \<and>
      cents floor t < 5 * 7 + cents floor demo_negative"
  proof
    fix t assume t: "t \<in> set demo_submissions"
    then have "cents floor t < 5 * 7 + cents floor demo_negative"
      unfolding demo_fair(3) by (auto simp: demo_submissions_def cents_def)
    with demo_fair(1) [OF t] show "fair_submission floor (5 * 7) t \<and> 0 \<le> cents floor t \<and>
      cents floor t < 5 * 7 + cents floor demo_negative" by simp
  qed
  from negative_bid_wins [OF demo_primes S demo_fair(2) _ _ this, of "\<lambda>b. b"] demo_fair(3) S
  show ?thesis by (simp add: demo_negative_def)
qed

text \<open>The exported public key imports as the same key: for every key made from two distinct
  odd primes of equal length the two halves of the exported bytes are the modulus and the
  generator, given that base64 decodes what it encodes.\<close>

theorem public_key_roundtrip:
  assumes "key_primes p q" and "paillier_setup p q = Some S" and "\<And>bs. dec (enc bs) = Some bs"
  shows "ImportPublicKey dec (ExportPublicKey enc S) = Inr (fh_publicKey S)"
proof -
  note key = key_primes_good [OF assms(1,2)]
  have pq: "prime_num p" "prime_num q" using assms(1) by (simp_all add: key_primes_def)
  then have "0 \<le> p * q" using prime_num_gt [of p] prime_num_gt [of q] by simp
  then show ?thesis
    using prime_product_length [OF pq]
    by (simp add: ImportPublicKey_def ExportPublicKey_def assms(3) key(3) Let_def set_big_bytes)
qed

theorem public_key_roundtrip_witness:
  "\<exists>S. paillier_setup 5 7 = Some S \<and>
    ImportPublicKey (\<lambda>s. Some (map (\<lambda>c. of_nat (of_char c)) s))
      (ExportPublicKey (map (\<lambda>b. char_of (unat b))) S) = Inr \<lparr>pk_N = 35, pk_G = 36\<rparr>"
proof -
  obtain S where S: "paillier_setup 5 7 = Some S" using demo_key by blast
  have "Some (map (\<lambda>c. of_nat (of_char c)) (map (\<lambda>b. char_of (unat b)) bs)) = Some bs" for bs :: bytes
  proof -
    have "unat b mod 256 = unat b" for b :: byte using unsigned_less [of b, where ?'a = nat] by simp
    then show ?thesis by (simp add: o_def)
  qed
  from public_key_roundtrip [OF demo_primes S this] key_primes_good(3) [OF demo_primes S] S
  show ?thesis by auto
qed

text \<open>The match of a profile never looks at the profile, and is always positive, because a
  digest is not empty.\<close>

lemma SecureMatch_always:
  "0 < length (sha (map of_char (concat (tc_Interests criteria) @ concat (tc_Categories criteria)))) \<Longrightarrow>
    SecureMatch sha e criteria = Inr True"
  by (cases "tc_Interests criteria") (simp_all add: SecureMatch_def Let_def)

end
