(* ===== verification/OpenRtb.thy ===== *)
theory OpenRtb
  imports Prelude
begin

text \<open>
  What the exchange, its DSP clients, the analytics and the SSP integration use of
  \<^verbatim>\<open>openrtb2\<close>, \<^verbatim>\<open>encoding/json\<close> and \<^verbatim>\<open>net/http\<close>.

  The records below hold the fields of the OpenRTB types the code reads or writes; \<open>'d\<close> is
  the type of \<open>float64\<close> prices. A JSON value is a \<open>val\<close>, a \<open>json.RawMessage\<close> is nil,
  text that is no JSON, or a value. Unmarshalling into a \<open>map[string]interface{}\<close> fails
  except on an object and on null, and leaves a nil map except on an object. The network and
  the decoding of the library's types are the fields of \<open>transport\<close>: the URLs a request can
  be made for, the answer to a request (a failure, or a status and a body) and the decoder.
\<close>

datatype 'd val =
    VNil
  | VBool bool
  | VNum 'd
  | VStr string
  | VArr "'d val list"
  | VMap "string \<Rightarrow> 'd val option"

datatype 'd raw = RawNil | RawInvalid | RawVal "'d val"

text \<open>\<open>json.Unmarshal(raw, &ext)\<close> with a nil map \<open>ext\<close>: whether it succeeded, and the map.\<close>

fun unmarshal_map :: "'d raw \<Rightarrow> bool \<times> (string \<Rightarrow> 'd val option) option" where
  "unmarshal_map (RawVal (VMap m)) = (True, Some m)"
| "unmarshal_map (RawVal VNil) = (True, None)"
| "unmarshal_map _ = (False, None)"

record 'd OBid =
  ob_ID :: string
  ob_ImpID :: string
  ob_Price :: 'd
  ob_NURL :: string
  ob_LURL :: string
  ob_AdM :: string
  ob_AdID :: string
  ob_ADomain :: "string list"
  ob_CrID :: string
  ob_Cat :: "string list"
  ob_DealID :: string
  ob_W :: int
  ob_H :: int
  ob_Ext :: "'d raw"

record 'd OSeatBid =
  osb_Seat :: string
  osb_Bid :: "'d OBid list"

record 'd OBidResponse =
  op_ID :: string
  op_SeatBid :: "'d OSeatBid list"
  op_BidID :: string
  op_Cur :: string

text \<open>A site or an app is known by the identifier of its publisher, \<open>None\<close> when the
  publisher is nil; a device by its type and the country of its geography. Banner, video,
  native, user and regulations are known by their JSON form, \<open>None\<close> when nil.\<close>

record OSite =
  os_Publisher :: "string option"

record ODevice =
  od_DeviceType :: int
  od_Geo :: "string option"

record 'd OImp =
  oi_ID :: string
  oi_Banner :: "'d val option"
  oi_Video :: "'d val option"
  oi_Native :: "'d val option"
  oi_BidFloor :: 'd
  oi_BidFloorCur :: string
  oi_Secure :: "int option"
  oi_Ext :: "'d raw"

record 'd OBidRequest =
  oq_ID :: string
  oq_Imp :: "'d OImp list"
  oq_Site :: "OSite option"
  oq_App :: "OSite option"
  oq_Device :: "ODevice option"
  oq_User :: "'d val option"
  oq_Regs :: "'d val option"
  oq_Test :: int
  oq_TMax :: int
  oq_Cur :: "string list"
  oq_BCat :: "string list option"
  oq_BAdv :: "string list option"
  oq_Ext :: "'d raw"

text \<open>Marshalling a request fails when it holds a raw message that is not JSON.\<close>

definition marshal_ok :: "'d OBidRequest \<Rightarrow> bool" where
  "marshal_ok req \<longleftrightarrow> oq_Ext req \<noteq> RawInvalid \<and> list_all (\<lambda>i. oi_Ext i \<noteq> RawInvalid) (oq_Imp req)"

text \<open>A Go value in an outgoing \<open>map[string]interface{}\<close>: a JSON value or a part of the
  request.\<close>

datatype 'd field =
    FVal "'d val"
  | FInt int
  | FStrs "string list option"
  | FImps "'d OImp list"
  | FStruct "'d val option"
  | FArr "'d field list"
  | FSite "OSite option"
  | FDevice "ODevice option"
  | FMap "string \<Rightarrow> 'd field option"

datatype 'd body = NoBody | OrtbBody "'d OBidRequest" | MapBody "string \<rightharpoonup> 'd field"

record 'd HttpRequest =
  hq_Method :: string
  hq_URL :: string
  hq_Headers :: "(string \<times> string) list"
  hq_Body :: "'d body"

record 'd transport =
  url_ok :: "string \<Rightarrow> bool"
  http_do :: "'d HttpRequest \<Rightarrow> string + nat \<times> 'd raw"
  decode_response :: "'d raw \<Rightarrow> 'd OBidResponse option"

definition StatusOK :: nat where "StatusOK = 200"
definition StatusNoContent :: nat where "StatusNoContent = 204"

end
