(* ===== verification/Rtb.thy ===== *)
theory Rtb
  imports Complex_Main "HOL-Library.Signed_Division" OpenRtb
begin

text \<open>
  \<^verbatim>\<open>pkg/rtb/openrtb.go\<close>: the exchange. A bid request is sent to every DSP by a goroutine of
  its own, the answers meet in a channel, and a loop collects them until all have answered or
  the time is up: the step relation \<open>cb_step\<close>. The auction, the response and the metrics
  are functions of the collected bids.

  \<open>float64\<close> prices and decimals are values of an ordered field; \<open>fl\<close> is
  \<open>InexactFloat64\<close> and \<open>bi\<close> is \<open>NewFromFloat\<close> followed by \<open>BigInt\<close> of the decimal
  library. A nil pointer that is used and a division by zero are panics. Inventory lists of
  library types that nothing reads (sites, apps) and the FoundationDB fields that are
  commented out are left out.
\<close>

subsection \<open>Data\<close>

datatype rtb_error =
    ErrMarshal
  | ErrCreateRequest
  | ErrHTTP string
  | ErrStatus nat
  | ErrDecode
  | RtbPanic

record RateLimiter =
  rl_tokens :: int
  rl_max :: int
  rl_refill :: duration
  rl_lastRefill :: time

record 'd DSPStats =
  dt_RequestCount :: u64
  dt_BidsReceived :: u64
  dt_NoBids :: u64
  dt_WinsNotified :: u64
  dt_RequestErrors :: u64
  dt_TotalSpend :: 'd
  dt_AvgLatency :: duration

record 'd DSPConnection =
  dc_ID :: string
  dc_Name :: string
  dc_Endpoint :: string
  dc_APIKey :: string
  dc_Protocol :: string
  dc_QPS :: int
  dc_Timeout :: duration
  dc_BidderCode :: string
  dc_SeatID :: string
  dc_SupportsADXYZ :: bool
  dc_AUSDWallet :: string
  dc_Stats :: "'d DSPStats"
  dc_RateLimiter :: "RateLimiter option"

record 'd Bid =
  bd_ID :: string
  bd_ImpID :: string
  bd_Price :: 'd
  bd_AdID :: string
  bd_CrID :: string
  bd_CreativeURL :: string
  bd_VAST :: string
  bd_DSPID :: string
  bd_SeatID :: string
  bd_DealID :: string
  bd_Categories :: "string list"
  bd_AdvertiserDom :: "string list"
  bd_Brand :: string
  bd_Width :: "int option"
  bd_Height :: "int option"
  bd_Timestamp :: time
  bd_ADXYZEnabled :: bool
  bd_EscrowID :: string
  bd_WinURL :: string
  bd_LossURL :: string

text \<open>The zero value of a bid, which a composite literal starts from.\<close>

definition zero_bid :: "'d::zero Bid" where
  "zero_bid = \<lparr>bd_ID = [], bd_ImpID = [], bd_Price = 0, bd_AdID = [], bd_CrID = [],
     bd_CreativeURL = [], bd_VAST = [], bd_DSPID = [], bd_SeatID = [], bd_DealID = [],
     bd_Categories = [], bd_AdvertiserDom = [], bd_Brand = [], bd_Width = None,
     bd_Height = None, bd_Timestamp = 0, bd_ADXYZEnabled = False, bd_EscrowID = [],
     bd_WinURL = [], bd_LossURL = []\<rparr>"

record 'd CTVOptimizer =
  co_PublicaEnabled :: bool
  co_PublicaAPIKey :: string
  co_PodFillRate :: 'd
  co_OptimalPodSize :: int
  co_CreativeQualityThreshold :: 'd
  co_MinVideoBitrate :: int
  co_RequiredFormats :: "string list"

record 'd AdPodAssembler =
  ap_MaxPodDuration :: duration
  ap_MinPodDuration :: duration
  ap_TargetCPM :: 'd
  ap_CompetitiveSeparation :: bool
  ap_FrequencyCapping :: bool
  ap_CreativeDeduping :: bool

record 'd RTB_HomeMiner =
  rm_ID :: string
  rm_WalletAddress :: string
  rm_Endpoint :: string
  rm_Bandwidth :: int
  rm_Storage :: int
  rm_CPUCores :: int
  rm_GPUAvailable :: bool
  rm_Country :: string
  rm_Region :: string
  rm_City :: string
  rm_ISP :: string
  rm_Uptime :: duration
  rm_ServedAds :: u64
  rm_Earnings :: "int option"
  rm_Active :: bool
  rm_LastPing :: time
  rm_HealthScore :: 'd

record 'd MinerRegistry =
  mr_Miners :: "string \<rightharpoonup> 'd RTB_HomeMiner"

record 'd RTBExchange =
  rx_DSPs :: "string \<rightharpoonup> 'd DSPConnection"
  rx_AuctionTimeout :: duration
  rx_FloorPrice :: 'd
  rx_ImpressionCount :: u64
  rx_BidCount :: u64
  rx_WinCount :: u64
  rx_Revenue :: int
  rx_CTVOptimizer :: "'d CTVOptimizer option"
  rx_PodAssembler :: "'d AdPodAssembler option"
  rx_MinerRegistry :: "'d MinerRegistry option"

subsection \<open>Rate limiting\<close>

text \<open>\<open>Sub\<close> saturates; \<open>int\<close> addition wraps.\<close>

definition time_sub :: "time \<Rightarrow> time \<Rightarrow> duration" where
  "time_sub t u = max (- (2 ^ 63)) (min (2 ^ 63 - 1) (t - u))"

definition wrap64 :: "int \<Rightarrow> int" where
  "wrap64 x = sint (of_int x :: u64)"

definition go_min :: "int \<Rightarrow> int \<Rightarrow> int" where
  "go_min a b = (if a < b then a else b)"

text \<open>\<open>None\<close> is the division by a zero refill interval.\<close>

definition Allow :: "time \<Rightarrow> RateLimiter \<Rightarrow> (bool \<times> RateLimiter) option" where
  "Allow now rl =
     (if rl_refill rl = 0 then None
      else
        let elapsed = time_sub now (rl_lastRefill rl);
            tokensToAdd = wrap64 (elapsed sdiv rl_refill rl);
            rl1 = (if 0 < tokensToAdd
                   then rl\<lparr>rl_tokens := go_min (rl_max rl) (wrap64 (rl_tokens rl + tokensToAdd)),
                           rl_lastRefill := now\<rparr>
                   else rl)
        in if 0 < rl_tokens rl1
           then Some (True, rl1\<lparr>rl_tokens := rl_tokens rl1 - 1\<rparr>)
           else Some (False, rl1))"

subsection \<open>Asking one DSP\<close>

definition adxyz_extension :: "string \<Rightarrow> 'd::linordered_field val" where
  "adxyz_extension wallet = VMap [''adxyz'' \<mapsto> VMap
     [''settlement'' \<mapsto> VStr ''ausd'', ''escrow_enabled'' \<mapsto> VBool True, ''ttl_ms'' \<mapsto> VNum 2000,
      ''delivery_proof'' \<mapsto> VStr ''required'', ''wallet'' \<mapsto> VStr wallet]]"

definition adxyz_confirmed :: "'d raw \<Rightarrow> bool" where
  "adxyz_confirmed ext =
     (case unmarshal_map ext of
        (True, Some m) \<Rightarrow>
          (case m ''adxyz'' of
             Some (VMap adxyz) \<Rightarrow> (case adxyz ''confirmed'' of Some (VBool b) \<Rightarrow> b | _ \<Rightarrow> False)
           | _ \<Rightarrow> False)
      | _ \<Rightarrow> False)"

text \<open>The result, the request as it is left, and the connection. \<open>ctx\<close> says that the
  context is not nil.\<close>

definition SendBidRequest ::
  "'d::linordered_field transport \<Rightarrow> bool \<Rightarrow> time \<Rightarrow> 'd OBidRequest \<Rightarrow> 'd DSPConnection \<Rightarrow>
   (rtb_error + 'd Bid option) \<times> 'd OBidRequest \<times> 'd DSPConnection" where
  "SendBidRequest N ctx now req dsp =
     (let stats = dc_Stats dsp;
          req1 = (if dc_SupportsADXYZ dsp
                  then req\<lparr>oq_Ext := RawVal (adxyz_extension (dc_AUSDWallet dsp))\<rparr> else req);
          failed = dsp\<lparr>dc_Stats := stats\<lparr>dt_RequestErrors := dt_RequestErrors stats + 1\<rparr>\<rparr>;
          no_bid = dsp\<lparr>dc_Stats := stats\<lparr>dt_NoBids := dt_NoBids stats + 1\<rparr>\<rparr>
      in if \<not> marshal_ok req1 then (Inl ErrMarshal, req1, dsp)
         else if \<not> ctx \<or> \<not> url_ok N (dc_Endpoint dsp) then (Inl ErrCreateRequest, req1, dsp)
         else
           let headers = [(''Content-Type'', ''application/json''), (''x-openrtb-version'', ''2.5'')] @
                 (if dc_APIKey dsp \<noteq> [] then [(''Authorization'', ''Bearer '' @ dc_APIKey dsp)] else [])
           in (case http_do N \<lparr>hq_Method = ''POST'', hq_URL = dc_Endpoint dsp, hq_Headers = headers,
                               hq_Body = OrtbBody req1\<rparr> of
                 Inl err \<Rightarrow> (Inl (ErrHTTP err), req1, failed)
               | Inr (status, body) \<Rightarrow>
                   if status = StatusNoContent then (Inr None, req1, no_bid)
                   else if status \<noteq> StatusOK then (Inl (ErrStatus status), req1, failed)
                   else (case decode_response N body of
                           None \<Rightarrow> (Inl ErrDecode, req1, dsp)
                         | Some bidResp \<Rightarrow>
                             if length (op_SeatBid bidResp) = 0 \<or> length (osb_Bid (op_SeatBid bidResp ! 0)) = 0
                             then (Inr None, req1, no_bid)
                             else
                               let ortbBid = osb_Bid (op_SeatBid bidResp ! 0) ! 0;
                                   bid = zero_bid
                                     \<lparr>bd_ID := ob_ID ortbBid, bd_ImpID := ob_ImpID ortbBid,
                                      bd_Price := ob_Price ortbBid, bd_AdID := ob_AdID ortbBid,
                                      bd_CrID := ob_CrID ortbBid, bd_DealID := ob_DealID ortbBid,
                                      bd_DSPID := dc_ID dsp, bd_SeatID := dc_SeatID dsp,
                                      bd_Timestamp := now,
                                      bd_ADXYZEnabled := adxyz_confirmed (ob_Ext ortbBid),
                                      bd_CreativeURL := ob_NURL ortbBid,
                                      bd_Width := Some (ob_W ortbBid), bd_Height := Some (ob_H ortbBid),
                                      bd_Categories := ob_Cat ortbBid,
                                      bd_AdvertiserDom := ob_ADomain ortbBid,
                                      bd_VAST := ob_AdM ortbBid\<rparr>
                               in (Inr (Some bid), req1,
                                   dsp\<lparr>dc_Stats := stats
                                     \<lparr>dt_BidsReceived := dt_BidsReceived stats + 1,
                                      dt_TotalSpend := dt_TotalSpend stats + bd_Price bid\<rparr>\<rparr>))))"

text \<open>The body of the goroutine of \<open>collectBids\<close>: what it sends to the channel, the request
  and the connection; \<open>None\<close> is a panic, which ends the process.\<close>

definition dsp_query ::
  "'d::linordered_field transport \<Rightarrow> bool \<Rightarrow> time \<Rightarrow> 'd OBidRequest \<Rightarrow> 'd DSPConnection \<Rightarrow>
   ('d Bid option \<times> 'd OBidRequest \<times> 'd DSPConnection) option" where
  "dsp_query N ctx now req d =
     (case dc_RateLimiter d of
        None \<Rightarrow> None
      | Some rl \<Rightarrow>
          (case Allow now rl of
             None \<Rightarrow> None
           | Some (allowed, rl') \<Rightarrow>
               let d1 = d\<lparr>dc_RateLimiter := Some rl'\<rparr>
               in if \<not> allowed then Some (None, req, d1)
                  else (case SendBidRequest N ctx now req d1 of
                          (Inl err, req', d2) \<Rightarrow>
                            Some (None, req', d2\<lparr>dc_Stats := (dc_Stats d2)
                              \<lparr>dt_RequestErrors := dt_RequestErrors (dc_Stats d2) + 1\<rparr>\<rparr>)
                        | (Inr None, req', d2) \<Rightarrow>
                            Some (None, req', d2\<lparr>dc_Stats := (dc_Stats d2)
                              \<lparr>dt_RequestCount := dt_RequestCount (dc_Stats d2) + 1\<rparr>\<rparr>)
                        | (Inr (Some bid), req', d2) \<Rightarrow>
                            Some (Some bid, req', d2\<lparr>dc_Stats := (dc_Stats d2)
                              \<lparr>dt_BidsReceived := dt_BidsReceived (dc_Stats d2) + 1,
                               dt_RequestCount := dt_RequestCount (dc_Stats d2) + 1\<rparr>\<rparr>))))"

subsection \<open>Collecting the bids\<close>

text \<open>The state of a call of \<open>collectBids\<close>: the DSPs whose goroutines have not finished, the
  connections and the request they share, the buffered channel, the bids collected, and
  whether the call has returned or the process has panicked.\<close>

record 'd collect =
  cb_pending :: "string set"
  cb_DSPs :: "string \<rightharpoonup> 'd DSPConnection"
  cb_req :: "'d OBidRequest"
  cb_chan :: "'d Bid list"
  cb_bids :: "'d Bid list"
  cb_returned :: bool
  cb_panic :: bool

definition cb_init :: "'d OBidRequest \<Rightarrow> 'd RTBExchange \<Rightarrow> 'd collect" where
  "cb_init req rtb = \<lparr>cb_pending = dom (rx_DSPs rtb), cb_DSPs = rx_DSPs rtb, cb_req = req,
     cb_chan = [], cb_bids = [], cb_returned = False, cb_panic = False\<rparr>"

text \<open>A goroutine runs as one step. The loop takes a bid from the channel, sees that all
  goroutines are done, or runs out of time; when several cases of the \<open>select\<close> are ready the
  choice is free. Asking a nil context for its channel panics.\<close>

inductive cb_step :: "'d::linordered_field transport \<Rightarrow> bool \<Rightarrow> 'd collect \<Rightarrow> 'd collect \<Rightarrow> bool"
  for N ctx where
  cb_query:
    "\<not> cb_panic s \<Longrightarrow> i \<in> cb_pending s \<Longrightarrow> cb_DSPs s i = Some d \<Longrightarrow>
     dsp_query N ctx now (cb_req s) d = Some (b, req', d') \<Longrightarrow>
     cb_step N ctx s (s\<lparr>cb_pending := cb_pending s - {i}, cb_DSPs := (cb_DSPs s)(i \<mapsto> d'),
       cb_req := req', cb_chan := cb_chan s @ (case b of None \<Rightarrow> [] | Some x \<Rightarrow> [x])\<rparr>)"
| cb_query_panic:
    "\<not> cb_panic s \<Longrightarrow> i \<in> cb_pending s \<Longrightarrow> cb_DSPs s i = Some d \<Longrightarrow>
     dsp_query N ctx now (cb_req s) d = None \<Longrightarrow> cb_step N ctx s (s\<lparr>cb_panic := True\<rparr>)"
| cb_nil_context:
    "\<not> cb_panic s \<Longrightarrow> \<not> cb_returned s \<Longrightarrow> \<not> ctx \<Longrightarrow> cb_step N ctx s (s\<lparr>cb_panic := True\<rparr>)"
| cb_receive:
    "\<not> cb_panic s \<Longrightarrow> \<not> cb_returned s \<Longrightarrow> ctx \<Longrightarrow> cb_chan s = b # rest \<Longrightarrow>
     cb_step N ctx s (s\<lparr>cb_chan := rest, cb_bids := cb_bids s @ [b]\<rparr>)"
| cb_all_done:
    "\<not> cb_panic s \<Longrightarrow> \<not> cb_returned s \<Longrightarrow> ctx \<Longrightarrow> cb_pending s = {} \<Longrightarrow>
     cb_step N ctx s (s\<lparr>cb_returned := True\<rparr>)"
| cb_timeout:
    "\<not> cb_panic s \<Longrightarrow> \<not> cb_returned s \<Longrightarrow> ctx \<Longrightarrow> cb_step N ctx s (s\<lparr>cb_returned := True\<rparr>)"

inductive_cases cb_stepE: "cb_step N ctx s t"

definition cb_reach :: "'d::linordered_field transport \<Rightarrow> bool \<Rightarrow> 'd OBidRequest \<Rightarrow> 'd RTBExchange \<Rightarrow> 'd collect \<Rightarrow> bool" where
  "cb_reach N ctx req rtb s \<longleftrightarrow> (cb_step N ctx)\<^sup>*\<^sup>* (cb_init req rtb) s"

subsection \<open>The auction, the response and the metrics\<close>

text \<open>The two nested loops over blocked values.\<close>

definition checkBrandSafety :: "'d Bid \<Rightarrow> 'd OBidRequest \<Rightarrow> bool" where
  "checkBrandSafety bid req =
     (if (case oq_BCat req of None \<Rightarrow> False
          | Some bcat \<Rightarrow> list_ex (\<lambda>cat. list_ex (\<lambda>blocked. cat = blocked) bcat) (bd_Categories bid))
      then False
      else if (case oq_BAdv req of None \<Rightarrow> False
          | Some badv \<Rightarrow> list_ex (\<lambda>blocked. list_ex (\<lambda>adDomain. adDomain = blocked) (bd_AdvertiserDom bid)) badv)
      then False
      else True)"

fun auction_loop ::
  "'d::linordered_field \<Rightarrow> 'd OBidRequest \<Rightarrow> 'd Bid option \<times> 'd \<Rightarrow> 'd Bid list \<Rightarrow> 'd Bid option \<times> 'd" where
  "auction_loop floorPrice req acc [] = acc"
| "auction_loop floorPrice req (winner, highestPrice) (bid # bids) =
     (if bd_Price bid < floorPrice then auction_loop floorPrice req (winner, highestPrice) bids
      else if \<not> checkBrandSafety bid req then auction_loop floorPrice req (winner, highestPrice) bids
      else if highestPrice < bd_Price bid then auction_loop floorPrice req (Some bid, bd_Price bid) bids
      else auction_loop floorPrice req (winner, highestPrice) bids)"

definition rtb_runAuction ::
  "('d::linordered_field \<Rightarrow> 'd) \<Rightarrow> 'd Bid list \<Rightarrow> 'd OBidRequest \<Rightarrow> 'd RTBExchange \<Rightarrow> 'd Bid option" where
  "rtb_runAuction fl bids req rtb =
     (if length bids = 0 then None
      else fst (auction_loop (fl (rx_FloorPrice rtb)) req (None, 0) bids))"

definition zero_obid :: "'d::zero OBid" where
  "zero_obid = \<lparr>ob_ID = [], ob_ImpID = [], ob_Price = 0, ob_NURL = [], ob_LURL = [], ob_AdM = [],
     ob_AdID = [], ob_ADomain = [], ob_CrID = [], ob_Cat = [], ob_DealID = [], ob_W = 0, ob_H = 0,
     ob_Ext = RawNil\<rparr>"

definition buildResponse :: "'d::zero Bid option \<Rightarrow> 'd OBidRequest \<Rightarrow> 'd OBidResponse" where
  "buildResponse winner req =
     (case winner of
        None \<Rightarrow> \<lparr>op_ID = oq_ID req, op_SeatBid = [], op_BidID = [], op_Cur = []\<rparr>
      | Some w \<Rightarrow>
          \<lparr>op_ID = oq_ID req,
           op_SeatBid =
             [\<lparr>osb_Seat = bd_SeatID w,
               osb_Bid = [zero_obid\<lparr>ob_ID := bd_ID w, ob_ImpID := bd_ImpID w, ob_Price := bd_Price w,
                 ob_AdID := bd_AdID w, ob_AdM := bd_VAST w, ob_Cat := bd_Categories w,
                 ob_ADomain := bd_AdvertiserDom w\<rparr>]\<rparr>],
           op_BidID = bd_ID w, op_Cur = ''USD''\<rparr>)"

definition updateMetrics ::
  "('d \<Rightarrow> int) \<Rightarrow> 'd OBidResponse \<Rightarrow> 'd RTBExchange \<Rightarrow> 'd RTBExchange" where
  "updateMetrics bi resp rtb =
     (let rtb1 = rtb\<lparr>rx_ImpressionCount := rx_ImpressionCount rtb + 1\<rparr>
      in if 0 < length (op_SeatBid resp) \<and> 0 < length (osb_Bid (op_SeatBid resp ! 0))
         then let price = ob_Price (osb_Bid (op_SeatBid resp ! 0) ! 0)
              in rtb1\<lparr>rx_BidCount := rx_BidCount rtb1 + 1, rx_Revenue := rx_Revenue rtb1 + bi price\<rparr>
         else rtb1)"

definition storeImpression :: "'d OBidRequest \<Rightarrow> rtb_error + unit" where
  "storeImpression req = Inr ()"

text \<open>\<open>BidRequest\<close> after the collection ended in \<open>s\<close>.\<close>

definition RTB_BidRequest ::
  "('d::linordered_field \<Rightarrow> 'd) \<Rightarrow> ('d \<Rightarrow> int) \<Rightarrow> 'd collect \<Rightarrow> 'd RTBExchange \<Rightarrow>
   (rtb_error + 'd OBidResponse) \<times> 'd RTBExchange" where
  "RTB_BidRequest fl bi s rtb =
     (case storeImpression (cb_req s) of
        Inl err \<Rightarrow> (Inl err, rtb)
      | Inr _ \<Rightarrow>
          let rtb1 = rtb\<lparr>rx_DSPs := cb_DSPs s\<rparr>;
              winner = rtb_runAuction fl (cb_bids s) (cb_req s) rtb1;
              resp = buildResponse winner (cb_req s)
          in (Inr resp, updateMetrics bi resp rtb1))"

subsection \<open>Connected TV\<close>

text \<open>Embedded library structs appear by their JSON form.\<close>

record AdPodConfiguration =
  ac_PreRollMaxDuration :: int
  ac_MidRollMaxDuration :: int
  ac_PostRollMaxDuration :: int
  ac_MaxAdsPerPod :: int
  ac_MinAdsPerPod :: int
  ac_PodCompetitiveSep :: bool
  ac_MaxSameBrand :: int

record 'd CTVApp =
  cv_App :: "'d val"
  cv_DeviceType :: string
  cv_ContentType :: string
  cv_AdPodConfig :: AdPodConfiguration

record CTVDevice =
  cd_Device :: ODevice
  cd_Platform :: string
  cd_HWVersion :: string
  cd_OSVersion :: string
  cd_AppVersion :: string
  cd_ScreenSize :: string

record 'd CTVContent =
  cc_Content :: "'d val"
  cc_StreamType :: string
  cc_DRM :: string
  cc_Rating :: string
  cc_Genre :: "string list"
  cc_Duration :: int
  cc_Position :: int

record AdPodRequest =
  aq_ID :: string
  aq_MinDuration :: int
  aq_MaxDuration :: int
  aq_MinAds :: int
  aq_MaxAds :: int
  aq_PodType :: string
  aq_StartDelay :: int

record 'd CTVBidRequest =
  cq_ID :: string
  cq_Device :: CTVDevice
  cq_Content :: "'d CTVContent"
  cq_AdPods :: "AdPodRequest list"
  cq_User :: "'d val"
  cq_Regs :: "'d val"
  cq_Test :: int

record 'd AdResponse =
  ar_ID :: string
  ar_AdID :: string
  ar_Creative :: string
  ar_Duration :: int
  ar_Price :: 'd
  ar_AdvertiserID :: string
  ar_BrandID :: string
  ar_CategoryID :: "string list"

record 'd AdPodResponse =
  as_ID :: string
  as_Ads :: "'d AdResponse list"
  as_TotalDuration :: int
  as_TotalPrice :: 'd

record 'd CTVBidResponse =
  cs_ID :: string
  cs_AdPods :: "'d AdPodResponse list"
  cs_Errors :: "string list"

definition zero_request :: "string \<Rightarrow> 'd OBidRequest" where
  "zero_request i = \<lparr>oq_ID = i, oq_Imp = [], oq_Site = None, oq_App = None, oq_Device = None,
     oq_User = None, oq_Regs = None, oq_Test = 0, oq_TMax = 0, oq_Cur = [], oq_BCat = None,
     oq_BAdv = None, oq_Ext = RawNil\<rparr>"

definition convertCTVToOpenRTB :: "'d CTVBidRequest \<Rightarrow> 'd OBidRequest" where
  "convertCTVToOpenRTB req = zero_request (cq_ID req)"

definition convertOpenRTBToCTV :: "'d OBidResponse \<Rightarrow> 'd CTVBidRequest \<Rightarrow> 'd CTVBidResponse" where
  "convertOpenRTBToCTV resp req = \<lparr>cs_ID = op_ID resp, cs_AdPods = [], cs_Errors = []\<rparr>"

definition OptimizeResponse :: "'d CTVBidResponse \<Rightarrow> 'd CTVOptimizer \<Rightarrow> 'd CTVBidResponse" where
  "OptimizeResponse resp opt = resp"

text \<open>The request \<open>HandleCTVRequest\<close> sends out, and what it does once the collection for
  that request ended in \<open>s\<close>.\<close>

definition ctv_request :: "'d CTVBidRequest \<Rightarrow> 'd OBidRequest" where
  "ctv_request req =
     (convertCTVToOpenRTB req)\<lparr>oq_Ext := RawVal (VMap [''ctv'' \<mapsto> VBool True, ''adpod'' \<mapsto> VBool True])\<rparr>"

definition HandleCTVRequest ::
  "('d::linordered_field \<Rightarrow> 'd) \<Rightarrow> ('d \<Rightarrow> int) \<Rightarrow> 'd collect \<Rightarrow> 'd CTVBidRequest \<Rightarrow> 'd RTBExchange \<Rightarrow>
   (rtb_error + 'd CTVBidResponse) \<times> 'd RTBExchange" where
  "HandleCTVRequest fl bi s req rtb =
     (case RTB_BidRequest fl bi s rtb of
        (Inl err, rtb') \<Rightarrow> (Inl err, rtb')
      | (Inr ortbResp, rtb') \<Rightarrow>
          let ctvResp = convertOpenRTBToCTV ortbResp req
          in (Inr (case rx_CTVOptimizer rtb' of None \<Rightarrow> ctvResp | Some opt \<Rightarrow> OptimizeResponse ctvResp opt),
              rtb'))"

subsection \<open>The rate limiter\<close>

text \<open>A sum that wraps only makes the limiter stricter.\<close>

lemma wrap64_bounds:
  assumes "- (2 ^ 63) \<le> x" shows "wrap64 x \<le> x" and "- (2 ^ 63) \<le> wrap64 x"
proof -
  have w: "wrap64 x = (x + 2 ^ 63) mod 2 ^ 64 - 2 ^ 63"
    by (simp add: wrap64_def signed_of_int signed_take_bit_eq_take_bit_shift take_bit_eq_mod)
  have "(x + 2 ^ 63) mod 2 ^ 64 \<le> x + 2 ^ 63" using assms by (intro zmod_le_nonneg_dividend) simp
  moreover have "0 \<le> (x + 2 ^ 63) mod 2 ^ 64" by simp
  ultimately show "wrap64 x \<le> x" and "- (2 ^ 63) \<le> wrap64 x" unfolding w by linarith+
qed

lemma wrap64_id: "0 \<le> x \<Longrightarrow> x < 2 ^ 63 \<Longrightarrow> wrap64 x = x"
  unfolding wrap64_def by (rule sint_of_int64) simp_all

lemma div_sum_le:
  fixes c :: int
  assumes "0 < c" shows "a div c + b div c \<le> (a + b) div c"
proof -
  have "c * (a div c) \<le> a" "c * (b div c) \<le> b"
    using assms by (simp_all add: minus_mod_eq_mult_div [symmetric])
  then have "(a div c + b div c) * c \<le> a + b" by (simp add: algebra_simps)
  then have "((a div c + b div c) * c) div c \<le> (a + b) div c" using assms by (intro zdiv_mono1)
  with assms show ?thesis by simp
qed

lemma tokens_added:
  assumes "0 < refill" and "u \<le> now"
  shows "0 \<le> wrap64 (time_sub now u sdiv refill)" and "wrap64 (time_sub now u sdiv refill) \<le> (now - u) div refill"
proof -
  let ?e = "time_sub now u"
  have e: "0 \<le> ?e" "?e < 2 ^ 63" "?e \<le> now - u" using assms(2) by (auto simp: time_sub_def)
  have q: "?e sdiv refill = ?e div refill"
    using assms(1) e(1) by (cases "?e = 0") (simp_all add: signed_divide_int_def)
  have "?e div refill \<le> ?e" using zdiv_mono2 [of ?e 1 refill] e(1) assms(1) by simp
  then have w: "wrap64 (?e sdiv refill) = ?e div refill"
    using e assms(1) by (simp add: q wrap64_id pos_imp_zdiv_nonneg_iff)
  show "0 \<le> wrap64 (?e sdiv refill)" using w e(1) assms(1) by (simp add: pos_imp_zdiv_nonneg_iff)
  show "wrap64 (?e sdiv refill) \<le> (now - u) div refill" using w e(3) assms(1) by (simp add: zdiv_mono1)
qed

definition limiter_ok :: "RateLimiter \<Rightarrow> bool" where
  "limiter_ok rl \<longleftrightarrow> 0 < rl_refill rl \<and> 0 \<le> rl_max rl \<and> - (2 ^ 63) \<le> rl_tokens rl \<and> rl_tokens rl \<le> rl_max rl"

lemma Allow_some: "limiter_ok rl \<Longrightarrow> \<exists>ok rl'. Allow now rl = Some (ok, rl')"
  by (auto simp: Allow_def limiter_ok_def Let_def)

lemma Allow_step:
  assumes "limiter_ok rl" and "rl_lastRefill rl \<le> now" and "Allow now rl = Some (ok, rl')"
  shows "limiter_ok rl' \<and> rl_refill rl' = rl_refill rl \<and>
    rl_lastRefill rl \<le> rl_lastRefill rl' \<and> rl_lastRefill rl' \<le> now \<and>
    (if ok then 1 else 0) + max 0 (rl_tokens rl') \<le>
      max 0 (rl_tokens rl) + (rl_lastRefill rl' - rl_lastRefill rl) div rl_refill rl"
proof -
  define a where "a = wrap64 (time_sub now (rl_lastRefill rl) sdiv rl_refill rl)"
  define w where "w = wrap64 (rl_tokens rl + a)"
  have ok: "0 < rl_refill rl" "0 \<le> rl_max rl" "- (2 ^ 63) \<le> rl_tokens rl" "rl_tokens rl \<le> rl_max rl"
    using assms(1) by (simp_all add: limiter_ok_def)
  have a: "0 \<le> a" "a \<le> (now - rl_lastRefill rl) div rl_refill rl"
    using tokens_added [OF ok(1) assms(2)] by (simp_all add: a_def)
  then have w: "w \<le> rl_tokens rl + a" "- (2 ^ 63) \<le> w"
    using wrap64_bounds [of "rl_tokens rl + a"] ok(3) by (simp_all add: w_def)
  show ?thesis
  proof (cases "0 < a")
    case True
    then show ?thesis using assms(3) ok a w assms(2)
      unfolding Allow_def a_def [symmetric] Let_def w_def [symmetric]
      by (auto simp: go_min_def limiter_ok_def split: if_splits)
  next
    case False
    then show ?thesis using assms(3) ok assms(2)
      unfolding Allow_def a_def [symmetric] Let_def w_def [symmetric]
      by (auto simp: limiter_ok_def split: if_splits)
  qed
qed

text \<open>The number of requests a limiter lets through when it is asked at the given times.\<close>

fun grants :: "time list \<Rightarrow> RateLimiter \<Rightarrow> int \<times> RateLimiter" where
  "grants [] rl = (0, rl)"
| "grants (t # ts) rl =
     (case Allow t rl of
        None \<Rightarrow> (0, rl)
      | Some (ok, rl') \<Rightarrow> (case grants ts rl' of (n, rl'') \<Rightarrow> ((if ok then 1 else 0) + n, rl'')))"

lemma grants_bound:
  assumes "limiter_ok rl" and "sorted (rl_lastRefill rl # ts)" and "grants ts rl = (n, rl')"
  shows "limiter_ok rl' \<and> rl_refill rl' = rl_refill rl \<and> rl_lastRefill rl \<le> rl_lastRefill rl' \<and>
    rl_lastRefill rl' \<le> last (rl_lastRefill rl # ts) \<and>
    n + max 0 (rl_tokens rl') \<le> max 0 (rl_tokens rl) + (rl_lastRefill rl' - rl_lastRefill rl) div rl_refill rl"
  using assms
proof (induction ts arbitrary: rl n)
  case (Cons t ts)
  then have "rl_lastRefill rl \<le> t" by simp
  moreover obtain ok r1 where s0: "Allow t rl = Some (ok, r1)" using Allow_some [OF Cons.prems(1)] by blast
  ultimately have s: "limiter_ok r1"
    "rl_refill r1 = rl_refill rl" "rl_lastRefill rl \<le> rl_lastRefill r1" "rl_lastRefill r1 \<le> t"
    "(if ok then 1 else 0) + max 0 (rl_tokens r1) \<le>
       max 0 (rl_tokens rl) + (rl_lastRefill r1 - rl_lastRefill rl) div rl_refill rl"
    using Allow_step [OF Cons.prems(1)] by blast+
  obtain k where k: "grants ts r1 = (k, rl')" "n = (if ok then 1 else 0) + k"
    using Cons.prems(3) s0 by (auto split: prod.splits)
  have "sorted (rl_lastRefill r1 # ts)" using Cons.prems(2) s(4) by auto
  note IH = Cons.IH [OF s(1) this k(1)]
  have r: "0 < rl_refill rl" using Cons.prems(1) by (simp add: limiter_ok_def)
  let ?d1 = "rl_lastRefill r1 - rl_lastRefill rl" and ?d2 = "rl_lastRefill rl' - rl_lastRefill r1"
  have "?d1 div rl_refill rl + ?d2 div rl_refill rl \<le> (?d1 + ?d2) div rl_refill rl"
    by (rule div_sum_le [OF r])
  moreover have "last (rl_lastRefill r1 # ts) \<le> last (rl_lastRefill rl # t # ts)"
    using s(4) by (cases ts) simp_all
  ultimately show ?case using IH s(2,3,5) k(2) by auto
qed simp

subsection \<open>The collection\<close>

lemma SendBidRequest_keeps:
  assumes "SendBidRequest N ctx now req d = (r, req', d')"
  shows "dc_ID d' = dc_ID d \<and> dc_RateLimiter d' = dc_RateLimiter d \<and>
    (\<forall>b. r = Inr (Some b) \<longrightarrow> bd_DSPID b = dc_ID d \<and> bd_SeatID b = dc_SeatID d)"
  using assms unfolding SendBidRequest_def Let_def
  by (auto split: if_splits sum.splits option.splits prod.splits)

text \<open>The extension with the wallet stays in the request that the other goroutines send.\<close>

lemma SendBidRequest_extension:
  assumes "SendBidRequest N ctx now req d = (r, req', d')"
  shows "req' = (if dc_SupportsADXYZ d then req\<lparr>oq_Ext := RawVal (adxyz_extension (dc_AUSDWallet d))\<rparr> else req)"
  using assms unfolding SendBidRequest_def Let_def
  by (auto split: if_splits sum.splits option.splits prod.splits)

lemma dsp_query_keeps:
  assumes "dsp_query N ctx now req d = Some (b, req', d')"
  shows "dc_ID d' = dc_ID d \<and> (\<forall>x. b = Some x \<longrightarrow> bd_DSPID x = dc_ID d)"
proof -
  obtain ok rl where d1: "dc_RateLimiter d \<noteq> None" "Allow now (the (dc_RateLimiter d)) = Some (ok, rl)"
    using assms by (auto simp: dsp_query_def split: option.splits)
  let ?d1 = "d\<lparr>dc_RateLimiter := Some rl\<rparr>"
  show ?thesis
  proof (cases ok)
    case False
    with assms d1 show ?thesis by (auto simp: dsp_query_def split: option.splits)
  next
    case True
    obtain r q d2 where s: "SendBidRequest N ctx now req ?d1 = (r, q, d2)"
      by (cases "SendBidRequest N ctx now req ?d1") auto
    from SendBidRequest_keeps [OF s] assms d1 True s show ?thesis
      by (auto simp: dsp_query_def split: option.splits sum.splits)
  qed
qed

text \<open>What a query adds to the counters when a bid comes back.\<close>

lemma dsp_query_bid_counts:
  assumes "dsp_query N ctx now req d = Some (Some b, req', d')"
  shows "dt_BidsReceived (dc_Stats d') = dt_BidsReceived (dc_Stats d) + 2 \<and>
    dt_RequestCount (dc_Stats d') = dt_RequestCount (dc_Stats d) + 1 \<and>
    dt_TotalSpend (dc_Stats d') = dt_TotalSpend (dc_Stats d) + bd_Price b"
proof -
  obtain ok rl where d1: "dc_RateLimiter d \<noteq> None" "Allow now (the (dc_RateLimiter d)) = Some (ok, rl)"
    using assms by (auto simp: dsp_query_def split: option.splits)
  let ?d1 = "d\<lparr>dc_RateLimiter := Some rl\<rparr>"
  have ok: ok using assms d1 by (auto simp: dsp_query_def Let_def split: if_splits option.splits)
  obtain r q d2 where s: "SendBidRequest N ctx now req ?d1 = (r, q, d2)"
    by (cases "SendBidRequest N ctx now req ?d1") auto
  have r: "r = Inr (Some b)" and d': "d' = d2\<lparr>dc_Stats := (dc_Stats d2)
      \<lparr>dt_BidsReceived := dt_BidsReceived (dc_Stats d2) + 1,
       dt_RequestCount := dt_RequestCount (dc_Stats d2) + 1\<rparr>\<rparr>"
    using assms d1 ok s by (auto simp: dsp_query_def split: option.splits sum.splits)
  have "dc_Stats d2 = (dc_Stats d)\<lparr>dt_BidsReceived := dt_BidsReceived (dc_Stats d) + 1,
      dt_TotalSpend := dt_TotalSpend (dc_Stats d) + bd_Price b\<rparr>"
    using s unfolding r SendBidRequest_def Let_def
    by (auto split: if_splits sum.splits option.splits prod.splits)
  then show ?thesis unfolding d' by simp
qed

definition cb_inv :: "'d RTBExchange \<Rightarrow> 'd collect \<Rightarrow> bool" where
  "cb_inv rtb s \<longleftrightarrow> dom (cb_DSPs s) = dom (rx_DSPs rtb) \<and> cb_pending s \<subseteq> dom (rx_DSPs rtb) \<and>
     (\<forall>i d. cb_DSPs s i = Some d \<longrightarrow> dc_ID d = i) \<and>
     distinct (map bd_DSPID (cb_bids s @ cb_chan s)) \<and>
     bd_DSPID ` set (cb_bids s @ cb_chan s) \<subseteq> dom (rx_DSPs rtb) - cb_pending s"

lemma cb_step_inv [adx_inv]:
  assumes "cb_step N ctx s t" and "cb_inv rtb s" shows "cb_inv rtb t"
  using assms
proof (cases rule: cb_step.cases)
  case (cb_query i d now b req' d')
  from dsp_query_keeps [OF cb_query(5)] have k: "dc_ID d' = i" "\<And>x. b = Some x \<Longrightarrow> bd_DSPID x = i"
    using assms(2) cb_query(4) by (auto simp: cb_inv_def)
  have i: "i \<notin> bd_DSPID ` set (cb_bids s @ cb_chan s)" "i \<in> dom (rx_DSPs rtb)"
    using assms(2) cb_query(3,4) by (auto simp: cb_inv_def)
  have dom: "dom ((cb_DSPs s)(i \<mapsto> d')) = dom (rx_DSPs rtb)"
    using assms(2) cb_query(4) by (auto simp: cb_inv_def)
  show ?thesis
  proof (cases b)
    case None
    with assms(2) k dom show ?thesis unfolding cb_query(1) cb_inv_def by auto
  next
    case (Some x)
    with assms(2) k dom i show ?thesis unfolding cb_query(1) cb_inv_def by auto
  qed
qed (auto simp: cb_inv_def)

lemma cb_reach_inv:
  assumes "cb_reach N ctx req rtb s" and "\<forall>i d. rx_DSPs rtb i = Some d \<longrightarrow> dc_ID d = i"
  shows "cb_inv rtb s"
proof -
  have "(cb_step N ctx)\<^sup>*\<^sup>* (cb_init req rtb) s" using assms(1) by (simp add: cb_reach_def)
  then show ?thesis
  proof (induction rule: rtranclp_induct)
    case base
    show ?case using assms(2) by (auto simp: cb_inv_def cb_init_def)
  next
    case (step t u)
    then show ?case by (blast intro: cb_step_inv)
  qed
qed

subsection \<open>The auction\<close>

lemma checkBrandSafety_iff:
  "checkBrandSafety bid req \<longleftrightarrow>
     (\<forall>bcat. oq_BCat req = Some bcat \<longrightarrow> set (bd_Categories bid) \<inter> set bcat = {}) \<and>
     (\<forall>badv. oq_BAdv req = Some badv \<longrightarrow> set (bd_AdvertiserDom bid) \<inter> set badv = {})"
  by (auto simp: checkBrandSafety_def list_ex_iff split: option.splits)

text \<open>A bid that may win: at or above the floor, and not blocked by the request.\<close>

definition eligible :: "'d::linordered_field \<Rightarrow> 'd OBidRequest \<Rightarrow> 'd Bid \<Rightarrow> bool" where
  "eligible fp req b \<longleftrightarrow> fp \<le> bd_Price b \<and> checkBrandSafety b req"

lemma auction_loop_append:
  "auction_loop fp req acc (xs @ ys) = auction_loop fp req (auction_loop fp req acc xs) ys"
  by (induction fp req acc xs rule: auction_loop.induct) auto

definition first_best :: "'d::linordered_field \<Rightarrow> 'd OBidRequest \<Rightarrow> 'd Bid list \<Rightarrow> nat \<Rightarrow> bool" where
  "first_best fp req bids i \<longleftrightarrow> i < length bids \<and> eligible fp req (bids ! i) \<and> 0 < bd_Price (bids ! i) \<and>
     (\<forall>j<length bids. eligible fp req (bids ! j) \<longrightarrow> bd_Price (bids ! j) \<le> bd_Price (bids ! i)) \<and>
     (\<forall>j<i. eligible fp req (bids ! j) \<longrightarrow> bd_Price (bids ! j) < bd_Price (bids ! i))"

lemma auction_loop_spec:
  "(auction_loop fp req (None, 0) bids = (None, 0) \<and> (\<forall>b\<in>set bids. eligible fp req b \<longrightarrow> bd_Price b \<le> 0)) \<or>
   (\<exists>i. first_best fp req bids i \<and> auction_loop fp req (None, 0) bids = (Some (bids ! i), bd_Price (bids ! i)))"
proof (induction bids rule: rev_induct)
  case Nil
  show ?case by simp
next
  case (snoc x xs)
  let ?n = "length xs"
  show ?case
  proof (cases "auction_loop fp req (None, 0) xs = (None, 0) \<and> (\<forall>b\<in>set xs. eligible fp req b \<longrightarrow> bd_Price b \<le> 0)")
    case True
    show ?thesis
    proof (cases "eligible fp req x \<and> 0 < bd_Price x")
      case e: True
      then have "auction_loop fp req (None, 0) (xs @ [x]) = (Some x, bd_Price x)"
        using True by (simp add: auction_loop_append eligible_def)
      moreover have "first_best fp req (xs @ [x]) ?n"
        using e True unfolding first_best_def
        by (auto simp: nth_append less_Suc_eq)
      ultimately show ?thesis by (intro disjI2 exI [of _ ?n]) simp
    next
      case False
      with True show ?thesis by (auto simp: auction_loop_append eligible_def)
    qed
  next
    case False
    with snoc obtain i where i: "first_best fp req xs i"
      "auction_loop fp req (None, 0) xs = (Some (xs ! i), bd_Price (xs ! i))" by blast
    show ?thesis
    proof (cases "eligible fp req x \<and> bd_Price (xs ! i) < bd_Price x")
      case e: True
      then have "auction_loop fp req (None, 0) (xs @ [x]) = (Some x, bd_Price x)"
        using i(2) by (simp add: auction_loop_append eligible_def)
      moreover have "first_best fp req (xs @ [x]) ?n"
        using e i(1) unfolding first_best_def by (fastforce simp: nth_append less_Suc_eq)
      ultimately show ?thesis by (intro disjI2 exI [of _ ?n]) simp
    next
      case n: False
      then have "auction_loop fp req (None, 0) (xs @ [x]) = (Some (xs ! i), bd_Price (xs ! i))"
        using i(2) by (auto simp: auction_loop_append eligible_def)
      moreover have "first_best fp req (xs @ [x]) i"
        using n i(1) unfolding first_best_def by (auto simp: nth_append less_Suc_eq)
      moreover have "(xs @ [x]) ! i = xs ! i" using i(1) by (simp add: first_best_def nth_append)
      ultimately show ?thesis by (intro disjI2 exI [of _ i]) simp
    qed
  qed
qed

lemma rtb_runAuction_spec:
  "case rtb_runAuction fl bids req rtb of
     None \<Rightarrow> \<forall>b\<in>set bids. eligible (fl (rx_FloorPrice rtb)) req b \<longrightarrow> bd_Price b \<le> 0
   | Some w \<Rightarrow> \<exists>i. first_best (fl (rx_FloorPrice rtb)) req bids i \<and> w = bids ! i"
proof -
  let ?fp = "fl (rx_FloorPrice rtb)"
  show ?thesis
  proof (cases "bids = []")
    case False
    then have r: "rtb_runAuction fl bids req rtb = fst (auction_loop ?fp req (None, 0) bids)"
      by (simp add: rtb_runAuction_def)
    show ?thesis unfolding r using auction_loop_spec [of ?fp req bids] by auto
  qed (simp add: rtb_runAuction_def)
qed

lemma rtb_runAuction_dsps [simp]: "rtb_runAuction fl bids req (rtb\<lparr>rx_DSPs := m\<rparr>) = rtb_runAuction fl bids req rtb"
  by (simp add: rtb_runAuction_def)

lemma RTB_BidRequest_eq:
  "RTB_BidRequest fl bi s rtb =
     (let winner = rtb_runAuction fl (cb_bids s) (cb_req s) rtb in
      (Inr (buildResponse winner (cb_req s)),
       rtb\<lparr>rx_DSPs := cb_DSPs s, rx_ImpressionCount := rx_ImpressionCount rtb + 1,
           rx_BidCount := rx_BidCount rtb + (if winner = None then 0 else 1),
           rx_Revenue := rx_Revenue rtb + (case winner of None \<Rightarrow> 0 | Some w \<Rightarrow> bi (bd_Price w))\<rparr>))"
  by (simp add: RTB_BidRequest_def storeImpression_def updateMetrics_def buildResponse_def Let_def zero_obid_def
      split: option.split)

lemma two_steps: "r a b \<Longrightarrow> r b c \<Longrightarrow> r\<^sup>*\<^sup>* a c"
  by (rule rtranclp.rtrancl_into_rtrancl [OF r_into_rtranclp])

lemma three_steps: "r a b \<Longrightarrow> r b c \<Longrightarrow> r c d \<Longrightarrow> r\<^sup>*\<^sup>* a d"
  by (rule rtranclp.rtrancl_into_rtrancl [OF two_steps])

text \<open>With one DSP that answers, both a call that returns its bid and one that returns without
  it are possible, and in the second the DSP has answered too.\<close>

lemma one_dsp_runs:
  assumes "rx_DSPs rtb = [i \<mapsto> d]" and "dsp_query N True now req d = Some (Some b, req', d')"
  shows "\<exists>s. cb_reach N True req rtb s \<and> cb_returned s \<and> cb_pending s = {} \<and> cb_bids s = [b] \<and> cb_req s = req'"
    and "\<exists>s. cb_reach N True req rtb s \<and> cb_returned s \<and> cb_pending s = {} \<and> cb_bids s = [] \<and> cb_chan s = [b] \<and> cb_req s = req'"
proof -
  let ?s0 = "cb_init req rtb"
  let ?s1 = "?s0\<lparr>cb_pending := cb_pending ?s0 - {i}, cb_DSPs := (cb_DSPs ?s0)(i \<mapsto> d'), cb_req := req',
    cb_chan := cb_chan ?s0 @ (case Some b of None \<Rightarrow> [] | Some x \<Rightarrow> [x])\<rparr>"
  have 1: "cb_step N True ?s0 ?s1"
    by (rule cb_query [where now = now and d = d]) (use assms in \<open>simp_all add: cb_init_def\<close>)
  let ?s2 = "?s1\<lparr>cb_chan := [], cb_bids := cb_bids ?s1 @ [b]\<rparr>"
  have 2: "cb_step N True ?s1 ?s2" by (rule cb_receive) (simp_all add: cb_init_def)
  have 3: "cb_step N True ?s2 (?s2\<lparr>cb_returned := True\<rparr>)"
    by (rule cb_all_done) (simp_all add: cb_init_def assms(1))
  have 4: "cb_step N True ?s1 (?s1\<lparr>cb_returned := True\<rparr>)"
    by (rule cb_all_done) (simp_all add: cb_init_def assms(1))
  have "(cb_step N True)\<^sup>*\<^sup>* ?s0 (?s2\<lparr>cb_returned := True\<rparr>)" 
    by (rule three_steps [where r = "cb_step N True", OF 1 2 3])
  then show "\<exists>s. cb_reach N True req rtb s \<and> cb_returned s \<and> cb_pending s = {} \<and> cb_bids s = [b] \<and> cb_req s = req'"
    by (intro exI [of _ "?s2\<lparr>cb_returned := True\<rparr>"]) (simp add: cb_reach_def cb_init_def assms(1))
  have "(cb_step N True)\<^sup>*\<^sup>* ?s0 (?s1\<lparr>cb_returned := True\<rparr>)" 
    by (rule two_steps [where r = "cb_step N True", OF 1 4])
  then show "\<exists>s. cb_reach N True req rtb s \<and> cb_returned s \<and> cb_pending s = {} \<and> cb_bids s = [] \<and> cb_chan s = [b] \<and> cb_req s = req'"
    by (intro exI [of _ "?s1\<lparr>cb_returned := True\<rparr>"]) (simp add: cb_reach_def cb_init_def assms(1))
qed

text \<open>A DSP without a rate limiter, as the command sets up, and a nil context, as its handler
  passes, end the process.\<close>

lemma nil_limiter_panics:
  assumes "rx_DSPs rtb i = Some d" and "dc_RateLimiter d = None"
  shows "\<exists>s. cb_reach N ctx req rtb s \<and> cb_panic s"
proof -
  let ?s0 = "cb_init req rtb"
  have "cb_step N ctx ?s0 (?s0\<lparr>cb_panic := True\<rparr>)"
    by (rule cb_query_panic [where i = i and d = d and now = 0])
      (use assms in \<open>auto simp: cb_init_def dsp_query_def\<close>)
  then show ?thesis unfolding cb_reach_def by (intro exI [of _ "?s0\<lparr>cb_panic := True\<rparr>"]) auto
qed

lemma nil_context_never_returns:
  assumes "cb_reach N False req rtb s" shows "\<not> cb_returned s"
proof -
  have "(cb_step N False)\<^sup>*\<^sup>* (cb_init req rtb) s" using assms by (simp add: cb_reach_def)
  then show ?thesis
    by (induction rule: rtranclp_induct) (auto simp: cb_init_def elim: cb_stepE)
qed

subsection \<open>An example\<close>

definition demo_obid :: "rat OBid" where
  "demo_obid = zero_obid\<lparr>ob_ID := ''b1'', ob_Price := 1 / 2\<rparr>"

definition demo_transport :: "rat transport" where
  "demo_transport = \<lparr>url_ok = (\<lambda>_. True), http_do = (\<lambda>_. Inr (200, RawNil)),
     decode_response = (\<lambda>_. Some \<lparr>op_ID = ''r'', op_SeatBid = [\<lparr>osb_Seat = ''s'', osb_Bid = [demo_obid]\<rparr>],
       op_BidID = [], op_Cur = []\<rparr>)\<rparr>"

definition demo_limiter :: RateLimiter where
  "demo_limiter = \<lparr>rl_tokens = 2, rl_max = 2, rl_refill = 1000, rl_lastRefill = 0\<rparr>"

definition demo_dsp :: "rat DSPConnection" where
  "demo_dsp = \<lparr>dc_ID = ''d1'', dc_Name = [], dc_Endpoint = ''http://d1'', dc_APIKey = [], dc_Protocol = [],
     dc_QPS = 10, dc_Timeout = 0, dc_BidderCode = [], dc_SeatID = ''seat1'', dc_SupportsADXYZ = False,
     dc_AUSDWallet = [],
     dc_Stats = \<lparr>dt_RequestCount = 0, dt_BidsReceived = 0, dt_NoBids = 0, dt_WinsNotified = 0,
       dt_RequestErrors = 0, dt_TotalSpend = 0, dt_AvgLatency = 0\<rparr>,
     dc_RateLimiter = Some demo_limiter\<rparr>"

definition demo_exchange :: "rat RTBExchange" where
  "demo_exchange = \<lparr>rx_DSPs = [''d1'' \<mapsto> demo_dsp], rx_AuctionTimeout = 100, rx_FloorPrice = 1 / 4,
     rx_ImpressionCount = 0, rx_BidCount = 0, rx_WinCount = 0, rx_Revenue = 0,
     rx_CTVOptimizer = None, rx_PodAssembler = None, rx_MinerRegistry = None\<rparr>"

lemma demo_query:
  "\<exists>b d'. dsp_query demo_transport True 0 (zero_request ''q'') demo_dsp = Some (Some b, zero_request ''q'', d') \<and>
    bd_Price b = 1 / 2 \<and> bd_DSPID b = ''d1'' \<and> bd_Categories b = [] \<and> bd_AdvertiserDom b = []"
  by (simp add: dsp_query_def SendBidRequest_def demo_dsp_def demo_limiter_def Allow_def time_sub_def
      demo_transport_def marshal_ok_def zero_request_def StatusOK_def StatusNoContent_def Let_def wrap64_def
      signed_divide_int_def zero_bid_def demo_obid_def zero_obid_def)

lemma demo_dsps: "rx_DSPs demo_exchange = [''d1'' \<mapsto> demo_dsp]"
  "\<forall>i d. rx_DSPs demo_exchange i = Some d \<longrightarrow> dc_ID d = i"
  by (auto simp: demo_exchange_def demo_dsp_def)

lemma demo_collected:
  "\<exists>s b resp rtb'. cb_reach demo_transport True (zero_request ''q'') demo_exchange s \<and> cb_bids s = [b] \<and>
    bd_Price b = 1 / 2 \<and> RTB_BidRequest (\<lambda>x. x) floor s demo_exchange = (Inr resp, rtb') \<and> op_SeatBid resp \<noteq> []"
proof -
  obtain b d' where q: "dsp_query demo_transport True 0 (zero_request ''q'') demo_dsp = Some (Some b, zero_request ''q'', d')"
    and b: "bd_Price b = 1 / 2" "bd_Categories b = []" "bd_AdvertiserDom b = []" using demo_query by blast
  from one_dsp_runs(1) [OF demo_dsps(1) q] obtain s where
    s: "cb_reach demo_transport True (zero_request ''q'') demo_exchange s" "cb_bids s = [b]" "cb_req s = zero_request ''q''"
    by blast
  obtain resp rtb' where r: "RTB_BidRequest (\<lambda>x. x) floor s demo_exchange = (Inr resp, rtb')"
    by (simp add: RTB_BidRequest_eq Let_def)
  have "op_SeatBid resp \<noteq> []"
    using r by (auto simp: RTB_BidRequest_eq buildResponse_def rtb_runAuction_def s(2,3) b checkBrandSafety_def
        zero_request_def demo_exchange_def)
  with s b r show ?thesis by blast
qed

definition demo_ctv :: "rat CTVBidRequest" where
  "demo_ctv = \<lparr>cq_ID = ''q'', cq_Device = \<lparr>cd_Device = \<lparr>od_DeviceType = 3, od_Geo = None\<rparr>, cd_Platform = ''roku'',
       cd_HWVersion = [], cd_OSVersion = [], cd_AppVersion = [], cd_ScreenSize = []\<rparr>,
     cq_Content = \<lparr>cc_Content = VNil, cc_StreamType = [], cc_DRM = [], cc_Rating = [], cc_Genre = [],
       cc_Duration = 0, cc_Position = 0\<rparr>,
     cq_AdPods = [], cq_User = VNil, cq_Regs = VNil, cq_Test = 0\<rparr>"

subsection \<open>Properties\<close>

text \<open>C25: The rate limiter keeps its rate: whatever the times it is asked at, it lets through at
  most the tokens it holds and one more for every full refill interval since its last refill,
  and it never holds more than its maximum. A token sum that wraps around only refuses more.\<close>

theorem rate_limit_bound:
  assumes "0 < rl_refill rl" and "0 \<le> rl_tokens rl" and "rl_tokens rl \<le> rl_max rl"
    and "sorted (rl_lastRefill rl # ts)" and "grants ts rl = (n, rl')"
  shows "n \<le> rl_tokens rl + (last (rl_lastRefill rl # ts) - rl_lastRefill rl) div rl_refill rl \<and>
    rl_tokens rl' \<le> rl_max rl'"
proof -
  have "limiter_ok rl" using assms(1-3) by (simp add: limiter_ok_def)
  note b = grants_bound [OF this assms(4,5)]
  have "(rl_lastRefill rl' - rl_lastRefill rl) div rl_refill rl \<le>
      (last (rl_lastRefill rl # ts) - rl_lastRefill rl) div rl_refill rl"
    using b assms(1) by (intro zdiv_mono1) auto
  with b assms(2) show ?thesis by (auto simp: limiter_ok_def)
qed

theorem rate_limit_bound_witness:
  "\<exists>n rl'. grants [0, 10, 20, 2500] demo_limiter = (n, rl') \<and> n \<le> 4"
proof -
  obtain n rl' where g: "grants [0, 10, 20, 2500] demo_limiter = (n, rl')" by fastforce
  from rate_limit_bound [OF _ _ _ _ g] show ?thesis using g by (simp add: demo_limiter_def)
qed

text \<open>C19: Every collected bid comes from a DSP of its own: in every reachable state of the
  collection the collected and the waiting bids carry different DSP identifiers, all of DSPs that
  have answered, so a send never blocks on the channel, which has room for one bid per DSP.\<close>

theorem collected_bids_one_per_dsp:
  assumes "cb_reach N ctx req rtb s" and "\<forall>i d. rx_DSPs rtb i = Some d \<longrightarrow> dc_ID d = i"
    and "finite (dom (rx_DSPs rtb))"
  shows "distinct (map bd_DSPID (cb_bids s @ cb_chan s)) \<and>
    bd_DSPID ` set (cb_bids s @ cb_chan s) \<subseteq> dom (rx_DSPs rtb) - cb_pending s \<and>
    length (cb_bids s @ cb_chan s) + card (cb_pending s) \<le> card (dom (rx_DSPs rtb))"
proof -
  have inv: "cb_inv rtb s" by (rule cb_reach_inv [OF assms(1,2)])
  let ?l = "map bd_DSPID (cb_bids s @ cb_chan s)"
  have "length ?l = card (set ?l)" using inv unfolding cb_inv_def by (metis distinct_card)
  also have "\<dots> \<le> card (dom (rx_DSPs rtb) - cb_pending s)"
    using inv assms(3) by (intro card_mono) (auto simp: cb_inv_def)
  also have "\<dots> = card (dom (rx_DSPs rtb)) - card (cb_pending s)"
    using inv assms(3) by (intro card_Diff_subset) (auto simp: cb_inv_def intro: finite_subset)
  finally have "length ?l \<le> card (dom (rx_DSPs rtb)) - card (cb_pending s)" .
  moreover have "card (cb_pending s) \<le> card (dom (rx_DSPs rtb))"
    using inv assms(3) by (intro card_mono) (auto simp: cb_inv_def)
  ultimately show ?thesis using inv by (simp add: cb_inv_def)
qed

theorem collected_bids_one_per_dsp_witness:
  "\<exists>s b. cb_reach demo_transport True (zero_request ''q'') demo_exchange s \<and> cb_bids s = [b] \<and>
    bd_DSPID b = ''d1'' \<and> length (cb_chan s) = 0"
proof -
  obtain b d' where q: "dsp_query demo_transport True 0 (zero_request ''q'') demo_dsp = Some (Some b, zero_request ''q'', d')"
    and id: "bd_DSPID b = ''d1''" using demo_query by blast
  from one_dsp_runs(1) [OF demo_dsps(1) q] obtain s where
    s: "cb_reach demo_transport True (zero_request ''q'') demo_exchange s" "cb_bids s = [b]" by blast
  have "finite (dom (rx_DSPs demo_exchange))" by (simp add: demo_dsps(1))
  from collected_bids_one_per_dsp [OF s(1) demo_dsps(2) this] s id show ?thesis
    by (intro exI [of _ s] exI [of _ b]) (simp add: demo_dsps(1))
qed

text \<open>An answer that is in the channel can be lost: when the only DSP has answered in time with
  a bid, the collection may return with the bid or, because a ready \<open>select\<close> chooses freely
  between the bid and the end of the goroutines, without it, and then the response names no
  winner.\<close>

theorem answered_bid_can_be_lost:
  assumes "rx_DSPs rtb = [i \<mapsto> d]" and "dsp_query N True now req d = Some (Some b, req', d')"
  shows "(\<exists>s. cb_reach N True req rtb s \<and> cb_returned s \<and> cb_pending s = {} \<and> cb_bids s = [b]) \<and>
    (\<exists>s resp rtb'. cb_reach N True req rtb s \<and> cb_returned s \<and> cb_pending s = {} \<and>
      RTB_BidRequest fl bi s rtb = (Inr resp, rtb') \<and> op_SeatBid resp = [])"
proof -
  from one_dsp_runs(2) [OF assms] obtain s where s: "cb_reach N True req rtb s" "cb_returned s"
    "cb_pending s = {}" "cb_bids s = []" by blast
  have "\<exists>resp rtb'. RTB_BidRequest fl bi s rtb = (Inr resp, rtb') \<and> op_SeatBid resp = []"
    by (simp add: RTB_BidRequest_eq s(4) rtb_runAuction_def buildResponse_def)
  with one_dsp_runs(1) [OF assms] s show ?thesis by blast
qed

theorem answered_bid_can_be_lost_witness:
  "\<exists>s resp rtb'. cb_reach demo_transport True (zero_request ''q'') demo_exchange s \<and> cb_pending s = {} \<and>
    RTB_BidRequest (\<lambda>x. x) floor s demo_exchange = (Inr resp, rtb') \<and> op_SeatBid resp = []"
proof -
  obtain b d' where q: "dsp_query demo_transport True 0 (zero_request ''q'') demo_dsp = Some (Some b, zero_request ''q'', d')"
    using demo_query by blast
  from answered_bid_can_be_lost [OF demo_dsps(1) q, of "\<lambda>x. x" floor] show ?thesis by blast
qed

text \<open>C8: The exchange runs a first-price auction over the collected bids: the response names the
  earliest bid of the highest price among those at or above the floor and not blocked by the
  request, at its own price; it names none only if no such bid has a positive price. Impressions
  count every request, bids the answered ones, and the revenue grows by the integer part of the
  price.\<close>

theorem exchange_response:
  assumes "RTB_BidRequest fl bi s rtb = (Inr resp, rtb')"
  shows "rx_ImpressionCount rtb' = rx_ImpressionCount rtb + 1 \<and>
    (case op_SeatBid resp of
       [] \<Rightarrow> rx_BidCount rtb' = rx_BidCount rtb \<and> rx_Revenue rtb' = rx_Revenue rtb \<and>
         (\<forall>b\<in>set (cb_bids s). eligible (fl (rx_FloorPrice rtb)) (cb_req s) b \<longrightarrow> bd_Price b \<le> 0)
     | seat # _ \<Rightarrow> rx_BidCount rtb' = rx_BidCount rtb + 1 \<and>
         (\<exists>i. first_best (fl (rx_FloorPrice rtb)) (cb_req s) (cb_bids s) i \<and>
            map ob_ID (osb_Bid seat) = [bd_ID (cb_bids s ! i)] \<and>
            map ob_Price (osb_Bid seat) = [bd_Price (cb_bids s ! i)] \<and>
            osb_Seat seat = bd_SeatID (cb_bids s ! i) \<and>
            rx_Revenue rtb' = rx_Revenue rtb + bi (bd_Price (cb_bids s ! i))))"
proof (cases "rtb_runAuction fl (cb_bids s) (cb_req s) rtb")
  case None
  with rtb_runAuction_spec [where fl = fl and bids = "cb_bids s" and req = "cb_req s" and rtb = rtb] assms show ?thesis
    by (auto simp: RTB_BidRequest_eq buildResponse_def)
next
  case (Some w)
  with rtb_runAuction_spec [where fl = fl and bids = "cb_bids s" and req = "cb_req s" and rtb = rtb]
  obtain i where "first_best (fl (rx_FloorPrice rtb)) (cb_req s) (cb_bids s) i" "w = cb_bids s ! i" by auto
  with Some assms show ?thesis by (auto simp: RTB_BidRequest_eq buildResponse_def)
qed

theorem exchange_response_witness:
  "\<exists>s resp rtb'. cb_reach demo_transport True (zero_request ''q'') demo_exchange s \<and>
    RTB_BidRequest (\<lambda>x. x) floor s demo_exchange = (Inr resp, rtb') \<and> rx_BidCount rtb' = 1 \<and>
    map ob_Price (osb_Bid (hd (op_SeatBid resp))) = [1 / 2]"
proof -
  obtain s b resp rtb' where s: "cb_reach demo_transport True (zero_request ''q'') demo_exchange s" "cb_bids s = [b]"
    "bd_Price b = 1 / 2" and r: "RTB_BidRequest (\<lambda>x. x) floor s demo_exchange = (Inr resp, rtb')" "op_SeatBid resp \<noteq> []"
    using demo_collected by blast
  from exchange_response [OF r(1)] r(2)
  have "rx_BidCount rtb' = 1 \<and> map ob_Price (osb_Bid (hd (op_SeatBid resp))) = [1 / 2]"
    by (auto simp: s(2,3) first_best_def demo_exchange_def split: list.splits)
  with s(1) r(1) show ?thesis by (intro exI [of _ s] exI [of _ resp] exI [of _ rtb']) (rule conjI, assumption, rule conjI)
qed

text \<open>Bids below one dollar earn nothing: with the documented truncation of \<open>BigInt\<close>, a
  request whose winner costs less than 1 counts as a bid and leaves the revenue as it was.\<close>

theorem cheap_bids_earn_nothing:
  assumes "\<And>x. 0 \<le> x \<Longrightarrow> x < 1 \<Longrightarrow> bi x = 0"
    and "RTB_BidRequest fl bi s rtb = (Inr resp, rtb')" and "op_SeatBid resp \<noteq> []"
    and "\<forall>b\<in>set (cb_bids s). bd_Price b < 1"
  shows "rx_BidCount rtb' = rx_BidCount rtb + 1 \<and> rx_Revenue rtb' = rx_Revenue rtb"
proof (cases "rtb_runAuction fl (cb_bids s) (cb_req s) rtb")
  case None
  with assms(2,3) show ?thesis by (auto simp: RTB_BidRequest_eq buildResponse_def)
next
  case (Some w)
  with rtb_runAuction_spec [where fl = fl and bids = "cb_bids s" and req = "cb_req s" and rtb = rtb]
  obtain i where "first_best (fl (rx_FloorPrice rtb)) (cb_req s) (cb_bids s) i" "w = cb_bids s ! i" by auto
  then have "0 < bd_Price w" "bd_Price w < 1" using assms(4) by (simp_all add: first_best_def)
  with Some assms(1,2) show ?thesis by (auto simp: RTB_BidRequest_eq)
qed

theorem cheap_bids_earn_nothing_witness:
  "\<exists>s resp rtb'. cb_reach demo_transport True (zero_request ''q'') demo_exchange s \<and>
    RTB_BidRequest (\<lambda>x. x) floor s demo_exchange = (Inr resp, rtb') \<and> rx_BidCount rtb' = 1 \<and> rx_Revenue rtb' = 0"
proof -
  obtain s b resp rtb' where s: "cb_reach demo_transport True (zero_request ''q'') demo_exchange s" "cb_bids s = [b]"
    "bd_Price b = 1 / 2" and r: "RTB_BidRequest (\<lambda>x. x) floor s demo_exchange = (Inr resp, rtb')" "op_SeatBid resp \<noteq> []"
    using demo_collected by blast
  from cheap_bids_earn_nothing [OF _ r] s have "rx_BidCount rtb' = 1 \<and> rx_Revenue rtb' = 0"
    by (auto simp: demo_exchange_def floor_eq_iff)
  with s(1) r show ?thesis by blast
qed

text \<open>A connected-TV request books a winner it does not return: whatever the auction over the
  collected bids decides, the response has no ad pods, while impressions, bids and revenue are
  those of the plain request; and the request sent out carries none of the caller's pods, user
  or regulations, and blocks nothing.\<close>

theorem ctv_response_has_no_ads:
  assumes "HandleCTVRequest fl bi s req rtb = (Inr resp, rtb')"
  shows "cs_AdPods resp = [] \<and> snd (RTB_BidRequest fl bi s rtb) = rtb' \<and>
    oq_ID (ctv_request req) = cq_ID req \<and> (\<forall>b. checkBrandSafety b (ctv_request req)) \<and>
    oq_User (ctv_request req) = None \<and> oq_Regs (ctv_request req) = None"
  using assms
  by (auto simp: HandleCTVRequest_def RTB_BidRequest_eq Let_def convertOpenRTBToCTV_def OptimizeResponse_def
      ctv_request_def convertCTVToOpenRTB_def zero_request_def checkBrandSafety_def split: option.splits)

theorem ctv_response_has_no_ads_witness:
  "\<exists>resp rtb'. HandleCTVRequest (\<lambda>x. x) floor (cb_init (ctv_request demo_ctv) demo_exchange) demo_ctv demo_exchange =
    (Inr resp, rtb') \<and> cs_AdPods resp = []"
proof -
  obtain resp rtb' where "HandleCTVRequest (\<lambda>x. x) floor (cb_init (ctv_request demo_ctv) demo_exchange) demo_ctv demo_exchange
    = (Inr resp, rtb')" by (simp add: HandleCTVRequest_def RTB_BidRequest_eq Let_def)
  from this ctv_response_has_no_ads [OF this] show ?thesis by blast
qed

end
