(* ===== verification/DspClient.thy ===== *)
theory DspClient
  imports Rtb "HOL-Library.Sublist"
begin

text \<open>
  \<^verbatim>\<open>pkg/rtb/dsp_client.go\<close>: the clients for the protocols DSPs speak. Every client holds the
  connection; the HTTP client is the transport. A Go value in an outgoing map is a \<open>field\<close>,
  a decoded one a \<open>val\<close>; a failed type assertion and an assignment to a nil map are
  \<open>RtbPanic\<close>. \<open>fmt2\<close> is the format \<open>%.2f\<close>. Results of marshalling a map of plain
  values are never errors.
\<close>

subsection \<open>Clients\<close>

datatype 'd DSPClient =
    StandardDSPClient "'d DSPConnection"
  | PrebidDSPClient "'d DSPConnection"
  | AmazonUAPClient "'d DSPConnection"
  | GoogleADXClient "'d DSPConnection"
  | TradeDeskClient "'d DSPConnection"

definition ProtocolOpenRTB :: string where "ProtocolOpenRTB = ''openrtb''"
definition ProtocolPrebid :: string where "ProtocolPrebid = ''prebid''"
definition ProtocolAmazonUAP :: string where "ProtocolAmazonUAP = ''amazon_uap''"
definition ProtocolGoogleADX :: string where "ProtocolGoogleADX = ''google_adx''"
definition ProtocolTradeDesk :: string where "ProtocolTradeDesk = ''thetradedesk''"

definition CreateClient :: "'d DSPConnection \<Rightarrow> 'd DSPClient" where
  "CreateClient conn =
     (if dc_Protocol conn = ''prebid'' then PrebidDSPClient conn
      else if dc_Protocol conn = ''amazon_uap'' then AmazonUAPClient conn
      else if dc_Protocol conn = ''google_adx'' then GoogleADXClient conn
      else if dc_Protocol conn = ''thetradedesk'' then TradeDeskClient conn
      else StandardDSPClient conn)"

text \<open>\<open>bytes.ReplaceAll\<close>; the code only replaces macros that are not empty.\<close>

function replaceMacro :: "string \<Rightarrow> string \<Rightarrow> string \<Rightarrow> string" where
  "replaceMacro [] macro value = []"
| "replaceMacro (c # cs) macro value =
     (if macro \<noteq> [] \<and> take (length macro) (c # cs) = macro
      then value @ replaceMacro (drop (length macro) (c # cs)) macro value
      else c # replaceMacro cs macro value)"
  by pat_completeness auto
termination
  by (relation "measure (\<lambda>(url, _, _). length url)") (auto simp: neq_Nil_conv less_Suc_eq_le)

subsection \<open>The standard client\<close>

definition std_extension :: "string \<Rightarrow> 'd::linordered_field val" where
  "std_extension wallet = VMap [''adxyz'' \<mapsto> VMap
     [''settlement'' \<mapsto> VStr ''ausd'', ''escrow_enabled'' \<mapsto> VBool True, ''ttl_ms'' \<mapsto> VNum 2000,
      ''delivery_proof'' \<mapsto> VStr ''required'', ''wallet'' \<mapsto> VStr wallet,
      ''min_quality_score'' \<mapsto> VNum (85 / 100)]]"

definition adxyz_escrow :: "'d raw \<Rightarrow> string" where
  "adxyz_escrow ext =
     (case unmarshal_map ext of
        (True, Some m) \<Rightarrow>
          (case m ''adxyz'' of
             Some (VMap adxyz) \<Rightarrow> (case adxyz ''escrow_id'' of Some (VStr e) \<Rightarrow> e | _ \<Rightarrow> [])
           | _ \<Rightarrow> [])
      | _ \<Rightarrow> [])"

definition convertToBid :: "time \<Rightarrow> 'd::linordered_field DSPConnection \<Rightarrow> 'd OBid \<Rightarrow> 'd Bid" where
  "convertToBid now conn ortb = zero_bid
     \<lparr>bd_ID := ob_ID ortb, bd_ImpID := ob_ImpID ortb, bd_Price := ob_Price ortb, bd_AdID := ob_AdID ortb,
      bd_CrID := ob_CrID ortb, bd_DealID := ob_DealID ortb, bd_DSPID := dc_ID conn,
      bd_SeatID := dc_SeatID conn, bd_Timestamp := now, bd_CreativeURL := ob_NURL ortb,
      bd_WinURL := ob_NURL ortb, bd_LossURL := ob_LURL ortb, bd_Width := Some (ob_W ortb),
      bd_Height := Some (ob_H ortb), bd_Categories := ob_Cat ortb, bd_AdvertiserDom := ob_ADomain ortb,
      bd_ADXYZEnabled := adxyz_confirmed (ob_Ext ortb), bd_EscrowID := adxyz_escrow (ob_Ext ortb),
      bd_VAST := ob_AdM ortb\<rparr>"

definition Std_SendBidRequest ::
  "'d::linordered_field transport \<Rightarrow> bool \<Rightarrow> time \<Rightarrow> 'd OBidRequest \<Rightarrow> 'd DSPConnection \<Rightarrow>
   (rtb_error + 'd Bid option) \<times> 'd OBidRequest \<times> 'd DSPConnection" where
  "Std_SendBidRequest N ctx now req conn =
     (let stats = dc_Stats conn;
          req1 = (if dc_SupportsADXYZ conn
                  then req\<lparr>oq_Ext := RawVal (std_extension (dc_AUSDWallet conn))\<rparr> else req);
          failed = conn\<lparr>dc_Stats := stats\<lparr>dt_RequestErrors := dt_RequestErrors stats + 1\<rparr>\<rparr>;
          no_bid = conn\<lparr>dc_Stats := stats\<lparr>dt_NoBids := dt_NoBids stats + 1\<rparr>\<rparr>
      in if \<not> marshal_ok req1 then (Inl ErrMarshal, req1, conn)
         else if \<not> ctx \<or> \<not> url_ok N (dc_Endpoint conn) then (Inl ErrCreateRequest, req1, conn)
         else
           let headers = [(''Content-Type'', ''application/json''), (''x-openrtb-version'', ''2.5'')] @
                 (if dc_APIKey conn \<noteq> [] then [(''Authorization'', ''Bearer '' @ dc_APIKey conn)] else [])
           in (case http_do N \<lparr>hq_Method = ''POST'', hq_URL = dc_Endpoint conn, hq_Headers = headers,
                               hq_Body = OrtbBody req1\<rparr> of
                 Inl err \<Rightarrow> (Inl (ErrHTTP err), req1, failed)
               | Inr (status, body) \<Rightarrow>
                   if status = StatusNoContent then (Inr None, req1, no_bid)
                   else if status \<noteq> StatusOK then (Inl (ErrStatus status), req1, failed)
                   else (case decode_response N body of
                           None \<Rightarrow> (Inl ErrDecode, req1, conn)
                         | Some bidResp \<Rightarrow>
                             if length (op_SeatBid bidResp) = 0 \<or> length (osb_Bid (op_SeatBid bidResp ! 0)) = 0
                             then (Inr None, req1, no_bid)
                             else (Inr (Some (convertToBid now conn (osb_Bid (op_SeatBid bidResp ! 0) ! 0))),
                                   req1, conn))))"

definition win_url :: "('d \<Rightarrow> string) \<Rightarrow> 'd Bid \<Rightarrow> 'd \<Rightarrow> string" where
  "win_url fmt2 bid clearingPrice =
     replaceMacro (replaceMacro (bd_WinURL bid) ''${AUCTION_PRICE}'' (fmt2 clearingPrice))
       ''${AUCTION_ID}'' (bd_ID bid)"

definition http_get :: "'d transport \<Rightarrow> bool \<Rightarrow> string \<Rightarrow> rtb_error + unit" where
  "http_get N ctx url =
     (if \<not> ctx \<or> \<not> url_ok N url then Inl ErrCreateRequest
      else (case http_do N \<lparr>hq_Method = ''GET'', hq_URL = url, hq_Headers = [], hq_Body = NoBody\<rparr> of
              Inl err \<Rightarrow> Inl (ErrHTTP err)
            | Inr _ \<Rightarrow> Inr ()))"

definition Std_NotifyWin ::
  "('d \<Rightarrow> string) \<Rightarrow> 'd transport \<Rightarrow> bool \<Rightarrow> 'd Bid \<Rightarrow> 'd \<Rightarrow> 'd DSPConnection \<Rightarrow>
   (rtb_error + unit) \<times> 'd DSPConnection" where
  "Std_NotifyWin fmt2 N ctx bid clearingPrice conn =
     (if bd_WinURL bid = [] then (Inr (), conn)
      else (case http_get N ctx (win_url fmt2 bid clearingPrice) of
              Inl err \<Rightarrow> (Inl err, conn)
            | Inr _ \<Rightarrow> (Inr (), conn\<lparr>dc_Stats := (dc_Stats conn)
                \<lparr>dt_WinsNotified := dt_WinsNotified (dc_Stats conn) + 1\<rparr>\<rparr>)))"

definition Std_NotifyLoss :: "'d transport \<Rightarrow> bool \<Rightarrow> 'd Bid \<Rightarrow> int \<Rightarrow> rtb_error + unit" where
  "Std_NotifyLoss N ctx bid reason =
     (if bd_LossURL bid = [] then Inr ()
      else http_get N ctx (replaceMacro (bd_LossURL bid) ''${LOSS_REASON}'' (show_int reason)))"

subsection \<open>Prebid and The Trade Desk\<close>

text \<open>Both fill in an empty extension, read it into a map, add their own entries and use the
  standard client; \<open>None\<close> is the assignment to a nil map.\<close>

definition extended ::
  "(string \<Rightarrow> 'd val option) \<Rightarrow> (string \<Rightarrow> 'd val option) \<Rightarrow> 'd DSPConnection \<Rightarrow> 'd OBidRequest \<Rightarrow> 'd OBidRequest option" where
  "extended own adxyz conn req =
     (let raw = (if oq_Ext req = RawNil then RawVal (VMap Map.empty) else oq_Ext req)
      in (case snd (unmarshal_map raw) of
            None \<Rightarrow> None
          | Some ext \<Rightarrow>
              Some (req\<lparr>oq_Ext := RawVal (VMap
                (if dc_SupportsADXYZ conn then (ext ++ own) ++ adxyz else ext ++ own))\<rparr>)))"

definition prebid_entry :: "string \<Rightarrow> string \<Rightarrow> 'd val option" where
  "prebid_entry bidderCode = [''prebid'' \<mapsto> VMap
     [''bidder'' \<mapsto> VStr bidderCode, ''is_debug'' \<mapsto> VBool False,
      ''aliases'' \<mapsto> VMap [''adxyz'' \<mapsto> VStr ''adxyz-prebid-adapter'']]]"

definition Prebid_SendBidRequest ::
  "'d::linordered_field transport \<Rightarrow> bool \<Rightarrow> time \<Rightarrow> 'd OBidRequest \<Rightarrow> 'd DSPConnection \<Rightarrow>
   (rtb_error + 'd Bid option) \<times> 'd OBidRequest \<times> 'd DSPConnection" where
  "Prebid_SendBidRequest N ctx now req conn =
     (case extended (prebid_entry (dc_BidderCode conn))
             [''adxyz'' \<mapsto> VMap [''settlement'' \<mapsto> VStr ''ausd'', ''escrow'' \<mapsto> VBool True]] conn req of
        None \<Rightarrow> (Inl RtbPanic, req, conn)
      | Some req1 \<Rightarrow> Std_SendBidRequest N ctx now req1 conn)"

definition ttd_entry :: "string \<Rightarrow> string \<Rightarrow> 'd val option" where
  "ttd_entry bidderCode = [''ttd'' \<mapsto> VMap [''partner_id'' \<mapsto> VStr bidderCode, ''site_id'' \<mapsto> VStr ''adxyz'']]"

definition TTD_SendBidRequest ::
  "'d::linordered_field transport \<Rightarrow> bool \<Rightarrow> time \<Rightarrow> 'd OBidRequest \<Rightarrow> 'd DSPConnection \<Rightarrow>
   (rtb_error + 'd Bid option) \<times> 'd OBidRequest \<times> 'd DSPConnection" where
  "TTD_SendBidRequest N ctx now req conn =
     (case extended (ttd_entry (dc_BidderCode conn))
             [''adxyz'' \<mapsto> VMap [''enabled'' \<mapsto> VBool True, ''settlement'' \<mapsto> VStr ''ausd'',
                             ''escrow'' \<mapsto> VBool True, ''quality_req'' \<mapsto> VNum (9 / 10)]] conn req of
        None \<Rightarrow> (Inl RtbPanic, req, conn)
      | Some req1 \<Rightarrow> Std_SendBidRequest N ctx now req1 conn)"

text \<open>A POST whose answer is dropped, with the API key in a header of its own name.\<close>

definition http_post :: "'d transport \<Rightarrow> bool \<Rightarrow> string \<Rightarrow> string \<Rightarrow> (string \<rightharpoonup> 'd field) \<Rightarrow> rtb_error + unit" where
  "http_post N ctx url key parts =
     (if \<not> ctx \<or> \<not> url_ok N url then Inl ErrCreateRequest
      else (case http_do N \<lparr>hq_Method = ''POST'', hq_URL = url,
                   hq_Headers = (''Content-Type'', ''application/json'') #
                     (if key \<noteq> [] then [(''X-TTD-ApiKey'', key)] else []),
                   hq_Body = MapBody parts\<rparr> of
              Inl err \<Rightarrow> Inl (ErrHTTP err)
            | Inr _ \<Rightarrow> Inr ()))"

definition TTD_NotifyWin ::
  "'d transport \<Rightarrow> bool \<Rightarrow> time \<Rightarrow> 'd Bid \<Rightarrow> 'd \<Rightarrow> 'd DSPConnection \<Rightarrow> rtb_error + unit" where
  "TTD_NotifyWin N ctx now bid clearingPrice conn =
     http_post N ctx (dc_Endpoint conn @ ''/win'') (dc_APIKey conn)
       [''bid_id'' \<mapsto> FVal (VStr (bd_ID bid)), ''clearing_price'' \<mapsto> FVal (VNum clearingPrice),
        ''timestamp'' \<mapsto> FInt (unix now), ''partner_id'' \<mapsto> FVal (VStr (dc_BidderCode conn))]"

definition TTD_NotifyLoss ::
  "'d transport \<Rightarrow> bool \<Rightarrow> time \<Rightarrow> 'd Bid \<Rightarrow> int \<Rightarrow> 'd DSPConnection \<Rightarrow> rtb_error + unit" where
  "TTD_NotifyLoss N ctx now bid reason conn =
     http_post N ctx (dc_Endpoint conn @ ''/loss'') (dc_APIKey conn)
       [''bid_id'' \<mapsto> FVal (VStr (bd_ID bid)), ''loss_reason'' \<mapsto> FInt reason,
        ''timestamp'' \<mapsto> FInt (unix now)]"

subsection \<open>Amazon and Google\<close>

text \<open>The answer of a client that decodes into a map: refused, or the map, nil for null.\<close>

definition post_map ::
  "'d transport \<Rightarrow> bool \<Rightarrow> string \<Rightarrow> (string \<times> string) list \<Rightarrow> (string \<rightharpoonup> 'd field) \<Rightarrow>
   rtb_error + (string \<Rightarrow> 'd val option)" where
  "post_map N ctx url headers parts =
     (if \<not> ctx \<or> \<not> url_ok N url then Inl ErrCreateRequest
      else (case http_do N \<lparr>hq_Method = ''POST'', hq_URL = url, hq_Headers = headers,
                           hq_Body = MapBody parts\<rparr> of
              Inl err \<Rightarrow> Inl (ErrHTTP err)
            | Inr (status, body) \<Rightarrow>
                if status \<noteq> StatusOK then Inl (ErrStatus status)
                else (case unmarshal_map body of
                        (False, _) \<Rightarrow> Inl ErrDecode
                      | (True, None) \<Rightarrow> Inr Map.empty
                      | (True, Some m) \<Rightarrow> Inr m)))"

text \<open>Type assertions on a decoded value; \<open>None\<close> is the panic.\<close>

fun as_array :: "'d val option \<Rightarrow> 'd val list option" where
  "as_array (Some (VArr vs)) = Some vs" | "as_array _ = None"

fun as_map :: "'d val option \<Rightarrow> (string \<Rightarrow> 'd val option) option" where
  "as_map (Some (VMap m)) = Some m" | "as_map _ = None"

fun as_string :: "'d val option \<Rightarrow> string option" where
  "as_string (Some (VStr s)) = Some s" | "as_string _ = None"

fun as_number :: "'d val option \<Rightarrow> 'd option" where
  "as_number (Some (VNum x)) = Some x" | "as_number _ = None"

definition convertUAPToBid ::
  "time \<Rightarrow> 'd::linordered_field DSPConnection \<Rightarrow> (string \<Rightarrow> 'd val option) \<Rightarrow> rtb_error + 'd Bid option" where
  "convertUAPToBid now conn uapResp =
     (case as_array (uapResp ''seatbid'') of
        None \<Rightarrow> Inl RtbPanic
      | Some seatbid \<Rightarrow>
          if length seatbid = 0 then Inr None
          else (case as_map (Some (seatbid ! 0)) of
            None \<Rightarrow> Inl RtbPanic
          | Some seat \<Rightarrow>
              (case as_array (seat ''bid'') of
                 None \<Rightarrow> Inl RtbPanic
               | Some bids \<Rightarrow>
                   if length bids = 0 then Inr None
                   else (case as_map (Some (bids ! 0)) of
                     None \<Rightarrow> Inl RtbPanic
                   | Some uapBid \<Rightarrow>
                       (case (as_string (uapBid ''id''), as_string (uapBid ''impid''),
                              as_number (uapBid ''price''), as_string (uapBid ''adid'')) of
                          (Some i, Some impid, Some price, Some adid) \<Rightarrow>
                            Inr (Some (zero_bid\<lparr>bd_ID := i, bd_ImpID := impid, bd_Price := price,
                              bd_AdID := adid, bd_DSPID := dc_ID conn, bd_Timestamp := now\<rparr>))
                        | _ \<Rightarrow> Inl RtbPanic)))))"

definition uap_request :: "'d::linordered_field OBidRequest \<Rightarrow> 'd DSPConnection \<Rightarrow> string \<Rightarrow> 'd field option" where
  "uap_request req conn =
     (let aps = [''aps'' \<mapsto> FMap [''sd'' \<mapsto> FVal (VStr ''1234''), ''ac'' \<mapsto> FVal (VStr ''12345'')]];
          ext = (if dc_SupportsADXYZ conn
                 then aps(''adxyz'' \<mapsto> FMap [''enabled'' \<mapsto> FVal (VBool True)]) else aps)
      in [''id'' \<mapsto> FVal (VStr (oq_ID req)), ''imp'' \<mapsto> FImps (oq_Imp req), ''site'' \<mapsto> FSite (oq_Site req),
          ''device'' \<mapsto> FDevice (oq_Device req), ''user'' \<mapsto> FStruct (oq_User req), ''at'' \<mapsto> FInt 2,
          ''tmax'' \<mapsto> FInt (oq_TMax req), ''cur'' \<mapsto> FStrs (Some (oq_Cur req)),
          ''source'' \<mapsto> FMap [''tid'' \<mapsto> FVal (VStr (oq_ID req))], ''regs'' \<mapsto> FStruct (oq_Regs req),
          ''ext'' \<mapsto> FMap ext])"

definition UAP_SendBidRequest ::
  "'d::linordered_field transport \<Rightarrow> bool \<Rightarrow> time \<Rightarrow> 'd OBidRequest \<Rightarrow> 'd DSPConnection \<Rightarrow>
   rtb_error + 'd Bid option" where
  "UAP_SendBidRequest N ctx now req conn =
     (let headers = [(''Content-Type'', ''application/json''), (''x-amzn-request-id'', oq_ID req)] @
            (if dc_APIKey conn \<noteq> [] then [(''x-api-key'', dc_APIKey conn)] else [])
      in (case post_map N ctx (dc_Endpoint conn) headers (uap_request req conn) of
            Inl err \<Rightarrow> Inl err
          | Inr uapResp \<Rightarrow> convertUAPToBid now conn uapResp))"

definition convertToADXImpressions :: "'d OImp list \<Rightarrow> 'd field list" where
  "convertToADXImpressions imps =
     map (\<lambda>imp. FMap [''id'' \<mapsto> FVal (VStr (oi_ID imp)), ''banner'' \<mapsto> FStruct (oi_Banner imp),
       ''video'' \<mapsto> FStruct (oi_Video imp), ''native'' \<mapsto> FStruct (oi_Native imp),
       ''bidfloor'' \<mapsto> FVal (VNum (oi_BidFloor imp)), ''bidfloorcur'' \<mapsto> FVal (VStr (oi_BidFloorCur imp)),
       ''secure'' \<mapsto> (case oi_Secure imp of None \<Rightarrow> FStruct None | Some s \<Rightarrow> FInt s)]) imps"

definition adx_request :: "'d OBidRequest \<Rightarrow> string \<Rightarrow> 'd field option" where
  "adx_request req =
     [''id'' \<mapsto> FVal (VStr (oq_ID req)), ''is_test'' \<mapsto> FInt (oq_Test req),
      ''impression'' \<mapsto> FArr (convertToADXImpressions (oq_Imp req)), ''site'' \<mapsto> FSite (oq_Site req),
      ''device'' \<mapsto> FDevice (oq_Device req), ''user'' \<mapsto> FStruct (oq_User req), ''at'' \<mapsto> FInt 2,
      ''tmax'' \<mapsto> FInt (oq_TMax req), ''cur'' \<mapsto> FStrs (Some (oq_Cur req)),
      ''bcat'' \<mapsto> FStrs (oq_BCat req), ''badv'' \<mapsto> FStrs (oq_BAdv req)]"

definition convertADXToBid ::
  "time \<Rightarrow> 'd::linordered_field DSPConnection \<Rightarrow> (string \<Rightarrow> 'd val option) \<Rightarrow> rtb_error + 'd Bid option" where
  "convertADXToBid now conn adxResp =
     (if (case adxResp ''no_bid'' of Some (VBool b) \<Rightarrow> b | _ \<Rightarrow> False) then Inr None
      else (case as_array (adxResp ''ad_groups'') of
        None \<Rightarrow> Inl RtbPanic
      | Some adGroups \<Rightarrow>
          if length adGroups = 0 then Inr None
          else (case as_map (Some (adGroups ! 0)) of
            None \<Rightarrow> Inl RtbPanic
          | Some adGroup \<Rightarrow>
              (case (as_string (adGroup ''id''), as_number (adGroup ''max_cpm_micros'')) of
                 (Some i, Some micros) \<Rightarrow>
                   Inr (Some (zero_bid\<lparr>bd_ID := i, bd_Price := micros / 1000000, bd_DSPID := dc_ID conn,
                     bd_Timestamp := now\<rparr>))
               | _ \<Rightarrow> Inl RtbPanic))))"

definition ADX_SendBidRequest ::
  "'d::linordered_field transport \<Rightarrow> bool \<Rightarrow> time \<Rightarrow> 'd OBidRequest \<Rightarrow> 'd DSPConnection \<Rightarrow>
   rtb_error + 'd Bid option" where
  "ADX_SendBidRequest N ctx now req conn =
     (let headers = [(''Content-Type'', ''application/json'')] @
            (if dc_APIKey conn \<noteq> [] then [(''Authorization'', ''Bearer '' @ dc_APIKey conn)] else [])
      in (case post_map N ctx (dc_Endpoint conn) headers (adx_request req) of
            Inl err \<Rightarrow> Inl err
          | Inr adxResp \<Rightarrow> convertADXToBid now conn adxResp))"

subsection \<open>The interface of the clients\<close>

definition Client_SendBidRequest ::
  "'d::linordered_field transport \<Rightarrow> bool \<Rightarrow> time \<Rightarrow> 'd OBidRequest \<Rightarrow> 'd DSPClient \<Rightarrow>
   (rtb_error + 'd Bid option) \<times> 'd OBidRequest \<times> 'd DSPClient" where
  "Client_SendBidRequest N ctx now req client =
     (case client of
        StandardDSPClient conn \<Rightarrow>
          (case Std_SendBidRequest N ctx now req conn of (r, req', c) \<Rightarrow> (r, req', StandardDSPClient c))
      | PrebidDSPClient conn \<Rightarrow>
          (case Prebid_SendBidRequest N ctx now req conn of (r, req', c) \<Rightarrow> (r, req', PrebidDSPClient c))
      | AmazonUAPClient conn \<Rightarrow> (UAP_SendBidRequest N ctx now req conn, req, client)
      | GoogleADXClient conn \<Rightarrow> (ADX_SendBidRequest N ctx now req conn, req, client)
      | TradeDeskClient conn \<Rightarrow>
          (case TTD_SendBidRequest N ctx now req conn of (r, req', c) \<Rightarrow> (r, req', TradeDeskClient c)))"

definition Client_NotifyWin ::
  "('d \<Rightarrow> string) \<Rightarrow> 'd transport \<Rightarrow> bool \<Rightarrow> time \<Rightarrow> 'd Bid \<Rightarrow> 'd \<Rightarrow> 'd DSPClient \<Rightarrow>
   (rtb_error + unit) \<times> 'd DSPClient" where
  "Client_NotifyWin fmt2 N ctx now bid clearingPrice client =
     (case client of
        StandardDSPClient conn \<Rightarrow> map_prod id StandardDSPClient (Std_NotifyWin fmt2 N ctx bid clearingPrice conn)
      | PrebidDSPClient conn \<Rightarrow> map_prod id PrebidDSPClient (Std_NotifyWin fmt2 N ctx bid clearingPrice conn)
      | TradeDeskClient conn \<Rightarrow> (TTD_NotifyWin N ctx now bid clearingPrice conn, client)
      | _ \<Rightarrow> (Inr (), client))"

definition Client_NotifyLoss ::
  "'d transport \<Rightarrow> bool \<Rightarrow> time \<Rightarrow> 'd Bid \<Rightarrow> int \<Rightarrow> 'd DSPClient \<Rightarrow> rtb_error + unit" where
  "Client_NotifyLoss N ctx now bid reason client =
     (case client of
        StandardDSPClient conn \<Rightarrow> Std_NotifyLoss N ctx bid reason
      | PrebidDSPClient conn \<Rightarrow> Std_NotifyLoss N ctx bid reason
      | TradeDeskClient conn \<Rightarrow> TTD_NotifyLoss N ctx now bid reason conn
      | _ \<Rightarrow> Inr ())"

subsection \<open>Sources of bids\<close>

text \<open>What the exchange relies on, whichever protocol a DSP speaks: a source answers a request
  with an error, no bid or one bid; the bid carries the identity of the source; and the source
  keeps its identity.\<close>

locale bid_source =
  fixes send :: "'r \<Rightarrow> 'c \<Rightarrow> ('e + 'd Bid option) \<times> 'r \<times> 'c"
    and ident :: "'c \<Rightarrow> string"
  assumes send_ident: "send req c = (r, req', c') \<Longrightarrow> ident c' = ident c"
    and bid_ident: "send req c = (Inr (Some b), req', c') \<Longrightarrow> bd_DSPID b = ident c"

lemma subseq_of_distinct: "subseq xs ys \<Longrightarrow> distinct ys \<Longrightarrow> distinct xs"
  by (metis distinct_nthsI subseq_conv_nths)

text \<open>Asking several sources one after the other, each with the request as the one before
  left it.\<close>

fun ask_all ::
  "('r \<Rightarrow> 'c \<Rightarrow> ('e + 'd Bid option) \<times> 'r \<times> 'c) \<Rightarrow> 'r \<Rightarrow> 'c list \<Rightarrow> 'd Bid list \<times> 'r \<times> 'c list" where
  "ask_all send req [] = ([], req, [])"
| "ask_all send req (c # cs) =
     (case send req c of (r, req1, c') \<Rightarrow>
        (case ask_all send req1 cs of (bids, req2, cs') \<Rightarrow>
          ((case r of Inr (Some b) \<Rightarrow> b # bids | _ \<Rightarrow> bids), req2, c' # cs')))"

context bid_source
begin

lemma ask_all_idents:
  "ask_all send req cs = (bids, req', cs') \<Longrightarrow>
    map ident cs' = map ident cs \<and> subseq (map bd_DSPID bids) (map ident cs)"
proof (induction cs arbitrary: req req' bids cs')
  case (Cons c cs)
  obtain r req1 c' where s: "send req c = (r, req1, c')" by (cases "send req c") auto
  obtain bids2 req2 cs2 where a: "ask_all send req1 cs = (bids2, req2, cs2)"
    by (cases "ask_all send req1 cs") auto
  from Cons.IH [OF a] have IH: "map ident cs2 = map ident cs" "subseq (map bd_DSPID bids2) (map ident cs)"
    by simp_all
  show ?case
  proof (cases "\<exists>b. r = Inr (Some b)")
    case True
    then obtain b where r: "r = Inr (Some b)" by blast
    from bid_ident [of req c b req1 c'] s r have "bd_DSPID b = ident c" by simp
    with IH send_ident [OF s] Cons.prems s a r show ?thesis by auto
  next
    case False
    with Cons.prems s a have "bids = bids2" "cs' = c' # cs2" by (auto split: sum.splits option.splits)
    with IH send_ident [OF s] show ?thesis by auto
  qed
qed simp

lemma ask_all_distinct:
  "ask_all send req cs = (bids, req', cs') \<Longrightarrow> distinct (map ident cs) \<Longrightarrow> distinct (map bd_DSPID bids)"
  using ask_all_idents subseq_of_distinct by fastforce

end

definition client_conn :: "'d DSPClient \<Rightarrow> 'd DSPConnection" where
  "client_conn client =
     (case client of StandardDSPClient c \<Rightarrow> c | PrebidDSPClient c \<Rightarrow> c | AmazonUAPClient c \<Rightarrow> c
      | GoogleADXClient c \<Rightarrow> c | TradeDeskClient c \<Rightarrow> c)"

lemma Std_keeps:
  assumes "Std_SendBidRequest N ctx now req c = (r, req', c')"
  shows "dc_ID c' = dc_ID c \<and> (\<forall>b. r = Inr (Some b) \<longrightarrow> bd_DSPID b = dc_ID c)"
  using assms unfolding Std_SendBidRequest_def Let_def convertToBid_def
  by (auto split: if_splits sum.splits option.splits prod.splits)

lemma extended_client_keeps:
  "Prebid_SendBidRequest N ctx now req c = (r, req', c') \<Longrightarrow>
    dc_ID c' = dc_ID c \<and> (\<forall>b. r = Inr (Some b) \<longrightarrow> bd_DSPID b = dc_ID c)"
  "TTD_SendBidRequest N ctx now req c = (r, req', c') \<Longrightarrow>
    dc_ID c' = dc_ID c \<and> (\<forall>b. r = Inr (Some b) \<longrightarrow> bd_DSPID b = dc_ID c)"
  by (auto simp: Prebid_SendBidRequest_def TTD_SendBidRequest_def dest: Std_keeps split: option.splits)

lemma map_answer_ident:
  "convertUAPToBid now c m = Inr (Some b) \<Longrightarrow> bd_DSPID b = dc_ID c"
  "convertADXToBid now c m = Inr (Some b) \<Longrightarrow> bd_DSPID b = dc_ID c"
  by (auto simp: convertUAPToBid_def convertADXToBid_def split: option.splits if_splits)

lemma map_client_ident:
  "UAP_SendBidRequest N ctx now req c = Inr (Some b) \<Longrightarrow> bd_DSPID b = dc_ID c"
  "ADX_SendBidRequest N ctx now req c = Inr (Some b) \<Longrightarrow> bd_DSPID b = dc_ID c"
  by (auto simp: UAP_SendBidRequest_def ADX_SendBidRequest_def Let_def dest: map_answer_ident split: sum.splits)

interpretation connection: bid_source "SendBidRequest N ctx now" dc_ID for N ctx now
  by unfold_locales (auto dest: SendBidRequest_keeps)

interpretation client: bid_source "Client_SendBidRequest N ctx now" "\<lambda>c. dc_ID (client_conn c)" for N ctx now
proof
  fix req c r req' c'
  assume s: "Client_SendBidRequest N ctx now req c = (r, req', c')"
  then show "dc_ID (client_conn c') = dc_ID (client_conn c)"
    by (cases c) (auto simp: Client_SendBidRequest_def client_conn_def
        dest: Std_keeps extended_client_keeps split: prod.splits)
next
  fix req c b req' c'
  assume "Client_SendBidRequest N ctx now req c = (Inr (Some b), req', c')"
  then show "bd_DSPID b = dc_ID (client_conn c)"
    by (cases c) (auto simp: Client_SendBidRequest_def client_conn_def
        dest: Std_keeps extended_client_keeps map_client_ident split: prod.splits)
qed

subsection \<open>Macros\<close>

lemma replaceMacro_skip: "c \<noteq> m0 \<Longrightarrow> replaceMacro (c # cs) (m0 # m) v = c # replaceMacro cs (m0 # m) v"
  by simp

lemma replaceMacro_literal:
  "m0 \<notin> set x \<Longrightarrow> replaceMacro (x @ s) (m0 # m) v = x @ replaceMacro s (m0 # m) v"
  by (induction x) auto

lemma replaceMacro_hit: "replaceMacro ((m0 # m) @ s) (m0 # m) v = v @ replaceMacro s (m0 # m) v"
  by simp

text \<open>Another macro is passed over when it differs from the one looked for.\<close>

lemma replaceMacro_other:
  assumes "m0 \<notin> set k" and "take (length m) (k @ s) \<noteq> m"
  shows "replaceMacro ((m0 # k) @ s) (m0 # m) v = (m0 # k) @ replaceMacro s (m0 # m) v"
  using assms replaceMacro_literal [of m0 k s m v] by simp

text \<open>A template is a list of literal parts and macros.\<close>

datatype url_part = Lit string | PriceMacro | IdMacro

fun render :: "url_part \<Rightarrow> string" where
  "render (Lit s) = s"
| "render PriceMacro = ''${AUCTION_PRICE}''"
| "render IdMacro = ''${AUCTION_ID}''"

fun filled :: "string \<Rightarrow> string \<Rightarrow> url_part \<Rightarrow> string" where
  "filled price i (Lit s) = s"
| "filled price i PriceMacro = price"
| "filled price i IdMacro = i"

definition no_macro :: "url_part list \<Rightarrow> bool" where
  "no_macro ps \<longleftrightarrow> list_all (\<lambda>p. case p of Lit s \<Rightarrow> CHR ''$'' \<notin> set s | _ \<Rightarrow> True) ps"

lemma replace_price:
  "no_macro ps \<Longrightarrow> replaceMacro (concat (map render ps)) ''${AUCTION_PRICE}'' price =
    concat (map (filled price ''${AUCTION_ID}'') ps)"
proof (induction ps)
  case (Cons p ps)
  then have IH: "replaceMacro (concat (map render ps)) ''${AUCTION_PRICE}'' price =
      concat (map (filled price ''${AUCTION_ID}'') ps)" by (simp add: no_macro_def)
  show ?case
  proof (cases p)
    case (Lit s)
    with Cons.prems have "CHR ''$'' \<notin> set s" by (simp add: no_macro_def)
    with IH Lit show ?thesis by (simp add: replaceMacro_literal)
  next
    case PriceMacro
    with IH replaceMacro_hit [of "CHR ''$''" "''{AUCTION_PRICE}''"] show ?thesis by simp
  next
    case IdMacro
    with IH replaceMacro_other [of "CHR ''$''" "''{AUCTION_ID}''" "''{AUCTION_PRICE}''"] show ?thesis by simp
  qed
qed simp

lemma replace_id:
  assumes "CHR ''$'' \<notin> set price"
  shows "no_macro ps \<Longrightarrow> replaceMacro (concat (map (filled price ''${AUCTION_ID}'') ps)) ''${AUCTION_ID}'' i =
    concat (map (filled price i) ps)"
proof (induction ps)
  case (Cons p ps)
  then have IH: "replaceMacro (concat (map (filled price ''${AUCTION_ID}'') ps)) ''${AUCTION_ID}'' i =
      concat (map (filled price i) ps)" by (simp add: no_macro_def)
  show ?case
  proof (cases p)
    case (Lit s)
    with Cons.prems have "CHR ''$'' \<notin> set s" by (simp add: no_macro_def)
    with IH Lit show ?thesis by (simp add: replaceMacro_literal)
  next
    case PriceMacro
    with IH assms show ?thesis by (simp add: replaceMacro_literal)
  next
    case IdMacro
    with IH replaceMacro_hit [of "CHR ''$''" "''{AUCTION_ID}''"] show ?thesis by simp
  qed
qed simp

subsection \<open>Properties\<close>

text \<open>The win notice goes to the DSP's URL with its macros filled in: when the literal parts
  of the URL and the formatted price have no dollar sign, every price macro is replaced by the
  price and every auction macro by the bid's identifier, whatever that identifier contains, and
  nothing else changes.\<close>

theorem win_notice_url:
  assumes "bd_WinURL bid = concat (map render ps)" and "no_macro ps" and "CHR ''$'' \<notin> set (fmt2 price)"
  shows "win_url fmt2 bid price = concat (map (filled (fmt2 price) (bd_ID bid)) ps)"
  by (simp only: win_url_def assms(1) replace_price [OF assms(2)] replace_id [OF assms(3,2)])

theorem win_notice_url_witness:
  "win_url (\<lambda>_ :: rat. ''1.50'')
     (zero_bid\<lparr>bd_ID := ''${AUCTION_ID}'', bd_WinURL := ''http://w?p=${AUCTION_PRICE}&i=${AUCTION_ID}''\<rparr>) 1 =
   ''http://w?p=1.50&i=${AUCTION_ID}''"
  using win_notice_url [of "zero_bid\<lparr>bd_ID := ''${AUCTION_ID}'', bd_WinURL := ''http://w?p=${AUCTION_PRICE}&i=${AUCTION_ID}''\<rparr>"
      "[Lit ''http://w?p='', PriceMacro, Lit ''&i='', IdMacro]" "\<lambda>_. ''1.50''" 1]
  by (simp add: no_macro_def)

text \<open>The extensions of the protocols are lost on DSPs that settle in AUSD: for such a DSP the
  Prebid client and the Trade Desk client, given a request whose extension is empty or an object,
  send what the standard client sends for the request as it came, so the entry they add never
  reaches the DSP.\<close>

theorem protocol_extension_is_lost:
  assumes "dc_SupportsADXYZ conn" and "oq_Ext req = RawNil \<or> (\<exists>m. oq_Ext req = RawVal (VMap m))"
  shows "Prebid_SendBidRequest N ctx now req conn = Std_SendBidRequest N ctx now req conn \<and>
    TTD_SendBidRequest N ctx now req conn = Std_SendBidRequest N ctx now req conn"
proof -
  have ext: "Std_SendBidRequest N ctx now (req\<lparr>oq_Ext := e\<rparr>) conn = Std_SendBidRequest N ctx now req conn" for e
    using assms(1) by (simp add: Std_SendBidRequest_def)
  have "\<exists>e. extended own adxyz conn req = Some (req\<lparr>oq_Ext := e\<rparr>)" for own adxyz
    using assms by (auto simp: extended_def)
  then show ?thesis
    unfolding Prebid_SendBidRequest_def TTD_SendBidRequest_def by (metis ext option.case(2))
qed

theorem protocol_extension_is_lost_witness:
  "Prebid_SendBidRequest demo_transport True 0 (zero_request ''q'') (demo_dsp\<lparr>dc_SupportsADXYZ := True\<rparr>) =
   Std_SendBidRequest demo_transport True 0 (zero_request ''q'') (demo_dsp\<lparr>dc_SupportsADXYZ := True\<rparr>)"
  using protocol_extension_is_lost [of "demo_dsp\<lparr>dc_SupportsADXYZ := True\<rparr>" "zero_request ''q''" demo_transport True 0]
  by (simp add: zero_request_def)

text \<open>A request whose extension is JSON but no object ends the process.\<close>

lemma other_extension_panics:
  "oq_Ext req = RawVal v \<Longrightarrow> \<nexists>m. v = VMap m \<Longrightarrow>
    fst (Prebid_SendBidRequest N ctx now req conn) = Inl RtbPanic \<and>
    fst (TTD_SendBidRequest N ctx now req conn) = Inl RtbPanic"
  by (cases v) (simp_all add: Prebid_SendBidRequest_def TTD_SendBidRequest_def extended_def)

text \<open>An Amazon answer without seats, as a DSP may send for no bid, ends the process; so does a
  no-content answer count as an error, which the standard client takes for no bid.\<close>

lemma uap_without_seats_panics: "uapResp ''seatbid'' = None \<Longrightarrow> convertUAPToBid now conn uapResp = Inl RtbPanic"
  by (simp add: convertUAPToBid_def)

lemma uap_no_content_is_error:
  assumes "ctx" "url_ok N (dc_Endpoint conn)" "\<And>rq. http_do N rq = Inr (StatusNoContent, body)"
  shows "UAP_SendBidRequest N ctx now req conn = Inl (ErrStatus StatusNoContent)"
  using assms by (simp add: UAP_SendBidRequest_def post_map_def Let_def StatusNoContent_def StatusOK_def)

end
