(* ===== verification/Analytics.thy ===== *)
theory Analytics
  imports Complex_Main "HOL-Library.Signed_Division" OpenRtb
begin

text \<open>
  \<^verbatim>\<open>pkg/analytics/tracker.go\<close>: counters, latency and fill rates, pod metrics, time buckets,
  publisher and miner statistics, and the in-memory event store behind the
  \<open>StorageBackend\<close> interface.

  Atomic counters are 64-bit words whose arithmetic wraps; decimals and \<open>float64\<close> values are
  elements of an ordered field; \<open>bi\<close> is \<open>BigInt\<close> of the decimal library and \<open>to_u64\<close>
  the conversion of a float to \<open>uint64\<close>. The tracker's maps and counters are a record, the
  event stream a buffered channel that only the integration example reads. A nil pointer that is
  used is \<open>None\<close>.
\<close>

subsection \<open>Data\<close>

type_synonym EventType = string

definition EventRequest :: EventType where "EventRequest = ''request''"
definition EventBid :: EventType where "EventBid = ''bid''"
definition EventWin :: EventType where "EventWin = ''win''"
definition EventImpression :: EventType where "EventImpression = ''impression''"
definition EventClick :: EventType where "EventClick = ''click''"
definition EventComplete :: EventType where "EventComplete = ''complete''"
definition EventPodStart :: EventType where "EventPodStart = ''pod_start''"
definition EventPodEnd :: EventType where "EventPodEnd = ''pod_end''"
definition EventError :: EventType where "EventError = ''error''"
definition EventTimeout :: EventType where "EventTimeout = ''timeout''"
definition EventMinerJoin :: EventType where "EventMinerJoin = ''miner_join''"
definition EventMinerLeave :: EventType where "EventMinerLeave = ''miner_leave''"
definition EventPayout :: EventType where "EventPayout = ''payout''"

record 'd Event =
  ev_Type :: EventType
  ev_Timestamp :: time
  ev_PublisherID :: string
  ev_PlacementID :: string
  ev_ImpressionID :: string
  ev_DSPID :: string
  ev_MinerID :: string
  ev_UserID :: string
  ev_DeviceType :: string
  ev_GeoCountry :: string
  ev_Price :: 'd
  ev_Metadata :: "string \<rightharpoonup> 'd field"

definition zero_event :: "'d::zero Event" where
  "zero_event = \<lparr>ev_Type = [], ev_Timestamp = 0, ev_PublisherID = [], ev_PlacementID = [],
     ev_ImpressionID = [], ev_DSPID = [], ev_MinerID = [], ev_UserID = [], ev_DeviceType = [],
     ev_GeoCountry = [], ev_Price = 0, ev_Metadata = Map.empty\<rparr>"

record QueryFilter =
  qf_StartTime :: time
  qf_EndTime :: time
  qf_EventTypes :: "EventType list"
  qf_PublisherIDs :: "string list"
  qf_DSPIDs :: "string list"
  qf_MinerIDs :: "string list"
  qf_Limit :: int

record TimeRange =
  tr_Start :: time
  tr_End :: time
  tr_Granularity :: duration

record PodMetrics =
  pm_TotalPods :: u64
  pm_AveragePodSize :: u64
  pm_PodFillRate :: u64
  pm_PodCompletionRate :: u64
  pm_AveragePodCPM :: u64
  pm_PrerollCount :: u64
  pm_MidrollCount :: u64
  pm_PostrollCount :: u64

record 'd MetricBucket =
  mb_Timestamp :: time
  mb_Requests :: u64
  mb_Impressions :: u64
  mb_Revenue :: 'd
  mb_FillRate :: 'd
  mb_AvgLatency :: duration
  mb_UniqueUsers :: "string \<rightharpoonup> bool"
  mb_TopDomains :: "string \<rightharpoonup> u64"

record 'd TimeSeriesData =
  ts_Buckets :: "int \<rightharpoonup> 'd MetricBucket"
  ts_BucketSize :: duration

record 'd PlacementStats =
  pl_PlacementID :: string
  pl_Impressions :: u64
  pl_Clicks :: u64
  pl_CTR :: 'd
  pl_Revenue :: 'd

record 'd PublisherStats =
  ps_PublisherID :: string
  ps_Name :: string
  ps_TotalRequests :: u64
  ps_TotalImpressions :: u64
  ps_TotalRevenue :: int
  ps_FillRate :: 'd
  ps_eCPM :: 'd
  ps_TopPlacements :: "string \<rightharpoonup> 'd PlacementStats"

record 'd AnalyticsDSPStats =
  ad_DSPID :: string
  ad_Name :: string
  ad_TotalBids :: u64
  ad_WinningBids :: u64
  ad_WinRate :: 'd
  ad_AverageBid :: 'd
  ad_TotalSpend :: 'd
  ad_ResponseTime :: duration
  ad_TimeoutRate :: 'd
  ad_Categories :: "string \<rightharpoonup> u64"

record 'd MinerStats =
  ms_MinerID :: string
  ms_WalletAddress :: string
  ms_Location :: string
  ms_TotalServed :: u64
  ms_TotalBandwidth :: u64
  ms_Uptime :: duration
  ms_Earnings :: int
  ms_QualityScore :: 'd
  ms_AverageLatency :: duration
  ms_ErrorRate :: 'd

record 'd InMemoryStorage =
  im_events :: "'d Event list"

record 'd AnalyticsTracker =
  at_TotalRequests :: u64
  at_TotalImpressions :: u64
  at_TotalClicks :: u64
  at_TotalCompletions :: u64
  at_TotalRevenue :: u64
  at_AverageLatency :: u64
  at_P95Latency :: u64
  at_P99Latency :: u64
  at_FillRate :: u64
  at_ViewabilityRate :: u64
  at_CompletionRate :: u64
  at_PodMetrics :: PodMetrics
  at_TimeSeries :: "'d TimeSeriesData"
  at_PublisherMetrics :: "string \<rightharpoonup> 'd PublisherStats"
  at_DSPMetrics :: "string \<rightharpoonup> 'd AnalyticsDSPStats"
  at_MinerMetrics :: "string \<rightharpoonup> 'd MinerStats"
  at_EventStream :: "'d Event list"
  at_storage :: "'d InMemoryStorage"

record 'd DailyStats =
  ds_Date :: time
  ds_Impressions :: u64
  ds_Revenue :: 'd
  ds_FillRate :: 'd

record 'd PublisherReport =
  pr_PublisherID :: string
  pr_TimeRange :: TimeRange
  pr_TotalImpressions :: u64
  pr_TotalRevenue :: 'd
  pr_FillRate :: 'd
  pr_eCPM :: 'd
  pr_Events :: "'d Event list"
  pr_TopPlacements :: "'d PlacementStats list"
  pr_DailyBreakdown :: "string \<rightharpoonup> 'd DailyStats"

subsection \<open>The event store\<close>

definition NewInMemoryStorage :: "'d InMemoryStorage" where
  "NewInMemoryStorage = \<lparr>im_events = []\<rparr>"

definition Store :: "'d Event \<Rightarrow> 'd InMemoryStorage \<Rightarrow> 'd InMemoryStorage" where
  "Store event s = s\<lparr>im_events := im_events s @ [event]\<rparr>"

definition matchesFilter :: "'d Event \<Rightarrow> QueryFilter \<Rightarrow> bool" where
  "matchesFilter event f =
     (if \<not> qf_StartTime f < ev_Timestamp event \<or> \<not> ev_Timestamp event < qf_EndTime f then False
      else if 0 < length (qf_EventTypes f)
      then list_ex (\<lambda>t. ev_Type event = t) (qf_EventTypes f)
      else True)"

text \<open>The loop of \<open>Query\<close>, with the results so far.\<close>

fun query_loop :: "QueryFilter \<Rightarrow> 'd Event list \<Rightarrow> 'd Event list \<Rightarrow> 'd Event list" where
  "query_loop f results [] = results"
| "query_loop f results (e # es) =
     (if matchesFilter e f
      then let results' = results @ [e]
           in if qf_Limit f \<le> int (length results') \<and> 0 < qf_Limit f then results'
              else query_loop f results' es
      else query_loop f results es)"

definition Query :: "QueryFilter \<Rightarrow> 'd InMemoryStorage \<Rightarrow> 'd Event list" where
  "Query f s = query_loop f [] (im_events s)"

definition Aggregate ::
  "string \<Rightarrow> string list \<Rightarrow> TimeRange \<Rightarrow> 'd InMemoryStorage \<Rightarrow> string \<times> TimeRange \<times> int" where
  "Aggregate metric groupBy timeRange s = (metric, timeRange, 0)"

subsection \<open>The tracker\<close>

definition NewAnalyticsTracker :: "'d AnalyticsTracker" where
  "NewAnalyticsTracker =
     \<lparr>at_TotalRequests = 0, at_TotalImpressions = 0, at_TotalClicks = 0, at_TotalCompletions = 0,
      at_TotalRevenue = 0, at_AverageLatency = 0, at_P95Latency = 0, at_P99Latency = 0,
      at_FillRate = 0, at_ViewabilityRate = 0, at_CompletionRate = 0,
      at_PodMetrics = \<lparr>pm_TotalPods = 0, pm_AveragePodSize = 0, pm_PodFillRate = 0,
        pm_PodCompletionRate = 0, pm_AveragePodCPM = 0, pm_PrerollCount = 0, pm_MidrollCount = 0,
        pm_PostrollCount = 0\<rparr>,
      at_TimeSeries = \<lparr>ts_Buckets = Map.empty, ts_BucketSize = 60 * second_ns\<rparr>,
      at_PublisherMetrics = Map.empty, at_DSPMetrics = Map.empty, at_MinerMetrics = Map.empty,
      at_EventStream = [], at_storage = NewInMemoryStorage\<rparr>"

definition EventStream_capacity :: nat where "EventStream_capacity = 10000"

text \<open>\<open>None\<close> is the nil publisher of a site or an app.\<close>

definition extractPublisherID :: "'d OBidRequest \<Rightarrow> string option" where
  "extractPublisherID request =
     (case oq_Site request of
        Some site \<Rightarrow> os_Publisher site
      | None \<Rightarrow> (case oq_App request of Some app \<Rightarrow> os_Publisher app | None \<Rightarrow> Some []))"

definition extractPlacementID :: "'d OBidRequest \<Rightarrow> string" where
  "extractPlacementID request = (if 0 < length (oq_Imp request) then oi_ID (oq_Imp request ! 0) else [])"

definition extractDeviceType :: "'d OBidRequest \<Rightarrow> string" where
  "extractDeviceType request =
     (case oq_Device request of
        None \<Rightarrow> ''unknown''
      | Some device \<Rightarrow>
          if od_DeviceType device = 3 then ''ctv''
          else if od_DeviceType device = 4 \<or> od_DeviceType device = 5 then ''mobile''
          else ''desktop'')"

definition extractGeoCountry :: "'d OBidRequest \<Rightarrow> string" where
  "extractGeoCountry request =
     (case oq_Device request of
        None \<Rightarrow> []
      | Some device \<Rightarrow> (case od_Geo device of None \<Rightarrow> [] | Some country \<Rightarrow> country))"

definition hasVideo :: "'d OBidRequest \<Rightarrow> bool" where
  "hasVideo request = list_ex (\<lambda>imp. oi_Video imp \<noteq> None) (oq_Imp request)"

definition isPod :: "'d OBidRequest \<Rightarrow> bool" where
  "isPod request = (1 < length (oq_Imp request) \<and> hasVideo request)"

text \<open>\<open>None\<close> is the division by a bucket size below one second.\<close>

definition updateTimeSeries :: "time \<Rightarrow> 'd::linordered_field AnalyticsTracker \<Rightarrow> 'd AnalyticsTracker option" where
  "updateTimeSeries now a =
     (let series = at_TimeSeries a;
          size = ts_BucketSize series sdiv second_ns
      in if size = 0 then None
         else
           let bucket = unix now sdiv size;
               entry = (case ts_Buckets series bucket of
                  Some b \<Rightarrow> b
                | None \<Rightarrow> \<lparr>mb_Timestamp = bucket * size * second_ns, mb_Requests = 0, mb_Impressions = 0,
                          mb_Revenue = 0, mb_FillRate = 0, mb_AvgLatency = 0,
                          mb_UniqueUsers = Map.empty, mb_TopDomains = Map.empty\<rparr>)
           in Some (a\<lparr>at_TimeSeries := series\<lparr>ts_Buckets := (ts_Buckets series)
                (bucket \<mapsto> entry\<lparr>mb_Requests := mb_Requests entry + 1\<rparr>)\<rparr>\<rparr>))"

text \<open>The event of a request goes into the stream, unless the stream is full.\<close>

definition enqueue_request ::
  "time \<Rightarrow> 'd OBidRequest \<Rightarrow> string \<Rightarrow> 'd::linordered_field AnalyticsTracker \<Rightarrow> 'd AnalyticsTracker" where
  "enqueue_request now1 request publisher a =
     (let event = zero_event
            \<lparr>ev_Type := EventRequest, ev_Timestamp := now1, ev_PublisherID := publisher,
             ev_PlacementID := extractPlacementID request,
             ev_DeviceType := extractDeviceType request,
             ev_GeoCountry := extractGeoCountry request,
             ev_Metadata := [''imp_count'' \<mapsto> FInt (int (length (oq_Imp request))),
               ''video'' \<mapsto> FVal (VBool (hasVideo request)), ''pod'' \<mapsto> FVal (VBool (isPod request))]\<rparr>
      in if length (at_EventStream a) < EventStream_capacity
         then a\<lparr>at_EventStream := at_EventStream a @ [event]\<rparr> else a)"

definition TrackRequest ::
  "time \<Rightarrow> time \<Rightarrow> 'd::linordered_field OBidRequest \<Rightarrow> 'd AnalyticsTracker \<Rightarrow> 'd AnalyticsTracker option" where
  "TrackRequest now1 now2 request a =
     (let a1 = a\<lparr>at_TotalRequests := at_TotalRequests a + 1\<rparr> in
      case extractPublisherID request of
        None \<Rightarrow> None
      | Some publisher \<Rightarrow> updateTimeSeries now2 (enqueue_request now1 request publisher a1))"

text \<open>What \<open>TrackRequest\<close> has done to the tracker when it panics: the request is counted, and its
  event is in the stream when it was the time series that panicked.\<close>

definition request_panicked ::
  "time \<Rightarrow> 'd::linordered_field OBidRequest \<Rightarrow> 'd AnalyticsTracker \<Rightarrow> 'd AnalyticsTracker" where
  "request_panicked now1 request a =
     (let a1 = a\<lparr>at_TotalRequests := at_TotalRequests a + 1\<rparr> in
      case extractPublisherID request of
        None \<Rightarrow> a1
      | Some publisher \<Rightarrow> enqueue_request now1 request publisher a1)"

definition updateLatencyMetrics :: "u64 \<Rightarrow> 'd AnalyticsTracker \<Rightarrow> 'd AnalyticsTracker" where
  "updateLatencyMetrics latencyMicros a =
     (let current = at_AverageLatency a;
          count = at_TotalRequests a;
          a1 = (if 0 < count
                then a\<lparr>at_AverageLatency := (current * (count - 1) + latencyMicros) div count\<rparr> else a);
          a2 = (if at_P95Latency a1 < latencyMicros then a1\<lparr>at_P95Latency := latencyMicros\<rparr> else a1)
      in if at_P99Latency a2 < latencyMicros then a2\<lparr>at_P99Latency := latencyMicros\<rparr> else a2)"

definition TrackResponse ::
  "('d \<Rightarrow> u64) \<Rightarrow> 'd::linordered_field OBidResponse option \<Rightarrow> duration \<Rightarrow> 'd AnalyticsTracker \<Rightarrow> 'd AnalyticsTracker" where
  "TrackResponse to_u64 response latency a =
     (let a1 = (case response of
            None \<Rightarrow> a
          | Some r \<Rightarrow>
              if 0 < length (op_SeatBid r) then
                let b = a\<lparr>at_TotalImpressions := at_TotalImpressions a + 1\<rparr>;
                    totalReq = at_TotalRequests b;
                    totalImp = at_TotalImpressions b;
                    c = (if 0 < totalReq then b\<lparr>at_FillRate := (totalImp * 10000) div totalReq\<rparr> else b)
                in fold (\<lambda>bid t. t\<lparr>at_TotalRevenue := at_TotalRevenue t + to_u64 (ob_Price bid * 1000000)\<rparr>)
                     (concat (map osb_Bid (op_SeatBid r))) c
              else a)
      in updateLatencyMetrics (of_int (latency sdiv 1000)) a1)"

definition updateMinerMetrics ::
  "('d \<Rightarrow> int) \<Rightarrow> string \<Rightarrow> 'd::linordered_field Event \<Rightarrow> 'd AnalyticsTracker \<Rightarrow> 'd AnalyticsTracker" where
  "updateMinerMetrics bi minerID event a =
     (let stats = (case at_MinerMetrics a minerID of
            Some m \<Rightarrow> m
          | None \<Rightarrow> \<lparr>ms_MinerID = minerID, ms_WalletAddress = [], ms_Location = [], ms_TotalServed = 0,
                    ms_TotalBandwidth = 0, ms_Uptime = 0, ms_Earnings = 0, ms_QualityScore = 0,
                    ms_AverageLatency = 0, ms_ErrorRate = 0\<rparr>);
          stats1 = stats\<lparr>ms_TotalServed := ms_TotalServed stats + 1\<rparr>;
          stats2 = (if 0 < ev_Price event
                    then let earnings = ev_Price event * (1 / 10)
                         in stats1\<lparr>ms_Earnings := ms_Earnings stats1 + bi earnings\<rparr>
                    else stats1)
      in a\<lparr>at_MinerMetrics := (at_MinerMetrics a)(minerID \<mapsto> stats2)\<rparr>)"

definition TrackImpression ::
  "('d \<Rightarrow> int) \<Rightarrow> time \<Rightarrow> string \<Rightarrow> string \<Rightarrow> string \<Rightarrow> 'd::linordered_field \<Rightarrow> 'd AnalyticsTracker \<Rightarrow> 'd AnalyticsTracker" where
  "TrackImpression bi now impressionID publisherID minerID price a =
     (let event = zero_event
            \<lparr>ev_Type := EventImpression, ev_Timestamp := now, ev_ImpressionID := impressionID,
             ev_PublisherID := publisherID, ev_MinerID := minerID, ev_Price := price\<rparr>;
          a1 = (case at_PublisherMetrics a publisherID of
                  None \<Rightarrow> a
                | Some pub \<Rightarrow> a\<lparr>at_PublisherMetrics := (at_PublisherMetrics a)(publisherID \<mapsto>
                    pub\<lparr>ps_TotalImpressions := ps_TotalImpressions pub + 1,
                        ps_TotalRevenue := ps_TotalRevenue pub + bi price\<rparr>)\<rparr>);
          a2 = (if minerID \<noteq> [] then updateMinerMetrics bi minerID event a1 else a1)
      in a2\<lparr>at_storage := Store event (at_storage a2)\<rparr>)"

definition TrackPodMetrics :: "string \<Rightarrow> int \<Rightarrow> bool \<Rightarrow> 'd AnalyticsTracker \<Rightarrow> 'd AnalyticsTracker" where
  "TrackPodMetrics podID podSize completed a =
     (let pm = (at_PodMetrics a)\<lparr>pm_TotalPods := pm_TotalPods (at_PodMetrics a) + 1,
                                 pm_AveragePodSize := of_int podSize\<rparr>;
          pm' = (if completed
                 then let currentRate = pm_PodCompletionRate pm;
                          totalPods = pm_TotalPods pm;
                          newRate = (currentRate * (totalPods - 1) + 100) div totalPods
                      in pm\<lparr>pm_PodCompletionRate := newRate\<rparr>
                 else pm)
      in a\<lparr>at_PodMetrics := pm'\<rparr>)"

definition GetPublisherReport ::
  "string \<Rightarrow> TimeRange \<Rightarrow> 'd::linordered_field AnalyticsTracker \<Rightarrow> string + 'd PublisherReport" where
  "GetPublisherReport publisherID timeRange a =
     (case at_PublisherMetrics a publisherID of
        None \<Rightarrow> Inl (''publisher '' @ publisherID @ '' not found'')
      | Some stats \<Rightarrow>
          let events = Query \<lparr>qf_StartTime = tr_Start timeRange, qf_EndTime = tr_End timeRange,
                qf_EventTypes = [], qf_PublisherIDs = [publisherID], qf_DSPIDs = [], qf_MinerIDs = [],
                qf_Limit = 0\<rparr> (at_storage a)
          in Inr \<lparr>pr_PublisherID = publisherID, pr_TimeRange = timeRange,
                  pr_TotalImpressions = ps_TotalImpressions stats,
                  pr_TotalRevenue = of_int (ps_TotalRevenue stats), pr_FillRate = ps_FillRate stats,
                  pr_eCPM = ps_eCPM stats, pr_Events = events, pr_TopPlacements = [],
                  pr_DailyBreakdown = Map.empty\<rparr>)"

definition dec_word :: "u64 \<Rightarrow> 'd::linordered_field" where
  "dec_word w = of_nat (unat w)"

definition GetRealTimeMetrics :: "'d::linordered_field AnalyticsTracker \<Rightarrow> string \<Rightarrow> 'd field option" where
  "GetRealTimeMetrics a =
     [''total_requests'' \<mapsto> FInt (uint (at_TotalRequests a)),
      ''total_impressions'' \<mapsto> FInt (uint (at_TotalImpressions a)),
      ''total_clicks'' \<mapsto> FInt (uint (at_TotalClicks a)),
      ''total_revenue'' \<mapsto> FVal (VNum (dec_word (at_TotalRevenue a) / 1000000)),
      ''fill_rate'' \<mapsto> FVal (VNum (dec_word (at_FillRate a) / 100)),
      ''avg_latency_ms'' \<mapsto> FVal (VNum (dec_word (at_AverageLatency a) / 1000)),
      ''p95_latency_ms'' \<mapsto> FVal (VNum (dec_word (at_P95Latency a) / 1000)),
      ''p99_latency_ms'' \<mapsto> FVal (VNum (dec_word (at_P99Latency a) / 1000)),
      ''pod_metrics'' \<mapsto> FMap
        [''total_pods'' \<mapsto> FInt (uint (pm_TotalPods (at_PodMetrics a))),
         ''avg_pod_size'' \<mapsto> FInt (uint (pm_AveragePodSize (at_PodMetrics a))),
         ''completion_rate'' \<mapsto> FVal (VNum (dec_word (pm_PodCompletionRate (at_PodMetrics a)) / 100))]]"

text \<open>The Prometheus text; \<open>fmt2\<close> and \<open>fmt4\<close> are the formats \<open>%.2f\<close> and \<open>%.4f\<close>.
  A metric is a help line, a type line and the value.\<close>

definition prom_metric :: "string \<Rightarrow> string \<Rightarrow> string \<Rightarrow> string \<Rightarrow> string" where
  "prom_metric name descr kind value =
     ''# HELP '' @ name @ '' '' @ descr @ [CHR 0x0A] @
     ''# TYPE '' @ name @ '' '' @ kind @ [CHR 0x0A] @
     name @ '' '' @ value @ [CHR 0x0A]"

definition ExportMetrics ::
  "('d \<Rightarrow> string) \<Rightarrow> ('d \<Rightarrow> string) \<Rightarrow> 'd::linordered_field AnalyticsTracker \<Rightarrow> string" where
  "ExportMetrics fmt2 fmt4 a =
     prom_metric ''adx_requests_total'' ''Total number of ad requests'' ''counter''
       (show_nat (unat (at_TotalRequests a))) @ [CHR 0x0A] @
     prom_metric ''adx_impressions_total'' ''Total number of ad impressions'' ''counter''
       (show_nat (unat (at_TotalImpressions a))) @ [CHR 0x0A] @
     prom_metric ''adx_revenue_total'' ''Total revenue in dollars'' ''counter''
       (fmt2 (dec_word (at_TotalRevenue a) / 1000000)) @ [CHR 0x0A] @
     prom_metric ''adx_fill_rate'' ''Current fill rate'' ''gauge''
       (fmt4 (dec_word (at_FillRate a) / 10000)) @ [CHR 0x0A] @
     prom_metric ''adx_latency_milliseconds'' ''Average latency in milliseconds'' ''gauge''
       (fmt2 (dec_word (at_AverageLatency a) / 1000)) @ [CHR 0x0A] @
     prom_metric ''adx_pods_total'' ''Total number of ad pods served'' ''counter''
       (show_nat (unat (pm_TotalPods (at_PodMetrics a)))) @ [CHR 0x0A] @
     prom_metric ''adx_pod_completion_rate'' ''Pod completion rate'' ''gauge''
       (fmt4 (dec_word (pm_PodCompletionRate (at_PodMetrics a)) / 100))"

subsection \<open>What a store promises its client\<close>

text \<open>A query without a limit sees every stored event it matches, in the order of storing.\<close>

locale event_store =
  fixes store :: "'e \<Rightarrow> 's \<Rightarrow> 's"
    and query :: "'f \<Rightarrow> 's \<Rightarrow> 'e list"
    and matches :: "'f \<Rightarrow> 'e \<Rightarrow> bool"
    and limit :: "'f \<Rightarrow> nat option"
  assumes query_store:
    "limit f = None \<Longrightarrow> query f (store e s) = query f s @ (if matches f e then [e] else [])"
begin

lemma query_run:
  "limit f = None \<Longrightarrow> query f (fold store es s) = query f s @ filter (matches f) es"
  by (induction es arbitrary: s) (simp_all add: query_store)

end

text \<open>The loop computes a filter, cut off at a positive limit.\<close>

definition query_limit :: "QueryFilter \<Rightarrow> nat option" where
  "query_limit f = (if 0 < qf_Limit f then Some (nat (qf_Limit f)) else None)"

definition cut :: "nat option \<Rightarrow> 'a list \<Rightarrow> 'a list" where
  "cut l xs = (case l of None \<Rightarrow> xs | Some n \<Rightarrow> take n xs)"

lemma query_loop_cut:
  assumes "0 < qf_Limit f \<longrightarrow> int (length results) < qf_Limit f"
  shows "query_loop f results es = cut (query_limit f) (results @ filter (\<lambda>e. matchesFilter e f) es)"
  using assms
proof (induction es arbitrary: results)
  case Nil
  then show ?case by (auto simp: cut_def query_limit_def)
next
  case (Cons e es)
  show ?case
  proof (cases "matchesFilter e f")
    case False
    with Cons show ?thesis by simp
  next
    case True
    show ?thesis
    proof (cases "qf_Limit f \<le> int (length (results @ [e])) \<and> 0 < qf_Limit f")
      case stop: True
      with Cons.prems have "nat (qf_Limit f) = length (results @ [e])" by simp
      with stop True show ?thesis by (simp add: cut_def query_limit_def Let_def)
    next
      case go: False
      then have "0 < qf_Limit f \<longrightarrow> int (length (results @ [e])) < qf_Limit f" by linarith
      from Cons.IH [OF this] True go show ?thesis by (auto simp: Let_def)
    qed
  qed
qed

lemma Query_cut: "Query f s = cut (query_limit f) (filter (\<lambda>e. matchesFilter e f) (im_events s))"
  unfolding Query_def by (subst query_loop_cut) auto

lemma matchesFilter_iff:
  "matchesFilter e f \<longleftrightarrow> qf_StartTime f < ev_Timestamp e \<and> ev_Timestamp e < qf_EndTime f \<and>
     (qf_EventTypes f = [] \<or> ev_Type e \<in> set (qf_EventTypes f))"
  by (auto simp: matchesFilter_def list_ex_iff)

interpretation memory: event_store Store Query "\<lambda>f e. matchesFilter e f" query_limit
  by unfold_locales (simp add: Query_cut Store_def cut_def)

subsection \<open>Runs of the tracker\<close>

datatype 'd track_op =
    TRequest time time "'d OBidRequest"
  | TResponse "'d OBidResponse option" duration
  | TImpression time string string string 'd
  | TPod string int bool

text \<open>A request whose site or app has no publisher panics; the run goes on with what it left in the tracker, as
  it does when the caller recovers.\<close>

fun track_step ::
  "('d \<Rightarrow> int) \<Rightarrow> ('d \<Rightarrow> u64) \<Rightarrow> 'd::linordered_field track_op \<Rightarrow> 'd AnalyticsTracker \<Rightarrow> 'd AnalyticsTracker" where
  "track_step bi to_u64 (TRequest t1 t2 req) a = (case TrackRequest t1 t2 req a of None \<Rightarrow> request_panicked t1 req a | Some a' \<Rightarrow> a')"
| "track_step bi to_u64 (TResponse resp latency) a = TrackResponse to_u64 resp latency a"
| "track_step bi to_u64 (TImpression now i p m price) a = TrackImpression bi now i p m price a"
| "track_step bi to_u64 (TPod i n c) a = TrackPodMetrics i n c a"

definition run_tracker ::
  "('d \<Rightarrow> int) \<Rightarrow> ('d \<Rightarrow> u64) \<Rightarrow> 'd::linordered_field track_op list \<Rightarrow> 'd AnalyticsTracker \<Rightarrow> 'd AnalyticsTracker" where
  "run_tracker bi to_u64 ops a = fold (track_step bi to_u64) ops a"

subsection \<open>Frame lemmas\<close>

text \<open>The parts of the tracker the properties speak of.\<close>

definition tracked ::
  "'d AnalyticsTracker \<Rightarrow> 'd InMemoryStorage \<times> (string \<rightharpoonup> 'd PublisherStats) \<times> (string \<rightharpoonup> 'd MinerStats) \<times> PodMetrics" where
  "tracked a = (at_storage a, at_PublisherMetrics a, at_MinerMetrics a, at_PodMetrics a)"

definition peaks :: "'d AnalyticsTracker \<Rightarrow> u64 \<times> u64" where
  "peaks a = (at_P95Latency a, at_P99Latency a)"

definition raised :: "u64 \<Rightarrow> u64 \<times> u64 \<Rightarrow> u64 \<times> u64" where
  "raised x p = (max (fst p) x, max (snd p) x)"

lemmas frame_defs = tracked_def peaks_def

definition micros :: "duration \<Rightarrow> u64" where
  "micros latency = of_int (latency sdiv 1000)"

lemma updateTimeSeries_frame [adx_frame]:
  "updateTimeSeries now a = Some a' \<Longrightarrow> tracked a' = tracked a \<and> peaks a' = peaks a"
  by (auto simp: updateTimeSeries_def frame_defs Let_def split: if_splits)

lemma request_panicked_frame [simp]:
  "at_storage (request_panicked t1 req a) = at_storage a"
  "at_PublisherMetrics (request_panicked t1 req a) = at_PublisherMetrics a"
  "at_MinerMetrics (request_panicked t1 req a) = at_MinerMetrics a"
  "at_PodMetrics (request_panicked t1 req a) = at_PodMetrics a"
  "peaks (request_panicked t1 req a) = peaks a"
  by (simp_all add: request_panicked_def enqueue_request_def peaks_def Let_def split: option.split)

lemma TrackRequest_frame [adx_frame]:
  "TrackRequest t1 t2 req a = Some a' \<Longrightarrow> tracked a' = tracked a \<and> peaks a' = peaks a"
  unfolding TrackRequest_def enqueue_request_def Let_def
  by (auto dest!: updateTimeSeries_frame simp: frame_defs split: option.splits if_splits)

lemma updateLatencyMetrics_frame [adx_frame]:
  "tracked (updateLatencyMetrics x a) = tracked a"
  "peaks (updateLatencyMetrics x a) = raised x (peaks a)"
  by (auto simp: updateLatencyMetrics_def frame_defs raised_def Let_def max_def)

lemma revenue_fold_frame:
  "tracked (fold (\<lambda>bid t. t\<lparr>at_TotalRevenue := at_TotalRevenue t + to_u64 (ob_Price bid * 1000000)\<rparr>) bids a) = tracked a \<and>
   peaks (fold (\<lambda>bid t. t\<lparr>at_TotalRevenue := at_TotalRevenue t + to_u64 (ob_Price bid * 1000000)\<rparr>) bids a) = peaks a"
  by (induction bids arbitrary: a) (simp_all add: frame_defs)

lemma TrackResponse_frame [adx_frame]:
  "tracked (TrackResponse to_u64 resp latency a) = tracked a"
  "peaks (TrackResponse to_u64 resp latency a) = raised (micros latency) (peaks a)"
proof -
  obtain b where "TrackResponse to_u64 resp latency a = updateLatencyMetrics (micros latency) b"
    "tracked b = tracked a" "peaks b = peaks a"
  proof (cases "\<exists>r. resp = Some r \<and> 0 < length (op_SeatBid r)")
    case True
    then obtain r where r: "resp = Some r" "0 < length (op_SeatBid r)" by blast
    let ?b = "a\<lparr>at_TotalImpressions := at_TotalImpressions a + 1\<rparr>"
    let ?c = "if 0 < at_TotalRequests ?b
      then ?b\<lparr>at_FillRate := (at_TotalImpressions ?b * 10000) div at_TotalRequests ?b\<rparr> else ?b"
    have "tracked ?c = tracked a \<and> peaks ?c = peaks a" by (simp add: frame_defs)
    then show thesis
      using that [of "fold (\<lambda>bid t. t\<lparr>at_TotalRevenue := at_TotalRevenue t + to_u64 (ob_Price bid * 1000000)\<rparr>)
        (concat (map osb_Bid (op_SeatBid r))) ?c"] revenue_fold_frame [of to_u64 "concat (map osb_Bid (op_SeatBid r))" ?c] r
      by (simp add: TrackResponse_def micros_def Let_def)
  next
    case False
    then show thesis using that [of a]
      by (auto simp: TrackResponse_def micros_def Let_def split: option.splits)
  qed
  then show "tracked (TrackResponse to_u64 resp latency a) = tracked a"
    "peaks (TrackResponse to_u64 resp latency a) = raised (micros latency) (peaks a)"
    by (simp_all add: updateLatencyMetrics_frame)
qed

lemma revenue_fold:
  "at_TotalRevenue (fold (\<lambda>bid t. t\<lparr>at_TotalRevenue := at_TotalRevenue t + to_u64 (ob_Price bid * 1000000)\<rparr>) bids a) =
    at_TotalRevenue a + sum_list (map (\<lambda>b. to_u64 (ob_Price b * 1000000)) bids)"
  by (induction bids arbitrary: a) (simp_all add: algebra_simps)

lemma TrackResponse_revenue:
  "at_TotalRevenue (TrackResponse to_u64 (Some r) latency a) = at_TotalRevenue a +
    sum_list (map (\<lambda>b. to_u64 (ob_Price b * 1000000)) (concat (map osb_Bid (op_SeatBid r))))"
proof (cases "op_SeatBid r")
  case Nil
  then show ?thesis by (simp add: TrackResponse_def updateLatencyMetrics_def Let_def)
next
  case (Cons x xs)
  have u: "at_TotalRevenue (updateLatencyMetrics y b) = at_TotalRevenue b" for y and b :: "'a AnalyticsTracker"
    by (simp add: updateLatencyMetrics_def Let_def)
  show ?thesis by (simp add: TrackResponse_def Let_def u revenue_fold Cons del: fold_simps concat.simps fold_append)
qed

lemma TrackResponse_parts [adx_frame]:
  "at_storage (TrackResponse to_u64 resp latency a) = at_storage a"
  "at_PublisherMetrics (TrackResponse to_u64 resp latency a) = at_PublisherMetrics a"
  "at_MinerMetrics (TrackResponse to_u64 resp latency a) = at_MinerMetrics a"
  "at_PodMetrics (TrackResponse to_u64 resp latency a) = at_PodMetrics a"
  using TrackResponse_frame(1) [of to_u64 resp latency a] by (simp_all add: tracked_def)

lemma TrackPodMetrics_frame [adx_frame]:
  "at_storage (TrackPodMetrics i n c a) = at_storage a"
  "at_PublisherMetrics (TrackPodMetrics i n c a) = at_PublisherMetrics a"
  "at_MinerMetrics (TrackPodMetrics i n c a) = at_MinerMetrics a"
  "peaks (TrackPodMetrics i n c a) = peaks a"
  by (simp_all add: TrackPodMetrics_def frame_defs Let_def)

lemma updateMinerMetrics_frame [adx_frame]:
  "at_storage (updateMinerMetrics bi m e a) = at_storage a"
  "at_PublisherMetrics (updateMinerMetrics bi m e a) = at_PublisherMetrics a"
  "at_PodMetrics (updateMinerMetrics bi m e a) = at_PodMetrics a"
  "peaks (updateMinerMetrics bi m e a) = peaks a"
  by (simp_all add: updateMinerMetrics_def frame_defs Let_def)

definition impression_event :: "time \<Rightarrow> string \<Rightarrow> string \<Rightarrow> string \<Rightarrow> 'd::zero \<Rightarrow> 'd Event" where
  "impression_event now i p m price = zero_event
     \<lparr>ev_Type := EventImpression, ev_Timestamp := now, ev_ImpressionID := i, ev_PublisherID := p,
      ev_MinerID := m, ev_Price := price\<rparr>"

lemma TrackImpression_frame [adx_frame]:
  "im_events (at_storage (TrackImpression bi now i p m price a)) =
     im_events (at_storage a) @ [impression_event now i p m price]"
  "at_PodMetrics (TrackImpression bi now i p m price a) = at_PodMetrics a"
  "peaks (TrackImpression bi now i p m price a) = peaks a"
  "dom (at_PublisherMetrics (TrackImpression bi now i p m price a)) = dom (at_PublisherMetrics a)"
  "at_MinerMetrics (TrackImpression bi now i p m price a) =
     (if m = [] then at_MinerMetrics a
      else at_MinerMetrics (updateMinerMetrics bi m (impression_event now i p m price) a))"
  by (auto simp: TrackImpression_def impression_event_def updateMinerMetrics_def Store_def frame_defs Let_def
      split: option.splits)

subsection \<open>What a run leaves\<close>

fun impressions :: "'d::zero track_op list \<Rightarrow> 'd Event list" where
  "impressions [] = []"
| "impressions (TImpression now i p m price # ops) = impression_event now i p m price # impressions ops"
| "impressions (_ # ops) = impressions ops"

fun latencies :: "'d track_op list \<Rightarrow> u64 list" where
  "latencies [] = []"
| "latencies (TResponse resp latency # ops) = micros latency # latencies ops"
| "latencies (_ # ops) = latencies ops"

text \<open>The prices of the impressions a miner served.\<close>

definition served :: "string \<Rightarrow> 'd::zero track_op list \<Rightarrow> 'd list" where
  "served m ops = map ev_Price (filter (\<lambda>e. ev_MinerID e = m) (impressions ops))"

lemma run_tracker_simps [simp]:
  "run_tracker bi to_u64 [] a = a"
  "run_tracker bi to_u64 (op # ops) a = run_tracker bi to_u64 ops (track_step bi to_u64 op a)"
  by (simp_all add: run_tracker_def)

lemma run_events:
  "im_events (at_storage (run_tracker bi to_u64 ops a)) = im_events (at_storage a) @ impressions ops"
proof (induction ops arbitrary: a)
  case (Cons op ops)
  have "im_events (at_storage (track_step bi to_u64 op a)) = im_events (at_storage a) @ impressions [op]"
    by (cases op) (auto simp: adx_frame dest!: TrackRequest_frame simp: tracked_def split: option.splits)
  moreover have "impressions (op # ops) = impressions [op] @ impressions ops" by (cases op) simp_all
  ultimately show ?case using Cons by simp
qed simp

lemma run_peaks:
  "peaks (run_tracker bi to_u64 ops a) = (fold max (latencies ops) (fst (peaks a)), fold max (latencies ops) (snd (peaks a)))"
proof (induction ops arbitrary: a)
  case (Cons op ops)
  have "peaks (track_step bi to_u64 op a) =
      (fold max (latencies [op]) (fst (peaks a)), fold max (latencies [op]) (snd (peaks a)))"
    by (cases op) (auto simp: adx_frame raised_def max.commute dest!: TrackRequest_frame split: option.splits)
  moreover have "latencies (op # ops) = latencies [op] @ latencies ops" by (cases op) simp_all
  ultimately show ?case using Cons by simp
qed simp

lemma run_publishers:
  "dom (at_PublisherMetrics (run_tracker bi to_u64 ops a)) = dom (at_PublisherMetrics a)"
proof (induction ops arbitrary: a)
  case (Cons op ops)
  have "dom (at_PublisherMetrics (track_step bi to_u64 op a)) = dom (at_PublisherMetrics a)"
    by (cases op) (auto simp: adx_frame tracked_def
        dest!: TrackRequest_frame split: option.splits)
  with Cons show ?case by simp
qed simp

text \<open>A miner's statistics agree with the prices it served.\<close>

definition miner_agrees :: "('d::linordered_field \<Rightarrow> int) \<Rightarrow> 'd MinerStats option \<Rightarrow> 'd list \<Rightarrow> bool" where
  "miner_agrees bi s prices =
     (case s of
        None \<Rightarrow> prices = []
      | Some m \<Rightarrow> prices \<noteq> [] \<and> ms_TotalServed m = of_nat (length prices) \<and>
          ms_Earnings m = sum_list (map (\<lambda>p. bi (p * (1 / 10))) (filter (\<lambda>p. 0 < p) prices)))"

lemma updateMinerMetrics_agrees:
  assumes "miner_agrees bi (at_MinerMetrics a k) prices"
  shows "miner_agrees bi (at_MinerMetrics (updateMinerMetrics bi m e a) k)
    (prices @ (if k = m then [ev_Price e] else []))"
  using assms by (auto simp: miner_agrees_def updateMinerMetrics_def Let_def split: option.splits)

lemma run_miners:
  assumes "k \<noteq> []" and "miner_agrees bi (at_MinerMetrics a k) prices"
  shows "miner_agrees bi (at_MinerMetrics (run_tracker bi to_u64 ops a) k) (prices @ served k ops)"
  using assms(2)
proof (induction ops arbitrary: a prices)
  case Nil
  then show ?case by (simp add: served_def)
next
  case (Cons op ops)
  have "miner_agrees bi (at_MinerMetrics (track_step bi to_u64 op a) k) (prices @ served k [op])"
  proof (cases op)
    case (TImpression now i p m price)
    with updateMinerMetrics_agrees [OF Cons.prems, of m "impression_event now i p m price"] Cons.prems assms(1)
    show ?thesis by (auto simp: adx_frame served_def impression_event_def)
  qed (use Cons.prems in \<open>auto simp: served_def adx_frame tracked_def
         dest!: TrackRequest_frame split: option.splits\<close>)
  from Cons.IH [OF this] have "miner_agrees bi (at_MinerMetrics (run_tracker bi to_u64 (op # ops) a) k)
    (prices @ served k [op] @ served k ops)" by simp
  moreover have "served k (op # ops) = served k [op] @ served k ops" by (cases op) (simp_all add: served_def)
  ultimately show ?case by simp
qed

text \<open>The completion rate of pods, before the arithmetic can wrap.\<close>

lemma pod_rate_step:
  fixes rate n :: u64
  assumes "unat rate \<le> 100" and "0 < n" and "unat n * 100 < 2 ^ 64"
  shows "unat ((rate * (n - 1) + 100) div n) \<le> 100"
proof -
  have n1: "unat (n - 1) = unat n - 1" using assms(2) by (simp add: unat_minus_one)
  have pos: "0 < unat n" using assms(2) by (simp add: word_less_nat_alt)
  have le: "unat rate * (unat n - 1) + 100 \<le> unat n * 100"
  proof -
    have "unat rate * (unat n - 1) \<le> 100 * (unat n - 1)" using assms(1) by simp
    also have "\<dots> + 100 = unat n * 100" using pos by (simp add: algebra_simps diff_mult_distrib2)
    finally show ?thesis by simp
  qed
  have m: "unat (rate * (n - 1)) = unat rate * (unat n - 1)"
    using le assms(3) by (simp add: unat_mult_lem [THEN iffD1] n1)
  have s: "unat (rate * (n - 1) + 100) = unat rate * (unat n - 1) + 100"
    using le assms(3) by (subst unat_add_lem [THEN iffD1]) (simp_all add: m)
  have "unat ((rate * (n - 1) + 100) div n) = (unat rate * (unat n - 1) + 100) div unat n"
    by (simp add: unat_div s)
  also have "\<dots> \<le> (unat n * 100) div unat n" using le by (rule div_le_mono)
  also have "\<dots> = 100" using pos by simp
  finally show ?thesis .
qed

definition pod_ok :: "nat \<Rightarrow> PodMetrics \<Rightarrow> bool" where
  "pod_ok k pm \<longleftrightarrow> unat (pm_TotalPods pm) \<le> k \<and> unat (pm_PodCompletionRate pm) \<le> 100"

lemma TrackPodMetrics_ok:
  assumes "pod_ok k (at_PodMetrics a)" and "(k + 1) * 100 < 2 ^ 64"
  shows "pod_ok (k + 1) (at_PodMetrics (TrackPodMetrics i n c a))"
proof -
  let ?t = "pm_TotalPods (at_PodMetrics a)"
  have t: "unat (?t + 1) = unat ?t + 1"
    using assms by (subst unat_add_lem [THEN iffD1]) (simp_all add: pod_ok_def)
  then have "0 < ?t + 1" by (simp add: word_less_nat_alt)
  moreover have "unat (?t + 1) * 100 < 2 ^ 64" using assms t by (simp add: pod_ok_def)
  ultimately have "unat ((pm_PodCompletionRate (at_PodMetrics a) * (?t + 1 - 1) + 100) div (?t + 1)) \<le> 100"
    using assms(1) by (intro pod_rate_step) (simp_all add: pod_ok_def)
  then show ?thesis using assms(1) t by (simp add: pod_ok_def TrackPodMetrics_def Let_def)
qed

definition pods :: "'d track_op list \<Rightarrow> nat" where
  "pods ops = length (filter (\<lambda>op. case op of TPod _ _ _ \<Rightarrow> True | _ \<Rightarrow> False) ops)"

lemma run_pods:
  "pod_ok k (at_PodMetrics a) \<Longrightarrow> (k + pods ops) * 100 < 2 ^ 64 \<Longrightarrow>
    pod_ok (k + pods ops) (at_PodMetrics (run_tracker bi to_u64 ops a))"
proof (induction ops arbitrary: a k)
  case Nil
  then show ?case by (simp add: pods_def)
next
  case (Cons op ops)
  show ?case
  proof (cases op)
    case (TPod i n c)
    then have "(k + 1) * 100 < 2 ^ 64" using Cons.prems(2) by (simp add: pods_def)
    from TrackPodMetrics_ok [OF Cons.prems(1) this] Cons.IH [of "k + 1"] Cons.prems(2) TPod
    show ?thesis by (simp add: pods_def)
  next
    case (TRequest t1 t2 req)
    with Cons show ?thesis
      by (auto simp: pods_def tracked_def dest!: TrackRequest_frame split: option.splits)
  qed (use Cons in \<open>simp_all add: pods_def adx_frame\<close>)
qed

subsection \<open>Properties\<close>

text \<open>C26: The event store answers queries with what was tracked: after any calls on a new tracker
  a query returns the tracked impressions strictly inside its time range and of the asked types,
  in the order they were tracked, cut off at a positive limit.\<close>

theorem query_returns_tracked_impressions:
  "Query f (at_storage (run_tracker bi to_u64 ops NewAnalyticsTracker)) =
    cut (query_limit f) (filter (\<lambda>e. qf_StartTime f < ev_Timestamp e \<and> ev_Timestamp e < qf_EndTime f \<and>
      (qf_EventTypes f = [] \<or> ev_Type e \<in> set (qf_EventTypes f))) (impressions ops))"
  unfolding Query_cut matchesFilter_iff run_events
  by (simp add: NewAnalyticsTracker_def NewInMemoryStorage_def)

text \<open>The report of a publisher shows the impressions of every publisher: its totals are the
  publisher's, its events are all tracked impressions in the time range, because queries ignore
  the publisher they ask for.\<close>

theorem publisher_report_shows_every_publisher:
  assumes "im_events (at_storage a) = []"
    and "GetPublisherReport publisher timeRange (run_tracker bi to_u64 ops a) = Inr r"
  shows "pr_Events r = filter (\<lambda>e. tr_Start timeRange < ev_Timestamp e \<and> ev_Timestamp e < tr_End timeRange) (impressions ops)"
  using assms
  by (auto simp: GetPublisherReport_def Query_cut matchesFilter_iff run_events query_limit_def cut_def
      split: option.splits)

definition demo_tracker :: "rat AnalyticsTracker" where
  "demo_tracker = NewAnalyticsTracker\<lparr>at_PublisherMetrics := [''p'' \<mapsto>
     \<lparr>ps_PublisherID = ''p'', ps_Name = [], ps_TotalRequests = 0, ps_TotalImpressions = 0, ps_TotalRevenue = 0,
      ps_FillRate = 0, ps_eCPM = 0, ps_TopPlacements = Map.empty\<rparr>]\<rparr>"

definition demo_impressions :: "rat track_op list" where
  "demo_impressions = [TImpression 10 ''i1'' ''p'' ''m'' 5, TImpression 11 ''i2'' ''other'' ''m'' 20, TPod ''pod'' 2 True]"

theorem publisher_report_shows_every_publisher_witness:
  "\<exists>r. GetPublisherReport ''p'' \<lparr>tr_Start = 0, tr_End = 100, tr_Granularity = 1\<rparr>
      (run_tracker floor (\<lambda>_. 0) demo_impressions demo_tracker) = Inr r \<and>
    map ev_PublisherID (pr_Events r) = [''p'', ''other'']"
proof -
  let ?a = "run_tracker floor (\<lambda>_. 0) demo_impressions demo_tracker"
  have "dom (at_PublisherMetrics ?a) = {''p''}" unfolding run_publishers by (simp add: demo_tracker_def)
  then have "at_PublisherMetrics ?a ''p'' \<noteq> None" by (metis domIff insertI1)
  then obtain r where r: "GetPublisherReport ''p'' \<lparr>tr_Start = 0, tr_End = 100, tr_Granularity = 1\<rparr> ?a = Inr r"
    by (auto simp: GetPublisherReport_def)
  have "im_events (at_storage demo_tracker) = []"
    by (simp add: demo_tracker_def NewAnalyticsTracker_def NewInMemoryStorage_def)
  from publisher_report_shows_every_publisher [OF this r] r
  show ?thesis by (simp add: demo_impressions_def impression_event_def)
qed

text \<open>The tracker never knows a publisher: no call adds one, so on a tracker made by
  \<open>NewAnalyticsTracker\<close> every publisher report fails, whatever was tracked.\<close>

theorem new_tracker_has_no_reports:
  "GetPublisherReport publisher timeRange (run_tracker bi to_u64 ops NewAnalyticsTracker) =
    Inl (''publisher '' @ publisher @ '' not found'')"
proof -
  have "dom (at_PublisherMetrics (run_tracker bi to_u64 ops NewAnalyticsTracker)) = {}"
    unfolding run_publishers by (simp add: NewAnalyticsTracker_def)
  then show ?thesis by (simp add: GetPublisherReport_def)
qed

text \<open>The 95th and the 99th percentile of the latency are its maximum: after any calls on a new
  tracker both fields are the largest latency a response was tracked with, or zero.\<close>

theorem percentiles_are_the_maximum:
  "at_P95Latency (run_tracker bi to_u64 ops NewAnalyticsTracker) = fold max (latencies ops) 0 \<and>
   at_P99Latency (run_tracker bi to_u64 ops NewAnalyticsTracker) = fold max (latencies ops) 0"
proof -
  have "peaks (run_tracker bi to_u64 ops NewAnalyticsTracker) = (fold max (latencies ops) 0, fold max (latencies ops) 0)"
    unfolding run_peaks by (simp add: peaks_def NewAnalyticsTracker_def)
  then show ?thesis by (simp add: peaks_def)
qed

text \<open>C27: A miner's statistics count its impressions: after any calls on a new tracker a miner has
  statistics exactly if it served an impression; they count every one, and its earnings are the
  sum of a tenth of every positive price, each cut to an integer. So with truncation a miner
  that serves impressions cheaper than 10 earns nothing.\<close>

theorem miner_statistics_agree:
  assumes "m \<noteq> []"
  shows "miner_agrees bi (at_MinerMetrics (run_tracker bi to_u64 ops NewAnalyticsTracker) m) (served m ops) \<and>
    ((\<forall>x. 0 \<le> x \<and> x < 1 \<longrightarrow> bi x = 0) \<and> (\<forall>p\<in>set (served m ops). p < 10) \<longrightarrow>
     (\<forall>s. at_MinerMetrics (run_tracker bi to_u64 ops NewAnalyticsTracker) m = Some s \<longrightarrow> ms_Earnings s = 0))"
proof -
  have "miner_agrees bi (at_MinerMetrics NewAnalyticsTracker m) []"
    by (simp add: miner_agrees_def NewAnalyticsTracker_def)
  from run_miners [OF assms this, of to_u64 ops]
  have ok: "miner_agrees bi (at_MinerMetrics (run_tracker bi to_u64 ops NewAnalyticsTracker) m) (served m ops)"
    by simp
  moreover have "sum_list (map (\<lambda>p. bi (p * (1 / 10))) (filter (\<lambda>p. 0 < p) prices)) = 0"
    if "\<forall>x. 0 \<le> x \<and> x < 1 \<longrightarrow> bi x = 0" "\<forall>p\<in>set prices. p < 10" for prices
    using that by (induction prices) auto
  ultimately show ?thesis by (auto simp: miner_agrees_def)
qed

theorem miner_statistics_agree_witness:
  "\<exists>s. at_MinerMetrics (run_tracker floor (\<lambda>_. 0) demo_impressions NewAnalyticsTracker) ''m'' = Some s \<and>
    ms_TotalServed s = 2 \<and> ms_Earnings s = 2"
proof -
  have "served ''m'' demo_impressions = [5, 20]"
    by (simp add: served_def demo_impressions_def impression_event_def)
  moreover have "\<lfloor>1 / 2 :: rat\<rfloor> = 0" by (simp add: floor_eq_iff)
  ultimately show ?thesis
    using miner_statistics_agree [of "''m''" floor "\<lambda>_. 0" demo_impressions]
    by (auto simp: miner_agrees_def split: option.splits)
qed

text \<open>The completion rate of pods is a percentage: as long as 100 times the number of tracked
  pods fits 64 bits, the running average stays at most 100; a pod that is not completed leaves
  it as it was.\<close>

theorem pod_completion_rate_bound:
  assumes "pods ops * 100 < 2 ^ 64"
  shows "unat (pm_PodCompletionRate (at_PodMetrics (run_tracker bi to_u64 ops NewAnalyticsTracker))) \<le> 100 \<and>
    pm_PodCompletionRate (at_PodMetrics (TrackPodMetrics i n False a)) = pm_PodCompletionRate (at_PodMetrics a)"
proof -
  have "pod_ok 0 (at_PodMetrics NewAnalyticsTracker)" by (simp add: pod_ok_def NewAnalyticsTracker_def)
  from run_pods [OF this, of ops bi to_u64] assms show ?thesis
    by (simp add: pod_ok_def TrackPodMetrics_def Let_def)
qed

theorem pod_completion_rate_bound_witness:
  "unat (pm_PodCompletionRate (at_PodMetrics (run_tracker floor (\<lambda>_. 0) demo_impressions NewAnalyticsTracker))) \<le> 100"
  using pod_completion_rate_bound [of demo_impressions floor "\<lambda>_. 0" "[]" 0 "NewAnalyticsTracker :: rat AnalyticsTracker"]
  by (simp add: pods_def demo_impressions_def)

end
