(* ===== verification/Vast.thy ===== *)
theory Vast
  imports Prelude
begin

text \<open>
  \<^verbatim>\<open>pkg/vast/vast.go\<close>: the video ad templates the SSP integration builds. The file
  declares types only; a pointer is an option, a slice a list, \<open>'d\<close> the type of
  \<open>float64\<close>, and the XML name, which only the encoder writes, is left out. Below the
  types stands what makes such a document well formed.
\<close>

record VAdSystem =
  adsystem_Version :: string
  adsystem_Name :: string

record 'd VPricing =
  pricing_Model :: string
  pricing_Currency :: string
  pricing_Value :: "'d"

record VImpression =
  impression_ID :: string
  impression_URL :: string

record VAdParameters =
  adparameters_XMLEncoded :: bool
  adparameters_Parameters :: string

record VMediaFile =
  mediafile_ID :: string
  mediafile_Delivery :: string
  mediafile_Type :: string
  mediafile_Bitrate :: int
  mediafile_MinBitrate :: int
  mediafile_MaxBitrate :: int
  mediafile_Width :: int
  mediafile_Height :: int
  mediafile_Scalable :: bool
  mediafile_MaintainAspectRatio :: bool
  mediafile_Codec :: string
  mediafile_APIFramework :: string
  mediafile_URL :: string

record VMezzanine =
  mezzanine_ID :: string
  mezzanine_Delivery :: string
  mezzanine_Type :: string
  mezzanine_Width :: int
  mezzanine_Height :: int
  mezzanine_Codec :: string
  mezzanine_URL :: string

record VMediaFiles =
  mediafiles_MediaFile :: "VMediaFile list"
  mediafiles_Mezzanine :: "VMezzanine option"

record VClickThrough =
  clickthrough_ID :: string
  clickthrough_URL :: string

record VClickTracking =
  clicktracking_ID :: string
  clicktracking_URL :: string

record VCustomClick =
  customclick_ID :: string
  customclick_URL :: string

record VVideoClicks =
  videoclicks_ClickThrough :: "VClickThrough option"
  videoclicks_ClickTracking :: "VClickTracking list"
  videoclicks_CustomClick :: "VCustomClick list"

record VTracking =
  tracking_Event :: string
  tracking_Offset :: string
  tracking_URL :: string

record VTrackingEvents =
  trackingevents_Tracking :: "VTracking list"

record VStaticResource =
  staticresource_CreativeType :: string
  staticresource_URL :: string

record VIconClicks =
  iconclicks_IconClickThrough :: string
  iconclicks_IconClickTracking :: "string list"

record VIcon =
  icon_Program :: string
  icon_Width :: int
  icon_Height :: int
  icon_XPosition :: string
  icon_YPosition :: string
  icon_Duration :: string
  icon_Offset :: string
  icon_APIFramework :: string
  icon_StaticResource :: "VStaticResource option"
  icon_IFrameResource :: string
  icon_HTMLResource :: string
  icon_IconClicks :: "VIconClicks option"
  icon_IconViewTracking :: "string list"

record VIcons =
  icons_Icon :: "VIcon list"

record VLinear =
  linear_SkipOffset :: string
  linear_Duration :: string
  linear_AdParameters :: "VAdParameters option"
  linear_MediaFiles :: VMediaFiles
  linear_VideoClicks :: "VVideoClicks option"
  linear_TrackingEvents :: "VTrackingEvents option"
  linear_Icons :: "VIcons option"

record VNonLinear =
  nonlinear_ID :: string
  nonlinear_Width :: int
  nonlinear_Height :: int
  nonlinear_ExpandedWidth :: int
  nonlinear_ExpandedHeight :: int
  nonlinear_Scalable :: bool
  nonlinear_MaintainAspectRatio :: bool
  nonlinear_MinSuggestedDuration :: string
  nonlinear_APIFramework :: string
  nonlinear_StaticResource :: "VStaticResource option"
  nonlinear_IFrameResource :: string
  nonlinear_HTMLResource :: string
  nonlinear_AdParameters :: "VAdParameters option"
  nonlinear_NonLinearClickThrough :: string
  nonlinear_NonLinearClickTracking :: "string list"

record VNonLinearAds =
  nonlinearads_TrackingEvents :: "VTrackingEvents option"
  nonlinearads_NonLinear :: "VNonLinear list"

record VCompanion =
  companion_ID :: string
  companion_Width :: int
  companion_Height :: int
  companion_AssetWidth :: int
  companion_AssetHeight :: int
  companion_ExpandedWidth :: int
  companion_ExpandedHeight :: int
  companion_APIFramework :: string
  companion_AdSlotID :: string
  companion_StaticResource :: "VStaticResource option"
  companion_IFrameResource :: string
  companion_HTMLResource :: string
  companion_AdParameters :: "VAdParameters option"
  companion_AltText :: string
  companion_CompanionClickThrough :: string
  companion_CompanionClickTracking :: "string list"
  companion_TrackingEvents :: "VTrackingEvents option"

record VCompanionAds =
  companionads_Required :: string
  companionads_Companion :: "VCompanion list"

record VCreative =
  creative_ID :: string
  creative_AdID :: string
  creative_Sequence :: int
  creative_Linear :: "VLinear option"
  creative_NonLinearAds :: "VNonLinearAds option"
  creative_CompanionAds :: "VCompanionAds option"

record VCreatives =
  creatives_Creative :: "VCreative list"

record VExtension =
  extension_Type :: string
  extension_Data :: string

record VExtensions =
  extensions_Extension :: "VExtension list"

record 'd VInLine =
  inline_AdSystem :: VAdSystem
  inline_AdTitle :: string
  inline_Description :: string
  inline_Advertiser :: string
  inline_Pricing :: "'d VPricing option"
  inline_Survey :: "string list"
  inline_Error :: "string list"
  inline_Impression :: "VImpression list"
  inline_Creatives :: VCreatives
  inline_Extensions :: "VExtensions option"

record VWrapper =
  wrapper_AdSystem :: VAdSystem
  wrapper_VASTAdTagURI :: string
  wrapper_Error :: "string list"
  wrapper_Impression :: "VImpression list"
  wrapper_Creatives :: VCreatives
  wrapper_Extensions :: "VExtensions option"
  wrapper_FallbackOnNoAd :: bool

record 'd VAd =
  ad_ID :: string
  ad_Sequence :: int
  ad_InLine :: "'d VInLine option"
  ad_Wrapper :: "VWrapper option"

record 'd VAST =
  vast_Version :: string
  vast_Ads :: "'d VAd list"

record 'd VAdPod =
  adpod_ID :: string
  adpod_MaxDuration :: duration
  adpod_MinDuration :: duration
  adpod_MaxAds :: int
  adpod_MinAds :: int
  adpod_AdBreakType :: string
  adpod_Ads :: "'d VAd list"
  adpod_TotalDuration :: duration

record 'd VCTVAdRequest =
  ctvadrequest_DeviceID :: string
  ctvadrequest_AppID :: string
  ctvadrequest_ContentID :: string
  ctvadrequest_ContentGenre :: string
  ctvadrequest_ContentRating :: string
  ctvadrequest_AdPodSlots :: "'d VAdPod list"
  ctvadrequest_UserAgent :: string
  ctvadrequest_IP :: string
  ctvadrequest_Lat :: "'d"
  ctvadrequest_Lon :: "'d"
  ctvadrequest_DNT :: bool
  ctvadrequest_LMT :: bool
  ctvadrequest_COPPA :: bool

record 'd VCTVAdResponse =
  ctvadresponse_RequestID :: string
  ctvadresponse_AdPods :: "'d VAdPod list"
  ctvadresponse_VAST :: "'d VAST option"
  ctvadresponse_Errors :: "string list"

subsection \<open>Well-formed documents\<close>

text \<open>A linear creative needs a media file with a picture, a delivery method and a source.\<close>

definition media_ok :: "VMediaFile \<Rightarrow> bool" where
  "media_ok m \<longleftrightarrow> 0 < mediafile_Width m \<and> 0 < mediafile_Height m \<and> mediafile_URL m \<noteq> [] \<and>
     mediafile_Delivery m \<in> {''progressive'', ''streaming''} \<and> mediafile_Type m \<noteq> []"

definition creative_ok :: "VCreative \<Rightarrow> bool" where
  "creative_ok c \<longleftrightarrow>
     (case creative_Linear c of
        None \<Rightarrow> creative_NonLinearAds c \<noteq> None \<or> creative_CompanionAds c \<noteq> None
      | Some l \<Rightarrow> mediafiles_MediaFile (linear_MediaFiles l) \<noteq> [] \<and>
          list_all media_ok (mediafiles_MediaFile (linear_MediaFiles l)) \<and> linear_Duration l \<noteq> [])"

text \<open>An ad is either in line, with a system, a title, an impression and a creative, or a
  wrapper.\<close>

definition ad_ok :: "'d VAd \<Rightarrow> bool" where
  "ad_ok ad \<longleftrightarrow>
     (case (ad_InLine ad, ad_Wrapper ad) of
        (Some i, None) \<Rightarrow> adsystem_Name (inline_AdSystem i) \<noteq> [] \<and> inline_AdTitle i \<noteq> [] \<and>
          inline_Impression i \<noteq> [] \<and> creatives_Creative (inline_Creatives i) \<noteq> [] \<and>
          list_all creative_ok (creatives_Creative (inline_Creatives i))
      | (None, Some w) \<Rightarrow> wrapper_VASTAdTagURI w \<noteq> [] \<and> wrapper_Impression w \<noteq> []
      | _ \<Rightarrow> False)"

text \<open>A pod is played in the order of its sequence numbers, which count from one.\<close>

definition vast_ok :: "'d VAST \<Rightarrow> bool" where
  "vast_ok v \<longleftrightarrow> vast_Version v \<noteq> [] \<and> list_all ad_ok (vast_Ads v) \<and> distinct (map ad_ID (vast_Ads v)) \<and>
     map ad_Sequence (vast_Ads v) = map int [1..<length (vast_Ads v) + 1]"

end
