(* ===== verification/Publica.thy ===== *)
theory Publica
  imports Analytics Rtb Vast
begin

text \<open>
  \<^verbatim>\<open>pkg/publica/ssp_integration.go\<close>: the SSP integration, which asks all DSPs for one
  request, groups every bid into pods of six, tracks both ends with the analytics and builds a
  video ad template. The collection of the responses is the step relation \<open>rt_step\<close>.

  \<open>fl\<close> is \<open>InexactFloat64\<close> of the decimal library, \<open>fmt2\<close> the format \<open>%.2f\<close> and
  \<open>order\<close> the order in which a map is read. An index out of range and a nil pointer that is
  used are \<open>None\<close>.
\<close>

subsection \<open>Data\<close>

record 'd DSPConfig =
  df_ID :: string
  df_Name :: string
  df_Endpoint :: string
  df_BidderCode :: string
  df_Priority :: int
  df_MaxBid :: 'd
  df_Categories :: "string list"
  df_GeoTargets :: "string list"
  df_DeviceTypes :: "string list"

record 'd CachedPod =
  cp_ID :: string
  cp_VAST :: "'d VAST"
  cp_CreatedAt :: time
  cp_TTL :: duration

record 'd PodCache =
  pc_capacity :: int
  pc_pods :: "string \<rightharpoonup> 'd CachedPod"

record 'd PublicaSSP =
  pu_BidEndpoint :: string
  pu_VASTEndpoint :: string
  pu_ReportEndpoint :: string
  pu_PublisherID :: string
  pu_APIKey :: string
  pu_Timeout :: duration
  pu_MaxQPS :: int
  pu_DSPConnections :: "string \<rightharpoonup> 'd DSPConfig"
  pu_Analytics :: "'d AnalyticsTracker"
  pu_PodCache :: "'d PodCache"

record 'd DSPFilter =
  fi_GeoTargets :: "string list"
  fi_ContentTypes :: "string list"
  fi_MinCPM :: 'd
  fi_MaxCPM :: 'd
  fi_BlockedDomains :: "string list"

record 'd DSPRouter =
  ro_DSPs :: "string \<rightharpoonup> 'd DSPConnection"
  ro_Priorities :: "string \<rightharpoonup> int"
  ro_Filters :: "string \<rightharpoonup> 'd DSPFilter"

definition NewPodCache :: "int \<Rightarrow> 'd PodCache" where
  "NewPodCache capacity = \<lparr>pc_capacity = capacity, pc_pods = Map.empty\<rparr>"

definition NewPublicaSSP :: "string \<Rightarrow> string \<Rightarrow> 'd PublicaSSP" where
  "NewPublicaSSP publisherID apiKey =
     \<lparr>pu_BidEndpoint = ''https://ssp.publica.com/openrtb2/bid'',
      pu_VASTEndpoint = ''https://ssp.publica.com/vast/4.0'',
      pu_ReportEndpoint = ''https://analytics.publica.com/v1/events'',
      pu_PublisherID = publisherID, pu_APIKey = apiKey, pu_Timeout = 100 * 1000000, pu_MaxQPS = 1000,
      pu_DSPConnections = Map.empty, pu_Analytics = NewAnalyticsTracker, pu_PodCache = NewPodCache 1000\<rparr>"

definition AddDSP :: "'d DSPConfig \<Rightarrow> 'd PublicaSSP \<Rightarrow> 'd PublicaSSP" where
  "AddDSP config p = p\<lparr>pu_DSPConnections := (pu_DSPConnections p)(df_ID config \<mapsto> config)\<rparr>"

subsection \<open>Enriching the request\<close>

definition pod_extension :: "string \<Rightarrow> nat \<Rightarrow> nat \<Rightarrow> 'd::linordered_field val" where
  "pod_extension publisherID i n = VMap
     [''pod'' \<mapsto> VMap
        [''id'' \<mapsto> VStr (''pod-'' @ show_nat i), ''sequence'' \<mapsto> VNum (of_nat (i + 1)),
         ''maxseq'' \<mapsto> VNum (of_nat n), ''maxduration'' \<mapsto> VNum 120, ''minduration'' \<mapsto> VNum 15],
      ''publica'' \<mapsto> VMap
        [''publisher_id'' \<mapsto> VStr publisherID, ''ctv_enabled'' \<mapsto> VBool True,
         ''vast_version'' \<mapsto> VStr ''4.0'']]"

definition enrichRequest :: "'d::linordered_field OBidRequest \<Rightarrow> 'd PublicaSSP \<Rightarrow> 'd OBidRequest" where
  "enrichRequest request p = request\<lparr>oq_Imp :=
     map (\<lambda>i. let imp = oq_Imp request ! i in
            if oi_Video imp \<noteq> None
            then imp\<lparr>oi_Ext := RawVal (pod_extension (pu_PublisherID p) i (length (oq_Imp request)))\<rparr>
            else imp) [0..<length (oq_Imp request)]\<rparr>"

subsection \<open>Asking the DSPs\<close>

definition sendToDSP :: "time \<Rightarrow> 'd::linordered_field DSPConfig \<Rightarrow> 'd OBidRequest \<Rightarrow> 'd OBidResponse option" where
  "sendToDSP now dsp request =
     (if length (oq_Imp request) = 0 then None
      else Some \<lparr>op_ID = oq_ID request,
        op_SeatBid =
          [\<lparr>osb_Seat = df_BidderCode dsp,
            osb_Bid = [zero_obid\<lparr>ob_ID := df_ID dsp @ ''-bid-1'', ob_ImpID := oi_ID (oq_Imp request ! 0),
              ob_Price := 11 / 2, ob_AdM := ''<VAST>...</VAST>'', ob_CrID := ''creative-123''\<rparr>]\<rparr>],
        op_BidID = ''bid-'' @ df_ID dsp @ ''-'' @ show_nat (nat (unix now)), op_Cur = []\<rparr>)"

text \<open>The goroutines that have not answered, the channel, the responses, the rounds the loop
  has left, and whether the timer has fired. The \<open>break\<close> in the \<open>select\<close> only leaves the
  \<open>select\<close>, and the timer fires once.\<close>

record 'd route =
  rt_pending :: "string set"
  rt_chan :: "'d OBidResponse list"
  rt_responses :: "'d OBidResponse list"
  rt_left :: nat
  rt_fired :: bool
  rt_panic :: bool

definition rt_init :: "'d PublicaSSP \<Rightarrow> 'd route" where
  "rt_init p = \<lparr>rt_pending = dom (pu_DSPConnections p), rt_chan = [], rt_responses = [],
     rt_left = card (dom (pu_DSPConnections p)), rt_fired = False, rt_panic = False\<rparr>"

inductive rt_step :: "'d::linordered_field PublicaSSP \<Rightarrow> 'd OBidRequest \<Rightarrow> 'd route \<Rightarrow> 'd route \<Rightarrow> bool"
  for p request where
  rt_answer:
    "\<not> rt_panic s \<Longrightarrow> i \<in> rt_pending s \<Longrightarrow> pu_DSPConnections p i = Some d \<Longrightarrow>
     sendToDSP now d request = Some resp \<Longrightarrow>
     rt_step p request s (s\<lparr>rt_pending := rt_pending s - {i}, rt_chan := rt_chan s @ [resp]\<rparr>)"
| rt_answer_panic:
    "\<not> rt_panic s \<Longrightarrow> i \<in> rt_pending s \<Longrightarrow> pu_DSPConnections p i = Some d \<Longrightarrow>
     sendToDSP now d request = None \<Longrightarrow> rt_step p request s (s\<lparr>rt_panic := True\<rparr>)"
| rt_receive:
    "\<not> rt_panic s \<Longrightarrow> 0 < rt_left s \<Longrightarrow> rt_chan s = resp # rest \<Longrightarrow>
     rt_step p request s (s\<lparr>rt_chan := rest, rt_responses := rt_responses s @ [resp], rt_left := rt_left s - 1\<rparr>)"
| rt_timeout:
    "\<not> rt_panic s \<Longrightarrow> 0 < rt_left s \<Longrightarrow> \<not> rt_fired s \<Longrightarrow>
     rt_step p request s (s\<lparr>rt_fired := True, rt_left := rt_left s - 1\<rparr>)"

inductive_cases rt_stepE: "rt_step p request s t"

definition rt_reach :: "'d::linordered_field PublicaSSP \<Rightarrow> 'd OBidRequest \<Rightarrow> 'd route \<Rightarrow> bool" where
  "rt_reach p request s \<longleftrightarrow> (rt_step p request)\<^sup>*\<^sup>* (rt_init p) s"

subsection \<open>Auction and pods\<close>

definition pu_runAuction :: "'d OBidResponse list \<Rightarrow> 'd OBid list" where
  "pu_runAuction responses = concat (map (\<lambda>resp. concat (map osb_Bid (op_SeatBid resp))) responses)"

definition podSize :: nat where "podSize = 6"

function pod_loop :: "'d OBid list \<Rightarrow> nat \<Rightarrow> 'd OSeatBid list" where
  "pod_loop bids i =
     (if i < length bids
      then let end = (if i + podSize > length bids then length bids else i + podSize)
           in \<lparr>osb_Seat = ''publica-pod'', osb_Bid = take (end - i) (drop i bids)\<rparr> # pod_loop bids (i + podSize)
      else [])"
  by pat_completeness auto
termination
  by (relation "measure (\<lambda>(bids, i). length bids - i)") (auto simp: podSize_def)

declare pod_loop.simps [simp del]

definition assemblePods :: "time \<Rightarrow> 'd OBid list \<Rightarrow> 'd OBidRequest \<Rightarrow> 'd OBidResponse" where
  "assemblePods now bids request =
     \<lparr>op_ID = oq_ID request, op_SeatBid = pod_loop bids 0, op_BidID = ''pod-'' @ show_nat (nat (unix now)),
      op_Cur = []\<rparr>"

text \<open>\<open>HandleBidRequest\<close> with the responses of the collection that ended in \<open>s\<close>; \<open>request\<close>
  was enriched in place before the DSPs were asked. \<open>None\<close> is a panic.\<close>

definition HandleBidRequest ::
  "('d \<Rightarrow> u64) \<Rightarrow> time \<Rightarrow> time \<Rightarrow> time \<Rightarrow> duration \<Rightarrow> 'd route \<Rightarrow> 'd::linordered_field OBidRequest \<Rightarrow> 'd PublicaSSP \<Rightarrow>
   ('d OBidResponse \<times> 'd OBidRequest \<times> 'd PublicaSSP) option" where
  "HandleBidRequest to_u64 t1 t2 t3 elapsed s request p =
     (case TrackRequest t1 t2 request (pu_Analytics p) of
        None \<Rightarrow> None
      | Some analytics \<Rightarrow>
          let p1 = p\<lparr>pu_Analytics := analytics\<rparr>;
              enrichedRequest = enrichRequest request p1;
              winningBids = pu_runAuction (rt_responses s);
              podResponse = assemblePods t3 winningBids enrichedRequest
          in Some (podResponse, enrichedRequest,
               p1\<lparr>pu_Analytics := TrackResponse to_u64 (Some podResponse) elapsed (pu_Analytics p1)\<rparr>))"

subsection \<open>Routing\<close>

definition matches_geo :: "'d OBidRequest \<Rightarrow> 'd DSPFilter \<Rightarrow> bool" where
  "matches_geo request f =
     (case oq_Device request of
        Some device \<Rightarrow> (case od_Geo device of
            Some country \<Rightarrow> list_ex (\<lambda>target. country = target) (fi_GeoTargets f)
          | None \<Rightarrow> False)
      | None \<Rightarrow> False)"

definition pu_matchesFilter :: "('d \<Rightarrow> 'd) \<Rightarrow> 'd::linordered_field OBidRequest \<Rightarrow> 'd DSPFilter \<Rightarrow> bool" where
  "pu_matchesFilter fl request f =
     (if matches_geo request f then True
      else if list_ex (\<lambda>imp. oi_BidFloor imp < fl (fi_MinCPM f) \<or> fl (fi_MaxCPM f) < oi_BidFloor imp) (oq_Imp request)
      then False
      else True)"

definition Route ::
  "('d \<Rightarrow> 'd) \<Rightarrow> string list \<Rightarrow> 'd::linordered_field OBidRequest \<Rightarrow> 'd DSPRouter \<Rightarrow> 'd DSPConnection list" where
  "Route fl order request r =
     concat (map (\<lambda>i. case (ro_DSPs r i, ro_Filters r i) of
         (Some dsp, Some f) \<Rightarrow> if pu_matchesFilter fl request f then [dsp] else []
       | _ \<Rightarrow> []) order)"

subsection \<open>The video ad template\<close>

definition pu_media :: "'d OBid \<Rightarrow> VMediaFile" where
  "pu_media bid =
     \<lparr>mediafile_ID = [], mediafile_Delivery = ''progressive'', mediafile_Type = ''video/mp4'',
      mediafile_Bitrate = 4000, mediafile_MinBitrate = 0, mediafile_MaxBitrate = 0,
      mediafile_Width = 1920, mediafile_Height = 1080, mediafile_Scalable = False,
      mediafile_MaintainAspectRatio = False, mediafile_Codec = [], mediafile_APIFramework = [],
      mediafile_URL = ''https://cdn.adx.com/video/'' @ ob_CrID bid @ ''.mp4''\<rparr>"

definition pu_tracking :: "string \<Rightarrow> 'd OBid \<Rightarrow> VTracking list" where
  "pu_tracking endpoint bid =
     map (\<lambda>(event, key). \<lparr>tracking_Event = event, tracking_Offset = [],
            tracking_URL = endpoint @ ''?event='' @ key @ ''&creative='' @ ob_CrID bid\<rparr>)
       [(''start'', ''start''), (''firstQuartile'', ''q1''), (''midpoint'', ''mid''),
        (''thirdQuartile'', ''q3''), (''complete'', ''complete'')]"

definition pu_ad :: "('d \<Rightarrow> string) \<Rightarrow> string \<Rightarrow> string \<Rightarrow> nat \<Rightarrow> 'd OBid \<Rightarrow> 'd VAd" where
  "pu_ad fmt2 endpoint podID i bid =
     \<lparr>ad_ID = ''ad-'' @ podID @ ''-'' @ show_nat i, ad_Sequence = int i + 1,
      ad_InLine = Some
        \<lparr>inline_AdSystem = \<lparr>adsystem_Version = ''1.0'', adsystem_Name = ''ADX-Publica''\<rparr>,
         inline_AdTitle = ''CTV Ad '' @ show_nat (i + 1),
         inline_Description = ''Connected TV Advertisement'', inline_Advertiser = [],
         inline_Pricing = None, inline_Survey = [], inline_Error = [],
         inline_Impression =
           [\<lparr>impression_ID = ''imp-'' @ podID @ ''-'' @ show_nat i,
             impression_URL = endpoint @ ''?pod='' @ podID @ ''&ad='' @ show_nat i @ ''&price='' @ fmt2 (ob_Price bid)\<rparr>],
         inline_Creatives = \<lparr>creatives_Creative =
           [\<lparr>creative_ID = ob_CrID bid, creative_AdID = [], creative_Sequence = int i + 1,
             creative_Linear = Some
               \<lparr>linear_SkipOffset = [], linear_Duration = ''00:00:15'', linear_AdParameters = None,
                linear_MediaFiles = \<lparr>mediafiles_MediaFile = [pu_media bid], mediafiles_Mezzanine = None\<rparr>,
                linear_VideoClicks = None,
                linear_TrackingEvents = Some \<lparr>trackingevents_Tracking = pu_tracking endpoint bid\<rparr>,
                linear_Icons = None\<rparr>,
             creative_NonLinearAds = None, creative_CompanionAds = None\<rparr>]\<rparr>,
         inline_Extensions = None\<rparr>,
      ad_Wrapper = None\<rparr>"

definition GenerateVAST :: "('d \<Rightarrow> string) \<Rightarrow> string \<Rightarrow> 'd OBid list \<Rightarrow> 'd PublicaSSP \<Rightarrow> 'd VAST" where
  "GenerateVAST fmt2 podID ads p =
     \<lparr>vast_Version = ''4.0'',
      vast_Ads = map (\<lambda>i. pu_ad fmt2 (pu_ReportEndpoint p) podID i (ads ! i)) [0..<length ads]\<rparr>"

subsection \<open>Pods\<close>

lemma pod_loop_drop:
  "pod_loop bids i = (if i < length bids
     then \<lparr>osb_Seat = ''publica-pod'', osb_Bid = take 6 (drop i bids)\<rparr> # pod_loop bids (i + 6) else [])"
  by (subst pod_loop.simps) (simp add: podSize_def Let_def)

lemma pod_loop_concat: "concat (map osb_Bid (pod_loop bids i)) = drop i bids"
proof (induction bids i rule: pod_loop.induct)
  case (1 bids i)
  show ?case
  proof (cases "i < length bids")
    case True
    then have "concat (map osb_Bid (pod_loop bids (i + 6))) = drop (i + 6) bids"
      using 1 by (simp add: podSize_def)
    with True show ?thesis
      using append_take_drop_id [of 6 "drop i bids"] by (subst pod_loop_drop) (simp add: add.commute)
  qed (simp add: pod_loop.simps)
qed

lemma pod_loop_sizes:
  "seat \<in> set (pod_loop bids i) \<Longrightarrow> 0 < length (osb_Bid seat) \<and> length (osb_Bid seat) \<le> 6"
proof (induction bids i rule: pod_loop.induct)
  case (1 bids i)
  show ?case
  proof (cases "i < length bids")
    case True
    from 1(2) have "seat = \<lparr>osb_Seat = ''publica-pod'', osb_Bid = take 6 (drop i bids)\<rparr> \<or> seat \<in> set (pod_loop bids (i + 6))"
      using True by (subst (asm) pod_loop_drop) auto
    with 1(1) True show ?thesis by (auto simp: podSize_def)
  next
    case False
    with 1(2) show ?thesis by (simp add: pod_loop.simps)
  qed
qed

lemma pods_needed: "0 < d \<Longrightarrow> Suc ((d - 6 + 5) div 6) = (d + 5) div (6 :: nat)"
proof (cases "6 \<le> d")
  case True
  then have "d + 5 = (d - 6 + 5) + 6" by simp
  then show ?thesis by simp
next
  case False
  assume "0 < d"
  with False have "d \<in> {1, 2, 3, 4, 5}" by auto
  then show ?thesis by auto
qed

lemma pod_loop_length: "length (pod_loop bids i) = (length bids - i + 5) div 6"
proof (induction bids i rule: pod_loop.induct)
  case (1 bids i)
  show ?case
  proof (cases "i < length bids")
    case True
    then have IH: "length (pod_loop bids (i + 6)) = (length bids - (i + 6) + 5) div 6"
      using 1 by (simp add: podSize_def)
    have "length (pod_loop bids i) = Suc (length (pod_loop bids (i + 6)))"
      using True by (subst pod_loop_drop) simp
    also have "\<dots> = Suc ((length bids - i - 6 + 5) div 6)" by (simp only: IH diff_diff_left)
    also have "\<dots> = (length bids - i + 5) div 6" by (rule pods_needed) (use True in simp)
    finally show ?thesis .
  qed (simp add: pod_loop.simps)
qed

subsection \<open>Names of ads\<close>

lemma show_nat_nonempty: "show_nat n \<noteq> []"
  by (subst show_nat.simps) auto

definition digit_value :: "char \<Rightarrow> nat" where
  "digit_value c = of_char c - 48"

lemma digit_value_nth: "d < 10 \<Longrightarrow> digit_value (''0123456789'' ! d) = d"
proof -
  assume "d < 10"
  then have "d \<in> set [0..<10]" by simp
  then show ?thesis by (auto simp: upt_rec digit_value_def)
qed

lemma show_nat_value: "foldl (\<lambda>v c. 10 * v + digit_value c) 0 (show_nat n) = n"
proof (induction n rule: show_nat.induct)
  case (1 n)
  show ?case
  proof (cases "n < 10")
    case True
    then show ?thesis by (subst show_nat.simps) (simp add: digit_value_nth)
  next
    case False
    with 1 have "foldl (\<lambda>v c. 10 * v + digit_value c) 0 (show_nat (n div 10)) = n div 10" by simp
    with False show ?thesis by (subst show_nat.simps) (simp add: digit_value_nth)
  qed
qed

lemma show_nat_inj: "show_nat m = show_nat n \<longleftrightarrow> m = n"
  by (metis show_nat_value)

subsection \<open>The collection\<close>

definition rt_inv :: "'d::linordered_field PublicaSSP \<Rightarrow> 'd OBidRequest \<Rightarrow> 'd route \<Rightarrow> bool" where
  "rt_inv p request s \<longleftrightarrow> rt_pending s \<subseteq> dom (pu_DSPConnections p) \<and>
     length (rt_responses s) + rt_left s + (if rt_fired s then 1 else 0) = card (dom (pu_DSPConnections p)) \<and>
     length (rt_responses s @ rt_chan s) + card (rt_pending s) = card (dom (pu_DSPConnections p)) \<and>
     (\<forall>r\<in>set (rt_responses s @ rt_chan s). \<exists>d\<in>ran (pu_DSPConnections p). \<exists>now. sendToDSP now d request = Some r)"

lemma rt_step_inv [adx_inv]:
  assumes "rt_step p request s t" and "rt_inv p request s" and "finite (dom (pu_DSPConnections p))"
  shows "rt_inv p request t"
  using assms(1)
proof (cases rule: rt_step.cases)
  case (rt_answer i d now resp)
  have "finite (rt_pending s)" using assms(2,3) finite_subset by (auto simp: rt_inv_def)
  then have "card (rt_pending s) = Suc (card (rt_pending s - {i}))" using rt_answer(3) by (simp only: card_Suc_Diff1)
  moreover have "d \<in> ran (pu_DSPConnections p)" using rt_answer(4) by (rule ranI)
  ultimately show ?thesis using assms(2) rt_answer by (auto simp: rt_inv_def)
next
  case (rt_answer_panic i d now)
  then show ?thesis using assms(2) by (simp add: rt_inv_def)
next
  case (rt_receive resp rest)
  then show ?thesis using assms(2) by (auto simp: rt_inv_def)
next
  case rt_timeout
  then show ?thesis using assms(2) by (auto simp: rt_inv_def)
qed

lemma rt_reach_inv:
  assumes "rt_reach p request s" and "finite (dom (pu_DSPConnections p))" shows "rt_inv p request s"
proof -
  have "(rt_step p request)\<^sup>*\<^sup>* (rt_init p) s" using assms(1) by (simp add: rt_reach_def)
  then show ?thesis
  proof (induction rule: rtranclp_induct)
    case base
    show ?case by (simp add: rt_inv_def rt_init_def)
  next
    case (step t u)
    then show ?case using rt_step_inv [OF _ _ assms(2)] by blast
  qed
qed

lemma generated_ad_ok: "ad_ok (pu_ad fmt2 endpoint podID i bid)"
  by (simp add: ad_ok_def pu_ad_def creative_ok_def media_ok_def pu_media_def)

subsection \<open>Properties\<close>

text \<open>The timeout does not end the wait: the timer fires once and only uses up one round of
  the loop, so whenever the collection is over it holds the responses of all connected DSPs, or
  of all but one when the timer has fired, every one of them the answer of a connected DSP.\<close>

theorem timeout_costs_one_response:
  assumes "rt_reach p request s" and "rt_left s = 0" and "finite (dom (pu_DSPConnections p))"
  shows "length (rt_responses s) = card (dom (pu_DSPConnections p)) - (if rt_fired s then 1 else 0) \<and>
    card (rt_pending s) \<le> 1 \<and>
    (\<forall>r\<in>set (rt_responses s). \<exists>d\<in>ran (pu_DSPConnections p). \<exists>now. sendToDSP now d request = Some r)"
  using rt_reach_inv [OF assms(1,3)] assms(2) by (auto simp: rt_inv_def split: if_splits)

definition demo_imp :: "rat OImp" where
  "demo_imp = \<lparr>oi_ID = ''i'', oi_Banner = None, oi_Video = Some VNil, oi_Native = None, oi_BidFloor = 1,
     oi_BidFloorCur = ''USD'', oi_Secure = None, oi_Ext = RawNil\<rparr>"

definition demo_request :: "rat OBidRequest" where
  "demo_request = (zero_request ''q'')\<lparr>oq_Imp := [demo_imp],
     oq_Device := Some \<lparr>od_DeviceType = 3, od_Geo = Some ''FR''\<rparr>\<rparr>"

definition demo_config :: "rat DSPConfig" where
  "demo_config = \<lparr>df_ID = ''d1'', df_Name = [], df_Endpoint = [], df_BidderCode = ''b1'', df_Priority = 1,
     df_MaxBid = 10, df_Categories = [], df_GeoTargets = [], df_DeviceTypes = []\<rparr>"

definition demo_ssp :: "rat PublicaSSP" where
  "demo_ssp = AddDSP demo_config (NewPublicaSSP ''pub'' ''key'')"

lemma demo_ssp_dsps: "pu_DSPConnections demo_ssp = [''d1'' \<mapsto> demo_config]"
  by (simp add: demo_ssp_def AddDSP_def NewPublicaSSP_def demo_config_def)

lemma demo_timeout:
  "rt_reach demo_ssp demo_request ((rt_init demo_ssp)\<lparr>rt_fired := True, rt_left := 0\<rparr>)"
proof -
  have "rt_step demo_ssp demo_request (rt_init demo_ssp)
      ((rt_init demo_ssp)\<lparr>rt_fired := True, rt_left := rt_left (rt_init demo_ssp) - 1\<rparr>)"
    by (rule rt_timeout) (simp_all add: rt_init_def demo_ssp_dsps)
  then show ?thesis unfolding rt_reach_def by (simp add: rt_init_def demo_ssp_dsps r_into_rtranclp)
qed

theorem timeout_costs_one_response_witness:
  "\<exists>s. rt_reach demo_ssp demo_request s \<and> rt_left s = 0 \<and> length (rt_responses s) = 0"
  using timeout_costs_one_response [OF demo_timeout] demo_timeout by (auto simp: demo_ssp_dsps)

text \<open>The pods split the bids: put together in order they are exactly the collected bids, each
  holds between one and six, and there are as few as that allows.\<close>

theorem pods_partition_bids:
  "concat (map osb_Bid (op_SeatBid (assemblePods now bids request))) = bids \<and>
   list_all (\<lambda>seat. 0 < length (osb_Bid seat) \<and> length (osb_Bid seat) \<le> 6) (op_SeatBid (assemblePods now bids request)) \<and>
   length (op_SeatBid (assemblePods now bids request)) = (length bids + 5) div 6"
  using pod_loop_concat [of bids 0] pod_loop_length [of bids 0]
  by (auto simp: assemblePods_def list_all_iff dest: pod_loop_sizes)

text \<open>Every bid wins: the response to a handled request carries all bids of all responses in
  the order they came, none is left out or ranked, and the tracked revenue grows by the price of
  every one of them.\<close>

theorem every_bid_wins:
  assumes "HandleBidRequest to_u64 t1 t2 t3 elapsed s request p = Some (resp, request', p')"
  shows "concat (map osb_Bid (op_SeatBid resp)) = pu_runAuction (rt_responses s) \<and>
    at_TotalRevenue (pu_Analytics p') = at_TotalRevenue (pu_Analytics p) +
      sum_list (map (\<lambda>b. to_u64 (ob_Price b * 1000000)) (pu_runAuction (rt_responses s))) \<and>
    request' = enrichRequest request p"
proof -
  obtain a where a: "TrackRequest t1 t2 request (pu_Analytics p) = Some a"
    using assms by (auto simp: HandleBidRequest_def split: option.splits)
  have rev: "at_TotalRevenue a = at_TotalRevenue (pu_Analytics p)"
    using a by (auto simp: TrackRequest_def enqueue_request_def updateTimeSeries_def Let_def split: option.splits if_splits)
  have pods: "concat (map osb_Bid (op_SeatBid (assemblePods t3 bids rq))) = bids" for bids and rq :: "'a OBidRequest"
    using pod_loop_concat [of bids 0] by (simp add: assemblePods_def)
  have "resp = assemblePods t3 (pu_runAuction (rt_responses s)) request' \<and>
      pu_Analytics p' = TrackResponse to_u64 (Some resp) elapsed a \<and> request' = enrichRequest request p"
    using assms a by (auto simp: HandleBidRequest_def Let_def enrichRequest_def)
  then show ?thesis by (simp add: TrackResponse_revenue pods rev)
qed

theorem every_bid_wins_witness:
  "\<exists>resp rq p'. HandleBidRequest (\<lambda>_. 7) 0 0 0 0 (rt_init demo_ssp\<lparr>rt_responses :=
      [\<lparr>op_ID = [], op_SeatBid = [\<lparr>osb_Seat = [], osb_Bid = [demo_obid, demo_obid]\<rparr>], op_BidID = [], op_Cur = []\<rparr>]\<rparr>)
    demo_request demo_ssp = Some (resp, rq, p') \<and>
    concat (map osb_Bid (op_SeatBid resp)) = [demo_obid, demo_obid] \<and> at_TotalRevenue (pu_Analytics p') = 14"
proof -
  let ?s = "rt_init demo_ssp\<lparr>rt_responses :=
    [\<lparr>op_ID = [], op_SeatBid = [\<lparr>osb_Seat = [], osb_Bid = [demo_obid, demo_obid]\<rparr>], op_BidID = [], op_Cur = []\<rparr>]\<rparr>"
  have "\<exists>a. TrackRequest 0 0 demo_request (pu_Analytics demo_ssp) = Some a"
    by (simp add: TrackRequest_def enqueue_request_def extractPublisherID_def demo_request_def zero_request_def updateTimeSeries_def
        demo_ssp_def AddDSP_def NewPublicaSSP_def NewAnalyticsTracker_def second_ns_def signed_divide_int_def Let_def)
  then obtain resp rq p' where h: "HandleBidRequest (\<lambda>_. 7) 0 0 0 0 ?s demo_request demo_ssp = Some (resp, rq, p')"
    by (auto simp: HandleBidRequest_def Let_def)
  have "at_TotalRevenue (pu_Analytics demo_ssp) = 0"
    by (simp add: demo_ssp_def AddDSP_def NewPublicaSSP_def NewAnalyticsTracker_def)
  with every_bid_wins [OF h] h show ?thesis
    by (intro exI [of _ resp] exI [of _ rq] exI [of _ p']) (simp add: pu_runAuction_def)
qed

text \<open>What a player reads from the ads of a document: the creatives, the files it can play, and
  the addresses it reports the impression and the progress to.\<close>

definition ad_creatives :: "'d VAd \<Rightarrow> VCreative list" where
  "ad_creatives ad =
     (case ad_InLine ad of None \<Rightarrow> [] | Some i \<Rightarrow> creatives_Creative (inline_Creatives i))"

definition ad_linears :: "'d VAd \<Rightarrow> VLinear list" where
  "ad_linears ad = List.map_filter creative_Linear (ad_creatives ad)"

definition ad_files :: "'d VAd \<Rightarrow> string list" where
  "ad_files ad = concat (map (\<lambda>l. map mediafile_URL (mediafiles_MediaFile (linear_MediaFiles l))) (ad_linears ad))"

definition ad_impressions :: "'d VAd \<Rightarrow> string list" where
  "ad_impressions ad =
     (case ad_InLine ad of None \<Rightarrow> [] | Some i \<Rightarrow> map impression_URL (inline_Impression i))"

definition ad_events :: "'d VAd \<Rightarrow> (string \<times> string) list" where
  "ad_events ad = concat (map (\<lambda>l. case linear_TrackingEvents l of None \<Rightarrow> []
     | Some ev \<Rightarrow> map (\<lambda>t. (tracking_Event t, tracking_URL t)) (trackingevents_Tracking ev)) (ad_linears ad))"

lemma ad_of_bid:
  "map creative_ID (ad_creatives (pu_ad fmt2 endpoint podID i bid)) = [ob_CrID bid]"
  "ad_files (pu_ad fmt2 endpoint podID i bid) = [''https://cdn.adx.com/video/'' @ ob_CrID bid @ ''.mp4'']"
  "ad_impressions (pu_ad fmt2 endpoint podID i bid) =
     [endpoint @ ''?pod='' @ podID @ ''&ad='' @ show_nat i @ ''&price='' @ fmt2 (ob_Price bid)]"
  "map fst (ad_events (pu_ad fmt2 endpoint podID i bid)) =
     [''start'', ''firstQuartile'', ''midpoint'', ''thirdQuartile'', ''complete'']"
  by (simp_all add: ad_creatives_def ad_linears_def ad_files_def ad_impressions_def ad_events_def pu_ad_def
      pu_media_def pu_tracking_def List.map_filter_def)

text \<open>C33: The generated template serves the bids, one ad for each, in their order: for any bids
  \<open>GenerateVAST\<close> returns a well-formed document (in-line ads with a playable linear creative and an
  impression, distinct names, sequence numbers that count from one) with as many ads as bids, where
  the \<open>i\<close>-th ad has the creative of the \<open>i\<close>-th bid and nothing else, plays that creative's file,
  reports its one impression with the pod, its index and the bid's price, and reports the five
  playback events once each.\<close>

theorem generated_vast_is_well_formed:
  "vast_ok (GenerateVAST fmt2 podID ads p) \<and>
   map (\<lambda>ad. map creative_ID (ad_creatives ad)) (vast_Ads (GenerateVAST fmt2 podID ads p)) =
     map (\<lambda>bid. [ob_CrID bid]) ads \<and>
   map ad_files (vast_Ads (GenerateVAST fmt2 podID ads p)) =
     map (\<lambda>bid. [''https://cdn.adx.com/video/'' @ ob_CrID bid @ ''.mp4'']) ads \<and>
   map ad_impressions (vast_Ads (GenerateVAST fmt2 podID ads p)) =
     map (\<lambda>(i, bid). [pu_ReportEndpoint p @ ''?pod='' @ podID @ ''&ad='' @ show_nat i @
       ''&price='' @ fmt2 (ob_Price bid)]) (enumerate 0 ads) \<and>
   map (\<lambda>ad. map fst (ad_events ad)) (vast_Ads (GenerateVAST fmt2 podID ads p)) =
     map (\<lambda>_. [''start'', ''firstQuartile'', ''midpoint'', ''thirdQuartile'', ''complete'']) ads"
proof -
  have "map ad_Sequence (vast_Ads (GenerateVAST fmt2 podID ads p)) = map int [1..<length ads + 1]"
    by (rule nth_equalityI) (simp_all add: GenerateVAST_def pu_ad_def del: upt_Suc)
  then have "vast_ok (GenerateVAST fmt2 podID ads p)"
    by (simp add: vast_ok_def GenerateVAST_def list_all_iff generated_ad_ok distinct_map inj_on_def)
      (simp add: pu_ad_def show_nat_inj)
  then show ?thesis
    by (intro conjI) (assumption | rule nth_equalityI,
      simp_all add: GenerateVAST_def ad_of_bid nth_enumerate_eq)+
qed

text \<open>A country outside a filter's targets does not keep a DSP out: a filter lets a request
  through when the country is targeted, whatever the floors, and also when all floors lie in its
  price range, whatever the country.\<close>

theorem filter_targets_do_not_exclude:
  "pu_matchesFilter fl request f \<longleftrightarrow>
    (\<exists>device country. oq_Device request = Some device \<and> od_Geo device = Some country \<and> country \<in> set (fi_GeoTargets f)) \<or>
    list_all (\<lambda>imp. fl (fi_MinCPM f) \<le> oi_BidFloor imp \<and> oi_BidFloor imp \<le> fl (fi_MaxCPM f)) (oq_Imp request)"
  by (force simp: pu_matchesFilter_def matches_geo_def list_ex_iff list_all_iff not_less not_le split: option.splits)

end
