(* ===== verification/MockStorage.thy ===== *)
theory MockStorage
  imports Complex_Main OpenRtb
begin

text \<open>
  \<^verbatim>\<open>pkg/storage/mock_backend.go\<close>: the in-memory backend, with its stores of impressions,
  bids and miner earnings, the buffer its background writer empties in batches, and its
  metrics.

  Stored records are pointers that nothing changes after they are stored, so a store maps to
  values. \<open>order\<close> is the order in which Go reads a map. Decimals are values of an ordered
  field and \<open>div_dec\<close> is the division of the decimal library. The retention period of 30
  days is counted in days of 24 hours.
\<close>

subsection \<open>Data\<close>

record WriteOp =
  wo_Type :: string
  wo_Key :: bytes
  wo_Value :: bytes
  wo_Timestamp :: time

record 'd ImpressionRecord =
  ir_ID :: string
  ir_Timestamp :: time
  ir_PublisherID :: string
  ir_PlacementID :: string
  ir_MinerID :: string
  ir_UserID :: string
  ir_DeviceType :: string
  ir_GeoCountry :: string
  ir_GeoRegion :: string
  ir_Price :: 'd
  ir_WinningDSP :: string
  ir_AdPodID :: string
  ir_VideoURL :: string
  ir_Duration :: int
  ir_Completed :: bool

record 'd BidRecord =
  br_ID :: string
  br_Timestamp :: time
  br_BidRequest :: string
  br_DSPID :: string
  br_BidPrice :: 'd
  br_Won :: bool
  br_ResponseTime :: duration
  br_CreativeID :: string

record 'd FDBBackend =
  fb_impressionStore :: "string \<rightharpoonup> 'd ImpressionRecord"
  fb_bidStore :: "string \<rightharpoonup> 'd BidRecord"
  fb_minerEarnings :: "string \<rightharpoonup> 'd"
  fb_writeBuffer :: "WriteOp list"
  fb_closed :: bool
  fb_bufferSize :: int
  fb_writeCount :: u64
  fb_readCount :: u64
  fb_errorCount :: u64

record 'd StoredPublisherStats =
  sp_PublisherID :: string
  sp_TotalImpressions :: u64
  sp_TotalRevenue :: 'd
  sp_UniqueUsers :: "string \<rightharpoonup> bool"
  sp_FillRate :: 'd
  sp_eCPM :: 'd

subsection \<open>Operations\<close>

definition NewFDBBackend :: "string \<Rightarrow> 'd FDBBackend" where
  "NewFDBBackend clusterFile =
     \<lparr>fb_impressionStore = Map.empty, fb_bidStore = Map.empty, fb_minerEarnings = Map.empty,
      fb_writeBuffer = [], fb_closed = False, fb_bufferSize = 100000,
      fb_writeCount = 0, fb_readCount = 0, fb_errorCount = 0\<rparr>"

definition StoreImpression :: "'d ImpressionRecord \<Rightarrow> 'd FDBBackend \<Rightarrow> 'd FDBBackend" where
  "StoreImpression impression f =
     f\<lparr>fb_impressionStore := (fb_impressionStore f)(ir_ID impression \<mapsto> impression),
       fb_writeCount := fb_writeCount f + 1\<rparr>"

definition StoreBid :: "'d BidRecord \<Rightarrow> 'd FDBBackend \<Rightarrow> 'd FDBBackend" where
  "StoreBid bid f =
     f\<lparr>fb_bidStore := (fb_bidStore f)(br_ID bid \<mapsto> bid), fb_writeCount := fb_writeCount f + 1\<rparr>"

definition StoreBidRequest :: "'r \<Rightarrow> 'd FDBBackend \<Rightarrow> 'd FDBBackend" where
  "StoreBidRequest request f = f\<lparr>fb_writeCount := fb_writeCount f + 1\<rparr>"

definition flushBatch :: "WriteOp list \<Rightarrow> 'd FDBBackend \<Rightarrow> 'd FDBBackend" where
  "flushBatch batch f = f\<lparr>fb_writeCount := fb_writeCount f + of_nat (length batch)\<rparr>"

text \<open>The two cases of the background writer's \<open>select\<close>, on its batch and the backend. A
  receive takes the next operation, or the zero operation once the channel is closed and
  empty; it is not ready on an open, empty channel.\<close>

definition zero_op :: WriteOp where
  "zero_op = \<lparr>wo_Type = [], wo_Key = [], wo_Value = [], wo_Timestamp = 0\<rparr>"

definition writer_receive ::
  "WriteOp list \<times> 'd FDBBackend \<Rightarrow> (WriteOp list \<times> 'd FDBBackend) option" where
  "writer_receive s =
     (case s of (batch, f) \<Rightarrow>
        (case (case fb_writeBuffer f of
                 op # rest \<Rightarrow> Some (op, f\<lparr>fb_writeBuffer := rest\<rparr>)
               | [] \<Rightarrow> if fb_closed f then Some (zero_op, f) else None) of
           None \<Rightarrow> None
         | Some (op, f1) \<Rightarrow>
             let batch1 = batch @ [op]
             in if 1000 \<le> length batch1 then Some ([], flushBatch batch1 f1)
                else Some (batch1, f1)))"

definition writer_tick :: "WriteOp list \<times> 'd FDBBackend \<Rightarrow> WriteOp list \<times> 'd FDBBackend" where
  "writer_tick s =
     (case s of (batch, f) \<Rightarrow> if 0 < length batch then ([], flushBatch batch f) else (batch, f))"

inductive writer_step :: "WriteOp list \<times> 'd FDBBackend \<Rightarrow> WriteOp list \<times> 'd FDBBackend \<Rightarrow> bool" where
  writer_op: "writer_receive s = Some t \<Longrightarrow> writer_step s t"
| writer_timer: "writer_step s (writer_tick s)"

inductive_simps writer_step_iff: "writer_step s t"

text \<open>The loop over the impressions; \<open>None\<close> is the negative capacity.\<close>

fun impressions_loop ::
  "time \<Rightarrow> time \<Rightarrow> int \<Rightarrow> 'd ImpressionRecord list \<Rightarrow> 'd ImpressionRecord list \<Rightarrow> 'd ImpressionRecord list" where
  "impressions_loop start stop maxCount found [] = found"
| "impressions_loop start stop maxCount found (imp # imps) =
     (if start < ir_Timestamp imp \<and> ir_Timestamp imp < stop
      then let found' = found @ [imp]
           in if maxCount \<le> int (length found') then found' else impressions_loop start stop maxCount found' imps
      else impressions_loop start stop maxCount found imps)"

definition in_order :: "string list \<Rightarrow> (string \<rightharpoonup> 'v) \<Rightarrow> 'v list" where
  "in_order order m = map (\<lambda>k. the (m k)) order"

definition GetImpressions ::
  "string list \<Rightarrow> time \<Rightarrow> time \<Rightarrow> int \<Rightarrow> 'd FDBBackend \<Rightarrow> ('d ImpressionRecord list \<times> 'd FDBBackend) option" where
  "GetImpressions order start stop maxCount f =
     (if maxCount < 0 then None
      else
        let impressions = impressions_loop start stop maxCount [] (in_order order (fb_impressionStore f))
        in Some (impressions, f\<lparr>fb_readCount := fb_readCount f + of_nat (length impressions)\<rparr>))"

definition stats_step ::
  "string \<Rightarrow> time \<Rightarrow> time \<Rightarrow> 'd::linordered_field ImpressionRecord \<Rightarrow> 'd StoredPublisherStats \<Rightarrow> 'd StoredPublisherStats" where
  "stats_step publisherID start stop imp stats =
     (if ir_PublisherID imp = publisherID \<and> start < ir_Timestamp imp \<and> ir_Timestamp imp < stop
      then stats\<lparr>sp_TotalImpressions := sp_TotalImpressions stats + 1,
                 sp_TotalRevenue := sp_TotalRevenue stats + ir_Price imp,
                 sp_UniqueUsers := (sp_UniqueUsers stats)(ir_UserID imp \<mapsto> True)\<rparr>
      else stats)"

definition GetPublisherStats ::
  "('d \<Rightarrow> 'd \<Rightarrow> 'd) \<Rightarrow> string list \<Rightarrow> string \<Rightarrow> time \<Rightarrow> time \<Rightarrow> 'd::linordered_field FDBBackend \<Rightarrow> 'd StoredPublisherStats" where
  "GetPublisherStats div_dec order publisherID start stop f =
     (let stats = fold (stats_step publisherID start stop) (in_order order (fb_impressionStore f))
            \<lparr>sp_PublisherID = publisherID, sp_TotalImpressions = 0, sp_TotalRevenue = 0,
             sp_UniqueUsers = Map.empty, sp_FillRate = 0, sp_eCPM = 0\<rparr>
      in if 0 < sp_TotalImpressions stats
         then stats\<lparr>sp_FillRate := 85 / 100,
                    sp_eCPM := div_dec (sp_TotalRevenue stats) (of_int (sint (sp_TotalImpressions stats))) * 1000\<rparr>
         else stats)"

definition GetMinerEarnings :: "string \<Rightarrow> 'd::zero FDBBackend \<Rightarrow> 'd" where
  "GetMinerEarnings minerID f = (case fb_minerEarnings f minerID of Some e \<Rightarrow> e | None \<Rightarrow> 0)"

definition UpdateMinerEarnings :: "string \<Rightarrow> 'd::linordered_field \<Rightarrow> 'd FDBBackend \<Rightarrow> 'd FDBBackend" where
  "UpdateMinerEarnings minerID amount f =
     (let current = (case fb_minerEarnings f minerID of Some e \<Rightarrow> e | None \<Rightarrow> 0)
      in f\<lparr>fb_minerEarnings := (fb_minerEarnings f)(minerID \<mapsto> current + amount),
           fb_writeCount := fb_writeCount f + 1\<rparr>)"

definition Storage_GetMetrics :: "'d FDBBackend \<Rightarrow> string \<rightharpoonup> u64" where
  "Storage_GetMetrics f =
     [''writes'' \<mapsto> fb_writeCount f, ''reads'' \<mapsto> fb_readCount f, ''errors'' \<mapsto> fb_errorCount f]"

text \<open>Closing a closed channel panics.\<close>

definition Storage_Close :: "'d FDBBackend \<Rightarrow> 'd FDBBackend option" where
  "Storage_Close f = (if fb_closed f then None else Some (f\<lparr>fb_closed := True\<rparr>))"

definition retention :: duration where
  "retention = 30 * (24 * 3600 * second_ns)"

definition Optimize :: "time \<Rightarrow> 'd FDBBackend \<Rightarrow> 'd FDBBackend" where
  "Optimize now f =
     (let cutoff = now - retention
      in f\<lparr>fb_impressionStore := (\<lambda>k. case fb_impressionStore f k of
              Some imp \<Rightarrow> if ir_Timestamp imp < cutoff then None else Some imp | None \<Rightarrow> None),
           fb_bidStore := (\<lambda>k. case fb_bidStore f k of
              Some bid \<Rightarrow> if br_Timestamp bid < cutoff then None else Some bid | None \<Rightarrow> None)\<rparr>)"

subsection \<open>What a keyed store promises\<close>

locale keyed_store =
  fixes put :: "'v \<Rightarrow> 's \<Rightarrow> 's"
    and get :: "string \<Rightarrow> 's \<Rightarrow> 'v option"
    and key :: "'v \<Rightarrow> string"
  assumes get_put: "get k (put v s) = (if k = key v then Some v else get k s)"
begin

text \<open>The value last stored under a key.\<close>

lemma get_run:
  "get k (fold put vs s) = (case filter (\<lambda>v. key v = k) vs of [] \<Rightarrow> get k s | w # ws \<Rightarrow> Some (last (w # ws)))"
proof (induction vs arbitrary: s)
  case (Cons v vs)
  then show ?case by (auto simp: get_put split: list.splits)
qed simp

end

interpretation impressions: keyed_store StoreImpression "\<lambda>k f. fb_impressionStore f k" ir_ID
  by unfold_locales (simp add: StoreImpression_def)

interpretation bids: keyed_store StoreBid "\<lambda>k f. fb_bidStore f k" br_ID
  by unfold_locales (simp add: StoreBid_def)
subsection \<open>The background writer\<close>

text \<open>What holds between the backend \<open>f\<close> the writer started on and a later moment: a first part
  of the channel's operations has been flushed, the next part is the batch, the rest is still in
  the channel, and only the channel and the counter of the backend have changed.\<close>

definition writer_inv :: "'d FDBBackend \<Rightarrow> WriteOp list \<times> 'd FDBBackend \<Rightarrow> bool" where
  "writer_inv f s \<longleftrightarrow> (\<exists>flushed. fb_writeBuffer f = flushed @ fst s @ fb_writeBuffer (snd s) \<and>
     snd s = f\<lparr>fb_writeBuffer := fb_writeBuffer (snd s),
               fb_writeCount := fb_writeCount f + of_nat (length flushed)\<rparr>)"

lemma writer_invI:
  assumes "fb_writeBuffer f = flushed @ batch @ rest"
    and "g = f\<lparr>fb_writeBuffer := rest, fb_writeCount := fb_writeCount f + of_nat (length flushed)\<rparr>"
  shows "writer_inv f (batch, g)"
  unfolding writer_inv_def by (intro exI [of _ flushed]) (simp add: assms)

lemma writer_inv_step:
  assumes "writer_step s t" "writer_inv f s" "\<not> fb_closed f"
  shows "writer_inv f t"
proof -
  obtain batch g where s: "s = (batch, g)" by fastforce
  obtain flushed rest where i: "fb_writeBuffer f = flushed @ batch @ rest"
    "g = f\<lparr>fb_writeBuffer := rest, fb_writeCount := fb_writeCount f + of_nat (length flushed)\<rparr>"
    using assms(2) unfolding writer_inv_def s fst_conv snd_conv by blast
  consider "writer_receive s = Some t" | "t = writer_tick s"
    using assms(1) by (auto simp: writer_step_iff)
  then show ?thesis
  proof cases
    case 1
    then obtain c cs where rest: "rest = c # cs"
      using assms(3) by (cases rest) (auto simp: writer_receive_def s i(2))
    show ?thesis
    proof (cases "1000 \<le> length (batch @ [c])")
      case True
      with 1 have t: "t = ([], flushBatch (batch @ [c]) (g\<lparr>fb_writeBuffer := cs\<rparr>))"
        by (simp add: writer_receive_def s i(2) rest)
      show ?thesis
        unfolding t by (rule writer_invI [of _ "flushed @ batch @ [c]" _ cs])
          (simp_all add: i rest flushBatch_def add.assoc)
    next
      case False
      with 1 have t: "t = (batch @ [c], g\<lparr>fb_writeBuffer := cs\<rparr>)"
        by (simp add: writer_receive_def s i(2) rest)
      show ?thesis
        unfolding t by (rule writer_invI [of _ flushed _ cs]) (simp_all add: i rest)
    qed
  next
    case 2
    show ?thesis
    proof (cases "batch = []")
      case True
      then show ?thesis using 2 assms(2) by (simp add: writer_tick_def s)
    next
      case False
      with 2 have t: "t = ([], flushBatch batch g)" by (simp add: writer_tick_def s)
      show ?thesis
        unfolding t by (rule writer_invI [of _ "flushed @ batch" _ rest])
          (simp_all add: i flushBatch_def add.assoc)
    qed
  qed
qed

lemma writer_step_batch_bound:
  assumes "writer_step s t" "length (fst s) < 1000"
  shows "length (fst t) < 1000"
proof -
  consider "writer_receive s = Some t" | "t = writer_tick s"
    using assms(1) by (auto simp: writer_step_iff)
  then show ?thesis
  proof cases
    case 1
    then show ?thesis
      using assms(2) by (cases s) (auto simp: writer_receive_def Let_def split: list.splits if_splits)
  next
    case 2
    then show ?thesis using assms(2) by (cases s) (auto simp: writer_tick_def)
  qed
qed

text \<open>The batch stays below its capacity, so appending to it never grows its array.\<close>

lemma writer_batch_bound:
  assumes "writer_step\<^sup>*\<^sup>* ([], f) (batch, g)"
  shows "length batch < 1000"
proof -
  have "length (fst (batch, g)) < 1000"
    using assms by (induction rule: rtranclp_induct) (auto intro: writer_step_batch_bound)
  then show ?thesis by simp
qed

text \<open>C31: What the background writer of an open backend does with the operations that are in its
  channel when it starts (no code of the repository sends any), whatever the order of receives and
  ticks: it takes them in order, each once; the last ones it took, fewer than 1000, wait in its
  batch; and all earlier ones have been counted once and are gone. Of the backend, only the channel
  and the write counter have changed: none of the operations is stored, although the comment of
  \<open>flushBatch\<close> says that it writes the batch.\<close>

theorem writer_counts_every_operation:
  assumes "writer_step\<^sup>*\<^sup>* ([], f) (batch, g)" "\<not> fb_closed f"
  shows "length batch < 1000 \<and>
    (\<exists>flushed rest. fb_writeBuffer f = flushed @ batch @ rest \<and>
       g = f\<lparr>fb_writeBuffer := rest, fb_writeCount := fb_writeCount f + of_nat (length flushed)\<rparr>)"
proof -
  have "writer_inv f ([], f)" by (cases f) (rule writer_invI [of _ "[]"], simp_all)
  with assms(1) have "writer_inv f (batch, g)"
  proof (induction "(batch, g)" arbitrary: batch g rule: rtranclp_induct)
    case (step y)
    then show ?case using writer_inv_step [OF step.hyps(2) _ assms(2)] by (cases y) simp
  qed simp
  then have "\<exists>flushed rest. fb_writeBuffer f = flushed @ batch @ rest \<and>
       g = f\<lparr>fb_writeBuffer := rest, fb_writeCount := fb_writeCount f + of_nat (length flushed)\<rparr>"
    unfolding writer_inv_def fst_conv snd_conv by blast
  with writer_batch_bound [OF assms(1)] show ?thesis by blast
qed

definition demo_backend :: "rat FDBBackend" where
  "demo_backend = (NewFDBBackend [])\<lparr>fb_writeBuffer := [zero_op, zero_op]\<rparr>"

lemma demo_backend_receive:
  "writer_step ([], demo_backend) ([zero_op], demo_backend\<lparr>fb_writeBuffer := [zero_op]\<rparr>)"
  by (rule writer_op) (simp add: writer_receive_def demo_backend_def)

theorem writer_counts_every_operation_witness:
  "\<exists>flushed rest. fb_writeBuffer demo_backend = flushed @ [zero_op] @ rest \<and>
     demo_backend\<lparr>fb_writeBuffer := [zero_op]\<rparr> =
       demo_backend\<lparr>fb_writeBuffer := rest, fb_writeCount := fb_writeCount demo_backend + of_nat (length flushed)\<rparr>"
proof -
  have "\<not> fb_closed demo_backend" by (simp add: demo_backend_def NewFDBBackend_def)
  from writer_counts_every_operation [OF r_into_rtranclp [where r = writer_step, OF demo_backend_receive] this]
  show ?thesis by (rule conjunct2)
qed

text \<open>Nothing stops the writer: once the channel is closed and empty, every receive yields the
  zero operation.\<close>

lemma closed_receive:
  assumes "fb_closed f" "fb_writeBuffer f = []" "length batch < 999"
  shows "writer_step (batch, f) (batch @ [zero_op], f)"
  using assms(3) by (intro writer_op) (simp add: writer_receive_def Let_def assms(1,2))

lemma closed_fill:
  assumes "fb_closed f" "fb_writeBuffer f = []" "n \<le> 999"
  shows "writer_step\<^sup>*\<^sup>* ([], f) (replicate n zero_op, f)"
  using assms(3)
proof (induction n)
  case (Suc n)
  then have "writer_step\<^sup>*\<^sup>* ([], f) (replicate n zero_op, f)" by simp
  moreover have "writer_step (replicate n zero_op, f) (replicate (Suc n) zero_op, f)"
    using closed_receive [OF assms(1,2), of "replicate n zero_op"] Suc.prems
    by (simp add: replicate_append_same del: replicate_Suc) (simp add: replicate_append_same)
  ultimately show ?case by (rule rtranclp.rtrancl_into_rtrancl)
qed simp

lemma closed_round:
  assumes "fb_closed f" "fb_writeBuffer f = []"
  shows "writer_step\<^sup>*\<^sup>* ([], f) ([], f\<lparr>fb_writeCount := fb_writeCount f + 1000\<rparr>)"
proof -
  have "writer_step (replicate 999 zero_op, f) ([], f\<lparr>fb_writeCount := fb_writeCount f + 1000\<rparr>)"
    by (rule writer_op) (simp add: writer_receive_def flushBatch_def assms)
  then show ?thesis
    by (rule rtranclp.rtrancl_into_rtrancl [OF closed_fill [OF assms order_refl]])
qed

text \<open>Closing the backend does not stop its background writer: on a closed backend with an
  empty channel it keeps receiving zero operations, and for every \<open>n\<close> it can reach a state in
  which it has counted \<open>1000 * n\<close> writes that nobody made.\<close>

lemma closed_writer_counts_forever:
  assumes "fb_closed f" "fb_writeBuffer f = []"
  shows "writer_step\<^sup>*\<^sup>* ([], f) ([], f\<lparr>fb_writeCount := fb_writeCount f + of_nat (1000 * n)\<rparr>)"
proof (induction n)
  case (Suc n)
  let ?g = "f\<lparr>fb_writeCount := fb_writeCount f + of_nat (1000 * n)\<rparr>"
  have round: "writer_step\<^sup>*\<^sup>* ([], ?g) ([], ?g\<lparr>fb_writeCount := fb_writeCount ?g + 1000\<rparr>)"
    by (rule closed_round) (simp_all add: assms)
  have "?g\<lparr>fb_writeCount := fb_writeCount ?g + 1000\<rparr>
      = f\<lparr>fb_writeCount := fb_writeCount f + of_nat (1000 * Suc n)\<rparr>"
    by (simp add: algebra_simps)
  then show ?case using rtranclp_trans [where r = writer_step, OF Suc.IH round] by (simp only:)
qed simp

definition closed_backend :: "rat FDBBackend" where
  "closed_backend = (NewFDBBackend [])\<lparr>fb_closed := True\<rparr>"

lemma closed_writer_counts_forever_witness:
  "Storage_Close (NewFDBBackend [] :: rat FDBBackend) = Some closed_backend
   \<and> writer_step\<^sup>*\<^sup>* ([], closed_backend)
       ([], closed_backend\<lparr>fb_writeCount := fb_writeCount closed_backend + of_nat (1000 * 7)\<rparr>)"
proof
  show "Storage_Close (NewFDBBackend [] :: rat FDBBackend) = Some closed_backend"
    by (simp add: Storage_Close_def NewFDBBackend_def closed_backend_def)
  show "writer_step\<^sup>*\<^sup>* ([], closed_backend)
       ([], closed_backend\<lparr>fb_writeCount := fb_writeCount closed_backend + of_nat (1000 * 7)\<rparr>)"
    by (rule closed_writer_counts_forever) (simp_all add: closed_backend_def NewFDBBackend_def)
qed

subsection \<open>Queries\<close>

definition in_window :: "time \<Rightarrow> time \<Rightarrow> 'd ImpressionRecord \<Rightarrow> bool" where
  "in_window start stop imp \<longleftrightarrow> start < ir_Timestamp imp \<and> ir_Timestamp imp < stop"

lemma impressions_loop_take:
  assumes "int (length found) < maxCount \<or> found = []"
  shows "impressions_loop start stop maxCount found imps
         = found @ take (nat (max 1 maxCount) - length found) (filter (in_window start stop) imps)"
  using assms
proof (induction imps arbitrary: found)
  case (Cons imp imps)
  show ?case
  proof (cases "in_window start stop imp")
    case False
    then show ?thesis
      using Cons.IH [OF Cons.prems] by (auto simp: in_window_def)
  next
    case True
    then have w: "start < ir_Timestamp imp" "ir_Timestamp imp < stop"
      by (simp_all add: in_window_def)
    have pos: "nat (max 1 maxCount) - length found
        = Suc (nat (max 1 maxCount) - Suc (length found))"
      using Cons.prems by auto
    show ?thesis
    proof (cases "maxCount \<le> int (length found) + 1")
      case stop: True
      then have "nat (max 1 maxCount) - Suc (length found) = 0" by simp
      then show ?thesis using w True stop by (simp add: Let_def pos)
    next
      case False
      then show ?thesis
        using w True pos Cons.IH [of "found @ [imp]"] by (simp add: Let_def)
    qed
  qed
qed simp

text \<open>A query returns, in the order in which Go reads the map, the first \<open>limit\<close>
  impressions strictly inside the time range and counts them as reads; a limit of zero still
  returns one.\<close>

lemma GetImpressions_result:
  assumes "0 \<le> maxCount"
  shows "GetImpressions order start stop maxCount f =
    (let found = take (nat (max 1 maxCount))
                   (filter (in_window start stop) (in_order order (fb_impressionStore f)))
     in Some (found, f\<lparr>fb_readCount := fb_readCount f + of_nat (length found)\<rparr>))"
  using assms by (simp add: GetImpressions_def impressions_loop_take Let_def)

definition demo_impression :: "rat ImpressionRecord" where
  "demo_impression = \<lparr>ir_ID = ''i'', ir_Timestamp = 5, ir_PublisherID = ''p'', ir_PlacementID = [],
     ir_MinerID = ''m'', ir_UserID = ''u'', ir_DeviceType = [], ir_GeoCountry = [], ir_GeoRegion = [],
     ir_Price = 3, ir_WinningDSP = [], ir_AdPodID = [], ir_VideoURL = [], ir_Duration = 30,
     ir_Completed = True\<rparr>"

lemma GetImpressions_result_witness:
  "map_option fst (GetImpressions [''i''] 0 10 0 (StoreImpression demo_impression (NewFDBBackend [])))
   = Some [demo_impression]"
  by (subst GetImpressions_result)
     (simp_all add: in_order_def in_window_def StoreImpression_def NewFDBBackend_def
        demo_impression_def Let_def)

subsection \<open>Miner earnings and retention\<close>

lemma GetMinerEarnings_update:
  "GetMinerEarnings m (UpdateMinerEarnings n amount f)
   = GetMinerEarnings m f + (if m = n then amount else 0)"
  by (simp add: GetMinerEarnings_def UpdateMinerEarnings_def Let_def split: option.splits)

text \<open>The earnings of a miner are the sum of the amounts credited to it since the backend
  was created; credits to other miners do not change them.\<close>

lemma miner_earnings_are_the_credits:
  "GetMinerEarnings m (fold (\<lambda>(n, amount). UpdateMinerEarnings n amount) credits (NewFDBBackend c))
   = sum_list (map snd (filter (\<lambda>cr. fst cr = m) credits))"
proof -
  have run: "GetMinerEarnings m (fold (\<lambda>(n, amount). UpdateMinerEarnings n amount) credits f)
      = GetMinerEarnings m f + sum_list (map snd (filter (\<lambda>cr. fst cr = m) credits))" for f
    by (induction credits arbitrary: f) (auto simp: GetMinerEarnings_update algebra_simps)
  show ?thesis by (simp add: run) (simp add: GetMinerEarnings_def NewFDBBackend_def)
qed

lemma Optimize_impressions:
  "fb_impressionStore (Optimize now f) k = Some imp
   \<longleftrightarrow> fb_impressionStore f k = Some imp \<and> now - retention \<le> ir_Timestamp imp"
  by (auto simp: Optimize_def Let_def split: option.splits)

lemma Optimize_bids:
  "fb_bidStore (Optimize now f) k = Some bid
   \<longleftrightarrow> fb_bidStore f k = Some bid \<and> now - retention \<le> br_Timestamp bid"
  by (auto simp: Optimize_def Let_def split: option.splits)

lemma Optimize_idem: "Optimize now (Optimize now f) = Optimize now f"
  by (auto simp: Optimize_def Let_def fun_eq_iff split: option.splits)

lemma Optimize_keeps_earnings: "GetMinerEarnings m (Optimize now f) = GetMinerEarnings m f"
  by (simp add: Optimize_def GetMinerEarnings_def Let_def)

end
