(* ===== verification/FdbStorage.thy ===== *)
theory FdbStorage
  imports Complex_Main Prelude "HOL-Library.Sublist" "HOL-Library.AList"
begin

text \<open>
  \<^verbatim>\<open>pkg/storage/fdb_backend.go\<close>: the FoundationDB backend, with its key-value operations,
  its transactions, its indexed impressions and bids, its counters and its expiry.

  FoundationDB is not part of the repository. The record \<open>fdb\<close> holds the calls of its
  binding that the code uses, on a database of any type, and \<open>kv_laws\<close>, \<open>tuple_laws\<close>
  and \<open>range_laws\<close> state what its documentation says of them: reads see the last write, an
  atomic addition adds little-endian numbers, the tuple layer is decodable and ordered. A
  transaction commits unless the parameter \<open>commit\<close> refuses it, and then leaves the database as
  it was. JSON coding, the date format and the truncation of floats are parameters. The types
  \<open>Backend\<close>, \<open>Transaction\<close> and \<open>Event\<close> are declared nowhere; \<open>Watch\<close>, which sends
  events, is in its own theory.
\<close>

subsection \<open>The binding\<close>

datatype elem = TStr string | TInt u64

type_synonym tuple = "elem list"

record 'db fdb =
  fa_get :: "bytes \<Rightarrow> 'db \<Rightarrow> bytes option"
  fa_set :: "bytes \<Rightarrow> bytes \<Rightarrow> 'db \<Rightarrow> 'db"
  fa_clear :: "bytes \<Rightarrow> 'db \<Rightarrow> 'db"
  fa_add :: "bytes \<Rightarrow> bytes \<Rightarrow> 'db \<Rightarrow> 'db"
  fa_prefix :: "bytes \<Rightarrow> 'db \<Rightarrow> (bytes \<times> bytes) list"
  fa_between :: "bytes \<Rightarrow> bytes \<Rightarrow> 'db \<Rightarrow> (bytes \<times> bytes) list"
  fa_dir_pack :: "tuple \<Rightarrow> bytes"
  fa_dir_unpack :: "bytes \<Rightarrow> tuple option"
  fa_pack :: "tuple \<Rightarrow> bytes"
  fa_unpack :: "bytes \<Rightarrow> tuple option"

datatype 'e fdb_error =
    ErrMarshalValue 'e
  | ErrUnmarshal 'e
  | ErrTransact 'e
  | ErrKeyNotFound string
  | ErrInvalidCounter
  | ErrTuple
  | FdbPanic

text \<open>\<open>Transact\<close>: the body's error is returned, a refused commit leaves no trace.\<close>

definition Transact ::
  "('db \<Rightarrow> 'e option) \<Rightarrow> ('db \<Rightarrow> ('e fdb_error + 'a) \<times> 'db) \<Rightarrow> 'db \<Rightarrow> ('e fdb_error + 'a) \<times> 'db" where
  "Transact commit body db =
     (case body db of
        (Inl err, _) \<Rightarrow> (Inl err, db)
      | (Inr x, db') \<Rightarrow>
          (case commit db' of Some err \<Rightarrow> (Inl (ErrTransact err), db) | None \<Rightarrow> (Inr x, db')))"

subsection \<open>Keys and values\<close>

definition Fdb_Store ::
  "'db fdb \<Rightarrow> ('db \<Rightarrow> 'e option) \<Rightarrow> ('v \<Rightarrow> 'e + bytes) \<Rightarrow> string \<Rightarrow> 'v \<Rightarrow> 'db \<Rightarrow> ('e fdb_error + unit) \<times> 'db" where
  "Fdb_Store api commit marshal key v db =
     (case marshal v of
        Inl err \<Rightarrow> (Inl (ErrMarshalValue err), db)
      | Inr data \<Rightarrow>
          Transact commit (\<lambda>tr. (Inr (), fa_set api (fa_dir_pack api [TStr key]) data tr)) db)"

definition Fdb_Load ::
  "'db fdb \<Rightarrow> ('db \<Rightarrow> 'e option) \<Rightarrow> (bytes \<Rightarrow> 'e + 'v) \<Rightarrow> string \<Rightarrow> 'db \<Rightarrow> 'e fdb_error + 'v" where
  "Fdb_Load api commit unmarshal key db =
     (case fst (Transact commit (\<lambda>tr. (Inr (fa_get api (fa_dir_pack api [TStr key]) tr), tr)) db) of
        Inl err \<Rightarrow> Inl err
      | Inr None \<Rightarrow> Inl (ErrKeyNotFound key)
      | Inr (Some data) \<Rightarrow> (case unmarshal data of Inl err \<Rightarrow> Inl (ErrUnmarshal err) | Inr v \<Rightarrow> Inr v))"

definition Fdb_Delete ::
  "'db fdb \<Rightarrow> ('db \<Rightarrow> 'e option) \<Rightarrow> string \<Rightarrow> 'db \<Rightarrow> ('e fdb_error + unit) \<times> 'db" where
  "Fdb_Delete api commit key db =
     Transact commit (\<lambda>tr. (Inr (), fa_clear api (fa_dir_pack api [TStr key]) tr)) db"

text \<open>The loop of \<open>List\<close>; \<open>None\<close> is the failed assertion that an element is a string.\<close>

fun list_loop :: "'db fdb \<Rightarrow> string list \<Rightarrow> (bytes \<times> bytes) list \<Rightarrow> string list option" where
  "list_loop api keys [] = Some keys"
| "list_loop api keys ((k, _) # kvs) =
     (case fa_dir_unpack api k of
        None \<Rightarrow> list_loop api keys kvs
      | Some [] \<Rightarrow> list_loop api keys kvs
      | Some (TStr s # _) \<Rightarrow> list_loop api (keys @ [s]) kvs
      | Some (TInt _ # _) \<Rightarrow> None)"

definition Fdb_List ::
  "'db fdb \<Rightarrow> ('db \<Rightarrow> 'e option) \<Rightarrow> string \<Rightarrow> 'db \<Rightarrow> 'e fdb_error + string list" where
  "Fdb_List api commit pre db =
     fst (Transact commit
       (\<lambda>tr. (case list_loop api [] (take 1000 (fa_prefix api (fa_dir_pack api [TStr pre]) tr)) of
                None \<Rightarrow> Inl FdbPanic | Some keys \<Rightarrow> Inr keys, tr)) db)"

subsection \<open>Transactions\<close>

definition Fdb_Atomic ::
  "('db \<Rightarrow> 'e option) \<Rightarrow> ('db \<Rightarrow> ('e fdb_error + unit) \<times> 'db) \<Rightarrow> 'db \<Rightarrow> ('e fdb_error + unit) \<times> 'db" where
  "Fdb_Atomic commit fn db = Transact commit fn db"

definition Tx_Get :: "'db fdb \<Rightarrow> (bytes \<Rightarrow> 'e + 'v) \<Rightarrow> string \<Rightarrow> 'db \<Rightarrow> 'e fdb_error + 'v option" where
  "Tx_Get api unmarshal key tr =
     (case fa_get api (fa_dir_pack api [TStr key]) tr of
        None \<Rightarrow> Inr None
      | Some data \<Rightarrow> (case unmarshal data of Inl err \<Rightarrow> Inl (ErrUnmarshal err) | Inr v \<Rightarrow> Inr (Some v)))"

definition Tx_Set ::
  "'db fdb \<Rightarrow> ('v \<Rightarrow> 'e + bytes) \<Rightarrow> string \<Rightarrow> 'v \<Rightarrow> 'db \<Rightarrow> ('e fdb_error + unit) \<times> 'db" where
  "Tx_Set api marshal key v tr =
     (case marshal v of
        Inl err \<Rightarrow> (Inl (ErrMarshalValue err), tr)
      | Inr data \<Rightarrow> (Inr (), fa_set api (fa_dir_pack api [TStr key]) data tr))"

definition Tx_Delete :: "'db fdb \<Rightarrow> string \<Rightarrow> 'db \<Rightarrow> ('e fdb_error + unit) \<times> 'db" where
  "Tx_Delete api key tr = (Inr (), fa_clear api (fa_dir_pack api [TStr key]) tr)"

definition Tx_Increment ::
  "'db fdb \<Rightarrow> string \<Rightarrow> u64 \<Rightarrow> 'db \<Rightarrow> ('e fdb_error + u64) \<times> 'db" where
  "Tx_Increment api key delta tr =
     (let fdbKey = fa_dir_pack api [TStr key];
          tr1 = fa_add api fdbKey (fa_pack api [TInt delta]) tr
      in (case fa_get api fdbKey tr1 of
            None \<Rightarrow> Inr delta
          | Some data \<Rightarrow>
              (case fa_unpack api data of
                 None \<Rightarrow> Inl ErrTuple
               | Some (TInt val # _) \<Rightarrow> Inr val
               | Some _ \<Rightarrow> Inl ErrInvalidCounter), tr1))"

subsection \<open>Impressions and bids\<close>

record Fdb_Device =
  fd_Type :: string
  fd_OS :: string
  fd_UA :: string

record Fdb_Geo =
  fg_Country :: string
  fg_Region :: string
  fg_City :: string

record Fdb_Impression =
  fi_ID :: string
  fi_PublisherID :: string
  fi_AdSlotID :: string
  fi_Timestamp :: time
  fi_Device :: Fdb_Device
  fi_Geo :: Fdb_Geo

record 'd Fdb_Bid =
  fb_ID :: string
  fb_ImpressionID :: string
  fb_DSPID :: string
  fb_Price :: 'd
  fb_Timestamp :: time
  fb_Won :: bool

record 'd DSPMetrics =
  dm_DSPID :: string
  dm_BidCount :: u64
  dm_WinCount :: u64
  dm_TotalSpend :: 'd
  dm_WinRate :: 'd

definition unix_secs :: "time \<Rightarrow> u64" where
  "unix_secs t = of_int (t div 1000000000)"

definition seven_days :: duration where
  "seven_days = 7 * 24 * (3600 * 1000000000)"

definition store_impression ::
  "'db fdb \<Rightarrow> (time \<Rightarrow> string) \<Rightarrow> (Fdb_Impression \<Rightarrow> bytes) \<Rightarrow> time \<Rightarrow> Fdb_Impression \<Rightarrow> 'db \<Rightarrow> 'db" where
  "store_impression api day marshal now imp tr =
     (let data = marshal imp;
          tr1 = fa_set api (fa_dir_pack api [TStr ''impressions'', TStr (fi_ID imp)]) data tr;
          tr2 = fa_set api (fa_dir_pack api
                  [TStr ''impressions'', TStr ''by-date'', TStr (day (fi_Timestamp imp)), TStr (fi_ID imp)]) data tr1;
          tr3 = fa_set api (fa_dir_pack api
                  [TStr ''impressions'', TStr ''by-publisher'', TStr (fi_PublisherID imp), TStr (fi_ID imp)]) data tr2;
          tr4 = fa_add api (fa_dir_pack api [TStr ''metrics'', TStr ''impressions'', TStr ''count''])
                  (fa_pack api [TInt 1]) tr3;
          ttl = now + seven_days
      in fa_set api (fa_dir_pack api
           [TStr ''ttl'', TInt (unix_secs ttl), TStr ''impressions'', TStr (fi_ID imp)]) [1] tr4)"

definition Fdb_StoreImpression ::
  "'db fdb \<Rightarrow> ('db \<Rightarrow> 'e option) \<Rightarrow> (time \<Rightarrow> string) \<Rightarrow> (Fdb_Impression \<Rightarrow> bytes) \<Rightarrow> time \<Rightarrow>
   Fdb_Impression \<Rightarrow> 'db \<Rightarrow> ('e fdb_error + unit) \<times> 'db" where
  "Fdb_StoreImpression api commit day marshal now imp db =
     Transact commit (\<lambda>tr. (Inr (), store_impression api day marshal now imp tr)) db"

definition GetImpressionsByDate ::
  "'db fdb \<Rightarrow> ('db \<Rightarrow> 'e option) \<Rightarrow> (bytes \<Rightarrow> Fdb_Impression option) \<Rightarrow> string \<Rightarrow> 'db \<Rightarrow>
   'e fdb_error + Fdb_Impression list" where
  "GetImpressionsByDate api commit unmarshal date db =
     fst (Transact commit
       (\<lambda>tr. (Inr (List.map_filter (\<lambda>kv. unmarshal (snd kv))
                (fa_prefix api (fa_dir_pack api [TStr ''impressions'', TStr ''by-date'', TStr date]) tr)), tr)) db)"

definition bid_counter :: "'db fdb \<Rightarrow> string \<Rightarrow> bytes" where
  "bid_counter api dspID = fa_dir_pack api [TStr ''metrics'', TStr ''dsp'', TStr dspID, TStr ''bids'']"

definition store_bid ::
  "'db fdb \<Rightarrow> (time \<Rightarrow> string) \<Rightarrow> ('d Fdb_Bid \<Rightarrow> bytes) \<Rightarrow> ('d::linordered_field \<Rightarrow> int) \<Rightarrow> 'd Fdb_Bid \<Rightarrow> 'db \<Rightarrow> 'db" where
  "store_bid api day marshal trunc bid tr =
     (let data = marshal bid;
          tr1 = fa_set api (fa_dir_pack api [TStr ''bids'', TStr (fb_ID bid)]) data tr;
          tr2 = fa_set api (fa_dir_pack api
                  [TStr ''bids'', TStr ''by-impression'', TStr (fb_ImpressionID bid), TStr (fb_ID bid)]) data tr1;
          tr3 = fa_set api (fa_dir_pack api
                  [TStr ''bids'', TStr ''by-dsp'', TStr (fb_DSPID bid), TInt (unix_secs (fb_Timestamp bid)),
                   TStr (fb_ID bid)]) data tr2;
          tr4 = fa_add api (bid_counter api (fb_DSPID bid)) (fa_pack api [TInt 1]) tr3
      in if fb_Won bid
         then let revenue = of_int (trunc (fb_Price bid * 1000000))
              in fa_add api (fa_dir_pack api [TStr ''metrics'', TStr ''revenue'', TStr (day (fb_Timestamp bid))])
                   (fa_pack api [TInt revenue]) tr4
         else tr4)"

definition Fdb_StoreBid ::
  "'db fdb \<Rightarrow> ('db \<Rightarrow> 'e option) \<Rightarrow> (time \<Rightarrow> string) \<Rightarrow> ('d Fdb_Bid \<Rightarrow> bytes) \<Rightarrow> ('d::linordered_field \<Rightarrow> int) \<Rightarrow>
   'd Fdb_Bid \<Rightarrow> 'db \<Rightarrow> ('e fdb_error + unit) \<times> 'db" where
  "Fdb_StoreBid api commit day marshal trunc bid db =
     Transact commit (\<lambda>tr. (Inr (), store_bid api day marshal trunc bid tr)) db"

text \<open>A counter as \<open>GetDSPMetrics\<close> reads it: zero when there is none or it does not unpack;
  \<open>None\<close> is the failed assertion that it is a number.\<close>

definition read_counter :: "'db fdb \<Rightarrow> bytes \<Rightarrow> 'db \<Rightarrow> u64 option" where
  "read_counter api key tr =
     (case fa_get api key tr of
        None \<Rightarrow> Some 0
      | Some data \<Rightarrow>
          (case fa_unpack api data of
             Some (TInt n # _) \<Rightarrow> Some n
           | Some (TStr _ # _) \<Rightarrow> None
           | _ \<Rightarrow> Some 0))"

definition GetDSPMetrics ::
  "'db fdb \<Rightarrow> ('db \<Rightarrow> 'e option) \<Rightarrow> string \<Rightarrow> 'db \<Rightarrow> 'e fdb_error + ('d::linordered_field) DSPMetrics" where
  "GetDSPMetrics api commit dspID db =
     fst (Transact commit
       (\<lambda>tr. (case (read_counter api (bid_counter api dspID) tr,
                    read_counter api (fa_dir_pack api [TStr ''metrics'', TStr ''dsp'', TStr dspID, TStr ''wins'']) tr,
                    read_counter api (fa_dir_pack api [TStr ''metrics'', TStr ''dsp'', TStr dspID, TStr ''spend'']) tr) of
                (Some bids, Some wins, Some spend) \<Rightarrow>
                  Inr \<lparr>dm_DSPID = dspID, dm_BidCount = bids, dm_WinCount = wins,
                       dm_TotalSpend = of_int (sint spend) / 1000000, dm_WinRate = 0\<rparr>
              | _ \<Rightarrow> Inl FdbPanic, tr)) db)"

subsection \<open>Expiry\<close>

text \<open>The loop of \<open>CleanupExpired\<close>; \<open>None\<close> is a failed assertion.\<close>

fun cleanup_loop :: "'db fdb \<Rightarrow> (bytes \<times> bytes) list \<Rightarrow> 'db \<Rightarrow> 'db option" where
  "cleanup_loop api [] tr = Some tr"
| "cleanup_loop api ((k, _) # kvs) tr =
     (case fa_dir_unpack api k of
        None \<Rightarrow> cleanup_loop api kvs tr
      | Some t \<Rightarrow>
          if length t < 4 then cleanup_loop api kvs tr
          else (case (t ! 2, t ! 3) of
                  (TStr dataType, TStr dataID) \<Rightarrow>
                    cleanup_loop api kvs
                      (fa_clear api (fa_dir_pack api [TStr dataType, TStr dataID]) (fa_clear api k tr))
                | _ \<Rightarrow> None))"

definition expired_entries :: "'db fdb \<Rightarrow> time \<Rightarrow> 'db \<Rightarrow> (bytes \<times> bytes) list" where
  "expired_entries api now tr =
     take 1000 (fa_between api (fa_dir_pack api [TStr ''ttl''])
       (fa_dir_pack api [TStr ''ttl'', TInt (unix_secs now)]) tr)"

definition CleanupExpired ::
  "'db fdb \<Rightarrow> ('db \<Rightarrow> 'e option) \<Rightarrow> time \<Rightarrow> 'db \<Rightarrow> ('e fdb_error + unit) \<times> 'db" where
  "CleanupExpired api commit now db =
     Transact commit
       (\<lambda>tr. (case cleanup_loop api (expired_entries api now tr) tr of
                None \<Rightarrow> (Inl FdbPanic, tr) | Some tr' \<Rightarrow> (Inr (), tr'))) db"
subsection \<open>What the documentation of FoundationDB says\<close>

text \<open>The atomic addition reads both operands as little-endian numbers, extends or truncates the
  stored one to the length of the other, and keeps that length.\<close>

fun le_value :: "bytes \<Rightarrow> nat" where
  "le_value [] = 0"
| "le_value (b # bs) = unat b + 256 * le_value bs"

fun le_bytes :: "nat \<Rightarrow> nat \<Rightarrow> bytes" where
  "le_bytes 0 v = []"
| "le_bytes (Suc n) v = of_nat (v mod 256) # le_bytes n (v div 256)"

definition le_add :: "bytes \<Rightarrow> bytes option \<Rightarrow> bytes" where
  "le_add p stored =
     (let old = (case stored of None \<Rightarrow> [] | Some s \<Rightarrow> take (length p) s)
      in le_bytes (length p) (le_value p + le_value old))"

definition kv_laws :: "'db fdb \<Rightarrow> bool" where
  "kv_laws api \<longleftrightarrow>
     (\<forall>k v i db. fa_get api i (fa_set api k v db) = (if i = k then Some v else fa_get api i db)) \<and>
     (\<forall>k i db. fa_get api i (fa_clear api k db) = (if i = k then None else fa_get api i db)) \<and>
     (\<forall>k p i db. fa_get api i (fa_add api k p db)
        = (if i = k then Some (le_add p (fa_get api k db)) else fa_get api i db))"

text \<open>The tuple layer: what was packed unpacks, one packs to the bytes 15 01, and no element has
  the type code 2A.\<close>

definition tuple_laws :: "'db fdb \<Rightarrow> bool" where
  "tuple_laws api \<longleftrightarrow>
     (\<forall>t. fa_dir_unpack api (fa_dir_pack api t) = Some t) \<and>
     (\<forall>t. fa_unpack api (fa_pack api t) = Some t) \<and>
     fa_pack api [TInt 1] = [0x15, 0x01] \<and> fa_unpack api [0x2A, 0x02] = None"

text \<open>Ranges: a prefix range holds the entries whose key has the prefix; a packed string ends
  with a zero byte, and a zero byte inside it is escaped, so only tuples that begin with the
  string, or with one that continues it with a zero character, have its packed bytes as a
  prefix; between a tuple and the same tuple followed by a number lie, beside the tuple itself,
  its continuations by a string or a smaller number.\<close>

definition before_number :: "tuple \<Rightarrow> u64 \<Rightarrow> tuple \<Rightarrow> bool" where
  "before_number t n u \<longleftrightarrow>
     u = t \<or>
     prefix t u \<and> (case u ! length t of TStr _ \<Rightarrow> True | TInt m \<Rightarrow> sint m < sint n)"

definition range_laws :: "'db fdb \<Rightarrow> bool" where
  "range_laws api \<longleftrightarrow>
     (\<forall>p db. set (fa_prefix api p db) = {(k, v). fa_get api k db = Some v \<and> prefix p k}) \<and>
     (\<forall>s t. prefix (fa_dir_pack api [TStr s]) (fa_dir_pack api t) \<longleftrightarrow>
        (\<exists>r ts. t = TStr r # ts \<and> (r = s \<or> prefix (s @ [CHR 0x00]) r))) \<and>
     (\<forall>t n db k v. (k, v) \<in> set (fa_between api (fa_dir_pack api t) (fa_dir_pack api (t @ [TInt n])) db) \<longrightarrow>
        fa_get api k db = Some v \<and> (\<forall>u. fa_dir_unpack api k = Some u \<longrightarrow> before_number t n u)) \<and>
     (\<forall>t n db u v. fa_get api (fa_dir_pack api u) db = Some v \<and> before_number t n u \<longrightarrow>
        (fa_dir_pack api u, v) \<in> set (fa_between api (fa_dir_pack api t) (fa_dir_pack api (t @ [TInt n])) db))"

lemma kv_simps:
  assumes "kv_laws api"
  shows "fa_get api i (fa_set api k v db) = (if i = k then Some v else fa_get api i db)"
    "fa_get api i (fa_clear api k db) = (if i = k then None else fa_get api i db)"
    "fa_get api i (fa_add api k p db) = (if i = k then Some (le_add p (fa_get api k db)) else fa_get api i db)"
  using assms by (simp_all add: kv_laws_def)

lemma tuple_simps:
  assumes "tuple_laws api"
  shows "fa_dir_unpack api (fa_dir_pack api t) = Some t" "fa_unpack api (fa_pack api t) = Some t"
    "fa_dir_pack api t = fa_dir_pack api u \<longleftrightarrow> t = u"
    "fa_pack api [TInt 1] = [0x15, 0x01]" "fa_unpack api [0x15, 0x01] = Some [TInt 1]"
    "fa_unpack api [0x2A, 0x02] = None"
proof -
  note l = assms [unfolded tuple_laws_def]
  show dir: "fa_dir_unpack api (fa_dir_pack api t) = Some t" for t using l by blast
  show un: "fa_unpack api (fa_pack api t) = Some t" for t using l by blast
  show "fa_dir_pack api t = fa_dir_pack api u \<longleftrightarrow> t = u" using dir by (metis option.inject)
  show one: "fa_pack api [TInt 1] = [0x15, 0x01]" using l by blast
  show "fa_unpack api [0x15, 0x01] = Some [TInt 1]" using un [of "[TInt 1]"] one by simp
  show "fa_unpack api [0x2A, 0x02] = None" using l by blast
qed

lemma Transact_Inr:
  "Transact commit (\<lambda>tr. (Inr (f tr), g tr)) db = (Inr x, db') \<longleftrightarrow>
     commit (g db) = None \<and> x = f db \<and> db' = g db"
  by (auto simp: Transact_def split: option.splits)

lemma Transact_error: "Transact commit body db = (Inl err, db') \<Longrightarrow> db' = db"
  by (auto simp: Transact_def split: sum.splits prod.splits option.splits)

subsection \<open>Counters\<close>

lemma first_count: "le_add [0x15, 0x01] None = [0x15, 0x01]"
  by (simp add: le_add_def)

lemma second_count: "le_add [0x15, 0x01] (Some [0x15, 0x01]) = [0x2A, 0x02]"
  by (simp add: le_add_def)

text \<open>A counter breaks when it is incremented the second time: the atomic addition adds the
  packed form of the number one, type code included, so the first increment of a fresh counter
  returns one and the second one fails, because its value no longer unpacks.\<close>

theorem second_increment_fails:
  assumes "kv_laws api" "tuple_laws api" "fa_get api (fa_dir_pack api [TStr key]) tr = None"
    and "Tx_Increment api key 1 tr = (r1, tr1)" "Tx_Increment api key 1 tr1 = (r2, tr2)"
  shows "r1 = Inr 1 \<and> r2 = Inl ErrTuple"
proof -
  have c1: "fa_get api (fa_dir_pack api [TStr key]) tr1 = Some [0x15, 0x01]"
    using assms(3,4) by (auto simp: Tx_Increment_def Let_def kv_simps [OF assms(1)]
        tuple_simps [OF assms(2)] first_count)
  then have c2: "fa_get api (fa_dir_pack api [TStr key]) tr2 = Some [0x2A, 0x02]"
    using assms(5) by (auto simp: Tx_Increment_def Let_def kv_simps [OF assms(1)]
        tuple_simps [OF assms(2)] second_count)
  show ?thesis
    using assms(4,5) c1 c2 by (auto simp: Tx_Increment_def Let_def tuple_simps [OF assms(2)])
qed

lemma store_bid_counter:
  assumes "kv_laws api" "tuple_laws api"
  shows "fa_get api (bid_counter api dsp) (store_bid api day marshal trunc bid db)
    = (if fb_DSPID bid = dsp then Some (le_add [0x15, 0x01] (fa_get api (bid_counter api dsp) db))
       else fa_get api (bid_counter api dsp) db)"
  by (simp add: store_bid_def bid_counter_def Let_def kv_simps [OF assms(1)] tuple_simps [OF assms(2)])

text \<open>C38: The number of bids of a DSP is right once: after its first stored bid the metrics count
  one bid, and after its second they count none.\<close>

theorem second_bid_resets_metrics:
  assumes "kv_laws api" "tuple_laws api" "fa_get api (bid_counter api dsp) db = None"
    and "fb_DSPID b1 = dsp" "fb_DSPID b2 = dsp"
    and "Fdb_StoreBid api commit day marshal trunc b1 db = (Inr (), db1)"
    and "Fdb_StoreBid api commit day marshal trunc b2 db1 = (Inr (), db2)"
    and "GetDSPMetrics api commit dsp db1 = Inr m1" "GetDSPMetrics api commit dsp db2 = Inr m2"
  shows "dm_BidCount m1 = 1 \<and> dm_BidCount m2 = 0"
proof -
  have db: "db1 = store_bid api day marshal trunc b1 db" "db2 = store_bid api day marshal trunc b2 db1"
    using assms(6,7) by (simp_all add: Fdb_StoreBid_def Transact_Inr)
  note c = store_bid_counter [OF assms(1,2)]
  have "fa_get api (bid_counter api dsp) db1 = Some [0x15, 0x01]"
    using assms(3,4) by (simp add: db(1) c first_count)
  moreover from this have "fa_get api (bid_counter api dsp) db2 = Some [0x2A, 0x02]"
    using assms(5) by (simp add: db(2) c second_count)
  ultimately have r: "read_counter api (bid_counter api dsp) db1 = Some 1"
    "read_counter api (bid_counter api dsp) db2 = Some 0"
    by (simp_all add: read_counter_def tuple_simps [OF assms(2)])
  have count: "read_counter api (bid_counter api dsp) d = Some n \<Longrightarrow>
      GetDSPMetrics api commit dsp d = Inr m \<Longrightarrow> dm_BidCount m = n" for d n m
    by (auto simp: GetDSPMetrics_def Transact_def split: option.splits prod.splits sum.splits)
  show ?thesis using count [OF r(1) assms(8)] count [OF r(2) assms(9)] by simp
qed

subsection \<open>Storing and listing\<close>

text \<open>What is stored is loaded: after a committed \<open>Store\<close> the key loads the value, as JSON
  reads it back, and every other key loads what it did before.\<close>

theorem fdb_store_load:
  assumes "kv_laws api" "tuple_laws api" "marshal v = Inr data"
    and "Fdb_Store api commit marshal key v db = (Inr (), db')" "\<And>d. refuse d = None"
  shows "Fdb_Load api refuse unmarshal other db' =
    (if other = key then (case unmarshal data of Inl err \<Rightarrow> Inl (ErrUnmarshal err) | Inr w \<Rightarrow> Inr w)
     else Fdb_Load api refuse unmarshal other db)"
proof -
  have load: "Fdb_Load api refuse unmarshal k d =
      (case fa_get api (fa_dir_pack api [TStr k]) d of
         None \<Rightarrow> Inl (ErrKeyNotFound k)
       | Some raw \<Rightarrow> (case unmarshal raw of Inl err \<Rightarrow> Inl (ErrUnmarshal err) | Inr w \<Rightarrow> Inr w))" for k d
    by (simp add: Fdb_Load_def Transact_def assms(5))
  have "db' = fa_set api (fa_dir_pack api [TStr key]) data db"
    using assms(3,4) by (simp add: Fdb_Store_def Transact_Inr)
  then have get: "fa_get api (fa_dir_pack api [TStr other]) db' =
      (if other = key then Some data else fa_get api (fa_dir_pack api [TStr other]) db)"
    by (simp only: kv_simps(1) [OF assms(1)] tuple_simps(3) [OF assms(2)] list.inject elem.inject simp_thms)
  show ?thesis
  proof (cases "other = key")
    case True
    then show ?thesis unfolding load get by simp
  next
    case False
    then show ?thesis unfolding load get by simp
  qed
qed

lemma list_loop_strings:
  assumes "list_loop api keys kvs = Some result" "s \<in> set result"
  shows "s \<in> set keys \<or> (\<exists>k v ts. (k, v) \<in> set kvs \<and> fa_dir_unpack api k = Some (TStr s # ts))"
  using assms(1)
proof (induction kvs arbitrary: keys)
  case Nil
  then show ?case using assms(2) by simp
next
  case (Cons kv kvs)
  obtain k v where kv: "kv = (k, v)" by (cases kv)
  consider "list_loop api keys kvs = Some result"
    | r ts where "fa_dir_unpack api k = Some (TStr r # ts)" "list_loop api (keys @ [r]) kvs = Some result"
    using Cons.prems kv by (auto split: option.splits list.splits elem.splits)
  then show ?case
  proof cases
    case 1
    from Cons.IH [OF this] show ?thesis by fastforce
  next
    case 2
    from Cons.IH [OF 2(2)] 2(1) kv show ?thesis by fastforce
  qed
qed

text \<open>\<open>List\<close> does not list by prefix: on a database whose keys were all packed by the backend,
  every key it returns is the prefix itself or continues it with a zero character, because the
  packed prefix ends with the terminator of the string.\<close>

theorem list_finds_only_the_prefix:
  assumes "tuple_laws api" "range_laws api"
    and "\<And>k v. fa_get api k db = Some v \<Longrightarrow> \<exists>t. k = fa_dir_pack api t"
    and "Fdb_List api commit pre db = Inr keys" "s \<in> set keys"
  shows "s = pre \<or> prefix (pre @ [CHR 0x00]) s"
proof -
  let ?kvs = "take 1000 (fa_prefix api (fa_dir_pack api [TStr pre]) db)"
  have loop: "list_loop api [] ?kvs = Some keys"
    using assms(4) by (auto simp: Fdb_List_def Transact_def split: option.splits sum.splits prod.splits)
  from list_loop_strings [OF loop assms(5)] obtain k v ts where
    e: "(k, v) \<in> set ?kvs" "fa_dir_unpack api k = Some (TStr s # ts)" by auto
  then have "(k, v) \<in> set (fa_prefix api (fa_dir_pack api [TStr pre]) db)" by (auto dest: in_set_takeD)
  then have k: "fa_get api k db = Some v" "prefix (fa_dir_pack api [TStr pre]) k"
    using assms(2) by (auto simp: range_laws_def)
  from assms(3) [OF k(1)] e(2) have "k = fa_dir_pack api (TStr s # ts)"
    by (auto simp: tuple_simps [OF assms(1)])
  with k(2) have "prefix (fa_dir_pack api [TStr pre]) (fa_dir_pack api (TStr s # ts))" by simp
  with assms(2) show ?thesis by (auto simp: range_laws_def)
qed

subsection \<open>Expiry and the copies\<close>

text \<open>The loop clears the expiry entries it is given and the records they name.\<close>

text \<open>The loop only clears, and clears the records its entries name.\<close>

lemma cleanup_loop_Cons:
  assumes "cleanup_loop api ((k, v) # kvs) tr = Some tr'"
  shows "(\<exists>a b t. fa_dir_unpack api k = Some t \<and> 4 \<le> length t \<and> t ! 2 = TStr a \<and> t ! 3 = TStr b \<and>
      cleanup_loop api kvs (fa_clear api (fa_dir_pack api [TStr a, TStr b]) (fa_clear api k tr)) = Some tr') \<or>
    (\<forall>t. fa_dir_unpack api k = Some t \<longrightarrow> length t < 4) \<and> cleanup_loop api kvs tr = Some tr'"
  using assms by (auto split: option.splits if_splits elem.splits)

lemma cleanup_loop_other:
  assumes "kv_laws api" "cleanup_loop api kvs tr = Some tr'"
    and "i \<notin> fst ` set kvs" "\<And>a b. i \<noteq> fa_dir_pack api [TStr a, TStr b]"
  shows "fa_get api i tr' = fa_get api i tr"
  using assms(2,3)
proof (induction kvs arbitrary: tr)
  case (Cons kv kvs)
  obtain k v where kv: "kv = (k, v)" by (cases kv)
  have i: "i \<noteq> k" "i \<notin> fst ` set kvs" using Cons.prems(2) kv by auto
  from cleanup_loop_Cons [OF Cons.prems(1) [unfolded kv]] consider
      a b where "cleanup_loop api kvs (fa_clear api (fa_dir_pack api [TStr a, TStr b]) (fa_clear api k tr)) = Some tr'"
    | "cleanup_loop api kvs tr = Some tr'" by blast
  then show ?case
  proof cases
    case 1
    from Cons.IH [OF this i(2)] i(1) assms(4) [of a b] show ?thesis by (simp add: kv_simps [OF assms(1)])
  next
    case 2
    from Cons.IH [OF this i(2)] show ?thesis by simp
  qed
qed simp

lemma cleanup_loop_none:
  assumes "kv_laws api" "cleanup_loop api kvs tr = Some tr'" "fa_get api i tr = None"
  shows "fa_get api i tr' = None"
  using assms(2,3)
proof (induction kvs arbitrary: tr)
  case (Cons kv kvs)
  obtain k v where kv: "kv = (k, v)" by (cases kv)
  from cleanup_loop_Cons [OF Cons.prems(1) [unfolded kv]] consider
      a b where "cleanup_loop api kvs (fa_clear api (fa_dir_pack api [TStr a, TStr b]) (fa_clear api k tr)) = Some tr'"
    | "cleanup_loop api kvs tr = Some tr'" by blast
  then show ?case
  proof cases
    case 1
    show ?thesis by (rule Cons.IH [OF 1]) (simp add: kv_simps [OF assms(1)] Cons.prems(2))
  next
    case 2
    show ?thesis by (rule Cons.IH [OF 2 Cons.prems(2)])
  qed
qed simp

lemma cleanup_loop_removes:
  assumes "kv_laws api" "cleanup_loop api kvs tr = Some tr'"
    and "(k, v) \<in> set kvs" "fa_dir_unpack api k = Some [x, y, TStr a, TStr b]"
  shows "fa_get api (fa_dir_pack api [TStr a, TStr b]) tr' = None"
  using assms(2,3)
proof (induction kvs arbitrary: tr)
  case (Cons kv kvs)
  obtain j w where kv: "kv = (j, w)" by (cases kv)
  show ?case
  proof (cases "(k, v) = kv")
    case True
    then have "cleanup_loop api kvs (fa_clear api (fa_dir_pack api [TStr a, TStr b]) (fa_clear api k tr)) = Some tr'"
      using Cons.prems(1) assms(4) kv by (simp add: numeral_3_eq_3 numeral_2_eq_2)
    then show ?thesis by (rule cleanup_loop_none [OF assms(1)]) (simp add: kv_simps [OF assms(1)])
  next
    case False
    then have k: "(k, v) \<in> set kvs" using Cons.prems(2) by auto
    from cleanup_loop_Cons [OF Cons.prems(1) [unfolded kv]] obtain tr1 where
      "cleanup_loop api kvs tr1 = Some tr'" by blast
    from Cons.IH [OF this k] show ?thesis .
  qed
qed simp

text \<open>Expiry removes the record and leaves its copies: the records named by the expiry entries
  in the range of a committed \<open>CleanupExpired\<close> are gone afterwards, while no entry of the date
  index, the publisher index or any other four-element key outside the expiry entries changes.\<close>

theorem expiry_leaves_copies:
  assumes "kv_laws api" "tuple_laws api" "range_laws api"
    and "CleanupExpired api commit now db = (Inr (), db')"
    and "(k, v) \<in> set (expired_entries api now db)"
    and "fa_dir_unpack api k = Some [TStr ''ttl'', x, TStr ''impressions'', TStr i]"
  shows "fa_get api (fa_dir_pack api [TStr ''impressions'', TStr i]) db' = None \<and>
    fa_get api (fa_dir_pack api [TStr ''impressions'', TStr index, TStr val, TStr i]) db'
    = fa_get api (fa_dir_pack api [TStr ''impressions'', TStr index, TStr val, TStr i]) db"
proof -
  let ?copy = "fa_dir_pack api [TStr ''impressions'', TStr index, TStr val, TStr i]"
  have loop: "cleanup_loop api (expired_entries api now db) db = Some db'"
    using assms(4) by (auto simp: CleanupExpired_def Transact_def split: option.splits)
  have "j \<noteq> ?copy" if "(j, w) \<in> set (expired_entries api now db)" for j w
  proof
    assume j: "j = ?copy"
    from that have "(j, w) \<in> set (fa_between api (fa_dir_pack api [TStr ''ttl''])
        (fa_dir_pack api ([TStr ''ttl''] @ [TInt (unix_secs now)])) db)"
      by (auto simp: expired_entries_def dest: in_set_takeD)
    then have "\<forall>u. fa_dir_unpack api j = Some u \<longrightarrow> before_number [TStr ''ttl''] (unix_secs now) u"
      using assms(3) unfolding range_laws_def by blast
    then show False by (simp add: j tuple_simps [OF assms(2)] before_number_def)
  qed
  then have "?copy \<notin> fst ` set (expired_entries api now db)" by force
  moreover have "?copy \<noteq> fa_dir_pack api [TStr a, TStr b]" for a b
    unfolding tuple_simps(3) [OF assms(2)] by simp
  ultimately have "fa_get api ?copy db' = fa_get api ?copy db"
    by (rule cleanup_loop_other [OF assms(1) loop])
  then show ?thesis using cleanup_loop_removes [OF assms(1) loop assms(5,6)] by simp
qed

subsection \<open>A database that meets the laws\<close>

text \<open>An association list with the string code of the tuple layer and, for numbers, the code of
  one and an eight-byte code for all others.\<close>

definition char_byte :: "char \<Rightarrow> byte" where
  "char_byte c = of_nat (of_char c)"

definition esc :: "char \<Rightarrow> bytes" where
  "esc c = (if c = CHR 0x00 then [0, 0xFF] else [char_byte c])"

fun enc :: "elem \<Rightarrow> bytes" where
  "enc (TStr s) = 2 # concat (map esc s) @ [0]"
| "enc (TInt w) = (if w = 1 then [0x15, 0x01] else 0x1C # be64 w)"

definition enc_tuple :: "tuple \<Rightarrow> bytes" where
  "enc_tuple t = concat (map enc t)"

fun dec_str :: "bytes \<Rightarrow> (string \<times> bytes) option" where
  "dec_str [] = None"
| "dec_str (b # bs) =
     (if b = 0
      then (case bs of
              c # cs \<Rightarrow> if c = 0xFF then map_option (apfst ((#) (CHR 0x00))) (dec_str cs) else Some ([], bs)
            | [] \<Rightarrow> Some ([], []))
      else map_option (apfst ((#) (char_of (unat b)))) (dec_str bs))"

fun dec_tuple :: "nat \<Rightarrow> bytes \<Rightarrow> tuple option" where
  "dec_tuple n [] = Some []"
| "dec_tuple 0 (b # bs) = None"
| "dec_tuple (Suc n) (b # bs) =
     (if b = 2 then (case dec_str bs of
                       None \<Rightarrow> None
                     | Some (s, rest) \<Rightarrow> map_option ((#) (TStr s)) (dec_tuple n rest))
      else if b = 0x15 then map_option ((#) (TInt 1)) (dec_tuple n (drop 1 bs))
      else if b = 0x1C then map_option ((#) (TInt (be64_acc (take 8 bs)))) (dec_tuple n (drop 8 bs))
      else None)"

definition unpack :: "bytes \<Rightarrow> tuple option" where
  "unpack bs = dec_tuple (length bs) bs"

definition alist_fdb :: "(bytes \<times> bytes) list fdb" where
  "alist_fdb = \<lparr>
     fa_get = (\<lambda>k db. map_of db k), fa_set = AList.update, fa_clear = AList.delete,
     fa_add = (\<lambda>k p db. AList.update k (le_add p (map_of db k)) db),
     fa_prefix = (\<lambda>p db. filter (\<lambda>kv. prefix p (fst kv)) (AList.clearjunk db)),
     fa_between = (\<lambda>b e db. filter (\<lambda>kv. case (unpack b, unpack e, unpack (fst kv)) of
         (Some t, Some t', Some u) \<Rightarrow> (case last t' of TInt n \<Rightarrow> before_number t n u | TStr _ \<Rightarrow> False)
       | _ \<Rightarrow> False) (AList.clearjunk db)),
     fa_dir_pack = enc_tuple, fa_dir_unpack = unpack, fa_pack = enc_tuple, fa_unpack = unpack\<rparr>"

lemma char_of_byte [simp]: "char_of (unat (char_byte c)) = c"
proof -
  have "unat (of_nat (of_char c) :: byte) = of_char c"
    by (simp only: unsigned_of_nat) (simp add: take_bit_nat_eq_self)
  then show ?thesis by (simp add: char_byte_def)
qed

lemma char_byte_inj [simp]: "char_byte c = char_byte d \<longleftrightarrow> c = d"
  by (metis char_of_byte)

lemma char_byte_zero: "char_byte c = 0 \<longleftrightarrow> c = CHR 0x00"
  using char_byte_inj [of c "CHR 0x00"] by (simp add: char_byte_def)

lemma dec_str_enc:
  assumes "rest = [] \<or> hd rest \<noteq> 0xFF"
  shows "dec_str (concat (map esc s) @ 0 # rest) = Some (s, rest)"
proof (induction s)
  case Nil
  then show ?case using assms by (cases rest) auto
next
  case (Cons c s)
  then show ?case by (simp add: esc_def char_byte_zero)
qed

lemma enc_hd: "enc e \<noteq> []" "hd (enc e) \<noteq> 0xFF" "hd (enc e) \<in> {2, 0x15, 0x1C}"
  by (cases e; auto)+

lemma enc_tuple_simps:
  "enc_tuple [] = []" "enc_tuple (e # t) = enc e @ enc_tuple t"
  by (simp_all add: enc_tuple_def)

lemma enc_tuple_hd: "enc_tuple t = [] \<or> hd (enc_tuple t) \<noteq> 0xFF"
  by (cases t) (simp_all add: enc_tuple_simps enc_hd)

lemma dec_enc_tuple: "length (enc_tuple t) \<le> n \<Longrightarrow> dec_tuple n (enc_tuple t) = Some t"
proof (induction t arbitrary: n)
  case Nil
  then show ?case by (simp add: enc_tuple_simps)
next
  case (Cons e t)
  show ?case
  proof (cases e)
    case (TStr s)
    then obtain m where "n = Suc m" "length (enc_tuple t) \<le> m"
      using Cons.prems by (cases n) (auto simp: enc_tuple_simps)
    then show ?thesis
      using TStr Cons.IH [of m] dec_str_enc [OF enc_tuple_hd, of s t] by (simp add: enc_tuple_simps)
  next
    case (TInt w)
    then obtain m where "n = Suc m" "length (enc_tuple t) \<le> m"
      using Cons.prems by (cases n) (auto simp: enc_tuple_simps split: if_splits)
    then show ?thesis
      using TInt Cons.IH [of m] by (simp add: enc_tuple_simps be64_acc_be64)
  qed
qed

lemma unpack_enc_tuple [simp]: "unpack (enc_tuple t) = Some t"
  by (simp add: unpack_def dec_enc_tuple)

lemma enc_tuple_inj [simp]: "enc_tuple t = enc_tuple u \<longleftrightarrow> t = u"
  by (metis unpack_enc_tuple option.inject)

lemma kv_laws_alist: "kv_laws alist_fdb"
  by (simp add: kv_laws_def alist_fdb_def AList.update_conv' AList.delete_conv')

lemma tuple_laws_alist: "tuple_laws alist_fdb"
  by (simp add: tuple_laws_def alist_fdb_def) (simp add: enc_tuple_def unpack_def)

lemma set_clearjunk: "(k, v) \<in> set (AList.clearjunk db) \<longleftrightarrow> map_of db k = Some v"
  by (metis AList.distinct_clearjunk AList.map_of_clearjunk map_of_eq_Some_iff)

lemma prefix_enc_str:
  assumes "rest = [] \<or> hd rest \<noteq> 0xFF"
  shows "prefix (concat (map esc s) @ [0]) (concat (map esc r) @ 0 # rest)
    \<longleftrightarrow> r = s \<or> prefix (s @ [CHR 0x00]) r"
proof (induction s arbitrary: r)
  case Nil
  show ?case
  proof (cases r)
    case (Cons c cs)
    then show ?thesis by (auto simp: esc_def char_byte_zero)
  qed simp
next
  case (Cons c s)
  show ?case
  proof (cases r)
    case Nil
    then show ?thesis using assms by (cases rest) (auto simp: esc_def char_byte_zero)
  next
    case r: (Cons d ds)
    then show ?thesis
      using Cons.IH [of ds] by (auto simp: esc_def char_byte_zero)
  qed
qed

lemma prefix_enc_tuple:
  "prefix (enc_tuple [TStr s]) (enc_tuple t)
   \<longleftrightarrow> (\<exists>r ts. t = TStr r # ts \<and> (r = s \<or> prefix (s @ [CHR 0x00]) r))"
proof (cases t)
  case Nil
  then show ?thesis by (simp add: enc_tuple_simps)
next
  case (Cons e ts)
  show ?thesis
  proof (cases e)
    case (TStr r)
    then show ?thesis
      using Cons prefix_enc_str [OF enc_tuple_hd, of s r ts] by (simp add: enc_tuple_simps)
  next
    case (TInt w)
    then show ?thesis using Cons by (simp add: enc_tuple_simps)
  qed
qed

lemma range_laws_alist: "range_laws alist_fdb"
  unfolding range_laws_def
proof (intro conjI allI impI)
  fix p and db :: "(bytes \<times> bytes) list"
  show "set (fa_prefix alist_fdb p db) = {(k, v). fa_get alist_fdb k db = Some v \<and> prefix p k}"
    by (auto simp: alist_fdb_def set_clearjunk)
next
  fix s t
  show "prefix (fa_dir_pack alist_fdb [TStr s]) (fa_dir_pack alist_fdb t) \<longleftrightarrow>
      (\<exists>r ts. t = TStr r # ts \<and> (r = s \<or> prefix (s @ [CHR 0x00]) r))"
    by (simp add: alist_fdb_def prefix_enc_tuple)
next
  fix t n k v and db :: "(bytes \<times> bytes) list"
  assume "(k, v) \<in> set (fa_between alist_fdb (fa_dir_pack alist_fdb t) (fa_dir_pack alist_fdb (t @ [TInt n])) db)"
  then show "fa_get alist_fdb k db = Some v"
    and "\<And>u. fa_dir_unpack alist_fdb k = Some u \<Longrightarrow> before_number t n u"
    by (auto simp: alist_fdb_def set_clearjunk split: option.splits)
next
  fix t n u v and db :: "(bytes \<times> bytes) list"
  assume "fa_get alist_fdb (fa_dir_pack alist_fdb u) db = Some v \<and> before_number t n u"
  then show "(fa_dir_pack alist_fdb u, v) \<in>
      set (fa_between alist_fdb (fa_dir_pack alist_fdb t) (fa_dir_pack alist_fdb (t @ [TInt n])) db)"
    by (simp add: alist_fdb_def set_clearjunk)
qed

subsection \<open>Runs on that database\<close>

definition demo_fdb_bid :: "string \<Rightarrow> rat Fdb_Bid" where
  "demo_fdb_bid i = \<lparr>fb_ID = i, fb_ImpressionID = ''imp'', fb_DSPID = ''dsp'', fb_Price = 2,
     fb_Timestamp = 0, fb_Won = False\<rparr>"

abbreviation always :: "'db \<Rightarrow> string option" where
  "always \<equiv> \<lambda>db. None"

theorem second_increment_fails_witness:
  "\<exists>tr1 tr2. Tx_Increment alist_fdb ''n'' 1 [] = ((Inr 1 :: string fdb_error + u64), tr1) \<and>
     Tx_Increment alist_fdb ''n'' 1 tr1 = ((Inl ErrTuple :: string fdb_error + u64), tr2)"
proof -
  obtain r1 tr1 where 1: "Tx_Increment alist_fdb ''n'' 1 [] = ((r1 :: string fdb_error + u64), tr1)"
    by (cases "Tx_Increment alist_fdb ''n'' 1 [] :: (string fdb_error + u64) \<times> _")
  obtain r2 tr2 where 2: "Tx_Increment alist_fdb ''n'' 1 tr1 = ((r2 :: string fdb_error + u64), tr2)"
    by (cases "Tx_Increment alist_fdb ''n'' 1 tr1 :: (string fdb_error + u64) \<times> _")
  have "fa_get alist_fdb (fa_dir_pack alist_fdb [TStr ''n'']) [] = None" by (simp add: alist_fdb_def)
  from second_increment_fails [OF kv_laws_alist tuple_laws_alist this 1 2] 1 2 show ?thesis by auto
qed

lemma store_bid_other_metrics:
  assumes "kv_laws api" "tuple_laws api" "x \<noteq> ''bids''"
  shows "fa_get api (fa_dir_pack api [TStr ''metrics'', TStr ''dsp'', TStr d, TStr x])
      (store_bid api day marshal trunc bid db)
    = fa_get api (fa_dir_pack api [TStr ''metrics'', TStr ''dsp'', TStr d, TStr x]) db"
  using assms(3)
  by (simp add: store_bid_def bid_counter_def Let_def kv_simps [OF assms(1)] tuple_simps [OF assms(2)])

theorem second_bid_resets_metrics_witness:
  "\<exists>db1 db2 m2.
     Fdb_StoreBid alist_fdb always (\<lambda>_. []) (\<lambda>_. []) floor (demo_fdb_bid ''a'') [] = (Inr (), db1) \<and>
     Fdb_StoreBid alist_fdb always (\<lambda>_. []) (\<lambda>_. []) floor (demo_fdb_bid ''b'') db1 = (Inr (), db2) \<and>
     GetDSPMetrics alist_fdb always ''dsp'' db2 = Inr (m2 :: rat DSPMetrics) \<and> dm_BidCount m2 = 0"
proof -
  let ?s = "store_bid alist_fdb (\<lambda>_. []) (\<lambda>_. []) floor"
  let ?d1 = "?s (demo_fdb_bid ''a'') []"
  let ?d2 = "?s (demo_fdb_bid ''b'') ?d1"
  note laws = kv_laws_alist tuple_laws_alist
  have empty: "fa_get alist_fdb k [] = None" for k by (simp add: alist_fdb_def)
  have dsp: "fb_DSPID (demo_fdb_bid i) = ''dsp''" for i by (simp add: demo_fdb_bid_def)
  have stores: "Fdb_StoreBid alist_fdb always (\<lambda>_. []) (\<lambda>_. []) floor (demo_fdb_bid ''a'') [] = (Inr (), ?d1)"
    "Fdb_StoreBid alist_fdb always (\<lambda>_. []) (\<lambda>_. []) floor (demo_fdb_bid ''b'') ?d1 = (Inr (), ?d2)"
    by (simp_all add: Fdb_StoreBid_def Transact_def)
  have others: "read_counter alist_fdb (fa_dir_pack alist_fdb [TStr ''metrics'', TStr ''dsp'', TStr ''dsp'', TStr x]) d
      = Some 0" if "x \<noteq> ''bids''" "d \<in> {?d1, ?d2}" for x d
    using that(2) by (auto simp: read_counter_def empty store_bid_other_metrics [OF laws that(1)])
  have b1: "fa_get alist_fdb (bid_counter alist_fdb ''dsp'') ?d1 = Some [0x15, 0x01]"
    by (simp add: store_bid_counter [OF laws] dsp empty first_count)
  have b2: "fa_get alist_fdb (bid_counter alist_fdb ''dsp'') ?d2 = Some [0x2A, 0x02]"
    using b1 second_count by (subst store_bid_counter [OF laws]) (simp add: dsp)
  have "read_counter alist_fdb (bid_counter alist_fdb ''dsp'') ?d1 = Some 1"
    "read_counter alist_fdb (bid_counter alist_fdb ''dsp'') ?d2 = Some 0"
    using b1 b2 by (simp_all add: read_counter_def tuple_simps [OF laws(2)])
  then obtain m1 m2 :: "rat DSPMetrics" where m:
    "GetDSPMetrics alist_fdb always ''dsp'' ?d1 = Inr m1" "GetDSPMetrics alist_fdb always ''dsp'' ?d2 = Inr m2"
    by (simp add: GetDSPMetrics_def Transact_def others)
  from second_bid_resets_metrics [OF laws empty dsp dsp stores m] stores m show ?thesis by blast
qed

theorem fdb_store_load_witness:
  "\<exists>db'. Fdb_Store alist_fdb always (\<lambda>v. Inr [v]) ''k'' 7 [] = (Inr (), db') \<and>
     Fdb_Load alist_fdb always (\<lambda>data. Inr (hd data)) ''k'' db' = Inr (7 :: byte)"
proof -
  let ?db = "fa_set alist_fdb (fa_dir_pack alist_fdb [TStr ''k'']) [7] []"
  have s: "Fdb_Store alist_fdb always (\<lambda>v. Inr [v]) ''k'' 7 [] = (Inr (), ?db)"
    by (simp add: Fdb_Store_def Transact_def)
  from fdb_store_load [OF kv_laws_alist tuple_laws_alist _ s, where other = "''k''" and refuse = always
      and unmarshal = "\<lambda>data. Inr (hd data)"] s
  show ?thesis by auto
qed

theorem list_finds_only_the_prefix_witness:
  "\<exists>keys. Fdb_List alist_fdb always ''user'' [(enc_tuple [TStr ''user:1''], []), (enc_tuple [TStr ''user''], [])]
      = Inr keys \<and> (\<forall>s\<in>set keys. s = ''user'' \<or> prefix (''user'' @ [CHR 0x00]) s)"
proof -
  let ?db = "[(enc_tuple [TStr ''user:1''], []), (enc_tuple [TStr ''user''], [])] :: (bytes \<times> bytes) list"
  have packed: "\<exists>t. k = fa_dir_pack alist_fdb t" if "fa_get alist_fdb k ?db = Some v" for k v
    using that by (auto simp: alist_fdb_def split: if_splits)
  have "list_loop alist_fdb keys kvs \<noteq> None" if "\<forall>(k, v)\<in>set kvs. \<exists>s. k = enc_tuple [TStr s]" for keys kvs
    using that
  proof (induction kvs arbitrary: keys)
    case (Cons kv kvs)
    obtain k v where kv: "kv = (k, v)" by (cases kv)
    from Cons.prems obtain s where s: "k = enc_tuple [TStr s]" by (auto simp: kv)
    have u: "fa_dir_unpack alist_fdb (enc_tuple [TStr s]) = Some [TStr s]" by (simp add: alist_fdb_def)
    show ?case using Cons by (simp add: kv s u)
  qed simp
  moreover have "\<forall>(k, v)\<in>set (take 1000 (fa_prefix alist_fdb (fa_dir_pack alist_fdb [TStr ''user'']) ?db)).
      \<exists>s. k = enc_tuple [TStr s]"
    by (auto simp: alist_fdb_def set_clearjunk split: if_splits dest: in_set_takeD)
  ultimately obtain keys where "Fdb_List alist_fdb always ''user'' ?db = Inr keys"
    by (fastforce simp: Fdb_List_def Transact_def split: option.splits)
  moreover have "s = ''user'' \<or> prefix (''user'' @ [CHR 0x00]) s" if "s \<in> set keys" for s
    by (rule list_finds_only_the_prefix [OF tuple_laws_alist range_laws_alist packed calculation that])
  ultimately show ?thesis by blast
qed

lemma cleanup_loop_returns:
  assumes "\<And>k v t. (k, v) \<in> set kvs \<Longrightarrow> fa_dir_unpack api k = Some t \<Longrightarrow>
      length t < 4 \<or> (\<exists>a b. t ! 2 = TStr a \<and> t ! 3 = TStr b)"
  shows "\<exists>tr'. cleanup_loop api kvs tr = Some tr'"
  using assms
proof (induction kvs arbitrary: tr)
  case (Cons kv kvs)
  obtain k v where kv: "kv = (k, v)" by (cases kv)
  have rest: "\<exists>tr'. cleanup_loop api kvs tr = Some tr'" for tr
    by (rule Cons.IH) (use Cons.prems in auto)
  show ?case
  proof (cases "fa_dir_unpack api k")
    case None
    then show ?thesis using rest kv by simp
  next
    case (Some t)
    then show ?thesis using rest kv Cons.prems [of k v t] by (auto split: elem.splits)
  qed
qed simp

text \<open>An expired impression with one copy.\<close>

definition demo_expired :: "(bytes \<times> bytes) list" where
  "demo_expired = [(enc_tuple [TStr ''ttl'', TInt 5, TStr ''impressions'', TStr ''i''], [1]),
     (enc_tuple [TStr ''impressions'', TStr ''i''], [9]),
     (enc_tuple [TStr ''impressions'', TStr ''by-date'', TStr ''d'', TStr ''i''], [9])]"

theorem expiry_leaves_copies_witness:
  "\<exists>db'. CleanupExpired alist_fdb always (9 * 1000000000) demo_expired = (Inr (), db') \<and>
     fa_get alist_fdb (enc_tuple [TStr ''impressions'', TStr ''i'']) db' = None \<and>
     fa_get alist_fdb (enc_tuple [TStr ''impressions'', TStr ''by-date'', TStr ''d'', TStr ''i'']) db' = Some [9]"
proof -
  let ?now = "9 * 1000000000 :: time"
  let ?k = "enc_tuple [TStr ''ttl'', TInt 5, TStr ''impressions'', TStr ''i'']"
  let ?es = "expired_entries alist_fdb ?now demo_expired"
  have p: "fa_dir_pack alist_fdb = enc_tuple" "fa_dir_unpack alist_fdb = unpack"
    "\<And>k db. fa_get alist_fdb k db = map_of db k" by (simp_all add: alist_fdb_def)
  have entries: "\<exists>t. k = enc_tuple t \<and> (length t < 4 \<or> (\<exists>a b. t ! 2 = TStr a \<and> t ! 3 = TStr b))"
    if "(k, v) \<in> set ?es" for k v
  proof -
    from that have "map_of demo_expired k = Some v"
      by (auto simp: expired_entries_def alist_fdb_def set_clearjunk dest: in_set_takeD)
    then show ?thesis by (auto simp: demo_expired_def numeral_3_eq_3 numeral_2_eq_2 split: if_splits)
  qed
  have "\<exists>db'. cleanup_loop alist_fdb ?es demo_expired = Some db'"
  proof (rule cleanup_loop_returns)
    fix k v t
    assume "(k, v) \<in> set ?es" "fa_dir_unpack alist_fdb k = Some t"
    with entries [of k v] show "length t < 4 \<or> (\<exists>a b. t ! 2 = TStr a \<and> t ! 3 = TStr b)"
      by (auto simp: p)
  qed
  then obtain db' where run: "CleanupExpired alist_fdb always ?now demo_expired = (Inr (), db')"
    by (auto simp: CleanupExpired_def Transact_def)
  have "before_number [TStr ''ttl''] (unix_secs ?now) [TStr ''ttl'', TInt 5, TStr ''impressions'', TStr ''i'']"
    by (simp add: before_number_def unix_secs_def)
  moreover have "map_of demo_expired ?k = Some [1]" by (simp add: demo_expired_def)
  ultimately have "(?k, [1]) \<in> set (fa_between alist_fdb (enc_tuple [TStr ''ttl''])
      (enc_tuple [TStr ''ttl'', TInt (unix_secs ?now)]) demo_expired)"
    by (simp add: alist_fdb_def set_clearjunk)
  moreover have "length (fa_between alist_fdb (enc_tuple [TStr ''ttl''])
      (enc_tuple [TStr ''ttl'', TInt (unix_secs ?now)]) demo_expired) \<le> 3"
    by (simp add: alist_fdb_def)
      (rule order.trans [OF length_filter_le order.trans [OF AList.length_clearjunk]], simp add: demo_expired_def)
  ultimately have k: "(?k, [1]) \<in> set ?es" by (simp add: expired_entries_def p)
  have u: "fa_dir_unpack alist_fdb ?k = Some [TStr ''ttl'', TInt 5, TStr ''impressions'', TStr ''i'']"
    by (simp add: p)
  from expiry_leaves_copies [OF kv_laws_alist tuple_laws_alist range_laws_alist run k u,
      where index = "''by-date''" and ?val = "''d''"] run
  show ?thesis by (simp add: p) (simp add: demo_expired_def)
qed

end
