(* ===== verification/FdbMap.thy ===== *)
theory FdbMap
  imports FdbStorage
begin

text \<open>
  The contract of the storage back end of \<^verbatim>\<open>pkg/storage/fdb_backend.go\<close>: a map from keys to
  coded values, with calls that happen completely or not at all. The calls of the back end that
  change values by key, and a transaction made of such calls, are shown to refine it.
\<close>

subsection \<open>The back end under a sequence of calls\<close>

text \<open>The calls a function makes that is handed to \<open>Atomic\<close>; it returns the first error.\<close>

datatype 'v tx_call = TxSet string 'v | TxDelete string

fun tx_calls :: "'db fdb \<Rightarrow> ('v \<Rightarrow> 'e + bytes) \<Rightarrow> 'v tx_call list \<Rightarrow> 'db \<Rightarrow> ('e fdb_error + unit) \<times> 'db" where
  "tx_calls api marshal [] tr = (Inr (), tr)"
| "tx_calls api marshal (TxSet key v # cs) tr =
     (case Tx_Set api marshal key v tr of
        (Inl err, tr1) \<Rightarrow> (Inl err, tr1)
      | (Inr _, tr1) \<Rightarrow> tx_calls api marshal cs tr1)"
| "tx_calls api marshal (TxDelete key # cs) tr =
     (case Tx_Delete api key tr of
        (Inl err, tr1) \<Rightarrow> (Inl err, tr1)
      | (Inr _, tr1) \<Rightarrow> tx_calls api marshal cs tr1)"

datatype 'v kv_call = KvStore string 'v | KvDelete string | KvAtomic "'v tx_call list"

fun kv_step ::
  "'db fdb \<Rightarrow> ('db \<Rightarrow> 'e option) \<Rightarrow> ('v \<Rightarrow> 'e + bytes) \<Rightarrow> 'v kv_call \<Rightarrow> 'db \<Rightarrow> ('e fdb_error + unit) \<times> 'db" where
  "kv_step api commit marshal (KvStore key v) db = Fdb_Store api commit marshal key v db"
| "kv_step api commit marshal (KvDelete key) db = Fdb_Delete api commit key db"
| "kv_step api commit marshal (KvAtomic cs) db = Fdb_Atomic commit (tx_calls api marshal cs) db"

text \<open>The results of the calls and the database after them.\<close>

fun kv_run ::
  "'db fdb \<Rightarrow> ('db \<Rightarrow> 'e option) \<Rightarrow> ('v \<Rightarrow> 'e + bytes) \<Rightarrow> 'v kv_call list \<Rightarrow> 'db \<Rightarrow> ('e fdb_error + unit) list \<times> 'db" where
  "kv_run api commit marshal [] db = ([], db)"
| "kv_run api commit marshal (c # cs) db =
     (let (r, db1) = kv_step api commit marshal c db; (rs, db2) = kv_run api commit marshal cs db1
      in (r # rs, db2))"

subsection \<open>The abstract map\<close>

type_synonym store = "string \<rightharpoonup> bytes"

text \<open>\<open>None\<close> is a value that cannot be coded.\<close>

fun map_calls :: "('v \<Rightarrow> 'e + bytes) \<Rightarrow> 'v tx_call list \<Rightarrow> store \<Rightarrow> store option" where
  "map_calls marshal [] m = Some m"
| "map_calls marshal (TxSet key v # cs) m =
     (case marshal v of Inl _ \<Rightarrow> None | Inr data \<Rightarrow> map_calls marshal cs (m(key \<mapsto> data)))"
| "map_calls marshal (TxDelete key # cs) m = map_calls marshal cs (m(key := None))"

fun as_calls :: "'v kv_call \<Rightarrow> 'v tx_call list" where
  "as_calls (KvStore key v) = [TxSet key v]"
| "as_calls (KvDelete key) = [TxDelete key]"
| "as_calls (KvAtomic cs) = cs"

text \<open>A call that succeeds acts on the map, one that fails leaves it alone and does so only when a
  value cannot be coded or the commit is refused.\<close>

fun map_step :: "('v \<Rightarrow> 'e + bytes) \<Rightarrow> 'v kv_call \<Rightarrow> 'e fdb_error + unit \<Rightarrow> store \<Rightarrow> store \<Rightarrow> bool" where
  "map_step marshal c (Inr _) m m' \<longleftrightarrow> map_calls marshal (as_calls c) m = Some m'"
| "map_step marshal c (Inl err) m m' \<longleftrightarrow> m' = m \<and>
     (case err of
        ErrMarshalValue e \<Rightarrow> map_calls marshal (as_calls c) m = None
      | ErrTransact e \<Rightarrow> map_calls marshal (as_calls c) m \<noteq> None
      | _ \<Rightarrow> False)"

fun map_run :: "('v \<Rightarrow> 'e + bytes) \<Rightarrow> 'v kv_call list \<Rightarrow> ('e fdb_error + unit) list \<Rightarrow> store \<Rightarrow> store \<Rightarrow> bool" where
  "map_run marshal [] [] m m' \<longleftrightarrow> m' = m"
| "map_run marshal (c # cs) (r # rs) m m' \<longleftrightarrow> (\<exists>m1. map_step marshal c r m m1 \<and> map_run marshal cs rs m1 m')"
| "map_run marshal _ _ m m' \<longleftrightarrow> False"

definition stored :: "'db fdb \<Rightarrow> 'db \<Rightarrow> store" where
  "stored api db = (\<lambda>key. fa_get api (fa_dir_pack api [TStr key]) db)"

subsection \<open>Refinement\<close>

lemma stored_set:
  assumes "kv_laws api" "tuple_laws api"
  shows "stored api (fa_set api (fa_dir_pack api [TStr key]) data db) = (stored api db)(key \<mapsto> data)"
    "stored api (fa_clear api (fa_dir_pack api [TStr key]) db) = (stored api db)(key := None)"
  by (auto simp: stored_def kv_simps [OF assms(1)] tuple_simps(3) [OF assms(2)])

lemma tx_calls_stored:
  assumes "kv_laws api" "tuple_laws api" "tx_calls api marshal cs tr = (r, tr')"
  shows "case r of Inr _ \<Rightarrow> map_calls marshal cs (stored api tr) = Some (stored api tr')
    | Inl err \<Rightarrow> (\<exists>e. err = ErrMarshalValue e) \<and> map_calls marshal cs (stored api tr) = None"
  using assms(3)
proof (induction cs arbitrary: tr)
  case (Cons c cs)
  then show ?case
    by (cases c) (auto simp: Tx_Set_def Tx_Delete_def stored_set [OF assms(1,2), symmetric] split: sum.splits)
qed auto

lemma Transact_calls:
  assumes "kv_laws api" "tuple_laws api" "Transact commit (tx_calls api marshal cs) db = (r, db')"
    and "as_calls c = cs"
  shows "map_step marshal c r (stored api db) (stored api db')"
proof -
  obtain r1 db1 where run: "tx_calls api marshal cs db = (r1, db1)" by fastforce
  show ?thesis
    using tx_calls_stored [OF assms(1,2) run] assms(3,4) run
    by (auto simp: Transact_def split: sum.splits option.splits)
qed

lemma kv_step_as_calls:
  "kv_step api commit marshal c db = Transact commit (tx_calls api marshal (as_calls c)) db"
proof (cases c)
  case (KvStore key v)
  then show ?thesis by (cases "marshal v") (simp_all add: Fdb_Store_def Transact_def Tx_Set_def)
next
  case (KvDelete key)
  then show ?thesis by (simp add: Fdb_Delete_def Transact_def Tx_Delete_def)
next
  case (KvAtomic cs)
  then show ?thesis by (simp add: Fdb_Atomic_def)
qed

text \<open>C37: The back end refines a map: whatever sequence of \<open>Store\<close>, \<open>Delete\<close> and \<open>Atomic\<close> calls is
  made, and whichever commits the database refuses, the stored values are those of the map under
  the calls that succeeded, a transaction counting with all of its calls or with none; a call
  fails only when a value of it cannot be coded or its commit is refused; and afterwards \<open>Load\<close>
  reads the map.\<close>

theorem fdb_refines_map:
  assumes "kv_laws api" "tuple_laws api" "kv_run api commit marshal calls db = (results, db')"
    and "\<And>d. refuse d = None"
  shows "map_run marshal calls results (stored api db) (stored api db') \<and>
    (\<forall>key. Fdb_Load api refuse unmarshal key db' =
       (case stored api db' key of
          None \<Rightarrow> Inl (ErrKeyNotFound key)
        | Some data \<Rightarrow> (case unmarshal data of Inl err \<Rightarrow> Inl (ErrUnmarshal err) | Inr v \<Rightarrow> Inr v)))"
proof
  show "map_run marshal calls results (stored api db) (stored api db')"
    using assms(3)
  proof (induction calls arbitrary: db results)
    case (Cons c cs)
    obtain r db1 where step: "kv_step api commit marshal c db = (r, db1)" by fastforce
    obtain rs where run: "kv_run api commit marshal cs db1 = (rs, db')" and results: "results = r # rs"
      using Cons.prems step by (auto split: prod.splits)
    from Transact_calls [OF assms(1,2) step [unfolded kv_step_as_calls] refl] Cons.IH [OF run]
    show ?case by (auto simp: results)
  qed simp
  show "\<forall>key. Fdb_Load api refuse unmarshal key db' =
      (case stored api db' key of
         None \<Rightarrow> Inl (ErrKeyNotFound key)
       | Some data \<Rightarrow> (case unmarshal data of Inl err \<Rightarrow> Inl (ErrUnmarshal err) | Inr v \<Rightarrow> Inr v))"
    by (simp add: Fdb_Load_def Transact_def assms(4) stored_def split: option.splits)
qed

text \<open>A transaction whose second value cannot be coded leaves nothing of its first.\<close>

definition short_codes :: "bytes \<Rightarrow> string + bytes" where
  "short_codes v = (if length v < 4 then Inr v else Inl ''too long'')"

definition demo_calls :: "bytes kv_call list" where
  "demo_calls = [KvStore ''a'' [1], KvAtomic [TxSet ''b'' [2], TxSet ''c'' [1, 2, 3, 4]],
     KvAtomic [TxSet ''b'' [3], TxDelete ''a'']]"

theorem fdb_refines_map_witness:
  "\<exists>results db'. kv_run alist_fdb (\<lambda>_. None) short_codes demo_calls [] = (results, db') \<and>
     results = [Inr (), Inl (ErrMarshalValue ''too long''), Inr ()] \<and>
     map_run short_codes demo_calls results (stored alist_fdb []) (stored alist_fdb db') \<and>
     Fdb_Load alist_fdb (\<lambda>_. None) short_codes ''b'' db' = Inr [3]"
proof -
  obtain results db' where run: "kv_run alist_fdb (\<lambda>_. None) short_codes demo_calls [] = (results, db')"
    by fastforce
  have results: "results = [Inr (), Inl (ErrMarshalValue ''too long''), Inr ()]"
    using run by (simp add: demo_calls_def kv_step_as_calls Transact_def Tx_Set_def Tx_Delete_def short_codes_def Let_def
        split: prod.splits)
  from fdb_refines_map [OF kv_laws_alist tuple_laws_alist run, where refuse = "\<lambda>_. None" and unmarshal = short_codes]
  have ref: "map_run short_codes demo_calls results (stored alist_fdb []) (stored alist_fdb db')"
    "Fdb_Load alist_fdb (\<lambda>_. None) short_codes ''b'' db' =
       (case stored alist_fdb db' ''b'' of None \<Rightarrow> Inl (ErrKeyNotFound ''b'')
        | Some data \<Rightarrow> (case short_codes data of Inl err \<Rightarrow> Inl (ErrUnmarshal err) | Inr v \<Rightarrow> Inr v))"
    by simp_all
  have "stored alist_fdb db' ''b'' = Some [3]"
    using ref(1) unfolding results by (auto simp: demo_calls_def short_codes_def)
  then have "Fdb_Load alist_fdb (\<lambda>_. None) short_codes ''b'' db' = Inr [3]"
    unfolding ref(2) by (simp add: short_codes_def)
  with run results ref(1) show ?thesis by blast
qed

end
