(* ===== verification/FdbWatch.thy ===== *)
theory FdbWatch
  imports FdbStorage
begin

text \<open>
  \<^verbatim>\<open>pkg/storage/fdb_backend.go\<close>: opening the FoundationDB backend, and \<open>Watch\<close>, a goroutine
  that sends the value of a key now and after every change.

  The type of the events is declared nowhere; an event is here what the two composite literals
  in the code say of it. The goroutine, the reader of its channel, the owner of its context and
  the other clients of the database take turns in the step relation \<open>watch_step\<close>. What the
  documentation of the database says of a watch is the rule \<open>wake\<close>: the future of a watch
  becomes ready after the value has changed since the transaction that made it.
\<close>

subsection \<open>Opening\<close>

record ('db, 'dir) FDBBackend =
  fb_db :: 'db
  fb_dir :: 'dir
  fb_keyspace :: string

datatype 'e open_error = ErrOpen 'e | ErrDirectory 'e

definition Fdb_NewFDBBackend ::
  "(string \<Rightarrow> 'e + 'db) \<Rightarrow> ('db \<Rightarrow> string list \<Rightarrow> 'e + 'dir) \<Rightarrow> string \<Rightarrow> string \<Rightarrow>
   'e open_error + ('db, 'dir) FDBBackend" where
  "Fdb_NewFDBBackend open_db create_dir clusterFile keyspace =
     (case open_db clusterFile of
        Inl err \<Rightarrow> Inl (ErrOpen err)
      | Inr db \<Rightarrow>
          (case create_dir db [''adx'', keyspace] of
             Inl err \<Rightarrow> Inl (ErrDirectory err)
           | Inr dir \<Rightarrow> Inr \<lparr>fb_db = db, fb_dir = dir, fb_keyspace = keyspace\<rparr>))"

definition Fdb_Close :: "('db, 'dir) FDBBackend \<Rightarrow> string option" where
  "Fdb_Close b = None"

subsection \<open>Watching a key\<close>

datatype ('e, 'v) watch_event = EventFailed string 'e | EventSet string 'v

text \<open>Where the goroutine is: at the head of its loop, blocked in a send with the place to go on
  at, blocked on the future of a watch that was made when the key had the given value, or gone.\<close>

datatype ('e, 'v) watch_pc =
    Looping
  | Sending "('e, 'v) watch_event" "('e, 'v) watch_pc"
  | Waiting "bytes option"
  | Returned

text \<open>The watch with the database. \<open>wa_changed\<close> says that the value has changed since the watch
  was made; \<open>wa_sent\<close> are all events ever sent.\<close>

record ('db, 'e, 'v) watch =
  wa_db :: 'db
  wa_cancelled :: bool
  wa_chan :: "('e, 'v) watch_event list"
  wa_closed :: bool
  wa_pc :: "('e, 'v) watch_pc"
  wa_changed :: bool
  wa_sent :: "('e, 'v) watch_event list"

definition channel_room :: nat where "channel_room = 10"

definition Fdb_Watch :: "'db \<Rightarrow> ('db, 'e, 'v) watch" where
  "Fdb_Watch db = \<lparr>wa_db = db, wa_cancelled = False, wa_chan = [], wa_closed = False, wa_pc = Looping,
     wa_changed = False, wa_sent = []\<rparr>"

definition watched_value :: "'db fdb \<Rightarrow> string \<Rightarrow> ('db, 'e, 'v) watch \<Rightarrow> bytes option" where
  "watched_value api key s = fa_get api (fa_dir_pack api [TStr key]) (wa_db s)"

text \<open>What the goroutine does with the value it has read.\<close>

definition after_read :: "(bytes \<Rightarrow> 'e + 'v) \<Rightarrow> string \<Rightarrow> bytes option \<Rightarrow> ('e, 'v) watch_pc" where
  "after_read unmarshal key value =
     (case value of
        None \<Rightarrow> Waiting value
      | Some data \<Rightarrow> (case unmarshal data of Inl _ \<Rightarrow> Waiting value | Inr x \<Rightarrow> Sending (EventSet key x) (Waiting value)))"

inductive watch_step ::
  "'db fdb \<Rightarrow> (bytes \<Rightarrow> 'e + 'v) \<Rightarrow> string \<Rightarrow> ('db, 'e, 'v) watch \<Rightarrow> ('db, 'e, 'v) watch \<Rightarrow> bool"
  for api unmarshal key where
  others_write:
    "t = s\<lparr>wa_db := db'\<rparr> \<Longrightarrow>
     watch_step api unmarshal key s
       (t\<lparr>wa_changed := (wa_changed s \<or> watched_value api key t \<noteq> watched_value api key s)\<rparr>)"
| cancel: "watch_step api unmarshal key s (s\<lparr>wa_cancelled := True\<rparr>)"
| receive: "wa_chan s = e # rest \<Longrightarrow> watch_step api unmarshal key s (s\<lparr>wa_chan := rest\<rparr>)"
| finish: "wa_pc s = Looping \<Longrightarrow> wa_cancelled s \<Longrightarrow> watch_step api unmarshal key s (s\<lparr>wa_pc := Returned, wa_closed := True\<rparr>)"
| transact_fails:
    "wa_pc s = Looping \<Longrightarrow> \<not> wa_cancelled s \<Longrightarrow>
     watch_step api unmarshal key s (s\<lparr>wa_pc := Sending (EventFailed key err) Returned\<rparr>)"
| transact:
    "wa_pc s = Looping \<Longrightarrow> \<not> wa_cancelled s \<Longrightarrow>
     watch_step api unmarshal key s
       (s\<lparr>wa_changed := False, wa_pc := after_read unmarshal key (watched_value api key s)\<rparr>)"
| send:
    "wa_pc s = Sending e pc \<Longrightarrow> length (wa_chan s) < channel_room \<Longrightarrow>
     watch_step api unmarshal key s
       (s\<lparr>wa_chan := wa_chan s @ [e], wa_sent := wa_sent s @ [e], wa_pc := pc, wa_closed := (pc = Returned)\<rparr>)"
| wake: "wa_pc s = Waiting v \<Longrightarrow> wa_changed s \<Longrightarrow> watch_step api unmarshal key s (s\<lparr>wa_pc := Looping\<rparr>)"

inductive_cases watch_stepE: "watch_step api unmarshal key s t"

definition watch_reach ::
  "'db fdb \<Rightarrow> (bytes \<Rightarrow> 'e + 'v) \<Rightarrow> string \<Rightarrow> 'db \<Rightarrow> ('db, 'e, 'v) watch \<Rightarrow> bool" where
  "watch_reach api unmarshal key db s \<longleftrightarrow> (watch_step api unmarshal key)\<^sup>*\<^sup>* (Fdb_Watch db) s"

subsection \<open>The invariant\<close>

text \<open>A wait for a change of \<open>v\<close> is true to the database and to what has been sent.\<close>

definition true_wait :: "'db fdb \<Rightarrow> string \<Rightarrow> ('db, 'e, 'v) watch \<Rightarrow> bytes option \<Rightarrow> bool" where
  "true_wait api key s v \<longleftrightarrow> (\<not> wa_changed s \<longrightarrow> watched_value api key s = v)"

definition decoded :: "(bytes \<Rightarrow> 'e + 'v) \<Rightarrow> bytes option \<Rightarrow> 'v option" where
  "decoded unmarshal v =
     (case v of None \<Rightarrow> None | Some data \<Rightarrow> (case unmarshal data of Inl _ \<Rightarrow> None | Inr x \<Rightarrow> Some x))"

fun pc_ok :: "'db fdb \<Rightarrow> (bytes \<Rightarrow> 'e + 'v) \<Rightarrow> string \<Rightarrow> ('db, 'e, 'v) watch \<Rightarrow> ('e, 'v) watch_pc \<Rightarrow> bool" where
  "pc_ok api unmarshal key s Looping \<longleftrightarrow> True"
| "pc_ok api unmarshal key s Returned \<longleftrightarrow> True"
| "pc_ok api unmarshal key s (Waiting v) \<longleftrightarrow> true_wait api key s v \<and>
     (\<forall>x. decoded unmarshal v = Some x \<longrightarrow> (\<exists>es. wa_sent s = es @ [EventSet key x]))"
| "pc_ok api unmarshal key s (Sending e Returned) \<longleftrightarrow> (\<exists>err. e = EventFailed key err)"
| "pc_ok api unmarshal key s (Sending e (Waiting v)) \<longleftrightarrow> true_wait api key s v \<and>
     (\<exists>x. e = EventSet key x \<and> decoded unmarshal v = Some x)"
| "pc_ok api unmarshal key s (Sending e pc) \<longleftrightarrow> False"

definition watch_inv :: "'db fdb \<Rightarrow> (bytes \<Rightarrow> 'e + 'v) \<Rightarrow> string \<Rightarrow> ('db, 'e, 'v) watch \<Rightarrow> bool" where
  "watch_inv api unmarshal key s \<longleftrightarrow> pc_ok api unmarshal key s (wa_pc s) \<and>
     (wa_closed s \<longleftrightarrow> wa_pc s = Returned) \<and> length (wa_chan s) \<le> channel_room"

lemma watched_value_cong: "wa_db t = wa_db s \<Longrightarrow> watched_value api key t = watched_value api key s"
  by (simp add: watched_value_def)

lemma pc_ok_cong:
  assumes "pc_ok api unmarshal key s pc" "wa_sent t = wa_sent s"
    and "\<And>v. true_wait api key s v \<Longrightarrow> true_wait api key t v"
  shows "pc_ok api unmarshal key t pc"
  using assms by (cases "(api, unmarshal, key, s, pc)" rule: pc_ok.cases) simp_all

lemma after_read_ok:
  assumes "true_wait api key s v"
  shows "pc_ok api unmarshal key s (after_read unmarshal key v) \<or>
    (after_read unmarshal key v = Waiting v \<and> decoded unmarshal v = None)"
  using assms by (auto simp: after_read_def decoded_def split: option.splits sum.splits)

lemma after_read_not_returned: "after_read unmarshal key v \<noteq> Returned" "after_read unmarshal key v \<noteq> Looping"
  by (simp_all add: after_read_def split: option.splits sum.splits)

lemma sent_ok:
  assumes "pc_ok api unmarshal key s (Sending e pc)" "wa_sent t = wa_sent s @ [e]"
    and "\<And>v. true_wait api key s v \<Longrightarrow> true_wait api key t v"
  shows "pc_ok api unmarshal key t pc"
  using assms by (cases pc) auto

lemma watch_step_inv [adx_inv]:
  assumes "watch_step api unmarshal key s t" and "watch_inv api unmarshal key s"
  shows "watch_inv api unmarshal key t"
  using assms(1)
proof (cases rule: watch_step.cases)
  case (others_write t' db')
  then show ?thesis using assms(2)
    by (auto simp: watch_inv_def true_wait_def watched_value_def intro!: pc_ok_cong [of api unmarshal key s])
next
  case cancel
  then show ?thesis using assms(2)
    by (auto simp: watch_inv_def true_wait_def watched_value_def intro!: pc_ok_cong [of api unmarshal key s])
next
  case (receive e rest)
  then show ?thesis using assms(2)
    by (auto simp: watch_inv_def true_wait_def watched_value_def intro!: pc_ok_cong [of api unmarshal key s])
next
  case finish
  then show ?thesis using assms(2) by (simp add: watch_inv_def)
next
  case (transact_fails err)
  then show ?thesis using assms(2) by (simp add: watch_inv_def)
next
  case transact
  let ?v = "watched_value api key s"
  have w: "true_wait api key t ?v" using transact(1) by (simp add: true_wait_def watched_value_def)
  from after_read_ok [OF w, of unmarshal] have "pc_ok api unmarshal key t (after_read unmarshal key ?v)"
  proof
    assume "after_read unmarshal key ?v = Waiting ?v \<and> decoded unmarshal ?v = None"
    with w show ?thesis by simp
  qed
  then show ?thesis using assms(2) transact
    by (simp add: watch_inv_def after_read_not_returned)
next
  case (send e pc)
  have "pc_ok api unmarshal key s (Sending e pc)"
    using assms(2) unfolding watch_inv_def send(2) by blast
  moreover have "wa_sent t = wa_sent s @ [e]" unfolding send(1) by simp
  moreover have "true_wait api key s v \<Longrightarrow> true_wait api key t v" for v
    unfolding send(1) true_wait_def watched_value_def by simp
  ultimately have ok: "pc_ok api unmarshal key t pc" by (rule sent_ok)
  have "wa_pc t = pc" "wa_closed t = (pc = Returned)" "wa_chan t = wa_chan s @ [e]"
    unfolding send(1) by simp_all
  with ok send(3) show ?thesis by (simp add: watch_inv_def)
next
  case (wake v)
  then show ?thesis using assms(2) by (simp add: watch_inv_def)
qed

lemma watch_reach_inv:
  assumes "watch_reach api unmarshal key db s" shows "watch_inv api unmarshal key s"
proof -
  have "(watch_step api unmarshal key)\<^sup>*\<^sup>* (Fdb_Watch db) s" using assms by (simp add: watch_reach_def)
  then show ?thesis
  proof (induction rule: rtranclp_induct)
    case base
    show ?case by (simp add: watch_inv_def Fdb_Watch_def channel_room_def)
  next
    case (step t u)
    then show ?case by (auto intro: watch_step_inv)
  qed
qed

text \<open>C39: A watch reports the present value: whenever its goroutine waits and the value has not
  changed since the watch was made, the value of the key is the one the watch was made for, and
  the last event sent carries that value, if there is one and it decodes. No change is slept
  through: when the value is another one, the goroutine can go on.\<close>

theorem watch_reports_present_value:
  assumes "watch_reach api unmarshal key db s" "wa_pc s = Waiting v"
  shows "(if wa_changed s then \<exists>t. watch_step api unmarshal key s t \<and> wa_pc t = Looping
     else watched_value api key s = v \<and>
       (case decoded unmarshal v of None \<Rightarrow> True | Some x \<Rightarrow> last (wa_sent s) = EventSet key x))"
proof -
  have "pc_ok api unmarshal key s (Waiting v)"
    using watch_reach_inv [OF assms(1)] assms(2) by (simp add: watch_inv_def)
  moreover have "wa_changed s \<Longrightarrow> \<exists>t. watch_step api unmarshal key s t \<and> wa_pc t = Looping"
    using wake [OF assms(2)] by (metis watch.simps(5) watch.surjective watch.update_convs(5))
  ultimately show ?thesis by (auto simp: true_wait_def split: option.splits)
qed

text \<open>A step in which the value of the key stays what it is.\<close>

definition quiet_step ::
  "'db fdb \<Rightarrow> (bytes \<Rightarrow> 'e + 'v) \<Rightarrow> string \<Rightarrow> ('db, 'e, 'v) watch \<Rightarrow> ('db, 'e, 'v) watch \<Rightarrow> bool" where
  "quiet_step api unmarshal key s t \<longleftrightarrow>
     watch_step api unmarshal key s t \<and> watched_value api key t = watched_value api key s"

lemma quiet_step_waits:
  assumes "quiet_step api unmarshal key s t" "wa_pc s = Waiting v" "\<not> wa_changed s"
  shows "wa_pc t = Waiting v \<and> \<not> wa_changed t \<and> wa_closed t = wa_closed s"
proof -
  have "watch_step api unmarshal key s t" and eq: "watched_value api key t = watched_value api key s"
    using assms(1) by (simp_all add: quiet_step_def)
  from this(1) show ?thesis
  proof (cases rule: watch_step.cases)
    case (others_write t' db')
    have "watched_value api key t = watched_value api key t'"
      unfolding others_write(1) by (simp add: watched_value_def)
    with eq assms(2,3) show ?thesis unfolding others_write by simp
  qed (use assms(2,3) in simp_all)
qed

text \<open>Cancelling the context does not end a waiting watch: the context is looked at at the head of
  the loop only, so a goroutine that waits for a change stays there, with its channel open, through
  any steps of anyone, cancellation included, that leave the value of the key as it is.\<close>

theorem cancelled_watch_waits:
  assumes "watch_reach api unmarshal key db s" "wa_pc s = Waiting v" "\<not> wa_changed s"
    and "(quiet_step api unmarshal key)\<^sup>*\<^sup>* s t"
  shows "wa_pc t = Waiting v \<and> \<not> wa_closed t"
proof -
  have "\<not> wa_closed s" using watch_reach_inv [OF assms(1)] assms(2) by (simp add: watch_inv_def)
  moreover have "wa_pc t = Waiting v \<and> \<not> wa_changed t \<and> wa_closed t = wa_closed s"
    using assms(4)
  proof (induction rule: rtranclp_induct)
    case base
    show ?case using assms(2,3) by simp
  next
    case (step y z)
    from quiet_step_waits [OF step.hyps(2)] step.IH show ?case by simp
  qed
  ultimately show ?thesis by simp
qed

subsection \<open>A concrete watch\<close>

text \<open>A database that is a map, with keys packed as the characters of their first string.\<close>

definition map_fdb :: "(bytes \<rightharpoonup> bytes) fdb" where
  "map_fdb = \<lparr>fa_get = (\<lambda>k m. m k), fa_set = (\<lambda>k v m. m(k \<mapsto> v)), fa_clear = (\<lambda>k m. m(k := None)),
     fa_add = (\<lambda>k v m. m), fa_prefix = (\<lambda>k m. []), fa_between = (\<lambda>k l m. []),
     fa_dir_pack = (\<lambda>t. case t of TStr s # _ \<Rightarrow> map (\<lambda>c. of_nat (of_char c)) s | _ \<Rightarrow> []),
     fa_dir_unpack = (\<lambda>k. None), fa_pack = (\<lambda>t. []), fa_unpack = (\<lambda>k. None)\<rparr>"

definition bytes_json :: "bytes \<Rightarrow> string + bytes" where
  "bytes_json data = (if data = [] then Inl ''unexpected end of JSON input'' else Inr data)"

definition stored_key :: "bytes \<rightharpoonup> bytes" where
  "stored_key = [[107] \<mapsto> [49]]"

definition sent_watch :: "(bytes \<rightharpoonup> bytes, string, bytes) watch" where
  "sent_watch = (Fdb_Watch stored_key)\<lparr>wa_chan := [EventSet ''k'' [49]], wa_sent := [EventSet ''k'' [49]],
     wa_pc := Waiting (Some [49])\<rparr>"

lemma sent_watch_reached: "watch_reach map_fdb bytes_json ''k'' stored_key sent_watch"
proof -
  let ?s0 = "Fdb_Watch stored_key :: (bytes \<rightharpoonup> bytes, string, bytes) watch"
  have v: "watched_value map_fdb ''k'' ?s0 = Some [49]"
    by (simp add: watched_value_def map_fdb_def Fdb_Watch_def stored_key_def)
  have "watch_step map_fdb bytes_json ''k'' ?s0
      (?s0\<lparr>wa_changed := False, wa_pc := after_read bytes_json ''k'' (watched_value map_fdb ''k'' ?s0)\<rparr>)"
    by (rule transact) (simp_all add: Fdb_Watch_def)
  moreover have "after_read bytes_json ''k'' (watched_value map_fdb ''k'' ?s0) =
      Sending (EventSet ''k'' [49]) (Waiting (Some [49]))"
    unfolding v by (simp add: after_read_def bytes_json_def)
  moreover have "?s0\<lparr>wa_changed := False\<rparr> = ?s0" by (simp add: Fdb_Watch_def)
  ultimately have s1: "watch_step map_fdb bytes_json ''k'' ?s0
      (?s0\<lparr>wa_pc := Sending (EventSet ''k'' [49]) (Waiting (Some [49]))\<rparr>)"
    by (simp only:)
  let ?s1 = "?s0\<lparr>wa_pc := Sending (EventSet ''k'' [49]) (Waiting (Some [49]))\<rparr>"
  have "watch_step map_fdb bytes_json ''k'' ?s1
      (?s1\<lparr>wa_chan := wa_chan ?s1 @ [EventSet ''k'' [49]], wa_sent := wa_sent ?s1 @ [EventSet ''k'' [49]],
        wa_pc := Waiting (Some [49]), wa_closed := (Waiting (Some [49]) = (Returned :: (string, bytes) watch_pc))\<rparr>)"
    by (rule send) (simp_all add: Fdb_Watch_def channel_room_def)
  then have "watch_step map_fdb bytes_json ''k'' ?s1 sent_watch"
    by (simp add: sent_watch_def Fdb_Watch_def)
  with s1 show ?thesis
    unfolding watch_reach_def by (meson r_into_rtranclp rtranclp.rtrancl_into_rtrancl)
qed

theorem watch_reports_present_value_witness:
  "watched_value map_fdb ''k'' sent_watch = Some [49] \<and> last (wa_sent sent_watch) = EventSet ''k'' [49]"
proof -
  have "wa_pc sent_watch = Waiting (Some [49])" "\<not> wa_changed sent_watch"
    by (simp_all add: sent_watch_def Fdb_Watch_def)
  with watch_reports_present_value [OF sent_watch_reached this(1)] show ?thesis
    by (simp add: decoded_def bytes_json_def)
qed

theorem cancelled_watch_waits_witness:
  "wa_pc (sent_watch\<lparr>wa_cancelled := True\<rparr>) = Waiting (Some [49]) \<and> \<not> wa_closed (sent_watch\<lparr>wa_cancelled := True\<rparr>)"
proof -
  have "quiet_step map_fdb bytes_json ''k'' sent_watch (sent_watch\<lparr>wa_cancelled := True\<rparr>)"
    unfolding quiet_step_def by (intro conjI cancel) (simp add: watched_value_def)
  then have run: "(quiet_step map_fdb bytes_json ''k'')\<^sup>*\<^sup>* sent_watch (sent_watch\<lparr>wa_cancelled := True\<rparr>)" ..
  have "wa_pc sent_watch = Waiting (Some [49])" "\<not> wa_changed sent_watch"
    by (simp_all add: sent_watch_def Fdb_Watch_def)
  from cancelled_watch_waits [OF sent_watch_reached this run] show ?thesis .
qed

end
