(* ===== verification/Hashing.thy ===== *)
theory Hashing
  imports Prelude
begin

text \<open>
  \<^verbatim>\<open>pkg/crypto/hashing/hash.go\<close>: the SHA-256 wrappers. The compression of
  \<^verbatim>\<open>crypto/sha256\<close> is the parameter \<open>sha\<close>; a hash in progress is the bytes written
  to it, as the documentation of \<^verbatim>\<open>hash.Hash\<close> describes it.
\<close>

type_synonym Hasher = bytes

definition Hash_Write :: "bytes \<Rightarrow> Hasher \<Rightarrow> Hasher" where
  "Hash_Write data h = h @ data"

definition Hash_Sum :: "(bytes \<Rightarrow> bytes) \<Rightarrow> bytes \<Rightarrow> Hasher \<Rightarrow> bytes" where
  "Hash_Sum sha b h = b @ sha h"

definition Hash_Reset :: "Hasher \<Rightarrow> Hasher" where
  "Hash_Reset h = []"

definition NewSHA256 :: Hasher where "NewSHA256 = []"

definition SHA256 :: "(bytes \<Rightarrow> bytes) \<Rightarrow> bytes \<Rightarrow> bytes" where
  "SHA256 sha data = sha data"

definition NewHasher :: Hasher where "NewHasher = []"

definition HashBytes :: "(bytes \<Rightarrow> bytes) \<Rightarrow> bytes \<Rightarrow> Hasher \<Rightarrow> bytes \<times> Hasher" where
  "HashBytes sha data h =
     (let h1 = Hash_Reset h; h2 = Hash_Write data h1 in (Hash_Sum sha [] h2, h2))"

text \<open>A hasher hashes what it is given, whatever was written to it before.\<close>

lemma HashBytes_SHA256: "fst (HashBytes sha data h) = SHA256 sha data"
  by (simp add: HashBytes_def SHA256_def Hash_Sum_def Hash_Write_def Hash_Reset_def)

lemma writes_concatenate: "Hash_Sum sha [] (fold Hash_Write parts NewSHA256) = SHA256 sha (concat parts)"
proof -
  have "fold Hash_Write parts h = h @ concat parts" for h
    by (induction parts arbitrary: h) (simp_all add: Hash_Write_def)
  then show ?thesis by (simp add: Hash_Sum_def SHA256_def NewSHA256_def)
qed

end
