(* ===== verification/Miner.thy ===== *)
theory Miner
  imports Complex_Main Ids
begin

text \<open>
  \<^verbatim>\<open>pkg/miner/home_miner.go\<close>: the home miner, its cache, its earnings and its tunnels.

  What the operating system and the network answer is a parameter of the operations that
  ask: the output of the tunnel commands, the answer of the local ngrok service, the number of
  processors, the clock in nanoseconds. A handler's answer is its header, status and body. The
  miner's locks and the goroutines that serve and connect have no state of their own.
\<close>

subsection \<open>Data\<close>

type_synonym TunnelType = string

definition TunnelLocalXpose :: TunnelType where "TunnelLocalXpose = ''localxpose''"
definition TunnelNgrok :: TunnelType where "TunnelNgrok = ''ngrok''"
definition TunnelCloudflare :: TunnelType where "TunnelCloudflare = ''cloudflare''"
definition TunnelTailscale :: TunnelType where "TunnelTailscale = ''tailscale''"
definition TunnelDirectIP :: TunnelType where "TunnelDirectIP = ''direct''"

lemmas tunnel_defs = TunnelLocalXpose_def TunnelNgrok_def TunnelCloudflare_def TunnelTailscale_def
  TunnelDirectIP_def

record Config =
  cf_WalletAddress :: string
  cf_LocalPort :: int
  cf_CacheSize :: string

record TunnelConfig =
  tc_Type :: TunnelType
  tc_AuthToken :: string
  tc_Subdomain :: string
  tc_PublicIP :: string

record AdCache =
  ac_maxSize :: int
  ac_used :: int
  ac_ads :: "string \<rightharpoonup> bytes"

record MinerEarnings =
  me_WalletAddress :: string
  me_TotalEarnings :: int
  me_PendingWithdrawal :: int
  me_LastPayout :: int

record 'v HomeMiner =
  hm_ID :: string
  hm_WalletAddress :: string
  hm_NodeName :: string
  hm_TunnelType :: TunnelType
  hm_LocalPort :: int
  hm_PublicURL :: string
  hm_CacheSize :: int
  hm_AdCache :: AdCache
  hm_Earnings :: MinerEarnings
  hm_stats :: "string \<rightharpoonup> 'v"

record HardwareInfo =
  hw_CPUCores :: int
  hw_MemoryGB :: int
  hw_DiskGB :: int
  hw_NetworkMbps :: int
  hw_GPU :: string

datatype 'e miner_error =
    ErrSetupTunnel "'e miner_error"
  | ErrUnsupportedTunnel TunnelType
  | ErrSystem 'e

subsection \<open>Construction\<close>

definition NewAdCache :: "int \<Rightarrow> AdCache" where
  "NewAdCache maxSize = \<lparr>ac_maxSize = maxSize, ac_used = 0, ac_ads = Map.empty\<rparr>"

definition NewMinerEarnings :: "string \<Rightarrow> MinerEarnings" where
  "NewMinerEarnings wallet =
     \<lparr>me_WalletAddress = wallet, me_TotalEarnings = 0, me_PendingWithdrawal = 0, me_LastPayout = 0\<rparr>"

text \<open>The first 16 characters of the hash of the decimal clock; slicing a shorter text would
  panic, but a hash has 64.\<close>

definition generateMinerID :: "(bytes \<Rightarrow> bytes) \<Rightarrow> int \<Rightarrow> string" where
  "generateMinerID sha now = take 16 (hex_encode (sha (map of_char (show_int now))))"

definition parseSize :: "string \<Rightarrow> int" where
  "parseSize s =
     (if s = ''10GB'' then 10 * 1024 * 1024 * 1024
      else if s = ''100GB'' then 100 * 1024 * 1024 * 1024
      else 1024 * 1024 * 1024)"

definition NewHomeMiner :: "(bytes \<Rightarrow> bytes) \<Rightarrow> int \<Rightarrow> Config \<Rightarrow> TunnelConfig \<Rightarrow> 'v HomeMiner" where
  "NewHomeMiner sha now config tunnelConfig =
     \<lparr>hm_ID = generateMinerID sha now, hm_WalletAddress = cf_WalletAddress config, hm_NodeName = [],
      hm_TunnelType = tc_Type tunnelConfig, hm_LocalPort = cf_LocalPort config, hm_PublicURL = [],
      hm_CacheSize = 0, hm_AdCache = NewAdCache (parseSize (cf_CacheSize config)),
      hm_Earnings = NewMinerEarnings (cf_WalletAddress config), hm_stats = Map.empty\<rparr>"

subsection \<open>Tunnels\<close>

text \<open>\<open>loclx\<close> is what the command prints for a port, or its failure.\<close>

definition setupLocalXpose ::
  "(string \<Rightarrow> 'e + string) \<Rightarrow> 'v HomeMiner \<Rightarrow> ('e miner_error + unit) \<times> 'v HomeMiner" where
  "setupLocalXpose loclx m =
     (case loclx (show_int (hm_LocalPort m)) of
        Inl err \<Rightarrow> (Inl (ErrSystem err), m)
      | Inr output \<Rightarrow> (Inr (), m\<lparr>hm_PublicURL := output\<rparr>))"

text \<open>\<open>ngrok\<close> is the failure to start the command for a port, if any, and \<open>api\<close> the failure of
  the request to its local service; the answer itself is not read.\<close>

definition setupNgrok ::
  "(string \<Rightarrow> 'e option) \<Rightarrow> 'e option \<Rightarrow> 'v HomeMiner \<Rightarrow> ('e miner_error + unit) \<times> 'v HomeMiner" where
  "setupNgrok ngrok api m =
     (case ngrok (show_int (hm_LocalPort m)) of
        Some err \<Rightarrow> (Inl (ErrSystem err), m)
      | None \<Rightarrow>
          (case api of
             Some err \<Rightarrow> (Inl (ErrSystem err), m)
           | None \<Rightarrow> (Inr (), m\<lparr>hm_PublicURL := ''https://example.ngrok.io''\<rparr>)))"

definition setupTunnel ::
  "(string \<Rightarrow> 'e + string) \<Rightarrow> (string \<Rightarrow> 'e option) \<Rightarrow> 'e option \<Rightarrow> 'v HomeMiner \<Rightarrow>
   ('e miner_error + unit) \<times> 'v HomeMiner" where
  "setupTunnel loclx ngrok api m =
     (if hm_TunnelType m = TunnelLocalXpose then setupLocalXpose loclx m
      else if hm_TunnelType m = TunnelNgrok then setupNgrok ngrok api m
      else if hm_TunnelType m = TunnelDirectIP
      then (Inr (), m\<lparr>hm_PublicURL := ''http://'' @ hm_PublicURL m @ '':'' @ show_int (hm_LocalPort m)\<rparr>)
      else (Inl (ErrUnsupportedTunnel (hm_TunnelType m)), m))"

definition Miner_Start ::
  "(string \<Rightarrow> 'e + string) \<Rightarrow> (string \<Rightarrow> 'e option) \<Rightarrow> 'e option \<Rightarrow> 'v HomeMiner \<Rightarrow>
   ('e miner_error + unit) \<times> 'v HomeMiner" where
  "Miner_Start loclx ngrok api m =
     (case setupTunnel loclx ngrok api m of
        (Inl err, m') \<Rightarrow> (Inl (ErrSetupTunnel err), m')
      | (Inr _, m') \<Rightarrow> (Inr (), m'))"

definition GetPublicURL :: "'v HomeMiner \<Rightarrow> string" where
  "GetPublicURL m = hm_PublicURL m"

definition Miner_Stop :: "'v HomeMiner \<Rightarrow> ('e miner_error + unit) \<times> 'v HomeMiner" where
  "Miner_Stop m = (Inr (), m)"

subsection \<open>Handlers\<close>

record http_answer =
  ha_Headers :: "(string \<times> string) list"
  ha_Status :: int
  ha_Body :: string

definition serveAd :: "'v HomeMiner \<Rightarrow> http_answer" where
  "serveAd m = \<lparr>ha_Headers = [(''Content-Type'', ''application/xml'')], ha_Status = 200,
     ha_Body = ''<VAST version='' @ [CHR 0x22] @ ''4.0'' @ [CHR 0x22] @ ''></VAST>''\<rparr>"

definition healthCheck :: "'v HomeMiner \<Rightarrow> http_answer" where
  "healthCheck m = \<lparr>ha_Headers = [], ha_Status = 200, ha_Body = ''OK''\<rparr>"

definition quoted :: "string \<Rightarrow> string" where
  "quoted s = [CHR 0x22] @ s @ [CHR 0x22]"

definition getStats :: "'v HomeMiner \<Rightarrow> http_answer" where
  "getStats m = \<lparr>ha_Headers = [(''Content-Type'', ''application/json'')], ha_Status = 200,
     ha_Body = ''{'' @ quoted ''id'' @ '':'' @ quoted (hm_ID m) @ '','' @ quoted ''earnings'' @ '':'' @
       quoted (show_int (me_TotalEarnings (hm_Earnings m))) @ ''}''\<rparr>"

definition DetectHardware :: "int \<Rightarrow> string \<Rightarrow> 'v HomeMiner \<Rightarrow> HardwareInfo" where
  "DetectHardware numCPU goos m =
     \<lparr>hw_CPUCores = numCPU, hw_MemoryGB = 8, hw_DiskGB = 100, hw_NetworkMbps = 100,
      hw_GPU = (if goos = ''darwin'' then ''Apple Silicon'' else [])\<rparr>"

text \<open>The handlers \<open>startHTTPServer\<close> registers, by path.\<close>

definition startHTTPServer :: "'v HomeMiner \<Rightarrow> string \<rightharpoonup> http_answer" where
  "startHTTPServer m =
     [''/ad'' \<mapsto> serveAd m, ''/health'' \<mapsto> healthCheck m, ''/stats'' \<mapsto> getStats m]"

subsection \<open>Properties\<close>

lemma generateMinerID_length:
  assumes "\<And>b. length (sha b) = 32"
  shows "length (generateMinerID sha now) = 16"
  by (simp add: generateMinerID_def assms)

lemma setupTunnel_frame:
  assumes "setupTunnel loclx ngrok api m = (r, m')"
  shows "hm_TunnelType m' = hm_TunnelType m" "hm_LocalPort m' = hm_LocalPort m"
    "hm_ID m' = hm_ID m" "hm_AdCache m' = hm_AdCache m" "hm_Earnings m' = hm_Earnings m"
  using assms
  by (auto simp: setupTunnel_def setupLocalXpose_def setupNgrok_def
      split: if_splits sum.splits option.splits)

text \<open>A refused start changes nothing.\<close>

lemma Miner_Start_error_frame:
  assumes "Miner_Start loclx ngrok api m = (Inl err, m')"
  shows "m' = m"
  using assms
  by (auto simp: Miner_Start_def setupTunnel_def setupLocalXpose_def setupNgrok_def
      split: if_splits sum.splits option.splits prod.splits)

text \<open>Cloudflare and Tailscale are tunnel types the miner always refuses.\<close>

lemma unsupported_tunnels:
  assumes "hm_TunnelType m \<in> {TunnelCloudflare, TunnelTailscale}"
  shows "Miner_Start loclx ngrok api m = (Inl (ErrSetupTunnel (ErrUnsupportedTunnel (hm_TunnelType m))), m)"
  using assms by (auto simp: Miner_Start_def setupTunnel_def tunnel_defs)

text \<open>A direct tunnel publishes a URL without a host: the public address of the configuration is
  not looked at.\<close>

lemma direct_tunnel_url:
  assumes "tc_Type tunnelConfig = TunnelDirectIP"
  shows "GetPublicURL (snd (Miner_Start loclx ngrok api
      (NewHomeMiner sha now config tunnelConfig))) = ''http://:'' @ show_int (cf_LocalPort config)"
  by (simp add: Miner_Start_def setupTunnel_def GetPublicURL_def NewHomeMiner_def assms tunnel_defs)

text \<open>Starting a direct miner again nests its URL.\<close>

lemma direct_tunnel_restarted:
  assumes "hm_TunnelType m = TunnelDirectIP"
  shows "GetPublicURL (snd (Miner_Start loclx ngrok api m))
    = ''http://'' @ GetPublicURL m @ '':'' @ show_int (hm_LocalPort m)"
  by (simp add: Miner_Start_def setupTunnel_def GetPublicURL_def assms tunnel_defs)

text \<open>Whatever the miner serves, the ad it answers with is the same empty template.\<close>

lemma served_ad_ignores_cache: "serveAd (m\<lparr>hm_AdCache := cache\<rparr>) = serveAd m"
  by (simp add: serveAd_def)

end
