(* ===== verification/Commands.thy ===== *)
theory Commands
  imports Miner Rtb Vast
begin

text \<open>
  The commands. \<^verbatim>\<open>cmd/adx-exchange/main.go\<close>: the exchange it builds and its bid and VAST
  handlers. \<^verbatim>\<open>cmd/adx-miner/main.go\<close>: the start of a miner from its flags.

  A handler of the exchange is a relation between the request, the exchange and the answer,
  because the collection of bids is a step relation; a call that panics or blocks is related
  to no answer. Decoding a request body is a parameter, and so is reading from
  a web socket. Logging is left out where it is all that a branch does.
\<close>

subsection \<open>The exchange command\<close>

definition dsp1 :: "'d::zero DSPConnection" where
  "dsp1 = \<lparr>dc_ID = ''dsp1'', dc_Name = ''Sample DSP 1'', dc_Endpoint = ''https://dsp1.example.com/bid'',
     dc_APIKey = [], dc_Protocol = [], dc_QPS = 1000, dc_Timeout = 80 * 1000000, dc_BidderCode = ''dsp1'',
     dc_SeatID = ''seat1'', dc_SupportsADXYZ = False, dc_AUSDWallet = [],
     dc_Stats = \<lparr>dt_RequestCount = 0, dt_BidsReceived = 0, dt_NoBids = 0, dt_WinsNotified = 0,
                 dt_RequestErrors = 0, dt_TotalSpend = 0, dt_AvgLatency = 0\<rparr>,
     dc_RateLimiter = None\<rparr>"

text \<open>The exchange \<open>main\<close> makes from its flags.\<close>

definition main_exchange :: "duration \<Rightarrow> 'd::linordered_field \<Rightarrow> 'd RTBExchange" where
  "main_exchange auctionTimeout floorCPM =
     \<lparr>rx_DSPs = [''dsp1'' \<mapsto> dsp1], rx_AuctionTimeout = auctionTimeout, rx_FloorPrice = floorCPM,
      rx_ImpressionCount = 0, rx_BidCount = 0, rx_WinCount = 0, rx_Revenue = 0,
      rx_CTVOptimizer = Some
        \<lparr>co_PublicaEnabled = True, co_PublicaAPIKey = [], co_PodFillRate = 85 / 100,
         co_OptimalPodSize = 6, co_CreativeQualityThreshold = 7 / 10, co_MinVideoBitrate = 2000000,
         co_RequiredFormats = [''video/mp4'', ''video/webm'']\<rparr>,
      rx_PodAssembler = Some
        \<lparr>ap_MaxPodDuration = 120 * 1000000000, ap_MinPodDuration = 15 * 1000000000, ap_TargetCPM = 25,
         ap_CompetitiveSeparation = True, ap_FrequencyCapping = True, ap_CreativeDeduping = True\<rparr>,
      rx_MinerRegistry = Some \<lparr>mr_Miners = Map.empty\<rparr>\<rparr>"

datatype 'd answer =
    ErrorAnswer nat "rtb_error option"
  | BidAnswer "'d OBidResponse"

text \<open>The bid handler: 405 for another method, 400 for a body that does not decode, otherwise the
  result of \<open>BidRequest\<close>, called with a nil context.\<close>

inductive makeBidHandler ::
  "('d::linordered_field \<Rightarrow> 'd) \<Rightarrow> ('d \<Rightarrow> int) \<Rightarrow> ('b \<Rightarrow> 'd OBidRequest option) \<Rightarrow> 'd transport \<Rightarrow>
   string \<Rightarrow> 'b \<Rightarrow> 'd RTBExchange \<Rightarrow> 'd answer \<Rightarrow> 'd RTBExchange \<Rightarrow> bool"
  for fl bi decode N where
  bad_method:
    "meth \<noteq> ''POST'' \<Longrightarrow> makeBidHandler fl bi decode N meth body rtb (ErrorAnswer 405 None) rtb"
| bad_body:
    "meth = ''POST'' \<Longrightarrow> decode body = None \<Longrightarrow>
     makeBidHandler fl bi decode N meth body rtb (ErrorAnswer 400 None) rtb"
| refused:
    "meth = ''POST'' \<Longrightarrow> decode body = Some req \<Longrightarrow> cb_reach N False req rtb s \<Longrightarrow> cb_returned s \<Longrightarrow>
     RTB_BidRequest fl bi s rtb = (Inl err, rtb') \<Longrightarrow>
     makeBidHandler fl bi decode N meth body rtb (ErrorAnswer 500 (Some err)) rtb'"
| answered:
    "meth = ''POST'' \<Longrightarrow> decode body = Some req \<Longrightarrow> cb_reach N False req rtb s \<Longrightarrow> cb_returned s \<Longrightarrow>
     RTB_BidRequest fl bi s rtb = (Inr resp, rtb') \<Longrightarrow>
     makeBidHandler fl bi decode N meth body rtb (BidAnswer resp) rtb'"

inductive_simps makeBidHandler_iff: "makeBidHandler fl bi decode N meth body rtb ans rtb'"

definition sample_media :: "string \<Rightarrow> string \<Rightarrow> VMediaFile" where
  "sample_media width height =
     \<lparr>mediafile_ID = [], mediafile_Delivery = ''progressive'', mediafile_Type = ''video/mp4'',
      mediafile_Bitrate = 4000, mediafile_MinBitrate = 0, mediafile_MaxBitrate = 0,
      mediafile_Width = 1920, mediafile_Height = 1080, mediafile_Scalable = False,
      mediafile_MaintainAspectRatio = False, mediafile_Codec = [], mediafile_APIFramework = [],
      mediafile_URL = ''https://cdn.adx.com/video/sample_'' @ width @ ''x'' @ height @ ''.mp4''\<rparr>"

definition sample_ad :: "string \<Rightarrow> string \<Rightarrow> 'd VAd" where
  "sample_ad width height =
     \<lparr>ad_ID = ''ad123'', ad_Sequence = 0,
      ad_InLine = Some
        \<lparr>inline_AdSystem = \<lparr>adsystem_Version = ''1.0'', adsystem_Name = ''ADX''\<rparr>,
         inline_AdTitle = ''Sample Video Ad'', inline_Description = ''High-quality CTV advertisement'',
         inline_Advertiser = [], inline_Pricing = None, inline_Survey = [], inline_Error = [],
         inline_Impression =
           [\<lparr>impression_ID = [], impression_URL = ''https://track.adx.com/impression/123''\<rparr>],
         inline_Creatives = \<lparr>creatives_Creative =
           [\<lparr>creative_ID = ''creative1'', creative_AdID = [], creative_Sequence = 0,
             creative_Linear = Some
               \<lparr>linear_SkipOffset = [], linear_Duration = ''00:00:15'', linear_AdParameters = None,
                linear_MediaFiles =
                  \<lparr>mediafiles_MediaFile = [sample_media width height], mediafiles_Mezzanine = None\<rparr>,
                linear_VideoClicks = None,
                linear_TrackingEvents = Some \<lparr>trackingevents_Tracking =
                  [\<lparr>tracking_Event = ''start'', tracking_Offset = [], tracking_URL = ''https://track.adx.com/start/123''\<rparr>,
                   \<lparr>tracking_Event = ''complete'', tracking_Offset = [], tracking_URL = ''https://track.adx.com/complete/123''\<rparr>]\<rparr>,
                linear_Icons = None\<rparr>,
             creative_NonLinearAds = None, creative_CompanionAds = None\<rparr>]\<rparr>,
         inline_Extensions = None\<rparr>,
      ad_Wrapper = None\<rparr>"

definition makeVASTHandler :: "string \<Rightarrow> string \<Rightarrow> 'd VAST" where
  "makeVASTHandler width height = \<lparr>vast_Version = ''4.0'', vast_Ads = [sample_ad width height]\<rparr>"

text \<open>The paths with a handler. All handlers go to the default multiplexer, so both ports serve
  all of them; any other path is answered with 404.\<close>

definition exchange_paths :: "string list" where
  "exchange_paths = [''/health'', ''/rtb/bid'', ''/vast'', ''/miner/connect'', ''/ws'']"

definition healthHandler :: "(string \<times> string) list \<times> string" where
  "healthHandler = ([(''Content-Type'', ''application/json'')],
     ''{'' @ quoted ''status'' @ '':'' @ quoted ''healthy'' @ '','' @ quoted ''version'' @ '':'' @ quoted ''dev'' @ ''}'')"

text \<open>The loop on the web socket of a miner, on the results of its reads so far: the messages it
  has logged, and the error that ended it. The exchange is not used.\<close>

fun miner_socket :: "('e + 'm) list \<Rightarrow> 'm list \<times> 'e option" where
  "miner_socket [] = ([], None)"
| "miner_socket (Inl err # reads) = ([], Some err)"
| "miner_socket (Inr msg # reads) = (let (msgs, ended) = miner_socket reads in (msg # msgs, ended))"

definition makeMinerHandler :: "'e + ('e + 'm) list \<Rightarrow> 'm list \<times> 'e option" where
  "makeMinerHandler upgrade = (case upgrade of Inl err \<Rightarrow> ([], Some err) | Inr reads \<Rightarrow> miner_socket reads)"

record 'd ExchangeFlags =
  xf_port :: int
  xf_wsPort :: int
  xf_fdbCluster :: string
  xf_floorCPM :: 'd
  xf_auctionTimeout :: duration
  xf_version :: bool

definition exchange_defaults :: "'d::linordered_field ExchangeFlags" where
  "exchange_defaults = \<lparr>xf_port = 8080, xf_wsPort = 8081, xf_fdbCluster = [], xf_floorCPM = 1 / 2,
     xf_auctionTimeout = 100 * 1000000, xf_version = False\<rparr>"

datatype 'd exchange_run =
    ShowVersion string
  | Serving string string "string list" "'d RTBExchange"

text \<open>What \<open>main\<close> serves until it gets a signal: the two addresses, the paths, the exchange. The
  database flag changes the log line only.\<close>

definition exchange_main :: "'d::linordered_field ExchangeFlags \<Rightarrow> 'd exchange_run" where
  "exchange_main fs =
     (if xf_version fs then ShowVersion (''ADX Exchange vdev (commit: unknown, built: unknown)'')
      else Serving ('':'' @ show_int (xf_port fs)) ('':'' @ show_int (xf_wsPort fs)) exchange_paths
             (main_exchange (xf_auctionTimeout fs) (xf_floorCPM fs)))"

subsection \<open>The miner command\<close>

record MinerFlags =
  mf_wallet :: string
  mf_tunnel :: string
  mf_cacheSize :: string
  mf_port :: int
  mf_authToken :: string
  mf_subdomain :: string
  mf_publicIP :: string
  mf_cfToken :: string

text \<open>The tunnel configuration of the flags; \<open>Inl\<close> is the text of \<open>log.Fatal\<close>.\<close>

definition miner_tunnel :: "MinerFlags \<Rightarrow> string + TunnelConfig" where
  "miner_tunnel fs =
     (let none = \<lparr>tc_Type = [], tc_AuthToken = [], tc_Subdomain = [], tc_PublicIP = []\<rparr>
      in if mf_tunnel fs = ''localxpose''
         then Inr (none\<lparr>tc_Type := TunnelLocalXpose, tc_Subdomain := mf_subdomain fs\<rparr>)
         else if mf_tunnel fs = ''ngrok''
         then Inr (none\<lparr>tc_Type := TunnelNgrok, tc_AuthToken := mf_authToken fs, tc_Subdomain := mf_subdomain fs\<rparr>)
         else if mf_tunnel fs = ''cloudflare''
         then Inr (none\<lparr>tc_Type := TunnelCloudflare, tc_AuthToken := mf_cfToken fs\<rparr>)
         else if mf_tunnel fs = ''tailscale'' then Inr (none\<lparr>tc_Type := TunnelTailscale\<rparr>)
         else if mf_tunnel fs = ''direct''
         then (if mf_publicIP fs = [] then Inl ''Public IP required for direct mode''
               else Inr (none\<lparr>tc_Type := TunnelDirectIP, tc_PublicIP := mf_publicIP fs\<rparr>))
         else Inl (''Unknown tunnel type: '' @ mf_tunnel fs))"

datatype ('e, 'v) miner_run =
    FatalFlags string
  | FatalStart "'e miner_error"
  | Running "'v HomeMiner"

definition startMiner ::
  "(bytes \<Rightarrow> bytes) \<Rightarrow> int \<Rightarrow> (string \<Rightarrow> 'e + string) \<Rightarrow> (string \<Rightarrow> 'e option) \<Rightarrow> 'e option \<Rightarrow>
   MinerFlags \<Rightarrow> ('e, 'v) miner_run" where
  "startMiner sha now loclx ngrok api fs =
     (if mf_wallet fs = [] then FatalFlags ''Wallet address is required''
      else
        let config = \<lparr>cf_WalletAddress = mf_wallet fs, cf_LocalPort = mf_port fs,
                      cf_CacheSize = mf_cacheSize fs\<rparr>
        in (case miner_tunnel fs of
              Inl err \<Rightarrow> FatalFlags err
            | Inr tunnelConfig \<Rightarrow>
                let m = NewHomeMiner sha now config tunnelConfig
                in (case Miner_Start loclx ngrok api m of
                      (Inl err, _) \<Rightarrow> FatalStart err
                    | (Inr _, m') \<Rightarrow> Running m')))"

text \<open>The texts of the other subcommands, line by line. Status and earnings are fixed texts, whatever
  miner runs; \<open>next_date\<close> is the date seven days ahead; the build information is that of a build that sets none.\<close>

definition printUsage :: "string list" where
  "printUsage =
     [
      ''ADX Home Miner - Earn by serving ads from home'',
      [],
      ''Usage:'',
      ''  adx-miner <command> [options]'',
      [],
      ''Commands:'',
      ''  start     Start the miner'',
      ''  stop      Stop the miner'',
      ''  status    Show miner status'',
      ''  earnings  Show earnings report'',
      ''  version   Show version information'',
      [],
      ''Start Options:'',
      ''  --wallet <address>     Your wallet address for earnings'',
      ''  --tunnel <type>        Tunnel type (localxpose, ngrok, cloudflare, tailscale, direct)'',
      ''  --cache-size <size>    Cache size (e.g., 10GB)'',
      ''  --port <port>          Local port (default: 8888)'']"

definition stopMiner :: "string list" where
  "stopMiner = [''Stopping ADX Miner...'', ''Miner stopped'']"

definition showStatus :: "string list" where
  "showStatus =
     [
      ''ADX Miner Status'',
      ''================'',
      ''Status: Running'',
      ''Uptime: 2h 34m'',
      ''Public URL: https://miner123.localxpose.io'',
      ''Cache Usage: 4.2GB / 10GB'',
      ''Ads Served: 12,456'',
      ''Bandwidth Used: 156.7 GB'',
      ''Current Earnings: $45.67'']"

definition showEarnings :: "string \<Rightarrow> string list" where
  "showEarnings next_date =
     [
      ''ADX Miner Earnings Report'',
      ''========================='',
      ''Today:        $12.34'',
      ''This Week:    $67.89'',
      ''This Month:   $234.56'',
      ''Total:        $1,234.56'',
      [],
      ''Breakdown:'',
      ''  Impressions:  $189.45 (80.7%)'',
      ''  Bandwidth:    $37.89 (16.2%)'',
      ''  Uptime Bonus: $7.22 (3.1%)'',
      [],
      ''Next Payout: '' @ next_date]"

definition build_info :: "string" where
  "build_info = ''dev (commit: unknown, built: unknown)''"

datatype ('e, 'v) miner_command =
    StartCommand "('e, 'v) miner_run"
  | PrintCommand "string list"
  | UsageExit "string list"

text \<open>The subcommand on the command line; \<open>start\<close> parses the remaining arguments and starts the
  miner. \<open>UsageExit\<close> ends with the status 1.\<close>

definition miner_main ::
  "(string list \<Rightarrow> ('e, 'v) miner_run) \<Rightarrow> string \<Rightarrow> string list \<Rightarrow> ('e, 'v) miner_command" where
  "miner_main start next_date args =
     (if length args < 2 then UsageExit printUsage
      else if args ! 1 = ''start'' then StartCommand (start (drop 2 args))
      else if args ! 1 = ''stop'' then PrintCommand stopMiner
      else if args ! 1 = ''status'' then PrintCommand showStatus
      else if args ! 1 = ''earnings'' then PrintCommand (showEarnings next_date)
      else if args ! 1 = ''version'' then PrintCommand [''ADX Miner v'' @ build_info]
      else UsageExit ((''Unknown command: '' @ args ! 1) # printUsage))"

subsection \<open>The exchange command's handlers\<close>

lemma bid_endpoint_answers:
  "makeBidHandler fl bi decode N meth body rtb ans rtb' \<longleftrightarrow>
     rtb' = rtb \<and>
     (if meth \<noteq> ''POST'' then ans = ErrorAnswer 405 None
      else decode body = None \<and> ans = ErrorAnswer 400 None)"
  by (auto simp: makeBidHandler_iff dest: nil_context_never_returns)

text \<open>The bid endpoint answers errors only: a request is answered exactly when its method is
  wrong or its body does not decode. A request that decodes reaches \<open>collectBids\<close> with a
  nil context and gets no answer, whatever the exchange, the DSPs and the network do.\<close>

theorem bid_endpoint_answers_errors_only:
  "makeBidHandler fl bi decode N meth body rtb ans rtb' \<longleftrightarrow>
     rtb' = rtb \<and>
     (if meth \<noteq> ''POST'' then ans = ErrorAnswer 405 None
      else decode body = None \<and> ans = ErrorAnswer 400 None)"
  by (rule bid_endpoint_answers)

text \<open>On the exchange \<open>main\<close> builds, the goroutine of its DSP can bring down the process as
  well: the DSP has no rate limiter.\<close>

lemma main_exchange_panics:
  "\<exists>s. cb_reach N ctx req (main_exchange auctionTimeout floorCPM) s \<and> cb_panic s"
  by (rule nil_limiter_panics [where i = "''dsp1''" and d = dsp1])
     (simp_all add: main_exchange_def dsp1_def)

lemma sample_ad_ok: "list_all ad_ok (vast_Ads (makeVASTHandler width height))"
  by (simp add: makeVASTHandler_def sample_ad_def ad_ok_def creative_ok_def media_ok_def sample_media_def)

subsection \<open>The miner command's start\<close>

lemma miner_tunnel_supported:
  "miner_tunnel fs = Inr tc \<Longrightarrow> tc_Type tc = mf_tunnel fs \<and>
     mf_tunnel fs \<in> {''localxpose'', ''ngrok'', ''cloudflare'', ''tailscale'', ''direct''}"
  by (auto simp: miner_tunnel_def tunnel_defs Let_def split: if_splits)

text \<open>The start of a miner, by its flags: it runs exactly when a wallet is named and the tunnel is
  one of the three the miner supports and can be opened, and what it then publishes is the output
  of the tunnel command, a fixed address for ngrok, and for a direct tunnel a URL without a
  host.\<close>

theorem startMiner_published_url:
  "(\<exists>m. startMiner sha now loclx ngrok api fs = Running m \<and> GetPublicURL m = url) \<longleftrightarrow>
     mf_wallet fs \<noteq> [] \<and>
     (mf_tunnel fs = ''localxpose'' \<and> loclx (show_int (mf_port fs)) = Inr url \<or>
      mf_tunnel fs = ''ngrok'' \<and> ngrok (show_int (mf_port fs)) = None \<and> api = None \<and>
        url = ''https://example.ngrok.io'' \<or>
      mf_tunnel fs = ''direct'' \<and> mf_publicIP fs \<noteq> [] \<and> url = ''http://:'' @ show_int (mf_port fs))"
  by (auto simp: startMiner_def miner_tunnel_def Miner_Start_def setupTunnel_def setupLocalXpose_def
      setupNgrok_def NewHomeMiner_def GetPublicURL_def tunnel_defs Let_def
      split: if_splits sum.splits option.splits prod.splits)

text \<open>The cache gets the size named in the flags only when it is one of two; \<open>CacheSize\<close> of the
  miner stays zero.\<close>

lemma running_miner_cache:
  assumes "startMiner sha now loclx ngrok api fs = Running m"
  shows "ac_maxSize (hm_AdCache m) = parseSize (mf_cacheSize fs)" "hm_CacheSize m = 0"
    "hm_WalletAddress m = mf_wallet fs"
  using assms
  by (auto simp: startMiner_def miner_tunnel_def Miner_Start_def setupTunnel_def setupLocalXpose_def
      setupNgrok_def NewHomeMiner_def NewAdCache_def Let_def
      split: if_splits sum.splits option.splits prod.splits)

end
