(* ===== verification/Sdk.thy ===== *)
theory Sdk
  imports Commands
begin

text \<open>
  \<^verbatim>\<open>sdk/go/client.go\<close>: the Go client of the exchange, and the client and the exchange put
  together.

  A request is its method, URL, headers and body. The network is a function from requests to a
  failure or a status and a body; JSON coding, the time format and the web socket library are
  parameters. The second part states what the client gets when all answers of the network come
  from the handlers of the exchange command.
\<close>

subsection \<open>Data\<close>

record 'c Client =
  cl_baseURL :: string
  cl_apiKey :: string
  cl_timeout :: duration
  cl_wsConn :: "'c option"

record VASTParams =
  vp_Width :: int
  vp_Height :: int
  vp_Duration :: int

record AnalyticsParams =
  an_PublisherID :: string
  an_StartTime :: time
  an_EndTime :: time

record 'd DailyStat =
  ds_Date :: string
  ds_Impressions :: u64
  ds_Revenue :: 'd
  ds_FillRate :: 'd

record 'd AnalyticsResponse =
  ar_PublisherID :: string
  ar_TotalImpressions :: u64
  ar_TotalRevenue :: 'd
  ar_FillRate :: 'd
  ar_eCPM :: 'd
  ar_TimeRange_Start :: time
  ar_TimeRange_End :: time
  ar_DailyStats :: "'d DailyStat list"

record 'd MinerConfig =
  mc_WalletAddress :: string
  mc_PublicURL :: string
  mc_CacheSize :: string
  mc_Location_Country :: string
  mc_Location_Region :: string
  mc_Location_City :: string
  mc_Location_Lat :: 'd
  mc_Location_Lon :: 'd
  mc_Hardware_CPUCores :: int
  mc_Hardware_MemoryGB :: int
  mc_Hardware_DiskGB :: int
  mc_Hardware_NetworkMbps :: int

record MinerRegistration =
  mg_MinerID :: string
  mg_Status :: string
  mg_RegisteredAt :: time
  mg_WebSocketURL :: string

record 'd SDK_MinerEarnings =
  sm_MinerID :: string
  sm_TotalEarnings :: 'd
  sm_PendingPayout :: 'd
  sm_LastPayout :: time
  sm_TotalImpressions :: u64
  sm_TotalBandwidth :: u64
  sm_Period :: string

record 'q sdk_request =
  sr_Method :: string
  sr_URL :: string
  sr_Headers :: "(string \<times> string) list"
  sr_Body :: "'q option"

datatype sdk_error =
    SdkMarshal string
  | SdkCreateRequest
  | SdkHTTP string
  | SdkBidStatus nat
  | SdkVASTStatus nat
  | SdkDecode string
  | SdkDial string
  | SdkNotConnected
  | SdkWrite string
  | SdkPanic

text \<open>The network of a client: the URLs a request can be made for, and the answers.\<close>

record ('q, 'b) sdk_net =
  sn_url_ok :: "string \<Rightarrow> bool"
  sn_do :: "'q sdk_request \<Rightarrow> string + nat \<times> 'b"

subsection \<open>The client\<close>

definition NewClient :: "string \<Rightarrow> string \<Rightarrow> 'c Client" where
  "NewClient baseURL apiKey =
     \<lparr>cl_baseURL = baseURL, cl_apiKey = apiKey, cl_timeout = 10 * 1000000000, cl_wsConn = None\<rparr>"

text \<open>A request made and sent; \<open>ctx\<close> says that the context is not nil.\<close>

definition sdk_send :: "('q, 'b) sdk_net \<Rightarrow> bool \<Rightarrow> 'q sdk_request \<Rightarrow> sdk_error + nat \<times> 'b" where
  "sdk_send net ctx req =
     (if \<not> ctx \<or> \<not> sn_url_ok net (sr_URL req) then Inl SdkCreateRequest
      else (case sn_do net req of Inl err \<Rightarrow> Inl (SdkHTTP err) | Inr answer \<Rightarrow> Inr answer))"

definition sdk_get :: "'c Client \<Rightarrow> string \<Rightarrow> 'q sdk_request" where
  "sdk_get c url = \<lparr>sr_Method = ''GET'', sr_URL = url, sr_Headers = [(''X-API-Key'', cl_apiKey c)], sr_Body = None\<rparr>"

definition sdk_post :: "'c Client \<Rightarrow> string \<Rightarrow> 'q \<Rightarrow> 'q sdk_request" where
  "sdk_post c url data =
     \<lparr>sr_Method = ''POST'', sr_URL = url,
      sr_Headers = [(''Content-Type'', ''application/json''), (''X-API-Key'', cl_apiKey c)], sr_Body = Some data\<rparr>"

definition SDK_BidRequest ::
  "('r \<Rightarrow> string + 'q) \<Rightarrow> ('b \<Rightarrow> string + 'p) \<Rightarrow> ('q, 'b) sdk_net \<Rightarrow> bool \<Rightarrow> 'r \<Rightarrow> 'c Client \<Rightarrow> sdk_error + 'p" where
  "SDK_BidRequest marshal decode net ctx request c =
     (let url = cl_baseURL c @ ''/rtb/bid''
      in (case marshal request of
            Inl err \<Rightarrow> Inl (SdkMarshal err)
          | Inr data \<Rightarrow>
              (case sdk_send net ctx (sdk_post c url data) of
                 Inl err \<Rightarrow> Inl err
               | Inr (status, body) \<Rightarrow>
                   if status \<noteq> 200 then Inl (SdkBidStatus status)
                   else (case decode body of Inl err \<Rightarrow> Inl (SdkDecode err) | Inr resp \<Rightarrow> Inr resp))))"

definition vast_url :: "string \<Rightarrow> VASTParams \<Rightarrow> string" where
  "vast_url base params =
     base @ ''/vast?w='' @ show_int (vp_Width params) @ ''&h='' @ show_int (vp_Height params) @
     ''&dur='' @ show_int (vp_Duration params)"

definition GetVAST :: "('b \<Rightarrow> string) \<Rightarrow> ('q, 'b) sdk_net \<Rightarrow> bool \<Rightarrow> VASTParams \<Rightarrow> 'c Client \<Rightarrow> sdk_error + string" where
  "GetVAST body_text net ctx params c =
     (case sdk_send net ctx (sdk_get c (vast_url (cl_baseURL c) params)) of
        Inl err \<Rightarrow> Inl err
      | Inr (status, body) \<Rightarrow>
          if status \<noteq> 200 then Inl (SdkVASTStatus status) else Inr (body_text body))"

text \<open>Slicing a base URL of fewer than four characters panics.\<close>

definition ConnectWebSocket ::
  "(string \<Rightarrow> (string \<times> string) list \<Rightarrow> string + 'c) \<Rightarrow> 'c Client \<Rightarrow> (sdk_error + unit) \<times> 'c Client" where
  "ConnectWebSocket dial c =
     (if length (cl_baseURL c) < 4 then (Inl SdkPanic, c)
      else
        let wsURL = ''ws'' @ drop 4 (cl_baseURL c) @ ''/ws''
        in (case dial wsURL [(''X-API-Key'', cl_apiKey c)] of
              Inl err \<Rightarrow> (Inl (SdkDial err), c)
            | Inr conn \<Rightarrow> (Inr (), c\<lparr>cl_wsConn := Some conn\<rparr>)))"

record subscribe_message =
  su_type :: string
  su_events :: "string list"

definition Subscribe ::
  "('c \<Rightarrow> subscribe_message \<Rightarrow> string option) \<Rightarrow> string list \<Rightarrow> 'c Client \<Rightarrow> sdk_error + unit" where
  "Subscribe write events c =
     (case cl_wsConn c of
        None \<Rightarrow> Inl SdkNotConnected
      | Some conn \<Rightarrow>
          (case write conn \<lparr>su_type = ''subscribe'', su_events = events\<rparr> of
             Some err \<Rightarrow> Inl (SdkWrite err) | None \<Rightarrow> Inr ()))"

text \<open>The three calls below do not look at the status of the answer.\<close>

definition sdk_decoded ::
  "('b \<Rightarrow> string + 'p) \<Rightarrow> ('q, 'b) sdk_net \<Rightarrow> bool \<Rightarrow> 'q sdk_request \<Rightarrow> sdk_error + 'p" where
  "sdk_decoded decode net ctx req =
     (case sdk_send net ctx req of
        Inl err \<Rightarrow> Inl err
      | Inr (status, body) \<Rightarrow> (case decode body of Inl err \<Rightarrow> Inl (SdkDecode err) | Inr x \<Rightarrow> Inr x))"

definition GetAnalytics ::
  "(time \<Rightarrow> string) \<Rightarrow> ('b \<Rightarrow> string + 'd AnalyticsResponse) \<Rightarrow> ('q, 'b) sdk_net \<Rightarrow> bool \<Rightarrow> AnalyticsParams \<Rightarrow>
   'c Client \<Rightarrow> sdk_error + 'd AnalyticsResponse" where
  "GetAnalytics rfc3339 decode net ctx params c =
     (let url = cl_baseURL c @ ''/analytics?publisher_id='' @ an_PublisherID params @ ''&start='' @
            rfc3339 (an_StartTime params) @ ''&end='' @ rfc3339 (an_EndTime params)
      in sdk_decoded decode net ctx (sdk_get c url))"

definition RegisterMiner ::
  "('d MinerConfig \<Rightarrow> string + 'q) \<Rightarrow> ('b \<Rightarrow> string + MinerRegistration) \<Rightarrow> ('q, 'b) sdk_net \<Rightarrow> bool \<Rightarrow>
   'd MinerConfig \<Rightarrow> 'c Client \<Rightarrow> sdk_error + MinerRegistration" where
  "RegisterMiner marshal decode net ctx config c =
     (let url = cl_baseURL c @ ''/miner/register''
      in (case marshal config of
            Inl err \<Rightarrow> Inl (SdkMarshal err)
          | Inr data \<Rightarrow> sdk_decoded decode net ctx (sdk_post c url data)))"

definition SDK_GetMinerEarnings ::
  "('b \<Rightarrow> string + 'd SDK_MinerEarnings) \<Rightarrow> ('q, 'b) sdk_net \<Rightarrow> bool \<Rightarrow> string \<Rightarrow> 'c Client \<Rightarrow>
   sdk_error + 'd SDK_MinerEarnings" where
  "SDK_GetMinerEarnings decode net ctx minerID c =
     (let url = cl_baseURL c @ ''/miner/'' @ minerID @ ''/earnings''
      in sdk_decoded decode net ctx (sdk_get c url))"

text \<open>\<open>close_conn\<close> is the error of closing a connection, if any; the connection is kept.\<close>

definition SDK_Close :: "('c \<Rightarrow> string option) \<Rightarrow> 'c Client \<Rightarrow> string option" where
  "SDK_Close close_conn c = (case cl_wsConn c of None \<Rightarrow> None | Some conn \<Rightarrow> close_conn conn)"

lemma ConnectWebSocket_then_Subscribe:
  assumes "ConnectWebSocket dial c = (Inr (), c')" "\<And>conn m. write conn m = None"
  shows "Subscribe write events c' = Inr ()"
  using assms by (auto simp: ConnectWebSocket_def Subscribe_def Let_def split: if_splits sum.splits)

subsection \<open>The client against the exchange\<close>

text \<open>What \<^verbatim>\<open>net/http\<close> and \<^verbatim>\<open>net/url\<close> do with a URL below the base: the path ends
  at the question mark, and the query is split at the ampersands, each part at its first equals
  sign.\<close>

definition url_path :: "string \<Rightarrow> string \<Rightarrow> string" where
  "url_path base url = takeWhile (\<lambda>c. c \<noteq> CHR ''?'') (drop (length base) url)"

fun split_on :: "char \<Rightarrow> string \<Rightarrow> string list" where
  "split_on sep [] = [[]]"
| "split_on sep (c # cs) =
     (if c = sep then [] # split_on sep cs
      else (case split_on sep cs of part # parts \<Rightarrow> (c # part) # parts | [] \<Rightarrow> [[c]]))"

definition query_get :: "string \<Rightarrow> string \<Rightarrow> string" where
  "query_get key url =
     (let query = drop 1 (dropWhile (\<lambda>c. c \<noteq> CHR ''?'') url);
          pairs = map (\<lambda>part. (takeWhile (\<lambda>c. c \<noteq> CHR ''='') part, drop 1 (dropWhile (\<lambda>c. c \<noteq> CHR ''='') part)))
                    (split_on (CHR ''&'') query)
      in (case map_of pairs key of Some v \<Rightarrow> v | None \<Rightarrow> []))"

text \<open>The pages of the exchange's answers.\<close>

record ('d, 'b) pages =
  pg_not_found :: 'b
  pg_error :: "nat \<Rightarrow> rtb_error option \<Rightarrow> 'b"
  pg_bid :: "'d OBidResponse \<Rightarrow> 'b"
  pg_vast :: "'d VAST \<Rightarrow> 'b"
  pg_other :: "string \<Rightarrow> 'b"

text \<open>An answer of the exchange \<open>rtb\<close> to a request below \<open>base\<close>.\<close>

inductive exchange_serves ::
  "('d::linordered_field \<Rightarrow> 'd) \<Rightarrow> ('d \<Rightarrow> int) \<Rightarrow> ('q option \<Rightarrow> 'd OBidRequest option) \<Rightarrow> 'd transport \<Rightarrow>
   ('d, 'b) pages \<Rightarrow> string \<Rightarrow> 'd RTBExchange \<Rightarrow> 'q sdk_request \<Rightarrow> nat \<times> 'b \<Rightarrow> bool"
  for fl bi decode N pages base rtb where
  serve_not_found:
    "url_path base (sr_URL req) \<notin> set exchange_paths \<Longrightarrow>
     exchange_serves fl bi decode N pages base rtb req (404, pg_not_found pages)"
| serve_bid_error:
    "url_path base (sr_URL req) = ''/rtb/bid'' \<Longrightarrow>
     makeBidHandler fl bi decode N (sr_Method req) (sr_Body req) rtb (ErrorAnswer status err) rtb' \<Longrightarrow>
     exchange_serves fl bi decode N pages base rtb req (status, pg_error pages status err)"
| serve_bid:
    "url_path base (sr_URL req) = ''/rtb/bid'' \<Longrightarrow>
     makeBidHandler fl bi decode N (sr_Method req) (sr_Body req) rtb (BidAnswer resp) rtb' \<Longrightarrow>
     exchange_serves fl bi decode N pages base rtb req (200, pg_bid pages resp)"
| serve_vast:
    "url_path base (sr_URL req) = ''/vast'' \<Longrightarrow>
     exchange_serves fl bi decode N pages base rtb req
       (200, pg_vast pages (makeVASTHandler (query_get ''w'' (sr_URL req)) (query_get ''h'' (sr_URL req))))"
| serve_other:
    "url_path base (sr_URL req) \<in> {''/health'', ''/miner/connect'', ''/ws''} \<Longrightarrow>
     exchange_serves fl bi decode N pages base rtb req (status, pg_other pages (url_path base (sr_URL req)))"

inductive_simps exchange_serves_iff: "exchange_serves fl bi decode N pages base rtb req answer"

text \<open>A network whose answers all come from the exchange.\<close>

definition answers_from ::
  "('q sdk_request \<Rightarrow> nat \<times> 'b \<Rightarrow> bool) \<Rightarrow> ('q, 'b) sdk_net \<Rightarrow> bool" where
  "answers_from serves net \<longleftrightarrow> (\<forall>req answer. sn_do net req = Inr answer \<longrightarrow> serves req answer)"

lemma sdk_send_from:
  assumes "answers_from serves net" "sdk_send net ctx req = Inr answer"
  shows "serves req answer"
  using assms by (auto simp: answers_from_def sdk_send_def split: if_splits sum.splits)

lemma url_path_simps [simp]: "url_path base (base @ rest) = takeWhile (\<lambda>c. c \<noteq> CHR ''?'') rest"
  by (simp add: url_path_def)

text \<open>C36: A bid request sent with the client to the exchange never gets a bid response: whatever
  request, DSPs and network, and however the bodies are coded, the call returns an error as long
  as all answers come from the exchange command's handlers, because its bid endpoint answers
  errors only.\<close>

theorem sdk_bid_request_fails:
  assumes "answers_from (exchange_serves fl bi decode N pages (cl_baseURL c) rtb) net"
  shows "\<exists>err. SDK_BidRequest marshal dec_response net ctx request c = Inl err"
proof (rule ccontr)
  assume "\<nexists>err. SDK_BidRequest marshal dec_response net ctx request c = Inl err"
  then obtain data body where ok:
    "sdk_send net ctx (sdk_post c (cl_baseURL c @ ''/rtb/bid'') data) = Inr (200, body)"
    by (auto simp: SDK_BidRequest_def Let_def split: sum.splits prod.splits if_splits)
  from sdk_send_from [OF assms ok] show False
    by (auto simp: exchange_serves_iff sdk_post_def bid_endpoint_answers exchange_paths_def split: if_splits)
qed

lemma not_served:
  assumes "answers_from (exchange_serves fl bi decode N pages base rtb) net"
    and "sn_do net req = Inr answer" "url_path base (sr_URL req) \<notin> set exchange_paths"
  shows "answer = (404, pg_not_found pages)"
proof -
  have "exchange_serves fl bi decode N pages base rtb req answer"
    using assms(1,2) unfolding answers_from_def by blast
  then show ?thesis
    using assms(3) by (cases rule: exchange_serves.cases) (simp_all add: exchange_paths_def)
qed

lemma sdk_decoded_not_served:
  assumes "answers_from (exchange_serves fl bi decode N pages base rtb) net"
    and "url_path base (sr_URL req) \<notin> set exchange_paths" "dec (pg_not_found pages) = Inl e"
  shows "\<exists>err. sdk_decoded dec net ctx req = Inl err"
proof (cases "sdk_send net ctx req")
  case (Inr answer)
  then have "sn_do net req = Inr answer"
    by (simp add: sdk_send_def split: if_splits sum.splits)
  from not_served [OF assms(1) this assms(2)] Inr assms(3) show ?thesis
    by (simp add: sdk_decoded_def)
qed (simp add: sdk_decoded_def)

text \<open>A miner identifier that is one path segment.\<close>

definition plain_segment :: "string \<Rightarrow> bool" where
  "plain_segment s \<longleftrightarrow> CHR ''?'' \<notin> set s \<and> CHR ''/'' \<notin> set s \<and> CHR ''#'' \<notin> set s \<and> CHR ''%'' \<notin> set s \<and>
     s \<notin> {[], ''.'', ''..''}"

text \<open>The client's calls for analytics and miners have no counterpart in the exchange: as long
  as all answers come from the exchange and its page for unknown paths does not decode, asking for
  analytics, registering a miner and asking for a miner's earnings always return an error.\<close>

theorem sdk_unserved_calls_fail:
  assumes "answers_from (exchange_serves fl bi decode N pages (cl_baseURL c) rtb) net"
    and "dec_analytics (pg_not_found pages) = Inl e1" "dec_registration (pg_not_found pages) = Inl e2"
    and "dec_earnings (pg_not_found pages) = Inl e3" "plain_segment minerID"
  shows "(\<exists>err. GetAnalytics rfc3339 dec_analytics net ctx params c = Inl err) \<and>
    (\<exists>err. RegisterMiner marshal dec_registration net ctx config c = Inl err) \<and>
    (\<exists>err. SDK_GetMinerEarnings dec_earnings net ctx minerID c = Inl err)"
proof (intro conjI)
  have "url_path (cl_baseURL c) (sr_URL (sdk_get c (cl_baseURL c @ ''/analytics?publisher_id='' @ an_PublisherID params @
        ''&start='' @ rfc3339 (an_StartTime params) @ ''&end='' @ rfc3339 (an_EndTime params)) :: 'a sdk_request))
      \<notin> set exchange_paths"
    by (simp add: sdk_get_def exchange_paths_def)
  from sdk_decoded_not_served [where dec = dec_analytics and ctx = ctx, OF assms(1) this assms(2)]
  show "\<exists>err. GetAnalytics rfc3339 dec_analytics net ctx params c = Inl err"
    by (simp add: GetAnalytics_def)
  show "\<exists>err. RegisterMiner marshal dec_registration net ctx config c = Inl err"
  proof (cases "marshal config")
    case (Inr data)
    have "url_path (cl_baseURL c) (sr_URL (sdk_post c (cl_baseURL c @ ''/miner/register'') data)) \<notin> set exchange_paths"
      by (simp add: sdk_post_def exchange_paths_def)
    from sdk_decoded_not_served [where dec = dec_registration and ctx = ctx, OF assms(1) this assms(3)] Inr show ?thesis
      by (simp add: RegisterMiner_def)
  qed (simp add: RegisterMiner_def)
  let ?path = "''/miner/'' @ minerID @ ''/earnings''"
  have "takeWhile (\<lambda>c. c \<noteq> CHR ''?'') ?path = ?path"
    using assms(5) by (subst takeWhile_eq_all_conv) (auto simp: plain_segment_def)
  moreover have "last p \<noteq> CHR ''s''" if "p \<in> set exchange_paths" "p \<noteq> ''/ws''" for p
    using that by (auto simp: exchange_paths_def)
  then have "?path \<notin> set exchange_paths" by fastforce
  ultimately have "url_path (cl_baseURL c) (sr_URL (sdk_get c (cl_baseURL c @ ?path) :: 'a sdk_request)) \<notin> set exchange_paths"
    by (simp add: sdk_get_def)
  from sdk_decoded_not_served [where dec = dec_earnings and ctx = ctx, OF assms(1) this assms(4)]
  show "\<exists>err. SDK_GetMinerEarnings dec_earnings net ctx minerID c = Inl err"
    by (simp add: SDK_GetMinerEarnings_def)
qed

subsection \<open>Templates through the client\<close>

lemma split_on_last: "sep \<notin> set part \<Longrightarrow> split_on sep part = [part]"
  by (induction part) auto

lemma split_on_part: "sep \<notin> set part \<Longrightarrow> split_on sep (part @ sep # rest) = part # split_on sep rest"
  by (induction part) auto

lemma decimal_digit: "k < 10 \<Longrightarrow> ''0123456789'' ! k \<in> set ''0123456789''"
  by (rule nth_mem) simp

lemma snoc_subset: "set xs \<subseteq> A \<Longrightarrow> x \<in> A \<Longrightarrow> set (xs @ [x]) \<subseteq> A"
  by simp

lemma show_nat_digits: "set (show_nat n) \<subseteq> set ''0123456789''"
proof (induction n rule: show_nat.induct)
  case (1 n)
  show ?case
  proof (cases "n < 10")
    case True
    then have "show_nat n = [] @ [''0123456789'' ! n]" by (subst show_nat.simps) (simp only: if_True append.simps)
    then show ?thesis by (simp only:) (rule snoc_subset, simp, rule decimal_digit [OF True])
  next
    case False
    then have e: "show_nat n = show_nat (n div 10) @ [''0123456789'' ! (n mod 10)]"
      by (subst show_nat.simps) (simp only: if_False)
    have "n mod 10 < 10" by simp
    show ?thesis
      unfolding e by (rule snoc_subset [OF 1 [OF False] decimal_digit]) fact
  qed
qed

lemma show_int_chars: "set (show_int i) \<subseteq> insert (CHR ''-'') (set ''0123456789'')"
proof (cases "i < 0")
  case True
  then have "set (show_int i) = insert (CHR ''-'') (set (show_nat (nat (- i))))"
    by (simp add: show_int_def)
  then show ?thesis by (simp only:) (rule insert_mono [OF show_nat_digits])
next
  case False
  then have "show_int i = show_nat (nat i)" by (simp add: show_int_def)
  then show ?thesis by (simp only:) (rule subset_insertI2 [OF show_nat_digits])
qed

lemma show_int_plain:
  "CHR ''&'' \<notin> set (show_int i)" "CHR ''='' \<notin> set (show_int i)" "CHR ''?'' \<notin> set (show_int i)"
  by (rule contra_subsetD [OF show_int_chars], simp)+

lemma vast_query:
  assumes "CHR ''?'' \<notin> set base"
  shows "query_get ''w'' (vast_url base params) = show_int (vp_Width params)"
    "query_get ''h'' (vast_url base params) = show_int (vp_Height params)"
proof -
  let ?w = "''w='' @ show_int (vp_Width params)" and ?h = "''h='' @ show_int (vp_Height params)"
    and ?d = "''dur='' @ show_int (vp_Duration params)"
  have "dropWhile (\<lambda>c. c \<noteq> CHR ''?'') (vast_url base params)
      = ''?'' @ ?w @ CHR ''&'' # ?h @ CHR ''&'' # ?d"
    using assms by (auto simp: vast_url_def dropWhile_append)
  then have q: "drop 1 (dropWhile (\<lambda>c. c \<noteq> CHR ''?'') (vast_url base params))
      = ?w @ CHR ''&'' # ?h @ CHR ''&'' # ?d" by simp
  have "split_on (CHR ''&'') (?w @ CHR ''&'' # ?h @ CHR ''&'' # ?d) = [?w, ?h, ?d]"
    using show_int_plain by (subst split_on_part, simp, subst split_on_part, simp, subst split_on_last) auto
  then show "query_get ''w'' (vast_url base params) = show_int (vp_Width params)"
    "query_get ''h'' (vast_url base params) = show_int (vp_Height params)"
    unfolding query_get_def Let_def q by simp_all
qed

text \<open>A template asked for with the client is the exchange's sample: when all answers come from
  the exchange, what \<open>GetVAST\<close> returns is the sample ad with the width and the height of the
  request in the address of its video; the duration asked for is not looked at.\<close>

theorem sdk_vast_is_the_sample:
  assumes "answers_from (exchange_serves fl bi decode N pages (cl_baseURL c) rtb) net"
    and "CHR ''?'' \<notin> set (cl_baseURL c)" "GetVAST body_text net ctx params c = Inr doc"
  shows "doc = body_text (pg_vast pages
    (makeVASTHandler (show_int (vp_Width params)) (show_int (vp_Height params))))"
proof -
  from assms(3) obtain body where b: "sdk_send net ctx (sdk_get c (vast_url (cl_baseURL c) params)) = Inr (200, body)"
    and doc: "doc = body_text body"
    by (auto simp: GetVAST_def split: sum.splits prod.splits if_splits)
  have path: "url_path (cl_baseURL c) (vast_url (cl_baseURL c) params) = ''/vast''"
    by (simp add: vast_url_def)
  from sdk_send_from [OF assms(1) b] show ?thesis
    by (auto simp: exchange_serves_iff sdk_get_def path vast_query [OF assms(2)] doc exchange_paths_def)
qed

subsection \<open>A concrete exchange\<close>

text \<open>A page for every answer; the page of a template lists the addresses of its videos.\<close>

definition ad_videos :: "'d VAd \<Rightarrow> string list" where
  "ad_videos ad = (case ad_InLine ad of None \<Rightarrow> [] | Some inl \<Rightarrow>
     concat (map (\<lambda>cr. case creative_Linear cr of None \<Rightarrow> [] | Some l \<Rightarrow>
        map mediafile_URL (mediafiles_MediaFile (linear_MediaFiles l))) (creatives_Creative (inline_Creatives inl))))"

definition demo_pages :: "(rat, string) pages" where
  "demo_pages = \<lparr>pg_not_found = ''404 page not found'', pg_error = (\<lambda>status err. ''error''), pg_bid = (\<lambda>resp. ''bid''),
     pg_vast = (\<lambda>v. concat (concat (map ad_videos (vast_Ads v)))), pg_other = (\<lambda>path. path)\<rparr>"

definition demo_net :: "(string, string) sdk_net" where
  "demo_net = \<lparr>sn_url_ok = (\<lambda>url. True), sn_do = (\<lambda>req.
     let path = url_path ''http://adx'' (sr_URL req)
     in if path = ''/rtb/bid'' then Inr (if sr_Method req \<noteq> ''POST'' then 405 else 400, ''error'')
        else if path = ''/vast'' then
          Inr (200, pg_vast demo_pages (makeVASTHandler (query_get ''w'' (sr_URL req)) (query_get ''h'' (sr_URL req))))
        else if path \<in> set exchange_paths then Inl ''refused'' else Inr (404, ''404 page not found''))\<rparr>"

definition demo_client :: "unit Client" where
  "demo_client = NewClient ''http://adx'' ''key''"

lemma demo_net_from:
  "answers_from (exchange_serves (\<lambda>x. x) bi (\<lambda>body. None) N demo_pages (cl_baseURL demo_client) rtb) demo_net"
proof -
  have "exchange_serves (\<lambda>x. x) bi (\<lambda>body. None) N demo_pages ''http://adx'' rtb req answer"
    if a: "sn_do demo_net req = Inr answer" for req answer
  proof -
    let ?path = "url_path ''http://adx'' (sr_URL req)"
    consider (bid) "?path = ''/rtb/bid''" | (vast) "?path = ''/vast''"
      | (other) "?path \<noteq> ''/rtb/bid''" "?path \<noteq> ''/vast''" by blast
    then show ?thesis
    proof cases
      case bid
      with a have ans: "answer = (if sr_Method req \<noteq> ''POST'' then 405 else 400, pg_error demo_pages (if sr_Method req \<noteq> ''POST'' then 405 else 400) None)"
        by (simp add: demo_net_def demo_pages_def)
      show ?thesis
        unfolding ans by (rule serve_bid_error [OF bid, where rtb' = rtb]) (simp add: bid_endpoint_answers)
    next
      case vast
      with a have ans: "answer = (200, pg_vast demo_pages
          (makeVASTHandler (query_get ''w'' (sr_URL req)) (query_get ''h'' (sr_URL req))))"
        by (simp add: demo_net_def)
      show ?thesis unfolding ans by (rule serve_vast [OF vast])
    next
      case other
      with a have n: "?path \<notin> set exchange_paths" and ans: "answer = (404, pg_not_found demo_pages)"
        by (simp_all add: demo_net_def demo_pages_def Let_def split: if_splits)
      show ?thesis unfolding ans by (rule serve_not_found [OF n])
    qed
  qed
  then show ?thesis by (simp add: answers_from_def demo_client_def NewClient_def)
qed

theorem sdk_bid_request_fails_witness:
  "\<exists>err. SDK_BidRequest (\<lambda>r :: string. Inr r) (\<lambda>b :: string. Inr b :: string + string) demo_net True ''request'' demo_client = Inl err"
  by (rule sdk_bid_request_fails [OF demo_net_from [where bi = floor and N = demo_transport and rtb = demo_exchange]])

definition demo_config :: "rat MinerConfig" where
  "demo_config = \<lparr>mc_WalletAddress = ''0xabc'', mc_PublicURL = ''http://miner'', mc_CacheSize = ''10GB'',
     mc_Location_Country = ''US'', mc_Location_Region = ''CA'', mc_Location_City = ''SF'', mc_Location_Lat = 37,
     mc_Location_Lon = - 122, mc_Hardware_CPUCores = 4, mc_Hardware_MemoryGB = 8, mc_Hardware_DiskGB = 100,
     mc_Hardware_NetworkMbps = 1000\<rparr>"

definition no_json :: "string \<Rightarrow> string + 'p" where
  "no_json page = Inl ''invalid character''"

theorem sdk_unserved_calls_fail_witness:
  "(\<exists>err. GetAnalytics (\<lambda>t. ''now'') (no_json :: string \<Rightarrow> string + rat AnalyticsResponse) demo_net True
      \<lparr>an_PublisherID = ''pub'', an_StartTime = 0, an_EndTime = 1\<rparr> demo_client = Inl err) \<and>
   (\<exists>err. RegisterMiner (\<lambda>c :: rat MinerConfig. Inr ''config'') no_json demo_net True demo_config demo_client = Inl err) \<and>
   (\<exists>err. SDK_GetMinerEarnings (no_json :: string \<Rightarrow> string + rat SDK_MinerEarnings) demo_net True ''miner-1'' demo_client = Inl err)"
  by (rule sdk_unserved_calls_fail [OF demo_net_from [where bi = floor and N = demo_transport and rtb = demo_exchange]])
     (simp_all add: no_json_def plain_segment_def)

theorem sdk_vast_is_the_sample_witness:
  "GetVAST (\<lambda>b. b) demo_net True \<lparr>vp_Width = 640, vp_Height = 480, vp_Duration = 15\<rparr> demo_client =
     Inr (pg_vast demo_pages (makeVASTHandler (show_int 640) (show_int 480)))"
proof -
  let ?params = "\<lparr>vp_Width = 640, vp_Height = 480, vp_Duration = 15\<rparr>"
  have q: "CHR ''?'' \<notin> set (cl_baseURL demo_client)" by (simp add: demo_client_def NewClient_def)
  have "url_path ''http://adx'' (vast_url ''http://adx'' ?params) = ''/vast''"
    unfolding vast_url_def url_path_simps by simp
  then obtain doc where doc: "GetVAST (\<lambda>b. b) demo_net True ?params demo_client = Inr doc"
    by (simp add: GetVAST_def sdk_send_def sdk_get_def demo_net_def demo_client_def NewClient_def)
  from sdk_vast_is_the_sample [OF demo_net_from [where bi = floor and N = demo_transport and rtb = demo_exchange] q doc] doc
  show ?thesis by simp
qed

end
