(* ===== verification/Examples.thy ===== *)
theory Examples
  imports Publica
begin

text \<open>
  \<^verbatim>\<open>examples/publica_integration.go\<close>: the SSP integration, the analytics tracker and the
  exchange put together in one program.

  The tracker is shared by pointer between the integration and \<open>main\<close>; here it is handed from
  step to step. The goroutine that reads the event stream is the number of events it has taken
  between two steps, the clock is the sequence of its readings. A site is known by its publisher,
  as in the model of the bid request. What is printed is returned.
\<close>

subsection \<open>Set-up\<close>

definition premium_dsp :: "'d::linordered_field DSPConfig" where
  "premium_dsp = \<lparr>df_ID = ''dsp-ctv-premium'', df_Name = ''Premium CTV Network'',
     df_Endpoint = ''https://dsp.premium-ctv.com/bid'', df_BidderCode = ''premium'', df_Priority = 1,
     df_MaxBid = 50, df_Categories = [''IAB1'', ''IAB2'', ''IAB3''], df_GeoTargets = [''US'', ''CA'', ''GB''],
     df_DeviceTypes = [''CTV'']\<rparr>"

definition programmatic_dsp :: "'d::linordered_field DSPConfig" where
  "programmatic_dsp = \<lparr>df_ID = ''dsp-programmatic'', df_Name = ''Programmatic Exchange'',
     df_Endpoint = ''https://rtb.programmatic.com/bid'', df_BidderCode = ''prog'', df_Priority = 2,
     df_MaxBid = 30, df_Categories = [''IAB1'', ''IAB4'', ''IAB5''], df_GeoTargets = [''US''],
     df_DeviceTypes = [''CTV'', ''Mobile'', ''Desktop'']\<rparr>"

definition performance_dsp :: "'d::linordered_field DSPConfig" where
  "performance_dsp = \<lparr>df_ID = ''dsp-performance'', df_Name = ''Performance Marketing DSP'',
     df_Endpoint = ''https://perf.dsp.com/bid'', df_BidderCode = ''perf'', df_Priority = 3,
     df_MaxBid = 20, df_Categories = [''IAB22''], df_GeoTargets = [''US'', ''CA''],
     df_DeviceTypes = [''CTV'', ''Mobile'']\<rparr>"

definition configureDSPs :: "'d::linordered_field PublicaSSP \<Rightarrow> 'd PublicaSSP" where
  "configureDSPs ssp = AddDSP performance_dsp (AddDSP programmatic_dsp (AddDSP premium_dsp ssp))"

definition initializeExchange :: "'d::linordered_field RTBExchange" where
  "initializeExchange =
     \<lparr>rx_DSPs = Map.empty, rx_AuctionTimeout = 100 * 1000000, rx_FloorPrice = 2,
      rx_ImpressionCount = 0, rx_BidCount = 0, rx_WinCount = 0, rx_Revenue = 0,
      rx_CTVOptimizer = Some
        \<lparr>co_PublicaEnabled = True, co_PublicaAPIKey = [], co_PodFillRate = 85 / 100,
         co_OptimalPodSize = 6, co_CreativeQualityThreshold = 8 / 10, co_MinVideoBitrate = 4000000,
         co_RequiredFormats = [''video/mp4'', ''video/webm'']\<rparr>,
      rx_PodAssembler = Some
        \<lparr>ap_MaxPodDuration = 120 * 1000000000, ap_MinPodDuration = 15 * 1000000000, ap_TargetCPM = 25,
         ap_CompetitiveSeparation = True, ap_FrequencyCapping = True, ap_CreativeDeduping = True\<rparr>,
      rx_MinerRegistry = Some \<lparr>mr_Miners = Map.empty\<rparr>\<rparr>"

subsection \<open>A connected-TV request\<close>

definition ctv_imp :: "string \<Rightarrow> 'd::linordered_field OImp" where
  "ctv_imp name = \<lparr>oi_ID = name, oi_Banner = None,
     oi_Video = Some (VMap [''w'' \<mapsto> VNum 1920, ''h'' \<mapsto> VNum 1080, ''minduration'' \<mapsto> VNum 15,
       ''maxduration'' \<mapsto> VNum 30, ''mimes'' \<mapsto> VArr [VStr ''video/mp4'']]),
     oi_Native = None, oi_BidFloor = 5, oi_BidFloorCur = [], oi_Secure = None, oi_Ext = RawNil\<rparr>"

definition ctv_bid_request :: "time \<Rightarrow> 'd::linordered_field OBidRequest" where
  "ctv_bid_request now = (zero_request (''bid-'' @ show_nat (nat (unix now))))
     \<lparr>oq_Imp := [ctv_imp ''imp-1'', ctv_imp ''imp-2''],
      oq_Site := Some \<lparr>os_Publisher = Some ''pub-123456''\<rparr>,
      oq_Device := Some \<lparr>od_DeviceType = 3, od_Geo = Some ''US''\<rparr>,
      oq_User := Some (VMap [''id'' \<mapsto> VStr ''user-abc-123''])\<rparr>"

text \<open>The number and the sum of the prices of the bids, as printed; nothing is printed for a
  response without seats.\<close>

definition bid_totals :: "'d::linordered_field OBidResponse \<Rightarrow> (nat \<times> 'd) option" where
  "bid_totals response =
     (if 0 < length (op_SeatBid response)
      then Some (fold (\<lambda>seatBid t. fold (\<lambda>bid (totalBids, totalValue). (totalBids + 1, totalValue + ob_Price bid))
                   (osb_Bid seatBid) t) (op_SeatBid response) (0, 0))
      else None)"

text \<open>\<open>s\<close> is the end of the collection of the responses, \<open>clock\<close> gives four readings of the
  clock. \<open>None\<close> is a panic.\<close>

definition handleCTVBidRequest ::
  "('d \<Rightarrow> u64) \<Rightarrow> (nat \<Rightarrow> time) \<Rightarrow> duration \<Rightarrow> 'd route \<Rightarrow> 'd::linordered_field PublicaSSP \<Rightarrow>
   ((nat \<times> 'd) option \<times> 'd PublicaSSP) option" where
  "handleCTVBidRequest to_u64 clock elapsed s ssp =
     (case HandleBidRequest to_u64 (clock 1) (clock 2) (clock 3) elapsed s (ctv_bid_request (clock 0)) ssp of
        None \<Rightarrow> None
      | Some (response, _, ssp') \<Rightarrow> Some (bid_totals response, ssp'))"

subsection \<open>A pod\<close>

definition pod_bid :: "nat \<Rightarrow> 'd::linordered_field \<Rightarrow> 'd OBid" where
  "pod_bid i price = zero_obid\<lparr>ob_ID := ''ad'' @ show_nat i, ob_ImpID := ''imp'' @ show_nat i, ob_Price := price,
     ob_CrID := ''creative-'' @ show_nat i, ob_AdM := ''<VAST>...</VAST>''\<rparr>"

definition sample_bids :: "'d::linordered_field OBid list" where
  "sample_bids = [pod_bid 1 (51 / 2), pod_bid 2 22, pod_bid 3 20, pod_bid 4 (37 / 2), pod_bid 5 15, pod_bid 6 12]"

definition calculatePodValue :: "'d::linordered_field OBid list \<Rightarrow> 'd" where
  "calculatePodValue bids = fold (\<lambda>bid total. total + ob_Price bid) bids 0"

definition assembleAdPod ::
  "('d \<Rightarrow> string) \<Rightarrow> time \<Rightarrow> 'd::linordered_field PublicaSSP \<Rightarrow> (nat \<times> string \<times> 'd) \<times> 'd PublicaSSP" where
  "assembleAdPod fmt2 now ssp =
     (let bids = sample_bids;
          podID = ''pod-'' @ show_nat (nat (unix now));
          vast = GenerateVAST fmt2 podID bids ssp
      in ((length (vast_Ads vast), podID, calculatePodValue bids),
          ssp\<lparr>pu_Analytics := TrackPodMetrics podID (int (length bids)) True (pu_Analytics ssp)\<rparr>))"

subsection \<open>Simulated activity\<close>

text \<open>The goroutine on the event stream has taken another \<open>n\<close> events, or all there are.\<close>

definition processAnalyticsEvents :: "nat \<Rightarrow> 'd AnalyticsTracker \<Rightarrow> 'd AnalyticsTracker" where
  "processAnalyticsEvents n a = a\<lparr>at_EventStream := drop n (at_EventStream a)\<rparr>"

definition activity_imp :: "nat \<Rightarrow> 'd::linordered_field OImp" where
  "activity_imp i = \<lparr>oi_ID = ''imp-'' @ show_nat i, oi_Banner = None, oi_Video = None, oi_Native = None,
     oi_BidFloor = 0, oi_BidFloorCur = [], oi_Secure = None, oi_Ext = RawNil\<rparr>"

definition activity_request :: "nat \<Rightarrow> 'd::linordered_field OBidRequest" where
  "activity_request i = (zero_request (''req-'' @ show_nat i))
     \<lparr>oq_Imp := [activity_imp i], oq_Site := Some \<lparr>os_Publisher = Some ''pub-123''\<rparr>,
      oq_Device := Some \<lparr>od_DeviceType = 3, od_Geo = Some ''US''\<rparr>\<rparr>"

definition activity_response :: "nat \<Rightarrow> 'd::linordered_field OBidResponse" where
  "activity_response i = \<lparr>op_ID = ''req-'' @ show_nat i,
     op_SeatBid = [\<lparr>osb_Seat = [], osb_Bid = [zero_obid\<lparr>ob_Price := 5 + of_nat (i mod 20)\<rparr>]\<rparr>],
     op_BidID = [], op_Cur = []\<rparr>"

text \<open>Round \<open>i\<close> of the simulation.\<close>

definition activity_step ::
  "('d \<Rightarrow> u64) \<Rightarrow> (nat \<Rightarrow> time) \<Rightarrow> (nat \<Rightarrow> nat) \<Rightarrow> nat \<Rightarrow> 'd::linordered_field AnalyticsTracker \<Rightarrow>
   'd AnalyticsTracker option" where
  "activity_step to_u64 clock taken i a =
     (case TrackRequest (clock (2 * i)) (clock (2 * i + 1)) (activity_request i) (processAnalyticsEvents (taken i) a) of
        None \<Rightarrow> None
      | Some a1 \<Rightarrow>
          Some (if i mod 100 < 85
                then TrackResponse to_u64 (Some (activity_response i)) (50 * 1000000) a1 else a1))"

fun activity_loop ::
  "('d \<Rightarrow> u64) \<Rightarrow> (nat \<Rightarrow> time) \<Rightarrow> (nat \<Rightarrow> nat) \<Rightarrow> nat list \<Rightarrow> 'd::linordered_field AnalyticsTracker \<Rightarrow>
   'd AnalyticsTracker option" where
  "activity_loop to_u64 clock taken [] a = Some a"
| "activity_loop to_u64 clock taken (i # is) a =
     (case activity_step to_u64 clock taken i a of
        None \<Rightarrow> None | Some a1 \<Rightarrow> activity_loop to_u64 clock taken is a1)"

definition simulateActivity ::
  "('d \<Rightarrow> u64) \<Rightarrow> (nat \<Rightarrow> time) \<Rightarrow> (nat \<Rightarrow> nat) \<Rightarrow> 'd::linordered_field AnalyticsTracker \<Rightarrow>
   'd AnalyticsTracker option" where
  "simulateActivity to_u64 clock taken a = activity_loop to_u64 clock taken [0..<1000] a"

text \<open>The metrics and the first 500 characters of the export; slicing a shorter text panics.\<close>

definition generateAnalyticsReport ::
  "('d \<Rightarrow> u64) \<Rightarrow> ('d \<Rightarrow> string) \<Rightarrow> ('d \<Rightarrow> string) \<Rightarrow> (nat \<Rightarrow> time) \<Rightarrow> (nat \<Rightarrow> nat) \<Rightarrow>
   'd::linordered_field AnalyticsTracker \<Rightarrow> ((string \<Rightarrow> 'd field option) \<times> string \<times> 'd AnalyticsTracker) option" where
  "generateAnalyticsReport to_u64 fmt2 fmt4 clock taken tracker =
     (case simulateActivity to_u64 clock taken tracker of
        None \<Rightarrow> None
      | Some a \<Rightarrow>
          let metrics = GetRealTimeMetrics a;
              prometheusMetrics = ExportMetrics fmt2 fmt4 a
          in if length prometheusMetrics < 500 then None
             else Some (metrics, take 500 prometheusMetrics @ ''...'', a))"

subsection \<open>Miner earnings\<close>

record 'd earnings =
  er_Daily :: 'd
  er_Monthly :: 'd
  er_Annual :: 'd

definition calculateMinerEarnings ::
  "('d \<Rightarrow> int) \<Rightarrow> (nat \<Rightarrow> time) \<Rightarrow> 'd::linordered_field AnalyticsTracker \<Rightarrow> 'd earnings \<times> 'd AnalyticsTracker" where
  "calculateMinerEarnings bi clock tracker =
     (let minerID = ''miner-home-123'';
          a = fold (\<lambda>i. TrackImpression bi (clock i) (''imp-'' @ show_nat i) ''pub-123'' minerID 5) [0..<100] tracker;
          totalImpressions = 100; avgCPM = 5; minerShare = 1 / 10;
          dailyEarnings = totalImpressions * avgCPM / 1000 * minerShare;
          monthlyEarnings = dailyEarnings * 30
      in (\<lparr>er_Daily = dailyEarnings, er_Monthly = monthlyEarnings, er_Annual = monthlyEarnings * 12\<rparr>, a))"

subsection \<open>The program\<close>

text \<open>What is not decided by the program: the readings of the clock, the time and the responses of
  the request, and the pace of the goroutine on the event stream.\<close>

record 'd schedule =
  sc_request :: "nat \<Rightarrow> time"
  sc_elapsed :: duration
  sc_collect :: "'d route"
  sc_pod :: time
  sc_activity :: "nat \<Rightarrow> time"
  sc_taken :: "nat \<Rightarrow> nat"
  sc_miner :: "nat \<Rightarrow> time"

record 'd printed =
  pt_bids :: "(nat \<times> 'd) option"
  pt_pod :: "nat \<times> string \<times> 'd"
  pt_metrics :: "string \<Rightarrow> 'd field option"
  pt_prometheus :: string
  pt_earnings :: "'d earnings"

definition example_ssp :: "'d::linordered_field PublicaSSP" where
  "example_ssp = configureDSPs ((NewPublicaSSP ''pub-123456'' ''api-key-secret'')\<lparr>pu_Analytics := NewAnalyticsTracker\<rparr>)"

definition example_main ::
  "('d \<Rightarrow> u64) \<Rightarrow> ('d \<Rightarrow> int) \<Rightarrow> ('d \<Rightarrow> string) \<Rightarrow> ('d \<Rightarrow> string) \<Rightarrow> 'd::linordered_field schedule \<Rightarrow>
   ('d printed \<times> 'd AnalyticsTracker) option" where
  "example_main to_u64 bi fmt2 fmt4 sc =
     (case handleCTVBidRequest to_u64 (sc_request sc) (sc_elapsed sc) (sc_collect sc) example_ssp of
        None \<Rightarrow> None
      | Some (totals, ssp1) \<Rightarrow>
          let (pod, ssp2) = assembleAdPod fmt2 (sc_pod sc) ssp1
          in (case generateAnalyticsReport to_u64 fmt2 fmt4 (sc_activity sc) (sc_taken sc) (pu_Analytics ssp2) of
                None \<Rightarrow> None
              | Some (metrics, prometheus, a) \<Rightarrow>
                  let (earned, a') = calculateMinerEarnings bi (sc_miner sc) a
                  in Some (\<lparr>pt_bids = totals, pt_pod = pod, pt_metrics = metrics,
                            pt_prometheus = prometheus, pt_earnings = earned\<rparr>, a')))"

subsection \<open>The counters\<close>

text \<open>What the properties below read of the tracker.\<close>

definition at_counters :: "'d AnalyticsTracker \<Rightarrow> u64 \<times> u64 \<times> u64 \<times> u64" where
  "at_counters a = (at_TotalRequests a, at_TotalImpressions a, at_TotalRevenue a, at_FillRate a)"

definition live_series :: "'d AnalyticsTracker \<Rightarrow> bool" where
  "live_series a \<longleftrightarrow> ts_BucketSize (at_TimeSeries a) = 60 * second_ns"

lemma TrackRequest_live:
  assumes "live_series a" "extractPublisherID req = Some p"
  obtains b where "TrackRequest t1 t2 req a = Some b" "live_series b"
    "at_counters b = (at_TotalRequests a + 1, at_TotalImpressions a, at_TotalRevenue a, at_FillRate a)"
  using assms by (cases "length (at_EventStream a) < EventStream_capacity")
    (simp_all add: TrackRequest_def enqueue_request_def updateTimeSeries_def live_series_def at_counters_def second_ns_def
      signed_divide_int_def Let_def)

lemma revenue_fold_counters:
  "at_counters (fold (\<lambda>bid t. t\<lparr>at_TotalRevenue := at_TotalRevenue t + to_u64 (ob_Price bid * 1000000)\<rparr>) bids a) =
    (at_TotalRequests a, at_TotalImpressions a,
     at_TotalRevenue a + sum_list (map (\<lambda>b. to_u64 (ob_Price b * 1000000)) bids), at_FillRate a)"
  "at_TimeSeries (fold (\<lambda>bid t. t\<lparr>at_TotalRevenue := at_TotalRevenue t + to_u64 (ob_Price bid * 1000000)\<rparr>) bids a) =
    at_TimeSeries a"
  by (induction bids arbitrary: a) (simp_all add: at_counters_def algebra_simps)

lemma updateLatencyMetrics_counters:
  "at_counters (updateLatencyMetrics x a) = at_counters a"
  "at_TimeSeries (updateLatencyMetrics x a) = at_TimeSeries a"
  by (simp_all add: updateLatencyMetrics_def at_counters_def Let_def)

lemma TrackResponse_live:
  "live_series (TrackResponse to_u64 (Some r) latency a) = live_series a"
proof (cases "op_SeatBid r")
  case (Cons x xs)
  then show ?thesis
    by (simp add: TrackResponse_def live_series_def updateLatencyMetrics_counters revenue_fold_counters Let_def
        del: fold_simps concat.simps fold_append)
qed (simp add: TrackResponse_def live_series_def updateLatencyMetrics_counters)

lemma TrackResponse_counters:
  "at_counters (TrackResponse to_u64 (Some r) latency a) =
    (if op_SeatBid r = [] then at_counters a
     else (at_TotalRequests a, at_TotalImpressions a + 1,
           at_TotalRevenue a + sum_list (map (\<lambda>b. to_u64 (ob_Price b * 1000000)) (concat (map osb_Bid (op_SeatBid r)))),
           if 0 < at_TotalRequests a then ((at_TotalImpressions a + 1) * 10000) div at_TotalRequests a else at_FillRate a))"
proof (cases "op_SeatBid r")
  case (Cons x xs)
  then show ?thesis
    by (simp add: TrackResponse_def updateLatencyMetrics_counters revenue_fold_counters Let_def
        del: fold_simps concat.simps fold_append)
qed (simp add: TrackResponse_def updateLatencyMetrics_counters)

lemma other_counters:
  "at_counters (processAnalyticsEvents n a) = at_counters a"
  "live_series (processAnalyticsEvents n a) = live_series a"
  "at_counters (TrackPodMetrics i k c a) = at_counters a"
  "live_series (TrackPodMetrics i k c a) = live_series a"
  by (simp_all add: processAnalyticsEvents_def TrackPodMetrics_def at_counters_def live_series_def Let_def)

lemma activity_step_counters:
  assumes "live_series a" "at_counters a = (reqs, imps, money, rate)"
  obtains b where "activity_step to_u64 clock taken i a = Some b" "live_series b"
    "at_counters b =
      (if i mod 100 < 85
       then (reqs + 1, imps + 1, money + to_u64 ((5 + of_nat (i mod 20)) * 1000000),
             if 0 < reqs + 1 then ((imps + 1) * 10000) div (reqs + 1) else rate)
       else (reqs + 1, imps, money, rate))"
proof -
  have live: "live_series (processAnalyticsEvents (taken i) a)"
    using assms(1) by (simp add: other_counters)
  have "extractPublisherID (activity_request i :: 'a OBidRequest) = Some ''pub-123''"
    by (simp add: extractPublisherID_def activity_request_def)
  from TrackRequest_live [OF live this, of "clock (2 * i)" "clock (2 * i + 1)"]
  obtain a1 where a1: "TrackRequest (clock (2 * i)) (clock (2 * i + 1)) (activity_request i)
      (processAnalyticsEvents (taken i) a) = Some a1" "live_series a1"
    "at_counters a1 = (at_TotalRequests a + 1, at_TotalImpressions a, at_TotalRevenue a, at_FillRate a)"
    by (auto simp: processAnalyticsEvents_def)
  then have c: "at_counters a1 = (reqs + 1, imps, money, rate)"
    using assms(2) by (simp add: at_counters_def)
  have f: "at_TotalRequests a1 = reqs + 1" "at_TotalImpressions a1 = imps" "at_TotalRevenue a1 = money"
    "at_FillRate a1 = rate" using c by (simp_all add: at_counters_def)
  have r: "op_SeatBid (activity_response i :: 'a OBidResponse) =
      [\<lparr>osb_Seat = [], osb_Bid = [zero_obid\<lparr>ob_Price := 5 + of_nat (i mod 20)\<rparr>]\<rparr>]"
    by (simp add: activity_response_def)
  show thesis
  proof (cases "i mod 100 < 85")
    case True
    show ?thesis
      by (rule that [of "TrackResponse to_u64 (Some (activity_response i)) (50 * 1000000) a1"])
         (use a1(1,2) True in \<open>simp_all add: activity_step_def TrackResponse_live TrackResponse_counters r f\<close>)
  next
    case False
    show ?thesis by (rule that [of a1]) (use a1 c False in \<open>simp_all add: activity_step_def\<close>)
  qed
qed

text \<open>What a list of rounds adds up to.\<close>

definition filled :: "nat list \<Rightarrow> nat list" where
  "filled is = filter (\<lambda>i. i mod 100 < 85) is"

lemma activity_loop_counters:
  assumes "live_series a" "at_counters a = (reqs, imps, money, rate)"
  shows "\<exists>b rate'. activity_loop to_u64 clock taken is a = Some b \<and> live_series b \<and>
    at_counters b = (reqs + of_nat (length is), imps + of_nat (length (filled is)),
      money + sum_list (map (\<lambda>i. to_u64 ((5 + of_nat (i mod 20)) * 1000000)) (filled is)), rate') \<and>
    (filled is = [] \<longrightarrow> rate' = rate)"
  using assms
proof (induction "is" arbitrary: a reqs imps money rate)
  case Nil
  then show ?case by (simp add: filled_def)
next
  case (Cons i "is")
  from activity_step_counters [OF Cons.prems] obtain b where b:
    "activity_step to_u64 clock taken i a = Some b" "live_series b"
    "at_counters b =
      (if i mod 100 < 85
       then (reqs + 1, imps + 1, money + to_u64 ((5 + of_nat (i mod 20)) * 1000000),
             if 0 < reqs + 1 then ((imps + 1) * 10000) div (reqs + 1) else rate)
       else (reqs + 1, imps, money, rate))"
    by blast
  have "\<exists>rate1. at_counters b = (reqs + 1, imps + of_nat (length (filled [i])),
       money + sum_list (map (\<lambda>i. to_u64 ((5 + of_nat (i mod 20)) * 1000000)) (filled [i])), rate1) \<and>
    (filled [i] = [] \<longrightarrow> rate1 = rate)"
    by (cases "i mod 100 < 85") (simp_all add: b(3) filled_def)
  then obtain rate1 where c: "at_counters b = (reqs + 1, imps + of_nat (length (filled [i])),
       money + sum_list (map (\<lambda>i. to_u64 ((5 + of_nat (i mod 20)) * 1000000)) (filled [i])), rate1)"
    "filled [i] = [] \<longrightarrow> rate1 = rate" by blast
  have f: "filled (i # is) = filled [i] @ filled is" by (simp add: filled_def)
  from Cons.IH [OF b(2) c(1)] b(1) c(2) show ?case
    unfolding f by (auto simp: algebra_simps)
qed

text \<open>The conversion to an unsigned integer is exact on the naturals that fit.\<close>

definition exact_u64 :: "('d::linordered_field \<Rightarrow> u64) \<Rightarrow> bool" where
  "exact_u64 to_u64 \<longleftrightarrow> (\<forall>k < 2 ^ 64. to_u64 (of_nat k) = of_nat k)"

definition round_price :: "nat \<Rightarrow> nat" where "round_price i = (5 + i mod 20) * 1000000"

lemma filled_append: "filled (is @ js) = filled is @ filled js"
  by (simp add: filled_def)

lemma filled_shift: "filled (map (\<lambda>i. i + 100 * n) is) = map (\<lambda>i. i + 100 * n) (filled is)"
  by (simp add: filled_def filter_map comp_def)

lemma round_price_shift: "round_price (i + 100 * n) = round_price i"
proof -
  have "(i + 100 * n) mod 20 = i mod 20" using mod_mult_self1 [of i "5 * n" 20] by (simp add: mult.assoc)
  then show ?thesis by (simp add: round_price_def)
qed

lemma shifted_prices: "map round_price (map (\<lambda>i. i + 100 * n) is) = map round_price is"
  by (simp only: map_map comp_def round_price_shift)

lemma filled_from: "filled [100 * n..<100 * n + k] = map (\<lambda>i. i + 100 * n) (filled [0..<k])"
  using map_add_upt [of "100 * n" k] filled_shift [of n "[0..<k]"] by (simp add: add.commute)

lemma filled_small: "k \<le> 85 \<Longrightarrow> filled [0..<k] = [0..<k]"
  unfolding filled_def by (rule filter_True) simp

lemma filled_hundred: "filled [0..<100] = [0..<85]"
proof -
  have "[0..<100] = [0..<85] @ [85..<100]" using upt_add_eq_append [of 0 85 15] by simp
  moreover have "filled [85..<100] = []" unfolding filled_def by (rule filter_False) auto
  ultimately show ?thesis using filled_small [of 85] by (simp add: filled_append)
qed

lemma round_prices: "sum_list (map round_price [0..<85]) = 1195000000" "sum_list (map round_price [0..<84]) = 1186000000"
proof -
  have "[0..<85] = 0 # 1 # [2..<85]" "[0..<84] = 0 # 1 # [2..<84]"
    using upt_add_eq_append [of 0 2 83] upt_add_eq_append [of 0 2 82] by (simp_all add: numeral_2_eq_2 upt_rec [of 0])
  then show "sum_list (map round_price [0..<85]) = 1195000000" "sum_list (map round_price [0..<84]) = 1186000000"
    by (simp_all add: round_price_def)
qed

lemma filled_hundreds:
  "length (filled [0..<100 * n]) = 85 * n"
  "sum_list (map round_price (filled [0..<100 * n])) = 1195000000 * n"
proof (induction n)
  case (Suc n)
  have s: "[0..<100 * Suc n] = [0..<100 * n] @ [100 * n..<100 * n + 100]"
    using upt_add_eq_append [of 0 "100 * n" 100] by (simp add: add.commute)
  have f: "filled [100 * n..<100 * n + 100] = map (\<lambda>i. i + 100 * n) [0..<85]"
    unfolding filled_from filled_hundred ..
  {
    case 1
    show ?case unfolding s filled_append f using Suc(1) by simp
  next
    case 2
    show ?case unfolding s filled_append f map_append sum_list_append Suc(2) shifted_prices round_prices(1) by simp
  }
qed (simp_all add: filled_def)

lemma simulated_counts:
  "length (filled [0..<984]) = 849"
  "sum_list (map round_price (filled [0..<984])) = 11941000000"
  "filled [985..<1000] = []"
proof -
  have s: "[0..<984] = [0..<100 * 9] @ [100 * 9..<100 * 9 + 84]"
    using upt_add_eq_append [of 0 900 84] by simp
  have f: "filled [100 * 9..<100 * 9 + 84] = map (\<lambda>i. i + 100 * 9) [0..<84]"
    unfolding filled_from by (subst filled_small) simp_all
  show "length (filled [0..<984]) = 849"
    unfolding s filled_append f length_append filled_hundreds by simp
  show "sum_list (map round_price (filled [0..<984])) = 11941000000"
    unfolding s filled_append f map_append sum_list_append filled_hundreds shifted_prices round_prices(2) by simp
  have "\<not> i mod 100 < 85" if "985 \<le> i" "i < 1000" for i :: nat
  proof -
    have "i mod 100 = (i - 900) mod 100" using that mod_mult_self1 [of "i - 900" 9 100] by simp
    with that show ?thesis by simp
  qed
  then show "filled [985..<1000] = []" unfolding filled_def by (intro filter_False) simp
qed

lemma exact_prices:
  assumes "exact_u64 to_u64"
  shows "sum_list (map (\<lambda>i. to_u64 ((5 + of_nat (i mod 20)) * 1000000)) is) =
    of_nat (sum_list (map round_price is))"
proof (induction "is")
  case (Cons i "is")
  have "(5 + i mod 20) * 1000000 < 25 * 1000000" by (intro mult_strict_right_mono) simp_all
  then have "(5 + i mod 20) * 1000000 < 2 ^ 64" by simp
  then have "to_u64 (of_nat ((5 + i mod 20) * 1000000)) = of_nat ((5 + i mod 20) * 1000000)"
    using assms unfolding exact_u64_def by blast
  then show ?case using Cons by (simp add: round_price_def)
qed simp

lemma activity_loop_append:
  "activity_loop to_u64 clock taken (is @ js) a =
    (case activity_loop to_u64 clock taken is a of
       None \<Rightarrow> None | Some b \<Rightarrow> activity_loop to_u64 clock taken js b)"
  by (induction "is" arbitrary: a) (simp_all split: option.splits)

lemma simulateActivity_counters:
  assumes "live_series a" "at_counters a = (reqs, imps, money, rate)" "exact_u64 to_u64" "0 < reqs + 985"
  obtains b where "simulateActivity to_u64 clock taken a = Some b"
    "at_counters b = (reqs + 1000, imps + 850, money + 11950000000, ((imps + 850) * 10000) div (reqs + 985))"
proof -
  let ?loop = "activity_loop to_u64 clock taken"
  from activity_loop_counters [OF assms(1,2), of to_u64 clock taken "[0..<984]"] obtain b1 rate1 where b1:
    "?loop [0..<984] a = Some b1" "live_series b1"
    "at_counters b1 = (reqs + 984, imps + 849, money + 11941000000, rate1)"
    unfolding exact_prices [OF assms(3)] simulated_counts by auto
  have "exact_u64 to_u64 \<Longrightarrow> to_u64 ((5 + of_nat (984 mod 20)) * 1000000) = 9000000"
    unfolding exact_u64_def by (drule spec [of _ "9000000"]) simp
  with assms(3) have p: "to_u64 ((5 + of_nat (984 mod 20)) * 1000000) = 9000000" by blast
  have e: "reqs + 984 + 1 = reqs + 985" "imps + 849 + 1 = imps + 850" "money + 11941000000 + 9000000 = money + 11950000000"
    by (simp_all add: algebra_simps)
  from activity_step_counters [OF b1(2,3), of to_u64 clock taken 984] obtain b2 where b2:
    "activity_step to_u64 clock taken 984 b1 = Some b2" "live_series b2"
    "at_counters b2 = (reqs + 985, imps + 850, money + 11950000000, ((imps + 850) * 10000) div (reqs + 985))"
    unfolding p e using assms(4) by auto
  from activity_loop_counters [OF b2(2,3), of to_u64 clock taken "[985..<1000]"] obtain b where b:
    "?loop [985..<1000] b2 = Some b"
    "at_counters b = (reqs + 1000, imps + 850, money + 11950000000, ((imps + 850) * 10000) div (reqs + 985))"
    unfolding simulated_counts by (auto simp: algebra_simps)
  have "[0..<1000] = [0..<984] @ [984] @ [985..<1000]"
    using upt_add_eq_append [of 0 984 16] upt_rec [of 984 1000] by simp
  then have "simulateActivity to_u64 clock taken a = Some b"
    unfolding simulateActivity_def by (simp only: activity_loop_append b1(1) option.case activity_loop.simps b2(1) b(1))
  from that [OF this b(2)] show thesis .
qed

lemma export_is_long: "500 \<le> length (ExportMetrics fmt2 fmt4 a)"
  by (simp add: ExportMetrics_def prom_metric_def)

subsection \<open>The handled request\<close>

lemma bid_totals_fold:
  "fold (\<lambda>seatBid t. fold (\<lambda>bid (totalBids, totalValue). (totalBids + 1, totalValue + ob_Price bid)) (osb_Bid seatBid) t)
     seats (n, v) =
   (n + length (concat (map osb_Bid seats)), v + sum_list (map ob_Price (concat (map osb_Bid seats))))"
proof -
  have inner: "fold (\<lambda>bid (totalBids, totalValue). (totalBids + 1, totalValue + ob_Price bid)) bids (n, v) =
      (n + length bids, v + sum_list (map ob_Price bids))" for bids :: "'a OBid list" and n :: nat and v :: 'a
    by (induction bids arbitrary: n v) (simp_all add: algebra_simps)
  show ?thesis
  proof (induction seats arbitrary: n v)
    case (Cons seat seats)
    show ?case unfolding fold_simps inner Cons.IH by (simp add: algebra_simps)
  qed simp
qed

lemma example_dsps:
  "pu_DSPConnections example_ssp =
    [''dsp-ctv-premium'' \<mapsto> premium_dsp, ''dsp-programmatic'' \<mapsto> programmatic_dsp, ''dsp-performance'' \<mapsto> performance_dsp]"
  by (simp add: example_ssp_def configureDSPs_def AddDSP_def NewPublicaSSP_def premium_dsp_def programmatic_dsp_def
      performance_dsp_def)

lemma example_dsp_count: "card (dom (pu_DSPConnections (example_ssp :: 'd::linordered_field PublicaSSP))) = 3"
  "finite (dom (pu_DSPConnections (example_ssp :: 'd::linordered_field PublicaSSP)))"
  by (simp_all add: example_dsps card_insert_if)

text \<open>The collection the example waits for.\<close>

definition example_collected :: "time \<Rightarrow> 'd::linordered_field route \<Rightarrow> bool" where
  "example_collected now s \<longleftrightarrow>
     rt_reach example_ssp (enrichRequest (ctv_bid_request now) example_ssp) s \<and> rt_left s = 0"

lemma example_responses:
  assumes "example_collected now s"
  shows "length (rt_responses s) = (if rt_fired s then 2 else 3)"
    "\<forall>r\<in>set (rt_responses s). \<exists>b. concat (map osb_Bid (op_SeatBid r)) = [b] \<and> ob_Price b = 11 / 2"
proof -
  let ?request = "enrichRequest (ctv_bid_request now) example_ssp"
  have inv: "rt_inv example_ssp ?request s" "rt_left s = 0"
    using assms rt_reach_inv example_dsp_count(2) by (auto simp: example_collected_def)
  then show "length (rt_responses s) = (if rt_fired s then 2 else 3)"
    by (auto simp: rt_inv_def example_dsp_count(1) split: if_splits)
  show "\<forall>r\<in>set (rt_responses s). \<exists>b. concat (map osb_Bid (op_SeatBid r)) = [b] \<and> ob_Price b = 11 / 2"
  proof
    fix r assume "r \<in> set (rt_responses s)"
    with inv(1) have "\<exists>d\<in>ran (pu_DSPConnections example_ssp). \<exists>t. sendToDSP t d ?request = Some r"
      unfolding rt_inv_def by simp
    then obtain d t where "sendToDSP t d ?request = Some r" by blast
    then show "\<exists>b. concat (map osb_Bid (op_SeatBid r)) = [b] \<and> ob_Price b = 11 / 2"
      by (auto simp: sendToDSP_def split: if_splits)
  qed
qed

lemma one_bid_each:
  assumes "\<forall>r\<in>set rs. \<exists>b. concat (map osb_Bid (op_SeatBid r)) = [b] \<and> ob_Price b = 11 / 2"
  shows "map ob_Price (pu_runAuction rs) = replicate (length rs) (11 / 2)"
  using assms by (induction rs) (auto simp: pu_runAuction_def)

lemma example_ssp_tracker:
  "live_series (pu_Analytics example_ssp)" "at_counters (pu_Analytics example_ssp) = (0, 0, 0, 0)"
  "pu_ReportEndpoint example_ssp = ''https://analytics.publica.com/v1/events''"
  by (simp_all add: example_ssp_def configureDSPs_def AddDSP_def NewPublicaSSP_def NewAnalyticsTracker_def
      live_series_def at_counters_def)

lemma example_ssp_zero:
  "at_TotalRequests (pu_Analytics example_ssp) = 0" "at_TotalImpressions (pu_Analytics example_ssp) = 0"
  "at_TotalRevenue (pu_Analytics example_ssp) = 0" "at_FillRate (pu_Analytics example_ssp) = 0"
  by (simp_all add: example_ssp_def configureDSPs_def AddDSP_def NewPublicaSSP_def NewAnalyticsTracker_def)

lemma exact_sum:
  assumes "exact_u64 to_u64" "map ob_Price bids = replicate n (11 / 2)"
  shows "sum_list (map (\<lambda>b. to_u64 (ob_Price b * 1000000)) bids) = of_nat n * 5500000"
proof -
  have "to_u64 (11 / 2 * 1000000) = 5500000"
    using assms(1) [unfolded exact_u64_def, rule_format, of 5500000] by simp
  moreover have "map (\<lambda>b. to_u64 (ob_Price b * 1000000)) bids = map (\<lambda>x. to_u64 (x * 1000000)) (map ob_Price bids)"
    by simp
  ultimately show ?thesis unfolding assms(2) by (simp add: sum_list_replicate)
qed

lemma handle_example:
  fixes s :: "'a::linordered_field route"
  assumes "example_collected (clock 0) s" "exact_u64 to_u64"
  obtains ssp where "handleCTVBidRequest to_u64 clock elapsed s example_ssp =
      Some (Some (length (rt_responses s), of_nat (length (rt_responses s)) * (11 / 2)), ssp)"
    "live_series (pu_Analytics ssp)"
    "at_counters (pu_Analytics ssp) = (1, 1, of_nat (length (rt_responses s)) * 5500000, 10000)"
proof -
  let ?request = "ctv_bid_request (clock 0) :: 'a OBidRequest" and ?n = "length (rt_responses s)"
  let ?bids = "pu_runAuction (rt_responses s)"
  have prices: "map ob_Price ?bids = replicate ?n (11 / 2)"
    by (rule one_bid_each [OF example_responses(2) [OF assms(1)]])
  then have len: "length ?bids = ?n" by (metis length_map length_replicate)
  have "extractPublisherID ?request = Some ''pub-123456''"
    by (simp add: extractPublisherID_def ctv_bid_request_def)
  from TrackRequest_live [OF example_ssp_tracker(1) this, of "clock 1" "clock 2"]
  obtain a where a: "TrackRequest (clock 1) (clock 2) ?request (pu_Analytics example_ssp) = Some a" "live_series a"
    and c: "at_counters a = (at_TotalRequests (pu_Analytics (example_ssp :: 'a PublicaSSP)) + 1,
      at_TotalImpressions (pu_Analytics (example_ssp :: 'a PublicaSSP)),
      at_TotalRevenue (pu_Analytics (example_ssp :: 'a PublicaSSP)),
      at_FillRate (pu_Analytics (example_ssp :: 'a PublicaSSP)))" .
  let ?p = "example_ssp\<lparr>pu_Analytics := a\<rparr>"
  let ?resp = "assemblePods (clock 3) ?bids (enrichRequest ?request ?p)"
  have bids: "concat (map osb_Bid (op_SeatBid ?resp)) = ?bids"
    using pod_loop_concat [of ?bids 0] by (simp add: assemblePods_def)
  have "0 < ?n" using example_responses(1) [OF assms(1)] by simp
  with len bids have seats: "op_SeatBid ?resp \<noteq> []" by auto
  have totals: "bid_totals ?resp = Some (?n, of_nat ?n * (11 / 2))"
    using seats unfolding bid_totals_def bid_totals_fold bids by (simp add: len prices sum_list_replicate)
  have f: "at_TotalRequests a = 1" "at_TotalImpressions a = 0" "at_TotalRevenue a = 0"
    using c by (simp_all add: at_counters_def example_ssp_zero)
  show thesis
  proof (rule that [of "?p\<lparr>pu_Analytics := TrackResponse to_u64 (Some ?resp) elapsed a\<rparr>"])
    show "handleCTVBidRequest to_u64 clock elapsed s example_ssp =
        Some (Some (?n, of_nat ?n * (11 / 2)), ?p\<lparr>pu_Analytics := TrackResponse to_u64 (Some ?resp) elapsed a\<rparr>)"
      unfolding handleCTVBidRequest_def HandleBidRequest_def a(1) Let_def by (simp add: totals)
  qed (use a(2) seats in \<open>simp_all add: TrackResponse_live TrackResponse_counters bids f exact_sum [OF assms(2) prices]\<close>)
qed

lemma TrackImpression_counters: "at_counters (TrackImpression bi now i p m price a) = at_counters a"
  by (simp add: TrackImpression_def updateMinerMetrics_def at_counters_def Let_def split: option.splits)

lemma assembleAdPod_result:
  "fst (fst (assembleAdPod fmt2 now ssp)) = 6"
  "snd (snd (fst (assembleAdPod fmt2 now ssp))) = 113"
  "pu_Analytics (snd (assembleAdPod fmt2 now ssp)) =
     TrackPodMetrics (''pod-'' @ show_nat (nat (unix now))) 6 True (pu_Analytics ssp)"
proof -
  have l: "length (sample_bids :: 'a OBid list) = 6" by (simp add: sample_bids_def)
  then show "fst (fst (assembleAdPod fmt2 now ssp)) = 6"
    by (simp add: assembleAdPod_def GenerateVAST_def Let_def del: upt_rec_numeral)
  have "map ob_Price sample_bids = [51 / 2, 22, 20, 37 / 2, 15, 12 :: 'a]"
    by (simp add: sample_bids_def pod_bid_def)
  moreover have "fold (\<lambda>bid total. total + ob_Price bid) bids v = v + sum_list (map ob_Price bids)"
    for bids :: "'a OBid list" and v by (induction bids arbitrary: v) (simp_all add: algebra_simps)
  ultimately show "snd (snd (fst (assembleAdPod fmt2 now ssp))) = 113"
    by (simp add: assembleAdPod_def calculatePodValue_def Let_def)
  show "pu_Analytics (snd (assembleAdPod fmt2 now ssp)) =
      TrackPodMetrics (''pod-'' @ show_nat (nat (unix now))) 6 True (pu_Analytics ssp)"
    by (simp add: assembleAdPod_def l Let_def)
qed

text \<open>C40: What the example prints: the program runs to its end without a panic, whatever the clock,
  the pace of the event goroutine and the end of the collection. It prints two or three bids at
  5.50 and never asks the floor, the six ads of the pod at 113, 1001 requests, 851 impressions,
  the revenue of all bids, and a fill rate of 86.30, which the program prints with a percent sign
  after multiplying it by 100.\<close>

theorem example_report:
  assumes "example_collected (sc_request sc 0) (sc_collect sc)" "exact_u64 to_u64"
  shows "\<exists>n out a. n = (if rt_fired (sc_collect sc) then 2 else 3) \<and>
    example_main to_u64 bi fmt2 fmt4 sc = Some (out, a) \<and>
    pt_bids out = Some (n, of_nat n * (11 / 2)) \<and>
    fst (pt_pod out) = 6 \<and> snd (snd (pt_pod out)) = 113 \<and>
    pt_metrics out ''total_requests'' = Some (FInt 1001) \<and>
    pt_metrics out ''total_impressions'' = Some (FInt 851) \<and>
    pt_metrics out ''total_revenue'' = Some (FVal (VNum (11950 + of_nat n * (11 / 2)))) \<and>
    pt_metrics out ''fill_rate'' = Some (FVal (VNum (8630 / 100))) \<and>
    length (pt_prometheus out) = 503"
proof -
  let ?n = "length (rt_responses (sc_collect sc))"
  from handle_example [where clock = "sc_request sc", OF assms] obtain ssp where h:
    "handleCTVBidRequest to_u64 (sc_request sc) (sc_elapsed sc) (sc_collect sc) example_ssp =
      Some (Some (?n, of_nat ?n * (11 / 2)), ssp)"
    "live_series (pu_Analytics ssp)" "at_counters (pu_Analytics ssp) = (1, 1, of_nat ?n * 5500000, 10000)" .
  obtain pod ssp2 where pod: "assembleAdPod fmt2 (sc_pod sc) ssp = (pod, ssp2)" by fastforce
  have p: "fst pod = 6" "snd (snd pod) = 113" "live_series (pu_Analytics ssp2)"
    "at_counters (pu_Analytics ssp2) = (1, 1, of_nat ?n * 5500000, 10000)"
    using assembleAdPod_result [of fmt2 "sc_pod sc" ssp] h(2,3) unfolding pod
    by (simp_all add: other_counters)
  have "0 < (1 :: u64) + 985" by simp
  from simulateActivity_counters [OF p(3,4) assms(2) this, of "sc_activity sc" "sc_taken sc"] obtain a where a:
    "simulateActivity to_u64 (sc_activity sc) (sc_taken sc) (pu_Analytics ssp2) = Some a"
    "at_counters a = (1001, 851, of_nat ?n * 5500000 + 11950000000, 8630)"
    by auto
  let ?metrics = "GetRealTimeMetrics a"
  let ?text = "take 500 (ExportMetrics fmt2 fmt4 a) @ ''...''"
  have g: "generateAnalyticsReport to_u64 fmt2 fmt4 (sc_activity sc) (sc_taken sc) (pu_Analytics ssp2) =
      Some (?metrics, ?text, a)"
    using export_is_long [of fmt2 fmt4 a] by (simp add: generateAnalyticsReport_def a(1) Let_def)
  obtain earned a' where e: "calculateMinerEarnings bi (sc_miner sc) a = (earned, a')" by fastforce
  have n: "?n = (if rt_fired (sc_collect sc) then 2 else 3)" by (rule example_responses(1) [OF assms(1)])
  have "unat (of_nat ?n * 5500000 + 11950000000 :: u64) = ?n * 5500000 + 11950000000" by (simp add: n)
  then have r: "dec_word (at_TotalRevenue a) / 1000000 = 11950 + of_nat ?n * (11 / 2)"
    using a(2) by (simp add: dec_word_def at_counters_def n)
  have "example_main to_u64 bi fmt2 fmt4 sc = Some (\<lparr>pt_bids = Some (?n, of_nat ?n * (11 / 2)), pt_pod = pod,
      pt_metrics = ?metrics, pt_prometheus = ?text, pt_earnings = earned\<rparr>, a')"
    by (simp add: example_main_def h(1) pod g e)
  then show ?thesis
    using export_is_long [of fmt2 fmt4 a] a(2) r p(1,2)
    by (intro exI [of _ ?n]) (simp add: n GetRealTimeMetrics_def at_counters_def dec_word_def)
qed

text \<open>A DSP whose answer is received at once.\<close>

lemma answer_and_receive:
  assumes "rt_reach p request s" "\<not> rt_panic s" "rt_chan s = []" "rt_left s = Suc n" "i \<in> rt_pending s"
    and "pu_DSPConnections p i = Some d" "sendToDSP now d request = Some resp"
  shows "rt_reach p request (s\<lparr>rt_pending := rt_pending s - {i}, rt_responses := rt_responses s @ [resp], rt_left := n\<rparr>)"
proof -
  let ?t = "s\<lparr>rt_pending := rt_pending s - {i}, rt_chan := rt_chan s @ [resp]\<rparr>"
  have a: "rt_step p request s ?t" by (rule rt_answer [OF assms(2,5,6,7)])
  have "rt_step p request ?t (?t\<lparr>rt_chan := [], rt_responses := rt_responses ?t @ [resp], rt_left := rt_left ?t - 1\<rparr>)"
    by (rule rt_receive) (simp_all add: assms(2-4))
  moreover have "?t\<lparr>rt_chan := [], rt_responses := rt_responses ?t @ [resp], rt_left := rt_left ?t - 1\<rparr> =
      s\<lparr>rt_pending := rt_pending s - {i}, rt_responses := rt_responses s @ [resp], rt_left := n\<rparr>"
    using assms(3,4) by (cases s) simp
  ultimately show ?thesis
    using assms(1) a unfolding rt_reach_def by (metis rtranclp.rtrancl_into_rtrancl)
qed

lemma example_collection_ends:
  "\<exists>s :: rat route. example_collected now s \<and> \<not> rt_fired s"
proof -
  let ?p = "example_ssp :: rat PublicaSSP"
  let ?request = "enrichRequest (ctv_bid_request now) ?p"
  have sent: "\<exists>resp. sendToDSP 0 d ?request = Some resp" for d :: "rat DSPConfig"
    by (simp add: sendToDSP_def enrichRequest_def ctv_bid_request_def)
  obtain r1 r2 r3 where r: "sendToDSP 0 premium_dsp ?request = Some r1"
    "sendToDSP 0 programmatic_dsp ?request = Some r2" "sendToDSP 0 performance_dsp ?request = Some r3"
    using sent by blast
  let ?s0 = "rt_init ?p"
  let ?s1 = "?s0\<lparr>rt_pending := rt_pending ?s0 - {''dsp-ctv-premium''}, rt_responses := rt_responses ?s0 @ [r1], rt_left := 2\<rparr>"
  let ?s2 = "?s1\<lparr>rt_pending := rt_pending ?s1 - {''dsp-programmatic''}, rt_responses := rt_responses ?s1 @ [r2], rt_left := 1\<rparr>"
  let ?s3 = "?s2\<lparr>rt_pending := rt_pending ?s2 - {''dsp-performance''}, rt_responses := rt_responses ?s2 @ [r3], rt_left := 0\<rparr>"
  have "rt_reach ?p ?request ?s0" by (simp add: rt_reach_def)
  from answer_and_receive [OF this _ _ _ _ _ r(1), of 2 "''dsp-ctv-premium''"]
  have s1: "rt_reach ?p ?request ?s1" by (simp add: rt_init_def example_dsps card_insert_if)
  from answer_and_receive [OF s1 _ _ _ _ _ r(2), of 1 "''dsp-programmatic''"]
  have s2: "rt_reach ?p ?request ?s2" by (simp add: rt_init_def example_dsps)
  from answer_and_receive [OF s2 _ _ _ _ _ r(3), of 0 "''dsp-performance''"]
  have "rt_reach ?p ?request ?s3" by (simp add: rt_init_def example_dsps)
  then show ?thesis by (intro exI [of _ ?s3]) (simp add: example_collected_def rt_init_def)
qed

definition floor_u64 :: "rat \<Rightarrow> u64" where "floor_u64 x = of_int \<lfloor>x\<rfloor>"

lemma floor_u64_exact: "exact_u64 floor_u64"
  by (simp add: exact_u64_def floor_u64_def)

theorem example_report_witness:
  "\<exists>sc out a. example_main floor_u64 floor (\<lambda>x. ''0.00'') (\<lambda>x. ''0.0000'') sc = Some (out, a) \<and>
    pt_bids out = Some (3, 33 / 2) \<and> pt_metrics out ''fill_rate'' = Some (FVal (VNum (8630 / 100)))"
proof -
  obtain s :: "rat route" where s: "example_collected 0 s" "\<not> rt_fired s"
    using example_collection_ends by blast
  let ?sc = "\<lparr>sc_request = (\<lambda>_. 0), sc_elapsed = 0, sc_collect = s, sc_pod = 0, sc_activity = (\<lambda>_. 0),
    sc_taken = (\<lambda>_. 0), sc_miner = (\<lambda>_. 0)\<rparr>"
  from example_report [OF _ floor_u64_exact, of ?sc floor "\<lambda>x. ''0.00''" "\<lambda>x. ''0.0000''"] s
  obtain out a where "example_main floor_u64 floor (\<lambda>x. ''0.00'') (\<lambda>x. ''0.0000'') ?sc = Some (out, a)"
    "pt_bids out = Some (3, 33 / 2)" "pt_metrics out ''fill_rate'' = Some (FVal (VNum (8630 / 100)))"
    by auto
  then show ?thesis by blast
qed

subsection \<open>The miner\<close>

text \<open>What a miner is known to have served and earned.\<close>

definition miner_account :: "string \<Rightarrow> 'd AnalyticsTracker \<Rightarrow> u64 \<times> int" where
  "miner_account m a = (case at_MinerMetrics a m of None \<Rightarrow> (0, 0) | Some s \<Rightarrow> (ms_TotalServed s, ms_Earnings s))"

lemma TrackImpression_account:
  assumes "m \<noteq> []" "0 < price" "miner_account m a = (k, v)"
  shows "miner_account m (TrackImpression bi now i p m price a) = (k + 1, v + bi (price * (1 / 10)))"
  using assms by (auto simp: miner_account_def TrackImpression_frame(5) updateMinerMetrics_def impression_event_def Let_def
      split: option.splits)

lemma impressions_account:
  assumes "m \<noteq> []" "0 < price" "miner_account m a = (k, v)"
  shows "miner_account m (fold (\<lambda>i. TrackImpression bi (clock i) (name i) p m price) is a) =
    (k + of_nat (length is), v + int (length is) * bi (price * (1 / 10)))"
  using assms(3)
proof (induction "is" arbitrary: a k v)
  case (Cons i "is")
  from Cons.IH [OF TrackImpression_account [OF assms(1,2) Cons.prems]] show ?case
    by (simp add: algebra_simps)
qed simp

text \<open>The earnings the example prints are not the ones of the tracker: it prints five cents a
  day for its hundred impressions, while the tracker, whose conversion to an integer drops the
  fraction of the fifty cents each impression earns, counts the hundred impressions and adds
  nothing to what the miner has earned.\<close>

theorem example_miner_earns_nothing:
  assumes "\<And>x. 0 \<le> x \<Longrightarrow> bi x = \<lfloor>x\<rfloor>" "miner_account ''miner-home-123'' a = (k, v)"
  shows "\<exists>a'. calculateMinerEarnings bi clock a = (\<lparr>er_Daily = 1 / 20, er_Monthly = 3 / 2, er_Annual = 18\<rparr>, a') \<and>
    miner_account ''miner-home-123'' a' = (k + 100, v)"
proof -
  have "bi (5 * (1 / 10)) = 0" by (simp add: assms(1) floor_eq_iff)
  moreover have "''miner-home-123'' \<noteq> []" "0 < (5 :: 'a)" by simp_all
  note impressions_account [OF this assms(2), of bi clock "\<lambda>i. ''imp-'' @ show_nat i" "''pub-123''" "[0..<100]"]
  ultimately show ?thesis by (simp add: calculateMinerEarnings_def del: upt_rec_numeral)
qed

theorem example_miner_earns_nothing_witness:
  "\<exists>a'. calculateMinerEarnings floor (\<lambda>_. 0) (NewAnalyticsTracker :: rat AnalyticsTracker) =
      (\<lparr>er_Daily = 1 / 20, er_Monthly = 3 / 2, er_Annual = 18\<rparr>, a') \<and>
    miner_account ''miner-home-123'' a' = (0 + 100, 0)"
  by (rule example_miner_earns_nothing) (simp_all add: miner_account_def NewAnalyticsTracker_def)

end
