(* ===== verification/Spec2Isabelle.thy ===== *)
theory Spec2Isabelle
  imports Frequency Auction Enclave Budget Blocklace Hpke DataAvail Halo2Circuits Halo2Auction ProofCircuits
    OrderBook CgoEngine Ledger Escrow Ausd AdSlot Fhe DspClient Publica Analytics MockStorage FdbStorage FdbMap FdbWatch
    Hashing Sdk Examples
begin

text \<open>
  A model of ADX, an advertising exchange written in Go, and what makes it correct.

  \<^bold>\<open>The program\<close>

  The repository holds several layers that are meant to work together. The protocol layer runs
  sealed-bid auctions (\<^verbatim>\<open>auction\<close>, and in an enclave \<^verbatim>\<open>tee\<close>), caps the frequency of ads
  (\<^verbatim>\<open>core\<close>), keeps advertiser budgets (\<^verbatim>\<open>settlement\<close>), proves all three with circuits
  (\<^verbatim>\<open>proof\<close>, \<^verbatim>\<open>proof/halo2\<close>), orders the resulting headers in a DAG
  (\<^verbatim>\<open>blocklace\<close>) and stores encrypted blobs (\<^verbatim>\<open>da\<close> over \<^verbatim>\<open>crypto\<close>). The
  settlement layer moves AUSD: an asset ledger and a matching engine (\<^verbatim>\<open>pkg/dex\<close>), an escrow
  and ad slots on a virtual machine state (\<^verbatim>\<open>pkg/chainvm\<close>), and the settlement of won
  impressions on top of the escrow (\<^verbatim>\<open>pkg/settlement\<close>). The serving layer takes bid requests:
  the exchange and its DSP clients (\<^verbatim>\<open>pkg/rtb\<close>), the SSP integration (\<^verbatim>\<open>pkg/publica\<close>)
  with the analytics tracker (\<^verbatim>\<open>pkg/analytics\<close>), video templates (\<^verbatim>\<open>pkg/vast\<close>), private
  bids (\<^verbatim>\<open>pkg/fhe\<close>), storage back ends (\<^verbatim>\<open>pkg/storage\<close>) and home miners
  (\<^verbatim>\<open>pkg/miner\<close>). The commands (\<^verbatim>\<open>cmd\<close>), the client (\<^verbatim>\<open>sdk/go\<close>) and an example put the
  parts together.

  \<^bold>\<open>The theories\<close>

  Library:
  \<^item> \<open>Prelude\<close>: machine integers, byte layouts, maps and lists shared by all; the collections
    \<open>adx_bytes\<close>, \<open>adx_frame\<close> and \<open>adx_inv\<close>; the locales \<open>object_invariant\<close> and
    \<open>object_relation\<close> for an object under a sequence of calls, interpreted by nearly every
    component with a state.
  \<^item> \<open>BigInt\<close>: what the proof packages use of \<^verbatim>\<open>math/big\<close>. \<open>GoHeap\<close>: \<^verbatim>\<open>container/heap\<close>
    as a refinement of a priority queue (\<open>heap_interface\<close>, \<open>priority_queue\<close>).
  \<^item> \<open>SecondPrice\<close>: the contract of a second-price auction; \<open>ProofSystem\<close>: the contract of a
    proving circuit; \<open>Paillier\<close>: the cryptosystem as number theory; \<open>OpenRtb\<close>: the messages.

  Protocol layer:
  \<^item> \<open>Ids\<close> (\<^verbatim>\<open>pkg/ids/id.go\<close>), \<open>Headers\<close> (\<^verbatim>\<open>core/headers.go\<close>), \<open>Hashing\<close>
    (\<^verbatim>\<open>pkg/crypto/hashing/hash.go\<close>).
  \<^item> \<open>Auction\<close> (\<^verbatim>\<open>auction/auction.go\<close>): \<open>RunAuction\<close> and its parts; the outcome
    specification, truthfulness through \<open>second_price\<close>. \<open>Enclave\<close> (\<^verbatim>\<open>tee/enclave.go\<close>):
    attestation and the one-pass auction, equal to the other one.
  \<^item> \<open>Frequency\<close> (\<^verbatim>\<open>core/frequency.go\<close>): the cap over any sequence of calls; token memory.
  \<^item> \<open>Budget\<close> (\<^verbatim>\<open>settlement/budget.go\<close>): books that balance, no overspending.
  \<^item> \<open>Halo2Circuits\<close>, \<open>Halo2Auction\<close>, \<open>ProofCircuits\<close> (\<^verbatim>\<open>proof/halo2/circuits.go\<close>,
    \<^verbatim>\<open>auction/halo2_auction.go\<close>, \<^verbatim>\<open>proof/circuits.go\<close>): the circuits as interpretations of
    \<open>proof_system\<close>, what exactly the verifiers accept, the managers that use them.
  \<^item> \<open>Blocklace\<close> (\<^verbatim>\<open>blocklace/dag.go\<close>): the vertices in a store by identifier, delivery,
    equivocation and the miner; the order is total, extends the DAG and only grows.
  \<^item> \<open>Hpke\<close> (\<^verbatim>\<open>crypto/hpke.go\<close>) and \<open>DataAvail\<close> (\<^verbatim>\<open>da/storage.go\<close>): envelopes and blobs,
    readable by each recipient.

  Settlement layer:
  \<^item> \<open>Ledger\<close> (\<^verbatim>\<open>pkg/dex/engine_old.go\<close>): transfers conserve every asset.
  \<^item> \<open>OrderBook\<close> (\<^verbatim>\<open>pkg/dex/engine.go\<close>, \<^verbatim>\<open>engine_pure_go.go\<close>): books on heaps, batch
    auctions that clear. \<open>CppWrapper\<close> (\<^verbatim>\<open>pkg/dex/adx_engine_wrapper.cpp\<close>) and \<open>CgoEngine\<close>
    (\<^verbatim>\<open>pkg/dex/engine_cgo.go\<close>): the two sides of the border to the C++ engine, with a ledger
    of the memory that crosses it.
  \<^item> \<open>Escrow\<close> (\<^verbatim>\<open>pkg/chainvm/escrow_rpc.go\<close>): books and payments of every reachable escrow.
    \<open>Ausd\<close> (\<^verbatim>\<open>pkg/settlement/ausd_settlement.go\<close>): every run is a run of the escrow.
    \<open>AdSlot\<close> (\<^verbatim>\<open>pkg/chainvm/adslot_rpc.go\<close>): supply, prices and swaps of slots.

  Serving layer:
  \<^item> \<open>Rtb\<close> (\<^verbatim>\<open>pkg/rtb/openrtb.go\<close>): the collection of bids is the step relation \<open>cb_step\<close> of
    goroutines, a channel and a timer; the first-price auction, rate limits, metrics.
    \<open>DspClient\<close> (\<^verbatim>\<open>pkg/rtb/dsp_client.go\<close>): the five clients behind one interface.
  \<^item> \<open>Analytics\<close> (\<^verbatim>\<open>pkg/analytics/tracker.go\<close>), \<open>Vast\<close> (\<^verbatim>\<open>pkg/vast/vast.go\<close>),
    \<open>Publica\<close> (\<^verbatim>\<open>pkg/publica/ssp_integration.go\<close>), with the routing as \<open>rt_step\<close>.
  \<^item> \<open>Fhe\<close> (\<^verbatim>\<open>pkg/fhe/privacy.go\<close>) over \<open>Paillier\<close>.
  \<^item> \<open>MockStorage\<close> (\<^verbatim>\<open>pkg/storage/mock_backend.go\<close>) with its background writer; \<open>FdbStorage\<close>,
    \<open>FdbMap\<close> and \<open>FdbWatch\<close> (\<^verbatim>\<open>pkg/storage/fdb_backend.go\<close>) over the laws of a key-value
    store: counters and indexes, the refinement of an abstract map, the watch of a key.
  \<^item> \<open>Miner\<close> (\<^verbatim>\<open>pkg/miner/home_miner.go\<close>), \<open>Commands\<close> (\<^verbatim>\<open>cmd\<close>), \<open>Sdk\<close> (\<^verbatim>\<open>sdk/go/client.go\<close>)
    and \<open>Examples\<close> (\<^verbatim>\<open>examples/publica_integration.go\<close>): here the properties span components,
    the client against the handlers of the exchange, and one program over the SSP integration,
    the tracker and the templates.

  \<^bold>\<open>How the code is modelled\<close>

  A struct is a record with the fields of the struct under a short prefix, a map a partial
  function, a slice a list; where aliasing matters (vertices, token memory, C memory) there is a
  store or a ledger. A method takes the state and returns the result and the new state; an error
  is the left side of a sum, a panic an error of its own or \<open>None\<close>. Unsigned integers are words
  of their width, and sums that can wrap do; \<open>int64\<close> times and durations are integers, with the
  wrap-around written out where the code can reach it; decimals and \<open>float64\<close> are elements of an
  ordered field, without rounding, infinities or NaN, with the conversions that lose something
  (\<open>InexactFloat64\<close>, \<open>BigInt\<close>, \<open>uint64\<close>) as parameters; the exception is the viewability score of
  a delivery proof, on which NaN passes the checks, so that it is a \<open>float64\<close> with NaN in \<open>Ausd\<close>. Locks make methods atomic; what runs beside them (goroutines, timers, channels,
  the garbage collector, other clients of a database) is a step relation or a list of
  operations, and its properties hold of all reachable states. Readings of the clock and random
  draws are arguments.

  Code outside the repository is a parameter with named hypotheses that state its documentation:
  hash functions, curves and ciphers, \<^verbatim>\<open>sort.Slice\<close> (\<open>slice_sort\<close>), JSON, HTTP, the
  FoundationDB binding (\<open>kv_laws\<close>, \<open>tuple_laws\<close>, \<open>range_laws\<close>), subprocesses,
  and what the repository uses and declares nowhere (\<^verbatim>\<open>chainvm.VMState\<close>,
  \<^verbatim>\<open>hashing.ComputeHash256\<close>, the asset registry of the slots, the types of storage events,
  the class of \<^verbatim>\<open>adx_matching_engine.h\<close> that the C wrapper calls).
  Every property with a hypothesis has a witness, named after it, on a concrete instance.

  \<^bold>\<open>Loops and bounds\<close>

  Loops are recursive functions with a termination proof. Delivery in the DAG follows stored
  identifiers, so it runs on fuel, one more than the number of vertices (\<open>deliver_fuel\<close>); that
  this is enough, because every call deeper delivers another vertex, is \<open>AddHeader_returns\<close>. The
  matching loop ends because every round removes volume. Bounds that the properties need, such as
  totals below \<open>2 ^ 64\<close>, are stated as hypotheses, and where the code can cross them a lemma shows
  what happens then.

  \<^bold>\<open>Not modelled\<close>

  \<^item> \<^verbatim>\<open>pkg/log/log.go\<close>, which hands every call to the zap library, and all logging.
  \<^item> The engines in C++, CUDA and Metal (\<^verbatim>\<open>adx_matching_engine.cpp\<close>, \<^verbatim>\<open>_cpu.cpp\<close>,
    \<^verbatim>\<open>_gpu.cu\<close> and \<^verbatim>\<open>_metal.mm\<close> under \<^verbatim>\<open>pkg/dex\<close>): they are not Go, their header
    \<^verbatim>\<open>adx_matching_engine.h\<close> is not in the repository, and the class of the first one has
    integer identifiers and lacks methods that the wrapper calls, so it is not the class behind
    the wrapper. The benchmark of the Go engine.
  \<^item> \<open>SSPConnection\<close> and \<open>DailyMetrics\<close> of \<^verbatim>\<open>pkg/rtb\<close>, types without operations or users, and the
    fields of library types that nothing reads.
  \<^item> Parsing of command lines, the settings of HTTP clients and servers (idle connections,
    compression), and the empty \<open>connectToExchange\<close> of the miner.
  \<^item> Tests, scripts and documents.
\<close>

end
